(* ===== verification/Prelude.thy ===== *)
theory Prelude
  imports Main "HOL-Library.AList" "HOL-Library.List_Lexorder"
begin

text \<open>
  What every component of the model shares: Python strings, dictionaries, exceptions as
  values, and the generic lemmas about them.

  A Python string is a list of Unicode code points (\<open>pystr\<close>), because \<open>len\<close>, slices and
  comparisons of the code count code points and the program's texts are partly Chinese.
  \<open>py ''abc''\<close> is an ASCII literal; a Chinese literal is written as its code points.
  A dictionary is an association list in insertion order with distinct keys; writing a key
  is \<open>AList.update\<close> (an existing key keeps its place), deleting one is \<open>AList.delete\<close>.
\<close>

named_theorems dict_simps \<open>facts about dictionaries as association lists\<close>
named_theorems result_simps \<open>facts about results that may be exceptions\<close>

section \<open>Strings\<close>

type_synonym pystr = "nat list"

definition py :: "string \<Rightarrow> pystr" where
  "py s = map of_char s"

lemma py_eq_iff [simp]: "py s = py t \<longleftrightarrow> s = t"
  unfolding py_def by (rule inj_map_eq_map) (simp add: inj_on_def)

lemma py_Nil [simp]: "py [] = []"
  by (simp add: py_def)

lemma py_eq_Nil [simp]: "py s = [] \<longleftrightarrow> s = []" "[] = py s \<longleftrightarrow> s = []"
  by (simp_all add: py_def)

lemma length_py [simp]: "length (py s) = length s"
  by (simp add: py_def)

text \<open>The code points for which \<open>str.isspace\<close> holds: what \<open>str.strip\<close> and \<open>str.split\<close> remove.\<close>

definition py_space :: "nat \<Rightarrow> bool" where
  "py_space c \<longleftrightarrow> (9 \<le> c \<and> c \<le> 13) \<or> (28 \<le> c \<and> c \<le> 32) \<or> c = 133 \<or> c = 160 \<or> c = 5760
     \<or> (8192 \<le> c \<and> c \<le> 8202) \<or> c = 8232 \<or> c = 8233 \<or> c = 8239 \<or> c = 8287 \<or> c = 12288"

definition lstrip :: "pystr \<Rightarrow> pystr" where
  "lstrip s = dropWhile py_space s"

definition rstrip :: "pystr \<Rightarrow> pystr" where
  "rstrip s = rev (dropWhile py_space (rev s))"

definition strip :: "pystr \<Rightarrow> pystr" where
  "strip s = rstrip (lstrip s)"

text \<open>\<open>sep.join(parts)\<close>.\<close>

fun join :: "pystr \<Rightarrow> pystr list \<Rightarrow> pystr" where
  "join sep [] = []"
| "join sep [x] = x"
| "join sep (x # y # ys) = x @ sep @ join sep (y # ys)"

text \<open>\<open>s.split()\<close>: the maximal runs of non-space characters.\<close>

function words :: "pystr \<Rightarrow> pystr list" where
  "words s = (case dropWhile py_space s of
      [] \<Rightarrow> []
    | c # r \<Rightarrow> takeWhile (\<lambda>x. \<not> py_space x) (c # r)
               # words (dropWhile (\<lambda>x. \<not> py_space x) (c # r)))"
  by pat_completeness auto
termination
proof (relation "measure length")
  show "wf (measure length)" by simp
next
  fix s c r assume eq: "dropWhile py_space s = c # r"
  then have "\<not> py_space c" by (metis dropWhile_eq_Cons_conv)
  then have "length (dropWhile (\<lambda>x. \<not> py_space x) (c # r)) \<le> length r"
    by (simp add: length_dropWhile_le)
  also have "length r < length s"
    using length_dropWhile_le [of py_space s] eq by simp
  finally show "(dropWhile (\<lambda>x. \<not> py_space x) (c # r), s) \<in> measure length" by simp
qed

declare words.simps [simp del]

text \<open>The line boundaries of \<open>str.splitlines\<close>; CR LF is one boundary.\<close>

definition line_break :: "nat \<Rightarrow> bool" where
  "line_break c \<longleftrightarrow> (10 \<le> c \<and> c \<le> 13) \<or> (28 \<le> c \<and> c \<le> 30) \<or> c = 133 \<or> c = 8232 \<or> c = 8233"

fun splitlines_acc :: "pystr \<Rightarrow> pystr \<Rightarrow> pystr list" where
  "splitlines_acc acc [] = (if acc = [] then [] else [rev acc])"
| "splitlines_acc acc (c # s) =
     (if c = 13 then (case s of
          d # s' \<Rightarrow> (if d = 10 then rev acc # splitlines_acc [] s' else rev acc # splitlines_acc [] s)
        | [] \<Rightarrow> [rev acc])
      else if line_break c then rev acc # splitlines_acc [] s
      else splitlines_acc (c # acc) s)"

definition splitlines :: "pystr \<Rightarrow> pystr list" where
  "splitlines s = splitlines_acc [] s"

text \<open>Decimal numerals.\<close>

fun str_nat :: "nat \<Rightarrow> pystr" where
  "str_nat n = (if n < 10 then [48 + n] else str_nat (n div 10) @ [48 + n mod 10])"

declare str_nat.simps [simp del]

definition str_int :: "int \<Rightarrow> pystr" where
  "str_int i = (if i < 0 then 45 # str_nat (nat (- i)) else str_nat (nat i))"

definition nat_of_digits :: "pystr \<Rightarrow> nat" where
  "nat_of_digits ds = foldl (\<lambda>a d. 10 * a + (d - 48)) 0 ds"

abbreviation is_digit :: "nat \<Rightarrow> bool" where
  "is_digit c \<equiv> 48 \<le> c \<and> c \<le> 57"

lemma nat_of_digits_snoc: "nat_of_digits (ds @ [d]) = 10 * nat_of_digits ds + (d - 48)"
  by (simp add: nat_of_digits_def)

lemma nat_of_digits_str_nat [simp]: "nat_of_digits (str_nat n) = n"
proof (induction n rule: str_nat.induct)
  case (1 n)
  show ?case
  proof (cases "n < 10")
    case True
    then show ?thesis by (simp add: str_nat.simps [of n] nat_of_digits_def)
  next
    case False
    with 1 show ?thesis by (simp add: str_nat.simps [of n] nat_of_digits_snoc)
  qed
qed

lemma str_nat_inject [simp]: "str_nat m = str_nat n \<longleftrightarrow> m = n"
  by (metis nat_of_digits_str_nat)

lemma str_nat_not_Nil [simp]: "str_nat n \<noteq> []"
  by (subst str_nat.simps) simp

lemma str_nat_digits: "c \<in> set (str_nat n) \<Longrightarrow> is_digit c"
proof (induction n rule: str_nat.induct)
  case (1 n)
  show ?case
  proof (cases "n < 10")
    case True
    with 1 show ?thesis by (simp add: str_nat.simps [of n])
  next
    case False
    have "n mod 10 < 10" by simp
    with False 1 show ?thesis by (auto simp add: str_nat.simps [of n])
  qed
qed

lemma str_nat_leading_zero: "hd (str_nat n) = 48 \<longleftrightarrow> n = 0"
proof (induction n rule: str_nat.induct)
  case (1 n)
  show ?case
  proof (cases "n < 10")
    case True
    then show ?thesis by (simp add: str_nat.simps [of n])
  next
    case False
    with 1 show ?thesis by (simp add: str_nat.simps [of n])
  qed
qed

section \<open>Exceptions as values\<close>

text \<open>An exception is its class name and its \<open>str()\<close>; a result is an exception or a value.\<close>

datatype py_exc = Exc (exc_type: pystr) (exc_text: pystr)

type_synonym 'a pyres = "py_exc + 'a"

text \<open>\<open>f"{type(exc).__name__}: {exc}"\<close>, which several handlers store.\<close>

definition render_exc :: "py_exc \<Rightarrow> pystr" where
  "render_exc e = exc_type e @ py '': '' @ exc_text e"

abbreviation raise_exc :: "string \<Rightarrow> pystr \<Rightarrow> 'a pyres" where
  "raise_exc cls msg \<equiv> Inl (Exc (py cls) msg)"

definition is_ok :: "'a pyres \<Rightarrow> bool" where
  "is_ok r = (case r of Inl _ \<Rightarrow> False | Inr _ \<Rightarrow> True)"

lemma is_ok_simps [simp, result_simps]: "is_ok (Inr x)" "\<not> is_ok (Inl e)"
  by (simp_all add: is_ok_def)

lemma is_ok_iff: "is_ok r \<longleftrightarrow> (\<exists>x. r = Inr x)"
  by (cases r) auto

section \<open>Dictionaries\<close>

abbreviation dict_get :: "('k \<times> 'v) list \<Rightarrow> 'k \<Rightarrow> 'v option" where
  "dict_get d k \<equiv> map_of d k"

abbreviation dict_keys :: "('k \<times> 'v) list \<Rightarrow> 'k list" where
  "dict_keys d \<equiv> map fst d"

definition dict_ok :: "('k \<times> 'v) list \<Rightarrow> bool" where
  "dict_ok d \<longleftrightarrow> distinct (dict_keys d)"

lemma dict_ok_Nil [simp, dict_simps]: "dict_ok []"
  by (simp add: dict_ok_def)

lemma dict_ok_update [simp, dict_simps]: "dict_ok d \<Longrightarrow> dict_ok (AList.update k v d)"
  by (simp add: dict_ok_def distinct_update)

lemma dict_ok_delete [simp, dict_simps]: "dict_ok d \<Longrightarrow> dict_ok (AList.delete k d)"
  by (simp add: dict_ok_def distinct_delete)

lemma get_update [dict_simps]:
  "dict_get (AList.update k v d) k' = (if k = k' then Some v else dict_get d k')"
  by (simp add: update_conv')

lemma get_delete [dict_simps]:
  "dict_get (AList.delete k d) k' = (if k = k' then None else dict_get d k')"
  by (simp add: delete_conv')

lemma keys_update_old:
  "k \<in> set (dict_keys d) \<Longrightarrow> dict_keys (AList.update k v d) = dict_keys d"
  by (induction d) auto

lemma keys_update_new:
  "k \<notin> set (dict_keys d) \<Longrightarrow> AList.update k v d = d @ [(k, v)]"
  by (induction d) auto

lemma set_keys_update [dict_simps]:
  "set (dict_keys (AList.update k v d)) = insert k (set (dict_keys d))"
  by (cases "k \<in> set (dict_keys d)") (auto simp: keys_update_old keys_update_new)

lemma set_keys_delete [dict_simps]:
  "set (dict_keys (AList.delete k d)) = set (dict_keys d) - {k}"
  by (simp add: delete_keys)

section \<open>Lists\<close>

lemma sum_list_take_le: "sum_list (take n (xs :: nat list)) \<le> sum_list xs"
  by (induction xs arbitrary: n) (auto simp: take_Cons split: nat.splits)

lemma distinct_append_disjoint:
  "distinct xs \<Longrightarrow> distinct ys \<Longrightarrow> set xs \<inter> set ys = {} \<Longrightarrow> distinct (xs @ ys)"
  by simp


text \<open>\<open>[f(x) for x in xs]\<close> where \<open>f\<close> may raise: the first exception ends it.\<close>

fun map_res :: "('a \<Rightarrow> 'b pyres) \<Rightarrow> 'a list \<Rightarrow> 'b list pyres" where
  "map_res f [] = Inr []"
| "map_res f (x # xs) = (case f x of
      Inl e \<Rightarrow> Inl e
    | Inr y \<Rightarrow> (case map_res f xs of Inl e \<Rightarrow> Inl e | Inr ys \<Rightarrow> Inr (y # ys)))"

lemma map_res_Inr: "map_res f xs = Inr ys \<longleftrightarrow> list_all2 (\<lambda>x y. f x = Inr y) xs ys"
proof (induction xs arbitrary: ys)
  case Nil
  show ?case by auto
next
  case (Cons x xs)
  show ?case by (cases ys) (auto simp: Cons.IH [symmetric] split: sum.splits)
qed

lemma map_res_projr: "map_res f xs = Inr ys \<Longrightarrow> ys = map (\<lambda>x. projr (f x)) xs"
  unfolding map_res_Inr by (induction rule: list_all2_induct) simp_all

lemma map_res_append:
  "map_res f xs = Inr as \<Longrightarrow> map_res f ys = Inr bs \<Longrightarrow> map_res f (xs @ ys) = Inr (as @ bs)"
  unfolding map_res_Inr by (rule list_all2_appendI)

lemma map_res_length: "map_res f xs = Inr ys \<Longrightarrow> length ys = length xs"
  by (simp add: map_res_Inr list_all2_lengthD)

lemma map_res_ok: "(\<And>x. x \<in> set xs \<Longrightarrow> is_ok (f x)) \<Longrightarrow> is_ok (map_res f xs)"
proof (induction xs)
  case (Cons x xs)
  then have "is_ok (map_res f xs)" and "is_ok (f x)" by auto
  then show ?case by (auto simp: is_ok_def split: sum.splits)
qed simp

lemma map_res_map: "(\<And>x. x \<in> set xs \<Longrightarrow> f x = Inr (g x)) \<Longrightarrow> map_res f xs = Inr (map g xs)"
  by (induction xs) auto

section \<open>Unicode case folding\<close>

text \<open>
  \<open>str.casefold\<close> replaces every code point by the one or more code points that the Unicode
  table gives for it.  The table is data of the Python runtime: a parameter \<open>cf\<close> of the
  definitions that fold.  \<open>ascii_fold\<close> is the table restricted to ASCII.
\<close>

definition casefold :: "(nat \<Rightarrow> nat list) \<Rightarrow> pystr \<Rightarrow> pystr" where
  "casefold cf s = concat (map cf s)"

definition ascii_lower :: "nat \<Rightarrow> nat" where
  "ascii_lower c = (if 65 \<le> c \<and> c \<le> 90 then c + 32 else c)"

definition ascii_fold :: "nat \<Rightarrow> nat list" where
  "ascii_fold c = [ascii_lower c]"

text \<open>What the code relies on of the table: it folds ASCII the ASCII way and erases nothing.\<close>

definition fold_table :: "(nat \<Rightarrow> nat list) \<Rightarrow> bool" where
  "fold_table cf \<longleftrightarrow> (\<forall>c < 128. cf c = [ascii_lower c]) \<and> (\<forall>c. cf c \<noteq> [])"

lemma fold_table_ascii [simp]: "fold_table ascii_fold"
  by (simp add: fold_table_def ascii_fold_def)

lemma casefold_append [simp]: "casefold cf (s @ t) = casefold cf s @ casefold cf t"
  by (simp add: casefold_def)

lemma casefold_Nil [simp]: "casefold cf [] = []"
  by (simp add: casefold_def)

section \<open>The first row that matches\<close>

lemma find_some: "find P xs = Some x \<Longrightarrow> x \<in> set xs \<and> P x"
  by (auto simp: find_Some_iff)

lemma find_unique:
  assumes "x \<in> set xs" "P x" "\<And>y. y \<in> set xs \<Longrightarrow> P y \<Longrightarrow> y = x"
  shows "find P xs = Some x"
proof (cases "find P xs")
  case None
  then show ?thesis using assms(1,2) by (auto simp: find_None_iff)
next
  case (Some y)
  from find_some [OF Some] have "y = x" using assms(3) by blast
  with Some show ?thesis by simp
qed

lemma find_snoc_new: "\<forall>x \<in> set xs. \<not> P x \<Longrightarrow> P y \<Longrightarrow> find P (xs @ [y]) = Some y"
  by (induction xs) auto

lemma find_unique_key: "x \<in> set xs \<Longrightarrow> distinct (map key xs) \<Longrightarrow> find (\<lambda>y. key y = key x) xs = Some x"
  by (induction xs) auto

section \<open>Identifiers\<close>

text \<open>A UUID is its 128-bit number; \<open>uuid_hex\<close> is \<open>.hex\<close> and \<open>str_uuid\<close> is \<open>str()\<close>.\<close>

type_synonym uuid = nat

fun hex_digit :: "nat \<Rightarrow> nat" where
  "hex_digit n = (if n < 10 then 48 + n else 87 + n)"

fun hex_pad :: "nat \<Rightarrow> nat \<Rightarrow> pystr" where
  "hex_pad 0 n = []"
| "hex_pad (Suc k) n = hex_pad k (n div 16) @ [hex_digit (n mod 16)]"

definition uuid_hex :: "uuid \<Rightarrow> pystr" where
  "uuid_hex u = hex_pad 32 u"

definition str_uuid :: "uuid \<Rightarrow> pystr" where
  "str_uuid u = (let h = uuid_hex u in take 8 h @ py ''-'' @ take 4 (drop 8 h) @ py ''-''
     @ take 4 (drop 12 h) @ py ''-'' @ take 4 (drop 16 h) @ py ''-'' @ drop 20 h)"

lemma length_hex_pad [simp]: "length (hex_pad k n) = k"
  by (induction k arbitrary: n) auto

lemma hex_digit_inject: "m < 16 \<Longrightarrow> n < 16 \<Longrightarrow> hex_digit m = hex_digit n \<longleftrightarrow> m = n"
  by auto

lemma hex_pad_inject: "m < 16 ^ k \<Longrightarrow> n < 16 ^ k \<Longrightarrow> hex_pad k m = hex_pad k n \<longleftrightarrow> m = n"
proof (induction k arbitrary: m n)
  case (Suc k)
  have "m div 16 < 16 ^ k" "n div 16 < 16 ^ k"
    using Suc.prems by (simp_all add: div_less_iff_less_mult mult.commute)
  then have "hex_pad k (m div 16) = hex_pad k (n div 16) \<longleftrightarrow> m div 16 = n div 16" by (rule Suc.IH)
  moreover have "hex_digit (m mod 16) = hex_digit (n mod 16) \<longleftrightarrow> m mod 16 = n mod 16"
    by (rule hex_digit_inject) simp_all
  moreover have "m = n \<longleftrightarrow> m div 16 = n div 16 \<and> m mod 16 = n mod 16"
    by (metis div_mult_mod_eq)
  ultimately show ?case by (simp del: hex_digit.simps)
qed simp

lemma uuid_hex_inject: "u < 2 ^ 128 \<Longrightarrow> v < 2 ^ 128 \<Longrightarrow> uuid_hex u = uuid_hex v \<longleftrightarrow> u = v"
  unfolding uuid_hex_def by (rule hex_pad_inject) simp_all

lemma str_uuid_inject:
  assumes "u < 2 ^ 128" "v < 2 ^ 128"
  shows "str_uuid u = str_uuid v \<longleftrightarrow> u = v"
proof
  assume eq: "str_uuid u = str_uuid v"
  let ?hu = "uuid_hex u" and ?hv = "uuid_hex v"
  have len: "length ?hu = 32" "length ?hv = 32" by (simp_all add: uuid_hex_def)
  from eq len have parts: "take 8 ?hu = take 8 ?hv" "take 4 (drop 8 ?hu) = take 4 (drop 8 ?hv)"
    "take 4 (drop 12 ?hu) = take 4 (drop 12 ?hv)" "take 4 (drop 16 ?hu) = take 4 (drop 16 ?hv)"
    "drop 20 ?hu = drop 20 ?hv"
    by (simp_all add: str_uuid_def Let_def)
  have split: "h = take 8 h @ take 4 (drop 8 h) @ take 4 (drop 12 h) @ take 4 (drop 16 h) @ drop 20 h"
    if "length h = 32" for h :: pystr
  proof -
    have "take 4 (drop 16 h) @ drop 20 h = drop 16 h"
      using append_take_drop_id [of 4 "drop 16 h"] by simp
    moreover have "take 4 (drop 12 h) @ drop 16 h = drop 12 h"
      using append_take_drop_id [of 4 "drop 12 h"] by simp
    moreover have "take 4 (drop 8 h) @ drop 12 h = drop 8 h"
      using append_take_drop_id [of 4 "drop 8 h"] by simp
    ultimately show ?thesis by simp
  qed
  have "?hu = ?hv" using split [OF len(1)] split [OF len(2)] parts by metis
  with assms show "u = v" by (simp add: uuid_hex_inject)
qed simp

end
