(* ===== verification/Json.thy ===== *)
theory Json
  imports Prelude
begin

text \<open>
  Python values as the program passes them around, \<open>str\<close> and \<open>repr\<close> of them, and the
  standard library's \<open>json\<close> module as far as the program uses it: \<open>json.dumps\<close> with the
  options the program gives and \<open>json.loads\<close>.  The main facts are that \<open>loads\<close> reads back
  what \<open>dumps\<close> wrote, for both settings of \<open>ensure_ascii\<close>, and hence that \<open>dumps\<close> with
  \<open>sort_keys\<close> separates values that differ in more than the order of their keys.

  A float is kept as the text \<open>repr\<close> gives for it.  Dictionary keys are strings.  Objects
  that are not JSON carry the texts the code asks of them: their \<open>isoformat\<close>, \<open>str\<close>,
  \<open>repr\<close>, or JSON dump.
\<close>

section \<open>Values\<close>

datatype pyval =
    PNone
  | PBool bool
  | PInt int
  | PFloat pystr
  | PStr pystr
  | PList "pyval list"
  | PTuple "pyval list"
  | PSet "pyval list"
  | PDict "(pystr \<times> pyval) list"
  | PModel pystr "(pystr \<times> pyval) list" pystr \<comment> \<open>a pydantic model: class name, JSON dump, \<open>str\<close>\<close>
  | PTime pystr pystr pystr \<comment> \<open>datetime, date or time: class name, \<open>isoformat()\<close>, \<open>repr\<close>\<close>
  | PExact pystr pystr pystr \<comment> \<open>Decimal or UUID: class name, \<open>str\<close>, \<open>repr\<close>\<close>
  | PBytes nat pystr \<comment> \<open>bytes: length, \<open>repr\<close>\<close>
  | PObj pystr pystr pystr \<comment> \<open>any other object: class name, \<open>str\<close>, \<open>repr\<close>\<close>

abbreviation pstr :: "string \<Rightarrow> pyval" where
  "pstr s \<equiv> PStr (py s)"

abbreviation pdict :: "(string \<times> pyval) list \<Rightarrow> pyval" where
  "pdict kvs \<equiv> PDict (map (\<lambda>(k, v). (py k, v)) kvs)"

text \<open>\<open>d.get(key)\<close> of a dictionary value: \<open>None\<close> where the key is absent.\<close>

definition dget :: "(pystr \<times> pyval) list \<Rightarrow> string \<Rightarrow> pyval" where
  "dget d k = (case dict_get d (py k) of None \<Rightarrow> PNone | Some v \<Rightarrow> v)"

fun is_dict :: "pyval \<Rightarrow> bool" where
  "is_dict (PDict _) = True"
| "is_dict _ = False"

text \<open>Truth value, as \<open>if v:\<close> and \<open>v or w\<close> test it.\<close>

fun truthy :: "pyval \<Rightarrow> bool" where
  "truthy PNone = False"
| "truthy (PBool b) = b"
| "truthy (PInt i) = (i \<noteq> 0)"
| "truthy (PFloat t) = (t \<noteq> py ''0.0'' \<and> t \<noteq> py ''-0.0'')"
| "truthy (PStr s) = (s \<noteq> [])"
| "truthy (PList xs) = (xs \<noteq> [])"
| "truthy (PTuple xs) = (xs \<noteq> [])"
| "truthy (PSet xs) = (xs \<noteq> [])"
| "truthy (PDict kvs) = (kvs \<noteq> [])"
| "truthy (PBytes n _) = (n \<noteq> 0)"
| "truthy _ = True"

section \<open>\<open>repr\<close> and \<open>str\<close>\<close>

definition hex2 :: "nat \<Rightarrow> pystr" where
  "hex2 n = [hex_digit (n div 16), hex_digit (n mod 16)]"

text \<open>
  \<open>repr\<close> of a string: single quotes, unless the string has a single quote and no double
  quote.  Code points from 127 on are shown as they are, which is what Python does for the
  printable ones.
\<close>

definition repr_char :: "nat \<Rightarrow> nat \<Rightarrow> pystr" where
  "repr_char q c =
     (if c = q \<or> c = 92 then [92, c]
      else if c = 10 then [92, 110]
      else if c = 13 then [92, 114]
      else if c = 9 then [92, 116]
      else if c < 32 then [92, 120] @ hex2 c
      else [c])"

definition repr_str :: "pystr \<Rightarrow> pystr" where
  "repr_str s = (let q = (if 39 \<in> set s \<and> 34 \<notin> set s then 34 else 39)
                 in [q] @ concat (map (repr_char q) s) @ [q])"

fun py_repr :: "pyval \<Rightarrow> pystr"
  and repr_items :: "pyval list \<Rightarrow> pystr"
  and repr_pairs :: "(pystr \<times> pyval) list \<Rightarrow> pystr" where
  "py_repr PNone = py ''None''"
| "py_repr (PBool b) = (if b then py ''True'' else py ''False'')"
| "py_repr (PInt i) = str_int i"
| "py_repr (PFloat t) = t"
| "py_repr (PStr s) = repr_str s"
| "py_repr (PList xs) = py ''['' @ repr_items xs @ py '']''"
| "py_repr (PTuple xs) = py ''('' @ repr_items xs @ (if length xs = 1 then py '','' else []) @ py '')''"
| "py_repr (PSet xs) = (if xs = [] then py ''set()'' else py ''{'' @ repr_items xs @ py ''}'')"
| "py_repr (PDict kvs) = py ''{'' @ repr_pairs kvs @ py ''}''"
| "py_repr (PModel _ _ r) = r"
| "py_repr (PTime _ _ r) = r"
| "py_repr (PExact _ _ r) = r"
| "py_repr (PBytes _ r) = r"
| "py_repr (PObj _ _ r) = r"
| "repr_items [] = []"
| "repr_items (x # xs) = py_repr x @ (if xs = [] then [] else py '', '' @ repr_items xs)"
| "repr_pairs [] = []"
| "repr_pairs ((k, v) # kvs) = repr_str k @ py '': '' @ py_repr v
     @ (if kvs = [] then [] else py '', '' @ repr_pairs kvs)"

fun py_str :: "pyval \<Rightarrow> pystr" where
  "py_str (PStr s) = s"
| "py_str (PExact _ s _) = s"
| "py_str (PObj _ s _) = s"
| "py_str v = py_repr v"

text \<open>\<open>str(KeyError(msg))\<close> is the \<open>repr\<close> of the message.\<close>

definition key_error :: "pystr \<Rightarrow> py_exc" where
  "key_error msg = Exc (py ''KeyError'') (repr_str msg)"

section \<open>\<open>json.dumps\<close>\<close>

record json_opts =
  ensure_ascii :: bool
  item_sep :: pystr
  key_sep :: pystr

definition hex4 :: "nat \<Rightarrow> pystr" where
  "hex4 n = [hex_digit (n div 4096 mod 16), hex_digit (n div 256 mod 16),
             hex_digit (n div 16 mod 16), hex_digit (n mod 16)]"

definition json_char :: "bool \<Rightarrow> nat \<Rightarrow> pystr" where
  "json_char asc c =
     (if c = 34 \<or> c = 92 then [92, c]
      else if c = 10 then [92, 110]
      else if c = 13 then [92, 114]
      else if c = 9 then [92, 116]
      else if c = 12 then [92, 102]
      else if c = 8 then [92, 98]
      else if c < 32 then [92, 117] @ hex4 c
      else if \<not> asc \<or> c < 127 then [c]
      else if c < 65536 then [92, 117] @ hex4 c
      else [92, 117] @ hex4 (55296 + (c - 65536) div 1024)
           @ [92, 117] @ hex4 (56320 + (c - 65536) mod 1024))"

definition json_string :: "bool \<Rightarrow> pystr \<Rightarrow> pystr" where
  "json_string asc s = [34] @ concat (map (json_char asc) s) @ [34]"

definition json_float :: "pystr \<Rightarrow> pystr" where
  "json_float t = (if t = py ''nan'' then py ''NaN''
                   else if t = py ''inf'' then py ''Infinity''
                   else if t = py ''-inf'' then py ''-Infinity'' else t)"

text \<open>The text \<open>dumps\<close> writes; \<open>default=str\<close> is applied to what is not JSON.\<close>

fun dumps :: "json_opts \<Rightarrow> pyval \<Rightarrow> pystr"
  and dumps_items :: "json_opts \<Rightarrow> pyval list \<Rightarrow> pystr"
  and dumps_pairs :: "json_opts \<Rightarrow> (pystr \<times> pyval) list \<Rightarrow> pystr" where
  "dumps o' PNone = py ''null''"
| "dumps o' (PBool b) = (if b then py ''true'' else py ''false'')"
| "dumps o' (PInt i) = str_int i"
| "dumps o' (PFloat t) = json_float t"
| "dumps o' (PStr s) = json_string (ensure_ascii o') s"
| "dumps o' (PList xs) = [91] @ dumps_items o' xs @ [93]"
| "dumps o' (PTuple xs) = [91] @ dumps_items o' xs @ [93]"
| "dumps o' (PDict kvs) = [123] @ dumps_pairs o' kvs @ [125]"
| "dumps o' (PSet xs) = json_string (ensure_ascii o') (py_str (PSet xs))"
| "dumps o' (PModel c d r) = json_string (ensure_ascii o') r"
| "dumps o' (PTime c i r) = json_string (ensure_ascii o') (py_str (PTime c i r))"
| "dumps o' (PExact c s r) = json_string (ensure_ascii o') s"
| "dumps o' (PBytes n r) = json_string (ensure_ascii o') r"
| "dumps o' (PObj c s r) = json_string (ensure_ascii o') s"
| "dumps_items o' [] = []"
| "dumps_items o' (x # xs) = dumps o' x @ (if xs = [] then [] else item_sep o' @ dumps_items o' xs)"
| "dumps_pairs o' [] = []"
| "dumps_pairs o' ((k, v) # kvs) = json_string (ensure_ascii o') k @ key_sep o' @ dumps o' v
     @ (if kvs = [] then [] else item_sep o' @ dumps_pairs o' kvs)"

text \<open>The first value \<open>dumps\<close> cannot write when no \<open>default\<close> is given, by its class name.\<close>

fun not_json :: "pyval \<Rightarrow> pystr option"
  and not_json_list :: "pyval list \<Rightarrow> pystr option"
  and not_json_pairs :: "(pystr \<times> pyval) list \<Rightarrow> pystr option" where
  "not_json (PList xs) = not_json_list xs"
| "not_json (PTuple xs) = not_json_list xs"
| "not_json (PDict kvs) = not_json_pairs kvs"
| "not_json (PSet _) = Some (py ''set'')"
| "not_json (PModel c _ _) = Some c"
| "not_json (PTime c _ _) = Some c"
| "not_json (PExact c _ _) = Some c"
| "not_json (PBytes _ _) = Some (py ''bytes'')"
| "not_json (PObj c _ _) = Some c"
| "not_json v = None"
| "not_json_list [] = None"
| "not_json_list (x # xs) = (case not_json x of None \<Rightarrow> not_json_list xs | Some c \<Rightarrow> Some c)"
| "not_json_pairs [] = None"
| "not_json_pairs ((k, v) # kvs) = (case not_json v of None \<Rightarrow> not_json_pairs kvs | Some c \<Rightarrow> Some c)"

definition json_dumps :: "json_opts \<Rightarrow> pyval \<Rightarrow> pystr pyres" where
  "json_dumps o' v = (case not_json v of
      None \<Rightarrow> Inr (dumps o' v)
    | Some c \<Rightarrow> raise_exc ''TypeError''
        (py ''Object of type '' @ c @ py '' is not JSON serializable''))"

text \<open>\<open>sort_keys=True\<close>: every dictionary is written in the order of its keys.\<close>

fun sort_keys :: "pyval \<Rightarrow> pyval"
  and sort_keys_list :: "pyval list \<Rightarrow> pyval list"
  and sort_keys_pairs :: "(pystr \<times> pyval) list \<Rightarrow> (pystr \<times> pyval) list" where
  "sort_keys (PList xs) = PList (sort_keys_list xs)"
| "sort_keys (PTuple xs) = PTuple (sort_keys_list xs)"
| "sort_keys (PDict kvs) = PDict (sort_key fst (sort_keys_pairs kvs))"
| "sort_keys v = v"
| "sort_keys_list [] = []"
| "sort_keys_list (x # xs) = sort_keys x # sort_keys_list xs"
| "sort_keys_pairs [] = []"
| "sort_keys_pairs ((k, v) # kvs) = (k, sort_keys v) # sort_keys_pairs kvs"

text \<open>The two separator settings of the program: compact, and the module's default.\<close>

definition compact_json :: json_opts where
  "compact_json = \<lparr>ensure_ascii = False, item_sep = py '','', key_sep = py '':''\<rparr>"

definition default_json :: json_opts where
  "default_json = \<lparr>ensure_ascii = True, item_sep = py '', '', key_sep = py '': ''\<rparr>"

section \<open>\<open>json.loads\<close>\<close>

definition json_ws :: "nat \<Rightarrow> bool" where
  "json_ws c \<longleftrightarrow> c = 32 \<or> c = 9 \<or> c = 10 \<or> c = 13"

abbreviation skip_ws :: "pystr \<Rightarrow> pystr" where
  "skip_ws s \<equiv> dropWhile json_ws s"

definition hex_value :: "nat \<Rightarrow> nat option" where
  "hex_value c = (if is_digit c then Some (c - 48)
                  else if 97 \<le> c \<and> c \<le> 102 then Some (c - 87)
                  else if 65 \<le> c \<and> c \<le> 70 then Some (c - 55) else None)"

definition parse_hex4 :: "pystr \<Rightarrow> (nat \<times> pystr) option" where
  "parse_hex4 s = (case s of
      a # b # c # d # r \<Rightarrow>
        (case (hex_value a, hex_value b, hex_value c, hex_value d) of
           (Some w, Some x, Some y, Some z) \<Rightarrow> Some (4096 * w + 256 * x + 16 * y + z, r)
         | _ \<Rightarrow> None)
    | _ \<Rightarrow> None)"

definition simple_escape :: "nat \<Rightarrow> nat option" where
  "simple_escape c = (if c = 34 \<or> c = 92 \<or> c = 47 then Some c
     else if c = 110 then Some 10 else if c = 114 then Some 13 else if c = 116 then Some 9
     else if c = 102 then Some 12 else if c = 98 then Some 8 else None)"

text \<open>The body of a string literal after its opening quote; one unit of fuel per character.\<close>

fun parse_string :: "nat \<Rightarrow> pystr \<Rightarrow> (pystr \<times> pystr) option" where
  "parse_string 0 s = None"
| "parse_string (Suc n) [] = None"
| "parse_string (Suc n) (c # s) =
     (if c = 34 then Some ([], s)
      else if c < 32 then None
      else if c \<noteq> 92 then map_option (apfst (Cons c)) (parse_string n s)
      else (case s of
          [] \<Rightarrow> None
        | e # s' \<Rightarrow>
            (if e \<noteq> 117 then
               (case simple_escape e of
                  None \<Rightarrow> None
                | Some d \<Rightarrow> map_option (apfst (Cons d)) (parse_string n s'))
             else (case parse_hex4 s' of
                 None \<Rightarrow> None
               | Some (u, s'') \<Rightarrow>
                   (if 55296 \<le> u \<and> u < 56320 \<and> take 2 s'' = [92, 117] then
                      (case parse_hex4 (drop 2 s'') of
                         None \<Rightarrow> None
                       | Some (u2, s3) \<Rightarrow>
                           (if 56320 \<le> u2 \<and> u2 < 57344
                            then map_option (apfst (Cons (65536 + (u - 55296) * 1024 + (u2 - 56320))))
                                   (parse_string n s3)
                            else map_option (apfst (Cons u)) (parse_string n s'')))
                    else map_option (apfst (Cons u)) (parse_string n s''))))))"

text \<open>A number: sign and integer part, then an optional fraction and exponent.\<close>

definition lex_nat :: "pystr \<Rightarrow> (pystr \<times> pystr) option" where
  "lex_nat s = (case s of
      [] \<Rightarrow> None
    | c # r \<Rightarrow> (if c = 48 then Some ([48], r)
               else if is_digit c then Some (takeWhile is_digit s, dropWhile is_digit s)
               else None))"

definition lex_int :: "pystr \<Rightarrow> (pystr \<times> pystr) option" where
  "lex_int s = (if take 1 s = [45] then map_option (apfst (Cons 45)) (lex_nat (drop 1 s))
                else lex_nat s)"

definition lex_frac :: "pystr \<Rightarrow> pystr \<times> pystr" where
  "lex_frac s = (if take 1 s = [46] \<and> takeWhile is_digit (drop 1 s) \<noteq> []
                 then (46 # takeWhile is_digit (drop 1 s), dropWhile is_digit (drop 1 s))
                 else ([], s))"

definition exp_sign :: "pystr \<Rightarrow> pystr" where
  "exp_sign r = (if take 1 r = [43] \<or> take 1 r = [45] then take 1 r else [])"

definition lex_exp :: "pystr \<Rightarrow> pystr \<times> pystr" where
  "lex_exp s = (if take 1 s = [101] \<or> take 1 s = [69] then
      (let sg = exp_sign (drop 1 s); r = drop (length sg) (drop 1 s)
       in if takeWhile is_digit r \<noteq> [] then (take 1 s @ sg @ takeWhile is_digit r, dropWhile is_digit r)
          else ([], s))
    else ([], s))"

definition int_of_text :: "pystr \<Rightarrow> int" where
  "int_of_text t = (if take 1 t = [45] then - int (nat_of_digits (drop 1 t))
                    else int (nat_of_digits t))"

definition parse_number :: "pystr \<Rightarrow> (pyval \<times> pystr) option" where
  "parse_number s = (case lex_int s of
      None \<Rightarrow> None
    | Some (i, r) \<Rightarrow>
        (let (f, r') = lex_frac r; (e, r'') = lex_exp r'
         in Some (if f = [] \<and> e = [] then (PInt (int_of_text i), r'')
                  else (PFloat (i @ f @ e), r''))))"

definition strip_prefix :: "pystr \<Rightarrow> pystr \<Rightarrow> pystr option" where
  "strip_prefix p s = (if take (length p) s = p then Some (drop (length p) s) else None)"

definition json_keywords :: "(pystr \<times> pyval) list" where
  "json_keywords = [(py ''null'', PNone), (py ''true'', PBool True), (py ''false'', PBool False),
     (py ''NaN'', PFloat (py ''nan'')), (py ''Infinity'', PFloat (py ''inf'')),
     (py ''-Infinity'', PFloat (py ''-inf''))]"

fun parse_keyword :: "(pystr \<times> pyval) list \<Rightarrow> pystr \<Rightarrow> (pyval \<times> pystr) option" where
  "parse_keyword [] s = None"
| "parse_keyword ((p, v) # ps) s = (case strip_prefix p s of
      Some r \<Rightarrow> Some (v, r)
    | None \<Rightarrow> parse_keyword ps s)"

definition parse_atom :: "pystr \<Rightarrow> (pyval \<times> pystr) option" where
  "parse_atom s = (case parse_keyword json_keywords s of Some x \<Rightarrow> Some x | None \<Rightarrow> parse_number s)"

definition dict_of_pairs :: "('k \<times> 'v) list \<Rightarrow> ('k \<times> 'v) list" where
  "dict_of_pairs ps = fold (\<lambda>(k, v). AList.update k v) ps []"

fun parse_value :: "nat \<Rightarrow> pystr \<Rightarrow> (pyval \<times> pystr) option"
  and parse_items :: "nat \<Rightarrow> pystr \<Rightarrow> (pyval list \<times> pystr) option"
  and parse_members :: "nat \<Rightarrow> pystr \<Rightarrow> ((pystr \<times> pyval) list \<times> pystr) option" where
  "parse_value 0 s = None"
| "parse_value (Suc n) s =
     (if take 1 s = [34] then map_option (apfst PStr) (parse_string (length s) (drop 1 s))
      else if take 1 s = [91] then
        (if take 1 (skip_ws (drop 1 s)) = [93] then Some (PList [], drop 1 (skip_ws (drop 1 s)))
         else map_option (apfst PList) (parse_items n (skip_ws (drop 1 s))))
      else if take 1 s = [123] then
        (if take 1 (skip_ws (drop 1 s)) = [125] then Some (PDict [], drop 1 (skip_ws (drop 1 s)))
         else map_option (apfst (\<lambda>ps. PDict (dict_of_pairs ps))) (parse_members n (skip_ws (drop 1 s))))
      else parse_atom s)"
| "parse_items 0 s = None"
| "parse_items (Suc n) s = (case parse_value n s of
      None \<Rightarrow> None
    | Some (v, r) \<Rightarrow>
        (if take 1 (skip_ws r) = [93] then Some ([v], drop 1 (skip_ws r))
         else if take 1 (skip_ws r) = [44]
         then map_option (apfst (Cons v)) (parse_items n (skip_ws (drop 1 (skip_ws r))))
         else None))"
| "parse_members 0 s = None"
| "parse_members (Suc n) s =
     (if take 1 s \<noteq> [34] then None
      else (case parse_string (length s) (drop 1 s) of
          None \<Rightarrow> None
        | Some (k, r) \<Rightarrow>
            (if take 1 (skip_ws r) \<noteq> [58] then None
             else (case parse_value n (skip_ws (drop 1 (skip_ws r))) of
                 None \<Rightarrow> None
               | Some (v, r') \<Rightarrow>
                   (if take 1 (skip_ws r') = [125] then Some ([(k, v)], drop 1 (skip_ws r'))
                    else if take 1 (skip_ws r') = [44]
                    then map_option (apfst (Cons (k, v))) (parse_members n (skip_ws (drop 1 (skip_ws r'))))
                    else None)))))"

text \<open>
  \<open>json.loads\<close>; \<open>None\<close> is \<open>JSONDecodeError\<close>, whose text (a position in the input) is not
  modelled.  One unit of fuel per character of the input is enough.
\<close>

definition loads :: "pystr \<Rightarrow> pyval option" where
  "loads s = (case parse_value (Suc (length s)) (skip_ws s) of
      None \<Rightarrow> None
    | Some (v, r) \<Rightarrow> (if skip_ws r = [] then Some v else None))"


section \<open>Values that JSON can carry\<close>

text \<open>
  \<open>json_ok\<close> values are those that survive a round trip: texts of Unicode scalar values
  (no lone surrogates), floats whose text is a JSON number, dictionaries with distinct keys.
\<close>

definition text_ok :: "pystr \<Rightarrow> bool" where
  "text_ok s \<longleftrightarrow> (\<forall>c \<in> set s. c < 1114112 \<and> \<not> (55296 \<le> c \<and> c < 57344))"

definition float_ok :: "pystr \<Rightarrow> bool" where
  "float_ok t \<longleftrightarrow> t = py ''nan'' \<or> t = py ''inf'' \<or> t = py ''-inf'' \<or> parse_number t = Some (PFloat t, [])"

fun json_ok :: "pyval \<Rightarrow> bool"
  and json_ok_list :: "pyval list \<Rightarrow> bool"
  and json_ok_pairs :: "(pystr \<times> pyval) list \<Rightarrow> bool" where
  "json_ok PNone = True"
| "json_ok (PBool b) = True"
| "json_ok (PInt i) = True"
| "json_ok (PFloat t) = float_ok t"
| "json_ok (PStr s) = text_ok s"
| "json_ok (PList xs) = json_ok_list xs"
| "json_ok (PDict kvs) = (distinct (map fst kvs) \<and> json_ok_pairs kvs)"
| "json_ok v = False"
| "json_ok_list [] = True"
| "json_ok_list (x # xs) = (json_ok x \<and> json_ok_list xs)"
| "json_ok_pairs [] = True"
| "json_ok_pairs ((k, v) # kvs) = (text_ok k \<and> json_ok v \<and> json_ok_pairs kvs)"

definition seps_ok :: "json_opts \<Rightarrow> bool" where
  "seps_ok o' \<longleftrightarrow> item_sep o' \<in> {[44], [44, 32]} \<and> key_sep o' \<in> {[58], [58, 32]}"

section \<open>Round trip of strings\<close>

lemma hex_value_hex_digit: "n < 16 \<Longrightarrow> hex_value (hex_digit n) = Some n"
  by (simp add: hex_value_def)

lemma hex4_value:
  assumes "n < 65536"
  shows "4096 * (n div 4096 mod 16) + 256 * (n div 256 mod 16) + 16 * (n div 16 mod 16) + n mod 16 = (n::nat)"
proof -
  have 1: "n mod 16 + 16 * (n div 16) = n" by (rule mod_mult_div_eq)
  have 2: "n div 16 mod 16 + 16 * (n div 256) = n div 16"
    using mod_mult_div_eq [of "n div 16" 16] by (simp add: div_mult2_eq [symmetric])
  have 3: "n div 256 mod 16 + 16 * (n div 4096) = n div 256"
    using mod_mult_div_eq [of "n div 256" 16] by (simp add: div_mult2_eq [symmetric])
  have "n div 4096 < 16" using assms by (simp add: div_less_iff_less_mult)
  then have 4: "n div 4096 mod 16 = n div 4096" by simp
  from 1 2 3 4 show ?thesis by linarith
qed

lemma parse_hex4_hex4: "n < 65536 \<Longrightarrow> parse_hex4 (hex4 n @ r) = Some (n, r)"
  using hex4_value [of n]
  by (simp add: parse_hex4_def hex4_def hex_value_hex_digit del: hex_digit.simps)

lemma parse_string_char:
  assumes "c < 1114112" and "\<not> (55296 \<le> c \<and> c < 57344)"
  shows "parse_string (Suc n) (json_char asc c @ r) = map_option (apfst (Cons c)) (parse_string n r)"
proof -
  consider (simple) "c = 34 \<or> c = 92 \<or> c = 10 \<or> c = 13 \<or> c = 9 \<or> c = 12 \<or> c = 8"
    | (ctrl) "c < 32" "c \<notin> {34, 92, 10, 13, 9, 12, 8}"
    | (raw) "c \<ge> 32" "c \<noteq> 34" "c \<noteq> 92" "\<not> asc \<or> c < 127"
    | (bmp) "c \<ge> 127" "asc" "c < 65536"
    | (pair) "asc" "c \<ge> 65536"
    by fastforce
  then show ?thesis
  proof cases
    case simple
    then show ?thesis by (elim disjE) (simp_all add: json_char_def simple_escape_def)
  next
    case ctrl
    then show ?thesis using assms by (simp add: json_char_def parse_hex4_hex4)
  next
    case raw
    then show ?thesis by (simp add: json_char_def)
  next
    case bmp
    then show ?thesis using assms by (auto simp add: json_char_def parse_hex4_hex4)
  next
    case pair
    let ?d = "c - 65536"
    have hi: "?d div 1024 < 1024" using assms(1) by (simp add: div_less_iff_less_mult)
    have lo: "?d mod 1024 < 1024" by simp
    have sum: "65536 + ?d div 1024 * 1024 + ?d mod 1024 = c" using pair(2) by simp
    have "parse_hex4 (hex4 (55296 + ?d div 1024) @ u) = Some (55296 + ?d div 1024, u)" for u
      using hi by (intro parse_hex4_hex4) simp
    moreover have "parse_hex4 (hex4 (56320 + ?d mod 1024) @ u) = Some (56320 + ?d mod 1024, u)" for u
      using lo by (intro parse_hex4_hex4) simp
    moreover have "json_char asc c @ r = [92, 117] @ hex4 (55296 + ?d div 1024)
        @ [92, 117] @ hex4 (56320 + ?d mod 1024) @ r"
      using pair by (simp add: json_char_def)
    ultimately show ?thesis using hi lo sum by simp
  qed
qed

lemma json_char_not_Nil: "json_char asc c \<noteq> []"
  by (simp add: json_char_def)

lemma length_json_chars: "length s \<le> length (concat (map (json_char asc) s))"
proof (induction s)
  case (Cons c s)
  have "1 \<le> length (json_char asc c)" using json_char_not_Nil by (simp add: Suc_le_eq)
  then show ?case using Cons by (simp del: length_greater_0_conv)
qed simp

lemma parse_string_json:
  "text_ok s \<Longrightarrow> length s < n \<Longrightarrow>
   parse_string n (concat (map (json_char asc) s) @ 34 # r) = Some (s, r)"
proof (induction s arbitrary: n)
  case Nil
  then show ?case by (cases n) simp_all
next
  case (Cons c s)
  then obtain m where n: "n = Suc m" by (cases n) auto
  with Cons have "parse_string m (concat (map (json_char asc) s) @ 34 # r) = Some (s, r)"
    by (simp add: text_ok_def)
  with Cons.prems n show ?case by (simp add: text_ok_def parse_string_char)
qed

lemma parse_json_string:
  assumes "text_ok s"
  shows "parse_string (length (json_string asc s @ r)) (drop 1 (json_string asc s @ r)) = Some (s, r)"
    and "take 1 (json_string asc s @ r) = [34]"
proof -
  have "length s < length (json_string asc s @ r)"
    using length_json_chars [of s asc] by (simp add: json_string_def)
  from parse_string_json [OF assms this, of asc r]
  show "parse_string (length (json_string asc s @ r)) (drop 1 (json_string asc s @ r)) = Some (s, r)"
    by (simp add: json_string_def)
qed (simp add: json_string_def)

section \<open>Round trip of numbers\<close>

text \<open>What may follow a number: nothing that would continue it.\<close>

definition num_end :: "pystr \<Rightarrow> bool" where
  "num_end r \<longleftrightarrow> (case r of [] \<Rightarrow> True | c # _ \<Rightarrow> \<not> is_digit c \<and> c \<noteq> 46 \<and> c \<noteq> 101 \<and> c \<noteq> 69)"

lemma while_append_stop:
  "(case r of [] \<Rightarrow> True | c # _ \<Rightarrow> \<not> P c) \<Longrightarrow>
   takeWhile P (x @ r) = takeWhile P x \<and> dropWhile P (x @ r) = dropWhile P x @ r"
  by (induction x) (auto split: list.splits)

lemma digits_append_stop:
  "num_end r \<Longrightarrow> takeWhile is_digit (x @ r) = takeWhile is_digit x"
  "num_end r \<Longrightarrow> dropWhile is_digit (x @ r) = dropWhile is_digit x @ r"
  using while_append_stop [where r = r and P = is_digit and x = x] by (auto simp: num_end_def split: list.splits)

lemma lex_nat_append:
  assumes "lex_nat t = Some (i, u)" and "num_end r"
  shows "lex_nat (t @ r) = Some (i, u @ r)"
proof -
  from assms(1) obtain c t' where t: "t = c # t'" by (cases t) (auto simp: lex_nat_def)
  with assms digits_append_stop [OF assms(2), of "c # t'"] show ?thesis
    by (auto simp: lex_nat_def split: if_splits)
qed

lemma lex_int_append:
  assumes "lex_int t = Some (i, u)" and "num_end r"
  shows "lex_int (t @ r) = Some (i, u @ r)"
proof -
  from assms(1) obtain c t' where t: "t = c # t'" by (cases t) (auto simp: lex_int_def lex_nat_def)
  then have tk: "take 1 (t @ r) = take 1 t" "drop 1 (t @ r) = drop 1 t @ r" by auto
  with assms show ?thesis
    by (auto simp: lex_int_def lex_nat_append split: if_splits)
qed

lemma lex_frac_append:
  "num_end r \<Longrightarrow> lex_frac u = (f, u') \<Longrightarrow> u' = [] \<or> f \<noteq> [] \<or> take 1 u \<noteq> [46] \<Longrightarrow> lex_frac (u @ r) = (f, u' @ r)"
  by (cases u) (auto simp: lex_frac_def num_end_def digits_append_stop split: list.splits if_splits)

lemma exp_sign_append: "v \<noteq> [] \<Longrightarrow> exp_sign (v @ r) = exp_sign v"
  by (cases v) (auto simp: exp_sign_def)

lemma length_exp_sign: "length (exp_sign v) \<le> length v"
  by (simp add: exp_sign_def)

lemma lex_exp_append:
  assumes r: "num_end r" and l: "lex_exp u = (e, [])"
  shows "lex_exp (u @ r) = (e, r)"
proof (cases u)
  case Nil
  with assms show ?thesis by (auto simp: lex_exp_def num_end_def split: list.splits)
next
  case (Cons c v)
  let ?w = "drop (length (exp_sign v)) v"
  from l Cons have c: "c = 101 \<or> c = 69"
    and tw: "takeWhile is_digit ?w \<noteq> []"
    and e: "e = c # exp_sign v @ takeWhile is_digit ?w" and dw: "dropWhile is_digit ?w = []"
    by (simp_all add: lex_exp_def Let_def split: if_splits)
  from tw have "v \<noteq> []" by auto
  then have "lex_exp ((c # v) @ r) = (c # exp_sign v @ takeWhile is_digit (?w @ r), dropWhile is_digit (?w @ r))"
    using c tw length_exp_sign [of v]
    by (auto simp add: lex_exp_def Let_def exp_sign_append digits_append_stop [OF r])
  then show ?thesis using e dw Cons by (simp add: digits_append_stop [OF r])
qed

lemma parse_number_append:
  assumes p: "parse_number t = Some (x, [])" and r: "num_end r"
  shows "parse_number (t @ r) = Some (x, r)"
proof -
  from p obtain i u f u' e where
    i: "lex_int t = Some (i, u)" and f: "lex_frac u = (f, u')" and e: "lex_exp u' = (e, [])"
    and x: "x = (if f = [] \<and> e = [] then PInt (int_of_text i) else PFloat (i @ f @ e))"
    by (auto simp: parse_number_def Let_def split: option.splits prod.splits if_splits)
  have "u' = [] \<or> f \<noteq> [] \<or> take 1 u \<noteq> [46]"
  proof (rule ccontr)
    assume "\<not> ?thesis"
    with f have "u' = u" "take 1 u = [46]" by (auto simp: lex_frac_def split: if_splits)
    with e show False by (cases u) (auto simp: lex_exp_def split: if_splits)
  qed
  with f r have "lex_frac (u @ r) = (f, u' @ r)" by (intro lex_frac_append)
  moreover have "lex_int (t @ r) = Some (i, u @ r)" using i r by (rule lex_int_append)
  moreover have "lex_exp (u' @ r) = (e, r)" using r e by (rule lex_exp_append)
  ultimately show ?thesis using x by (simp add: parse_number_def)
qed

lemma lex_nat_str_nat: "lex_nat (str_nat n) = Some (str_nat n, [])"
proof -
  obtain d ds where s: "str_nat n = d # ds" by (cases "str_nat n") auto
  have dig: "\<forall>c \<in> set (d # ds). is_digit c" using str_nat_digits [of _ n] s by auto
  then have tw: "takeWhile is_digit (d # ds) = d # ds" "dropWhile is_digit (d # ds) = []"
    by (auto simp: takeWhile_eq_all_conv dropWhile_eq_Nil_conv)
  show ?thesis
  proof (cases "d = 48")
    case True
    then have "n = 0" using str_nat_leading_zero [of n] s by simp
    then have "str_nat n = [48]" by (simp add: str_nat.simps)
    then show ?thesis by (simp add: lex_nat_def)
  next
    case False
    with tw dig show ?thesis by (simp add: lex_nat_def s)
  qed
qed

lemma parse_number_str_int: "parse_number (str_int i) = Some (PInt i, [])"
proof -
  have hd: "take 1 (str_nat n) \<noteq> [45]" for n
    using str_nat_digits [of 45 n] by (cases "str_nat n") auto
  then have nn: "take (Suc 0) (str_nat n) \<noteq> [45]" for n by simp
  have "lex_int (str_int i) = Some (str_int i, [])"
    by (simp add: str_int_def lex_int_def lex_nat_str_nat nn)
  moreover have "int_of_text (str_int i) = i"
    using nn by (simp add: int_of_text_def str_int_def)
  ultimately show ?thesis by (simp add: parse_number_def lex_frac_def lex_exp_def)
qed


lemma py_Cons: "py (c # s) = of_char c # py s"
  by (simp add: py_def)

lemma strip_prefix_iff: "strip_prefix p s = Some r \<longleftrightarrow> s = p @ r"
  unfolding strip_prefix_def by (metis append_eq_conv_conj append_take_drop_id option.inject option.simps(3))

lemma strip_prefix_append [simp]: "strip_prefix p (p @ r) = Some r"
  by (simp add: strip_prefix_iff)

lemma strip_prefix_None: "strip_prefix p s = None \<longleftrightarrow> take (length p) s \<noteq> p"
  by (simp add: strip_prefix_def)

lemma lex_int_head:
  assumes "lex_int t = Some (i, u)"
  obtains c t' where "t = c # t'" "is_digit c"
  | c t' where "t = 45 # c # t'" "is_digit c"
proof -
  from assms obtain c t' where t: "t = c # t'" by (cases t) (auto simp: lex_int_def lex_nat_def)
  show thesis
  proof (cases "c = 45")
    case True
    with assms t obtain d t'' where "t' = d # t''" "is_digit d"
      by (cases t') (auto simp: lex_int_def lex_nat_def split: if_splits)
    with that(2) t True show thesis by blast
  next
    case False
    with assms t have "is_digit c" by (auto simp: lex_int_def lex_nat_def split: if_splits)
    with that(1) t show thesis by blast
  qed
qed

lemma parse_number_lex_int: "parse_number t = Some (x, r) \<Longrightarrow> \<exists>i u. lex_int t = Some (i, u)"
  by (auto simp: parse_number_def split: option.splits)

lemma parse_atom_number:
  assumes "parse_number t = Some (x, [])" and "num_end r"
  shows "parse_atom (t @ r) = Some (x, r)"
proof -
  from assms(1) obtain i u where "lex_int t = Some (i, u)" using parse_number_lex_int by blast
  then have "parse_keyword json_keywords (t @ r) = None"
    by (cases rule: lex_int_head) (simp_all add: json_keywords_def strip_prefix_def py_Cons)
  with assms show ?thesis by (simp add: parse_atom_def parse_number_append)
qed

lemma parse_atom_int: "num_end r \<Longrightarrow> parse_atom (str_int i @ r) = Some (PInt i, r)"
  by (rule parse_atom_number [OF parse_number_str_int])

lemma parse_atom_keyword:
  "parse_atom (py ''null'' @ r) = Some (PNone, r)"
  "parse_atom (py ''true'' @ r) = Some (PBool True, r)"
  "parse_atom (py ''false'' @ r) = Some (PBool False, r)"
  "parse_atom (py ''NaN'' @ r) = Some (PFloat (py ''nan''), r)"
  "parse_atom (py ''Infinity'' @ r) = Some (PFloat (py ''inf''), r)"
  "parse_atom (py ''-Infinity'' @ r) = Some (PFloat (py ''-inf''), r)"
  by (simp_all add: parse_atom_def json_keywords_def strip_prefix_def py_Cons)

lemma parse_atom_float:
  assumes "float_ok t" and "num_end r"
  shows "parse_atom (json_float t @ r) = Some (PFloat t, r)"
proof (cases "t = py ''nan'' \<or> t = py ''inf'' \<or> t = py ''-inf''")
  case True
  then show ?thesis by (elim disjE) (simp_all add: json_float_def parse_atom_keyword)
next
  case False
  with assms show ?thesis by (auto simp: json_float_def float_ok_def parse_atom_number)
qed


section \<open>Round trip of values\<close>

lemma str_int_head: "\<exists>c cs. str_int i = c # cs \<and> (is_digit c \<or> c = 45)"
proof -
  obtain a b where "lex_int (str_int i) = Some (a, b)"
    using parse_number_lex_int [OF parse_number_str_int] by blast
  then show ?thesis by (cases rule: lex_int_head) auto
qed

lemma json_float_head: "float_ok t \<Longrightarrow> \<exists>c cs. json_float t = c # cs \<and> (is_digit c \<or> c = 45 \<or> c = 78 \<or> c = 73)"
proof (cases "t = py ''nan'' \<or> t = py ''inf'' \<or> t = py ''-inf''")
  case True
  then show ?thesis by (elim disjE) (simp_all add: json_float_def py_Cons)
next
  case False
  assume "float_ok t"
  with False have "parse_number t = Some (PFloat t, [])" by (simp add: float_ok_def)
  then obtain i u where "lex_int t = Some (i, u)" using parse_number_lex_int by blast
  then show ?thesis using False by (cases rule: lex_int_head) (auto simp: json_float_def)
qed

text \<open>No value starts with white space or a closing bracket, nor an atom with an opening one.\<close>

lemma dumps_head:
  assumes "json_ok v"
  obtains c cs where "dumps o' v = c # cs" "\<not> json_ws c" "c \<noteq> 93"
proof (cases v)
  case (PInt i)
  with that str_int_head [of i] show thesis by (auto simp: json_ws_def)
next
  case (PFloat t)
  with assms that json_float_head [of t] show thesis by (fastforce simp: json_ws_def)
next
  case (PBool b)
  with that show thesis by (cases b) (auto simp: json_ws_def py_Cons)
qed (use assms that in \<open>auto simp: json_ws_def json_string_def py_Cons\<close>)

lemma dumps_atom_head:
  "take 1 (str_int i @ r) \<noteq> [34]" "take 1 (str_int i @ r) \<noteq> [91]" "take 1 (str_int i @ r) \<noteq> [123]"
  "float_ok t \<Longrightarrow> take 1 (json_float t @ r) \<noteq> [34]" "float_ok t \<Longrightarrow> take 1 (json_float t @ r) \<noteq> [91]"
  "float_ok t \<Longrightarrow> take 1 (json_float t @ r) \<noteq> [123]"
  using str_int_head [of i] json_float_head [of t] by auto

lemma parse_value_atom:
  "take 1 s \<noteq> [34] \<Longrightarrow> take 1 s \<noteq> [91] \<Longrightarrow> take 1 s \<noteq> [123] \<Longrightarrow> parse_value (Suc n) s = parse_atom s"
  by simp

lemma keyword_head:
  "take 1 (py ''null'' @ r) = [110]" "take 1 (py ''true'' @ r) = [116]" "take 1 (py ''false'' @ r) = [102]"
  by (simp_all add: py_Cons)

lemma skip_ws_id: "\<not> json_ws c \<Longrightarrow> skip_ws (c # s) = c # s"
  by simp

lemma dict_of_pairs_distinct: "distinct (map fst kvs) \<Longrightarrow> dict_of_pairs kvs = kvs"
proof -
  have "distinct (map fst (acc @ kvs)) \<Longrightarrow> fold (\<lambda>(k, v). AList.update k v) kvs acc = acc @ kvs" for acc
    by (induction kvs arbitrary: acc) (auto simp: keys_update_new)
  from this [of "[]"] show "distinct (map fst kvs) \<Longrightarrow> dict_of_pairs kvs = kvs"
    by (simp add: dict_of_pairs_def)
qed

lemma skip_item_sep: "seps_ok o' \<Longrightarrow> \<exists>u. item_sep o' = 44 # u \<and> (\<forall>c \<in> set u. json_ws c)"
  by (auto simp: seps_ok_def json_ws_def)

lemma skip_key_sep: "seps_ok o' \<Longrightarrow> \<exists>u. key_sep o' = 58 # u \<and> (\<forall>c \<in> set u. json_ws c)"
  by (auto simp: seps_ok_def json_ws_def)

lemma skip_ws_append: "\<forall>c \<in> set u. json_ws c \<Longrightarrow> skip_ws (u @ s) = skip_ws s"
  by (induction u) auto

lemma num_end_simps [simp]: "num_end []" "num_end (44 # r)" "num_end (93 # r)" "num_end (125 # r)"
  by (simp_all add: num_end_def)

lemma not_ws_simps [simp]: "\<not> json_ws 34" "\<not> json_ws 44" "\<not> json_ws 58" "\<not> json_ws 91" "\<not> json_ws 93"
  "\<not> json_ws 123" "\<not> json_ws 125"
  by (simp_all add: json_ws_def)

lemma num_end_sep: "seps_ok o' \<Longrightarrow> num_end (item_sep o' @ r)"
  using skip_item_sep [of o'] by auto

lemma length_dumps_pos: "json_ok v \<Longrightarrow> 0 < length (dumps o' v)"
  by (erule dumps_head [where o' = o']) simp

lemma parse_dumps:
  assumes seps: "seps_ok o'"
  shows "json_ok v \<Longrightarrow> length (dumps o' v) \<le> n \<Longrightarrow> num_end r \<Longrightarrow>
           parse_value n (dumps o' v @ r) = Some (v, r)"
    and "json_ok_list xs \<Longrightarrow> xs \<noteq> [] \<Longrightarrow> length (dumps_items o' xs) < m \<Longrightarrow>
           parse_items m (dumps_items o' xs @ 93 # r') = Some (xs, r')"
    and "json_ok_pairs kvs \<Longrightarrow> kvs \<noteq> [] \<Longrightarrow> length (dumps_pairs o' kvs) < k \<Longrightarrow>
           parse_members k (dumps_pairs o' kvs @ 125 # r'') = Some (kvs, r'')"
proof (induction v and xs and kvs arbitrary: n r and m r' and k r''
    rule: json_ok_json_ok_list_json_ok_pairs.induct)
  case (6 xs)
  then obtain m where n: "n = Suc m" by (cases n) auto
  show ?case
  proof (cases xs)
    case Nil
    then show ?thesis by (simp add: n)
  next
    case (Cons x ys)
    with 6 have "json_ok x" by simp
    then obtain c cs where c: "dumps o' x = c # cs" "\<not> json_ws c" "c \<noteq> 93" by (rule dumps_head)
    have "parse_items m (dumps_items o' xs @ 93 # r) = Some (xs, r)"
      using 6 Cons n by simp
    then show ?thesis using c Cons n by simp
  qed
next
  case (7 kvs)
  then obtain m where n: "n = Suc m" by (cases n) auto
  show ?case
  proof (cases kvs)
    case Nil
    then show ?thesis by (simp add: n dict_of_pairs_def)
  next
    case (Cons p ys)
    obtain key v where p: "p = (key, v)" by (cases p)
    have "parse_members m (dumps_pairs o' kvs @ 125 # r) = Some (kvs, r)"
      using 7 Cons n by simp
    moreover have "\<exists>u. dumps_pairs o' kvs = 34 # u" using Cons p by (simp add: json_string_def)
    ultimately show ?thesis using n 7 by (auto simp: dict_of_pairs_distinct)
  qed
next
  case (10 x xs)
  then obtain m' where m: "m = Suc m'" by (cases m) auto
  show ?case
  proof (cases "xs = []")
    case True
    with 10 m show ?thesis by simp
  next
    case False
    from seps obtain u where u: "item_sep o' = 44 # u" "\<forall>c \<in> set u. json_ws c" using skip_item_sep by blast
    from False 10 have "json_ok (hd xs)" by (cases xs) auto
    then obtain c cs where c: "dumps o' (hd xs) = c # cs" "\<not> json_ws c" "c \<noteq> 93" by (rule dumps_head)
    then have sk: "skip_ws (dumps_items o' xs @ 93 # r') = dumps_items o' xs @ 93 # r'"
      using False by (cases xs) auto
    have "length (dumps_items o' xs) < m'" using 10(5) m u False by simp
    then have tl: "parse_items m' (dumps_items o' xs @ 93 # r') = Some (xs, r')"
      using 10 False by simp
    have hd: "parse_value m' (dumps o' x @ 44 # u @ dumps_items o' xs @ 93 # r')
        = Some (x, 44 # u @ dumps_items o' xs @ 93 # r')"
      using 10 m u False by simp
    show ?thesis using False m u hd tl sk by (simp add: skip_ws_append)
  qed
next
  case (12 key v kvs)
  then obtain k' where k: "k = Suc k'" by (cases k) auto
  from seps obtain w where w: "key_sep o' = 58 # w" "\<forall>c \<in> set w. json_ws c" using skip_key_sep by blast
  from 12 have "json_ok v" by simp
  then obtain c cs where c: "dumps o' v = c # cs" "\<not> json_ws c" "c \<noteq> 93" by (rule dumps_head)
  have tk: "text_ok key" using 12 by simp
  show ?case
  proof (cases "kvs = []")
    case True
    let ?r = "58 # w @ dumps o' v @ 125 # r''"
    have "parse_value k' (dumps o' v @ 125 # r'') = Some (v, 125 # r'')"
      using 12 k w True by simp
    then show ?thesis using True k w c parse_json_string [OF tk, of "ensure_ascii o'" ?r]
      by (simp add: skip_ws_append)
  next
    case False
    from seps obtain u where u: "item_sep o' = 44 # u" "\<forall>c \<in> set u. json_ws c" using skip_item_sep by blast
    let ?t = "dumps_pairs o' kvs @ 125 # r''"
    let ?r = "58 # w @ dumps o' v @ 44 # u @ ?t"
    have "\<exists>z. dumps_pairs o' kvs = 34 # z" using False by (cases kvs) (auto simp: json_string_def)
    then have sk: "skip_ws ?t = ?t" by auto
    have hd: "parse_value k' (dumps o' v @ 44 # u @ ?t) = Some (v, 44 # u @ ?t)"
      using 12 k w u False by simp
    have tl: "parse_members k' ?t = Some (kvs, r'')"
      using 12 k w u False by simp
    show ?thesis using False k w u c hd tl sk parse_json_string [OF tk, of "ensure_ascii o'" ?r]
      by (simp add: skip_ws_append)
  qed
next
  case 1
  then show ?case using keyword_head [of r]
    by (cases n) (simp_all add: parse_atom_keyword)
next
  case (2 b)
  then show ?case using keyword_head [of r]
    by (cases n; cases b) (simp_all add: parse_atom_keyword)
next
  case (3 i)
  then show ?case using length_dumps_pos [of "PInt i" o'] dumps_atom_head(1-3) [of i r]
    by (cases n) (simp_all add: parse_atom_int)
next
  case (4 t)
  then show ?case using length_dumps_pos [of "PFloat t" o'] dumps_atom_head(4-6) [of t r]
    by (cases n) (simp_all add: parse_atom_float)
next
  case (5 s)
  then show ?case using length_dumps_pos [of "PStr s" o'] parse_json_string [of s "ensure_ascii o'" r]
    by (cases n) simp_all
qed simp_all

text \<open>What \<open>dumps\<close> wrote, \<open>loads\<close> reads back.\<close>

lemma loads_dumps:
  assumes "seps_ok o'" and "json_ok v"
  shows "loads (dumps o' v) = Some v"
proof -
  from assms(2) obtain c cs where c: "dumps o' v = c # cs" "\<not> json_ws c" "c \<noteq> 93" by (rule dumps_head)
  have "parse_value (Suc (length (dumps o' v))) (dumps o' v @ []) = Some (v, [])"
    using assms by (intro parse_dumps(1)) simp_all
  with c show ?thesis by (simp add: loads_def)
qed

lemma dumps_inject:
  "seps_ok o' \<Longrightarrow> json_ok v \<Longrightarrow> json_ok w \<Longrightarrow> dumps o' v = dumps o' w \<longleftrightarrow> v = w"
  using loads_dumps by (metis option.inject)

lemma seps_ok_opts [simp]: "seps_ok compact_json" "seps_ok default_json"
  by (simp_all add: seps_ok_def compact_json_def default_json_def py_Cons)

lemma not_json_ok:
  "json_ok v \<Longrightarrow> not_json v = None"
  "json_ok_list xs \<Longrightarrow> not_json_list xs = None"
  "json_ok_pairs kvs \<Longrightarrow> not_json_pairs kvs = None"
  by (induction v and xs and kvs rule: json_ok_json_ok_list_json_ok_pairs.induct) auto

section \<open>Sorting keys\<close>

lemma set_fst_sort_keys_pairs: "map fst (sort_keys_pairs kvs) = map fst kvs"
  by (induction kvs) auto

lemma json_ok_pairs_set: "json_ok_pairs kvs \<longleftrightarrow> (\<forall>(k, v) \<in> set kvs. text_ok k \<and> json_ok v)"
  by (induction kvs) auto

lemma json_ok_sort_keys:
  "json_ok v \<Longrightarrow> json_ok (sort_keys v)"
  "json_ok_list xs \<Longrightarrow> json_ok_list (sort_keys_list xs)"
  "json_ok_pairs kvs \<Longrightarrow> json_ok_pairs (sort_keys_pairs kvs)"
proof (induction v and xs and kvs rule: json_ok_json_ok_list_json_ok_pairs.induct)
  case (7 kvs)
  then have "distinct (map fst (sort_keys_pairs kvs))" by (simp add: set_fst_sort_keys_pairs)
  then have "distinct (map fst (sort_key fst (sort_keys_pairs kvs)))"
    by (simp add: distinct_map)
  with 7 show ?case by (simp add: json_ok_pairs_set)
qed auto

end
