(* ===== verification/Agent_Models.thy ===== *)
theory Agent_Models
  imports Complex_Main Json
begin

text \<open>
  The data of \<open>app/agent/models.py\<close>, \<open>app/llm/base.py\<close> and \<open>app/tools/definitions.py\<close>:
  pydantic models as records, string literals with a closed set of values as datatypes.
  Counters that pydantic keeps non-negative are \<open>nat\<close>; durations are rationals (floats
  without their rounding).
\<close>

datatype chat_role = RoleSystem | RoleUser | RoleAssistant | RoleTool

type_synonym arguments = "(pystr \<times> pyval) list"

record tool_call =
  tc_id :: pystr
  tc_name :: pystr
  tc_arguments :: arguments

record chat_message =
  cm_role :: chat_role
  cm_content :: "pystr option"
  cm_name :: "pystr option"
  cm_tool_call_id :: "pystr option"
  cm_tool_calls :: "tool_call list"

definition message :: "chat_role \<Rightarrow> pystr option \<Rightarrow> chat_message" where
  "message r c = \<lparr>cm_role = r, cm_content = c, cm_name = None, cm_tool_call_id = None, cm_tool_calls = []\<rparr>"

lemma message_simps [simp]:
  "cm_role (message r c) = r" "cm_content (message r c) = c" "cm_name (message r c) = None"
  "cm_tool_call_id (message r c) = None" "cm_tool_calls (message r c) = []"
  by (simp_all add: message_def)

record token_usage =
  input_tokens :: nat
  output_tokens :: nat

definition total_tokens :: "token_usage \<Rightarrow> nat" where
  "total_tokens u = input_tokens u + output_tokens u"

definition usage_zero :: token_usage where
  "usage_zero = \<lparr>input_tokens = 0, output_tokens = 0\<rparr>"

definition usage_add :: "token_usage \<Rightarrow> token_usage \<Rightarrow> token_usage" where
  "usage_add u v = \<lparr>input_tokens = input_tokens u + input_tokens v,
                    output_tokens = output_tokens u + output_tokens v\<rparr>"

definition usage_sum :: "token_usage list \<Rightarrow> token_usage" where
  "usage_sum us = foldl usage_add usage_zero us"

lemma usage_sum_simps [simp]:
  "usage_sum [] = usage_zero" "usage_sum (us @ [u]) = usage_add (usage_sum us) u"
  by (simp_all add: usage_sum_def)

lemma total_usage [simp]:
  "total_tokens usage_zero = 0" "total_tokens (usage_add u v) = total_tokens u + total_tokens v"
  by (simp_all add: total_tokens_def usage_zero_def usage_add_def)

lemma total_usage_sum: "total_tokens (usage_sum us) = sum_list (map total_tokens us)"
  by (induction us rule: rev_induct) auto

record llm_response =
  lr_content :: "pystr option"
  lr_tool_calls :: "tool_call list"
  lr_usage :: token_usage
  lr_finish_reason :: "pystr option"

record tool_execution =
  te_tool_call_id :: pystr
  te_tool_name :: pystr
  te_arguments :: arguments
  te_result :: pyval
  te_error :: "pystr option"
  te_duration_ms :: rat

record agent_step =
  as_step :: nat
  as_assistant_content :: "pystr option"
  as_tool_calls :: "tool_call list"
  as_tool_executions :: "tool_execution list"
  as_usage :: token_usage

record agent_config =
  max_steps :: nat
  max_total_tokens :: nat
  max_tool_calls_per_step :: nat
  max_tool_budget_retries :: nat
  max_parallel_tools :: nat
  context_char_budget :: nat
  keep_recent_tool_results :: nat
  parallel_tool_calls :: bool
  stream_model :: bool
  max_tool_result_chars :: nat

definition default_config :: agent_config where
  "default_config = \<lparr>max_steps = 10, max_total_tokens = 49152, max_tool_calls_per_step = 3,
     max_tool_budget_retries = 1, max_parallel_tools = 3, context_char_budget = 24000,
     keep_recent_tool_results = 6, parallel_tool_calls = True, stream_model = True,
     max_tool_result_chars = 16000\<rparr>"

text \<open>The field constraints pydantic enforces when a configuration is built.\<close>

definition config_ok :: "agent_config \<Rightarrow> bool" where
  "config_ok c \<longleftrightarrow> 1 \<le> max_steps c \<and> 1 \<le> max_total_tokens c \<and> 1 \<le> max_tool_calls_per_step c
     \<and> max_tool_budget_retries c \<le> 2 \<and> 1 \<le> max_parallel_tools c \<and> 4000 \<le> context_char_budget c
     \<and> 1 \<le> keep_recent_tool_results c \<and> keep_recent_tool_results c \<le> 20
     \<and> 256 \<le> max_tool_result_chars c"

lemma default_config_ok [simp]: "config_ok default_config"
  by (simp add: config_ok_def default_config_def)

datatype agent_status =
  Completed | MaxSteps | ToolBudgetExceeded | TokenBudgetExceeded | LoopDetected

fun status_text :: "agent_status \<Rightarrow> pystr" where
  "status_text Completed = py ''completed''"
| "status_text MaxSteps = py ''max_steps''"
| "status_text ToolBudgetExceeded = py ''tool_budget_exceeded''"
| "status_text TokenBudgetExceeded = py ''token_budget_exceeded''"
| "status_text LoopDetected = py ''loop_detected''"

record agent_run_result =
  rr_status :: agent_status
  rr_output :: "pystr option"
  rr_termination_reason :: "pystr option"
  rr_messages :: "chat_message list"
  rr_steps :: "agent_step list"
  rr_usage :: token_usage

text \<open>The four shapes of \<open>AgentStreamEvent\<close> the loop yields, by their \<open>type\<close>.\<close>

datatype agent_stream_event =
    TextDelta pystr
  | TextReset
  | StepEvent agent_step
  | CompletedEvent agent_run_result

section \<open>Model streams (\<open>llm/base.py\<close>)\<close>

record tool_call_delta =
  td_index :: nat
  td_id :: "pystr option"
  td_name :: "pystr option"
  td_arguments_delta :: "pystr option"

datatype stream_event_type = TextDeltaT | ToolCallDeltaT | UsageT | FinishT

record stream_event =
  se_type :: stream_event_type
  se_content_delta :: "pystr option"
  se_tool_call_delta :: "tool_call_delta option"
  se_usage :: "token_usage option"
  se_finish_reason :: "pystr option"

definition stream_event :: "stream_event_type \<Rightarrow> stream_event" where
  "stream_event t = \<lparr>se_type = t, se_content_delta = None, se_tool_call_delta = None,
                     se_usage = None, se_finish_reason = None\<rparr>"

section \<open>Tool definitions (\<open>tools/definitions.py\<close>)\<close>

record tool_definition =
  fd_name :: pystr
  fd_description :: pystr
  fd_parameters :: arguments

text \<open>
  The model as the loop sees it: \<open>chat\<close>, and \<open>chat_stream\<close> where the object has it.  A call
  may change the world \<open>'w\<close>; a stream yields events and then ends or raises.
\<close>

record 'w chat_model =
  chat :: "'w \<Rightarrow> chat_message list \<Rightarrow> tool_definition list \<Rightarrow> uuid option \<Rightarrow> llm_response pyres \<times> 'w"
  chat_stream :: "('w \<Rightarrow> chat_message list \<Rightarrow> tool_definition list \<Rightarrow> uuid option \<Rightarrow>
                   stream_event list \<times> py_exc option \<times> 'w) option"

end
