(* ===== verification/Context_Compaction.thy ===== *)
theory Context_Compaction
  imports Agent_Models
begin

text \<open>
  Context compaction in \<open>app/agent/loop.py\<close>: \<open>Agent._compacted_messages\<close> and
  \<open>_compact_tool_content\<close>.  Every request to the model is compacted: all but the most recent
  tool results become summaries, and if the conversation is still over its character budget
  every tool result is summarised without rows and older messages are cut to 500 characters.
  The loop never writes the compacted copies back.
\<close>

section \<open>\<open>_compact_tool_content\<close>\<close>

definition sql_tool :: "pystr \<Rightarrow> bool" where
  "sql_tool name \<longleftrightarrow> name = py ''run_sql'' \<or> name = py ''mcp__query_company_data''"

fun list_value :: "pyval \<Rightarrow> pyval list option" where
  "list_value (PList xs) = Some xs"
| "list_value _ = None"

text \<open>The summary of one column of \<open>get_schema\<close>; what is not a dictionary is skipped.\<close>

fun column_summary :: "pyval list \<Rightarrow> pyval list" where
  "column_summary [] = []"
| "column_summary (PDict c # cs) =
     pdict [(''name'', dget c ''name''), (''data_type'', dget c ''data_type'')] # column_summary cs"
| "column_summary (_ # cs) = column_summary cs"

definition or_empty :: "pyval \<Rightarrow> pyval" where
  "or_empty v = (if truthy v then v else PStr [])"

definition result_summary :: "pystr \<Rightarrow> bool \<Rightarrow> pyval \<Rightarrow> pyval" where
  "result_summary tool include_rows result =
     (case result of
        PDict r \<Rightarrow>
          if sql_tool tool then
            PDict ([(py ''columns'', dget r ''columns''), (py ''row_count'', dget r ''row_count''),
                    (py ''truncated'', dget r ''truncated'')]
              @ (case list_value (dget r ''rows'') of
                   Some rows \<Rightarrow> if include_rows then [(py ''sample_rows'', PList (take 2 rows))] else []
                 | None \<Rightarrow> []))
          else if tool = py ''get_schema'' then
            pdict [(''table_name'', dget r ''table_name''),
                   (''columns'', PList (case list_value (dget r ''columns'') of
                       Some cs \<Rightarrow> column_summary cs | None \<Rightarrow> []))]
          else if tool = py ''list_tables'' then
            pdict [(''tables'', dget r ''tables''), (''count'', dget r ''count'')]
          else if tool = py ''run_python'' then
            pdict [(''ok'', dget r ''ok''),
                   (''stdout'', PStr (take 500 (py_str (or_empty (dget r ''stdout''))))),
                   (''stderr'', PStr (take 500 (py_str (or_empty (dget r ''stderr''))))),
                   (''truncated'', dget r ''truncated''),
                   (''artifact_count'', PInt (case list_value (dget r ''artifacts'') of
                       Some xs \<Rightarrow> int (length xs) | None \<Rightarrow> 0))]
          else PStr (take 500 (py_str result))
      | _ \<Rightarrow> PStr (take 500 (py_str result)))"

text \<open>\<open>payload.get\<close> on a JSON value that is not an object is an \<open>AttributeError\<close>.\<close>

fun json_class :: "pyval \<Rightarrow> pystr" where
  "json_class PNone = py ''NoneType''"
| "json_class (PBool _) = py ''bool''"
| "json_class (PInt _) = py ''int''"
| "json_class (PFloat _) = py ''float''"
| "json_class (PStr _) = py ''str''"
| "json_class (PList _) = py ''list''"
| "json_class _ = py ''object''"

definition compact_tool_content :: "pystr \<Rightarrow> pystr \<Rightarrow> bool \<Rightarrow> pystr pyres" where
  "compact_tool_content tool content include_rows =
     (case loads content of
        None \<Rightarrow> json_dumps compact_json (pdict [(''compacted'', PBool True), (''tool'', PStr tool),
                 (''preview'', PStr (take 500 content))])
      | Some (PDict payload) \<Rightarrow>
          json_dumps compact_json (pdict [(''compacted'', PBool True), (''tool'', PStr tool),
                 (''ok'', dget payload ''ok''),
                 (''summary'', result_summary tool include_rows (dget payload ''result''))])
      | Some v \<Rightarrow> raise_exc ''AttributeError''
                 ([39] @ json_class v @ [39] @ py '' object has no attribute '' @ [39] @ py ''get'' @ [39]))"

section \<open>\<open>Agent._compacted_messages\<close>\<close>

definition content_or :: "pystr \<Rightarrow> pystr option \<Rightarrow> pystr" where
  "content_or d c = (case c of None \<Rightarrow> d | Some s \<Rightarrow> if s = [] then d else s)"

abbreviation content_text :: "chat_message \<Rightarrow> pystr" where
  "content_text m \<equiv> content_or [] (cm_content m)"

definition compact_message :: "bool \<Rightarrow> chat_message \<Rightarrow> chat_message pyres" where
  "compact_message include_rows m =
     (case compact_tool_content (content_or (py ''tool'') (cm_name m)) (content_text m) include_rows of
        Inl e \<Rightarrow> Inl e
      | Inr s \<Rightarrow> Inr (m\<lparr>cm_content := Some s\<rparr>))"

definition indexes :: "('a \<Rightarrow> bool) \<Rightarrow> 'a list \<Rightarrow> nat list" where
  "indexes P xs = filter (\<lambda>i. P (xs ! i)) [0..<length xs]"

text \<open>\<open>xs[:-k]\<close>; with \<open>k = 0\<close> the slice is empty.\<close>

definition drop_last :: "nat \<Rightarrow> 'a list \<Rightarrow> 'a list" where
  "drop_last k xs = (if k = 0 then [] else take (length xs - k) xs)"

text \<open>\<open>xs[-k:]\<close> for a positive \<open>k\<close>.\<close>

definition last_n :: "nat \<Rightarrow> 'a list \<Rightarrow> 'a list" where
  "last_n k xs = drop (length xs - k) xs"

definition is_tool :: "chat_message \<Rightarrow> bool" where
  "is_tool m \<longleftrightarrow> cm_role m = RoleTool"

definition total_chars :: "chat_message list \<Rightarrow> nat" where
  "total_chars ms = sum_list (map (\<lambda>m. length (content_text m)) ms)"

text \<open>The first pass summarises the old tool results.\<close>

definition compact_old :: "nat \<Rightarrow> chat_message list \<Rightarrow> chat_message list pyres" where
  "compact_old keep ms =
     (let old = drop_last keep (indexes is_tool ms)
      in map_res (\<lambda>i. if i \<in> set old then compact_message True (ms ! i) else Inr (ms ! i)) [0..<length ms])"

text \<open>The second pass, when the first left too much.\<close>

definition cut_message :: "chat_message \<Rightarrow> chat_message" where
  "cut_message m = (if cm_role m \<noteq> RoleSystem \<and> content_text m \<noteq> []
                    then m\<lparr>cm_content := Some (take 500 (content_text m))\<rparr> else m)"

definition compact_all :: "chat_message list \<Rightarrow> chat_message list pyres" where
  "compact_all ms =
     (let recent = last_n 6 (indexes (\<lambda>m. \<not> is_tool m) ms)
      in map_res (\<lambda>i. if is_tool (ms ! i) then compact_message False (ms ! i)
                      else if i \<notin> set recent then Inr (cut_message (ms ! i))
                      else Inr (ms ! i)) [0..<length ms])"

definition compacted_messages :: "agent_config \<Rightarrow> chat_message list \<Rightarrow> chat_message list pyres" where
  "compacted_messages cfg ms =
     (case compact_old (keep_recent_tool_results cfg) ms of
        Inl e \<Rightarrow> Inl e
      | Inr ms' \<Rightarrow> if total_chars ms' \<le> context_char_budget cfg then Inr ms' else compact_all ms')"

section \<open>What JSON can carry, and what never fails\<close>

lemma text_ok_take: "text_ok s \<Longrightarrow> text_ok (take n s)"
  by (auto simp: text_ok_def dest: in_set_takeD)

text \<open>A text that opens a brace is a JSON object if it is JSON at all.\<close>

definition opens_object :: "pystr \<Rightarrow> bool" where
  "opens_object s \<longleftrightarrow> take 1 s = [123]"

lemma opens_object_take: "opens_object s \<Longrightarrow> 0 < n \<Longrightarrow> opens_object (take n s)"
  by (simp add: opens_object_def min_def)

lemma opens_object_dumps: "opens_object (dumps o' (PDict kvs))"
  by (simp add: opens_object_def)

lemma loads_opens_object: "opens_object s \<Longrightarrow> loads s = Some v \<Longrightarrow> is_dict v"
proof -
  assume "opens_object s"
  then obtain r where s: "s = 123 # r" by (cases s) (auto simp: opens_object_def)
  assume "loads s = Some v"
  then obtain u where "parse_value (Suc (length s)) s = Some (v, u)"
    using s by (auto simp: loads_def json_ws_def simp del: parse_value.simps split: option.splits if_splits)
  moreover have "parse_value (Suc n) (123 # r) = Some (v, u) \<Longrightarrow> is_dict v" for n
    by (auto split: if_splits)
  ultimately show "is_dict v" using s by metis
qed

text \<open>Values \<open>loads\<close> returns contain JSON types only, and so do the parts summaries are made of.\<close>

lemma parse_atom_not_json: "parse_atom s = Some (v, r) \<Longrightarrow> not_json v = None"
  by (auto simp: parse_atom_def json_keywords_def parse_number_def Let_def case_prod_unfold
      split: option.splits if_splits)

lemma not_json_pairs_update:
  "not_json_pairs d = None \<Longrightarrow> not_json v = None \<Longrightarrow> not_json_pairs (AList.update k v d) = None"
  by (induction d) (auto split: option.splits)

lemma not_json_pairs_of_pairs: "not_json_pairs ps = None \<Longrightarrow> not_json_pairs (dict_of_pairs ps) = None"
proof -
  have "not_json_pairs ps = None \<Longrightarrow> not_json_pairs d = None \<Longrightarrow>
      not_json_pairs (fold (\<lambda>(k, v). AList.update k v) ps d) = None" for d
    by (induction ps arbitrary: d) (auto simp: not_json_pairs_update split: option.splits)
  then show "not_json_pairs ps = None \<Longrightarrow> ?thesis" by (simp add: dict_of_pairs_def)
qed

lemma parse_value_not_json:
  "parse_value n s = Some (v, r) \<Longrightarrow> not_json v = None"
  "parse_items n s = Some (vs, r) \<Longrightarrow> not_json_list vs = None"
  "parse_members n s = Some (ps, r) \<Longrightarrow> not_json_pairs ps = None"
proof (induction n s and n s and n s arbitrary: v r and vs r and ps r
    rule: parse_value_parse_items_parse_members.induct)
  case (2 n s)
  then show ?case
    by (auto simp: not_json_pairs_of_pairs parse_atom_not_json split: if_splits)
next
  case (4 n s)
  from "4.prems" obtain x u where x: "parse_value n s = Some (x, u)"
    by (auto split: option.splits)
  with 4 show ?case by (auto split: if_splits)
next
  case (6 n s)
  from "6.prems" obtain k t x u where k: "take 1 s = [34]" "parse_string (length s) (drop 1 s) = Some (k, t)"
    "take 1 (skip_ws t) = [58]" and x: "parse_value n (skip_ws (drop 1 (skip_ws t))) = Some (x, u)"
    by (auto split: option.splits if_splits)
  have vx: "not_json x = None" by (rule "6.IH"(1) [OF _ k(2) refl _ x]) (use k in simp_all)
  show ?case
  proof (cases "take 1 (skip_ws u) = [125]")
    case True
    with "6.prems" k x vx show ?thesis by auto
  next
    case False
    with "6.prems" k x obtain ps' where sep: "take 1 (skip_ws u) = [44]"
      and rest: "parse_members n (skip_ws (drop 1 (skip_ws u))) = Some (ps', r)" and ps: "ps = (k, x) # ps'"
      by (auto split: if_splits)
    have "not_json_pairs ps' = None"
      by (rule "6.IH"(2) [OF _ k(2) refl _ x refl _ _ rest]) (use k False sep in simp_all)
    with vx ps show ?thesis by simp
  qed
qed simp_all

lemma loads_not_json: "loads s = Some v \<Longrightarrow> not_json v = None"
  by (auto simp: loads_def parse_value_not_json simp del: parse_value.simps split: option.splits if_splits)

lemma not_json_dget: "not_json_pairs d = None \<Longrightarrow> not_json (dget d k) = None"
proof -
  assume d: "not_json_pairs d = None"
  have "not_json v = None" if "map_of d (py k) = Some v" for v
    using d that by (induction d) (auto split: option.splits if_splits)
  then show ?thesis by (auto simp: dget_def split: option.splits)
qed

lemma not_json_list_take: "not_json_list xs = None \<Longrightarrow> not_json_list (take n xs) = None"
  by (induction xs arbitrary: n) (auto simp: take_Cons split: nat.splits option.splits)

lemma not_json_columns: "not_json_list cs = None \<Longrightarrow> not_json_list (column_summary cs) = None"
proof (induction cs rule: column_summary.induct)
  case (2 c cs)
  then show ?case by (cases "not_json_pairs c") (simp_all add: not_json_dget)
qed (auto split: option.splits)

lemma not_json_list_value: "not_json v = None \<Longrightarrow> list_value v = Some xs \<Longrightarrow> not_json_list xs = None"
  by (cases v) auto

lemma not_json_list_get:
  "not_json_pairs d = None \<Longrightarrow> list_value (dget d k) = Some xs \<Longrightarrow> not_json_list xs = None"
  using not_json_dget not_json_list_value by blast

lemma not_json_summary_columns:
  assumes "not_json_pairs d = None"
  shows "not_json_list (case list_value (dget d k) of Some cs \<Rightarrow> column_summary cs | None \<Rightarrow> []) = None"
proof (cases "list_value (dget d k)")
  case (Some cs)
  with not_json_columns [OF not_json_list_get [OF assms Some]] show ?thesis by simp
qed simp

lemma not_json_sample_rows:
  assumes "not_json_pairs d = None"
  shows "not_json_pairs (case list_value (dget d k) of
      Some xs \<Rightarrow> if rows then [(k', PList (take n xs))] else [] | None \<Rightarrow> []) = None"
proof (cases "list_value (dget d k)")
  case (Some xs)
  with not_json_list_take [OF not_json_list_get [OF assms Some]] show ?thesis by simp
qed simp

lemma result_summary_json:
  assumes "not_json v = None"
  shows "not_json (result_summary tool rows v) = None"
proof (cases v)
  case (PDict r)
  with assms have "not_json_pairs r = None" by simp
  note facts = not_json_dget [OF this] not_json_summary_columns [OF this] not_json_sample_rows [OF this]
  show ?thesis unfolding PDict result_summary_def by (simp add: facts)
qed (simp_all add: result_summary_def)

lemma compact_tool_content_ok:
  assumes "opens_object content \<or> loads content = None"
  obtains kvs where "compact_tool_content tool content rows = Inr (dumps compact_json (PDict kvs))"
proof (cases "loads content")
  case None
  then have "compact_tool_content tool content rows = Inr (dumps compact_json
      (pdict [(''compacted'', PBool True), (''tool'', PStr tool), (''preview'', PStr (take 500 content))]))"
    by (simp add: compact_tool_content_def json_dumps_def del: dumps.simps)
  then show thesis by (rule that)
next
  case (Some v)
  with assms obtain d where v: "v = PDict d" using loads_opens_object by (cases v) fastforce+
  with Some have "not_json_pairs d = None" using loads_not_json by fastforce
  with Some v show thesis
    using that by (simp add: compact_tool_content_def json_dumps_def not_json_dget result_summary_json
        del: dumps.simps)
qed

section \<open>What compaction keeps\<close>

text \<open>A compacted message differs from its original at most in its content.\<close>

definition same_frame :: "chat_message \<Rightarrow> chat_message \<Rightarrow> bool" where
  "same_frame m m' \<longleftrightarrow> m' = m\<lparr>cm_content := cm_content m'\<rparr>"

lemma same_frame_refl [simp, intro]: "same_frame m m"
  by (simp add: same_frame_def)

lemma same_frame_content [simp, intro]: "same_frame m (m\<lparr>cm_content := c\<rparr>)"
  by (simp add: same_frame_def)

lemma same_frame_trans: "same_frame a b \<Longrightarrow> same_frame b c \<Longrightarrow> same_frame a c"
  unfolding same_frame_def by (metis chat_message.select_convs(2) chat_message.surjective chat_message.update_convs(2))

lemma same_frame_fields:
  "same_frame m m' \<Longrightarrow> cm_role m' = cm_role m \<and> cm_name m' = cm_name m
     \<and> cm_tool_call_id m' = cm_tool_call_id m \<and> cm_tool_calls m' = cm_tool_calls m"
  unfolding same_frame_def by (metis chat_message.surjective chat_message.select_convs chat_message.update_convs(2))

lemma compact_message_frame: "compact_message b m = Inr m' \<Longrightarrow> same_frame m m'"
  by (auto simp: compact_message_def split: sum.splits)

lemma cut_message_frame: "same_frame m (cut_message m)"
  by (simp add: cut_message_def)

lemma map_res_upt:
  "map_res f [0..<n] = Inr ys \<Longrightarrow> length ys = n \<and> (\<forall>i < n. f i = Inr (ys ! i))"
  by (auto simp: map_res_Inr list_all2_conv_all_nth)

lemma compact_old_nth:
  assumes "compact_old keep ms = Inr ms'"
  shows "length ms' = length ms" and "i < length ms \<Longrightarrow>
     if i \<in> set (drop_last keep (indexes is_tool ms)) then compact_message True (ms ! i) = Inr (ms' ! i)
     else ms' ! i = ms ! i"
  using map_res_upt [OF assms [unfolded compact_old_def Let_def]] by (auto split: if_splits)

lemma compact_all_nth:
  assumes "compact_all ms = Inr ms'"
  shows "length ms' = length ms" and "i < length ms \<Longrightarrow>
     if is_tool (ms ! i) then compact_message False (ms ! i) = Inr (ms' ! i)
     else if i \<in> set (last_n 6 (indexes (\<lambda>m. \<not> is_tool m) ms)) then ms' ! i = ms ! i
     else ms' ! i = cut_message (ms ! i)"
  using map_res_upt [OF assms [unfolded compact_all_def Let_def]] by (auto split: if_splits)

lemma compact_old_frame: "compact_old keep ms = Inr ms' \<Longrightarrow> list_all2 same_frame ms ms'"
proof -
  assume ok: "compact_old keep ms = Inr ms'"
  have "same_frame (ms ! i) (ms' ! i)" if "i < length ms" for i
    using compact_old_nth(2) [OF ok that] by (auto split: if_splits intro: compact_message_frame cut_message_frame)
  with compact_old_nth(1) [OF ok] show ?thesis by (simp add: list_all2_conv_all_nth)
qed

lemma compact_all_frame: "compact_all ms = Inr ms' \<Longrightarrow> list_all2 same_frame ms ms'"
proof -
  assume ok: "compact_all ms = Inr ms'"
  have "same_frame (ms ! i) (ms' ! i)" if "i < length ms" for i
    using compact_all_nth(2) [OF ok that] by (auto split: if_splits intro: compact_message_frame cut_message_frame)
  with compact_all_nth(1) [OF ok] show ?thesis by (simp add: list_all2_conv_all_nth)
qed

lemma compacted_frame:
  assumes "compacted_messages cfg ms = Inr ms'"
  shows "list_all2 same_frame ms ms'"
proof (cases "compact_old (keep_recent_tool_results cfg) ms")
  case (Inr ms1)
  show ?thesis
  proof (cases "total_chars ms1 \<le> context_char_budget cfg")
    case True
    with Inr assms compact_old_frame show ?thesis by (auto simp: compacted_messages_def)
  next
    case False
    with Inr assms have "compact_all ms1 = Inr ms'" by (simp add: compacted_messages_def)
    then have "list_all2 same_frame ms1 ms'" by (rule compact_all_frame)
    with compact_old_frame [OF Inr] show ?thesis by (rule list_all2_trans [rotated]) (rule same_frame_trans)
  qed
qed (use assms in \<open>simp add: compacted_messages_def\<close>)

end
