(* ===== verification/Tool_Registry.thy ===== *)
theory Tool_Registry
  imports Agent_Models
begin

text \<open>
  \<open>app/tools/registry.py\<close>: a registered tool, its definition, its invocation, and the
  registry with \<open>register\<close>, \<open>get\<close>, \<open>definitions\<close> and \<open>replace_prefix\<close>.

  The input model of a tool is a pydantic class built at run time; the registry only asks it
  for its JSON schema and to validate arguments, so it is a record of these two functions.
  The JSON schema validator (\<open>jsonschema\<close>) is the parameter \<open>schema_error\<close>: the message of
  the first violation, if any.  \<open>definition\<close> calls \<open>setdefault\<close> on the tool's own schema, a
  mutation that later validations see: the functions below return the updated tool.
\<close>

section \<open>Tools\<close>

record input_model =
  im_schema :: arguments
  im_validate :: "arguments \<Rightarrow> arguments pyres"

record 'w registered_tool =
  rt_name :: pystr
  rt_description :: pystr
  rt_input_model :: "input_model option"
  rt_handler :: "arguments \<Rightarrow> 'w \<Rightarrow> pyval pyres \<times> 'w"
  rt_parallel_safe :: bool
  rt_input_schema :: "arguments option"

definition set_default :: "pystr \<Rightarrow> pyval \<Rightarrow> arguments \<Rightarrow> arguments" where
  "set_default k v d = (if k \<in> set (dict_keys d) then d else AList.update k v d)"

definition closed_schema :: "arguments \<Rightarrow> arguments" where
  "closed_schema = set_default (py ''additionalProperties'') (PBool False)"

definition rt_definition :: "'w registered_tool \<Rightarrow> (tool_definition \<times> 'w registered_tool) pyres" where
  "rt_definition t =
     (case rt_input_model t of
        Some m \<Rightarrow> Inr (\<lparr>fd_name = rt_name t, fd_description = rt_description t,
                        fd_parameters = closed_schema (im_schema m)\<rparr>, t)
      | None \<Rightarrow>
          (case rt_input_schema t of
             Some s \<Rightarrow> Inr (\<lparr>fd_name = rt_name t, fd_description = rt_description t,
                             fd_parameters = closed_schema s\<rparr>,
                            t\<lparr>rt_input_schema := Some (closed_schema s)\<rparr>)
           | None \<Rightarrow> raise_exc ''ValueError'' (py ''Tool '' @ [39] @ rt_name t @ [39] @ py '' has no input schema.'')))"

definition invoke ::
  "(arguments \<Rightarrow> arguments \<Rightarrow> pystr option) \<Rightarrow> 'w registered_tool \<Rightarrow> arguments \<Rightarrow> 'w \<Rightarrow> pyval pyres \<times> 'w" where
  "invoke schema_error t args w =
     (case rt_input_model t of
        Some m \<Rightarrow>
          (case im_validate m args of
             Inl e \<Rightarrow> (Inl e, w)
           | Inr kwargs \<Rightarrow> rt_handler t kwargs w)
      | None \<Rightarrow>
          (case rt_input_schema t of
             None \<Rightarrow> (raise_exc ''ValueError'' (py ''Tool '' @ [39] @ rt_name t @ [39] @ py '' has no input schema.''), w)
           | Some s \<Rightarrow>
               (case schema_error s args of
                  Some msg \<Rightarrow> (raise_exc ''ValueError''
                    (py ''Invalid arguments for tool '' @ [39] @ rt_name t @ [39] @ py '': '' @ msg), w)
                | None \<Rightarrow> rt_handler t args w)))"

text \<open>The checks of the \<open>@tool\<close> decorator on the name and the description.\<close>

definition tool_name_ok :: "(nat \<Rightarrow> bool) \<Rightarrow> pystr \<Rightarrow> bool" where
  "tool_name_ok alnum name \<longleftrightarrow> name \<noteq> [] \<and> filter (\<lambda>c. c \<noteq> 95) name \<noteq> []
     \<and> (\<forall>c \<in> set (filter (\<lambda>c. c \<noteq> 95) name). alnum c)"

text \<open>
  \<open>_build_input_model\<close>: the fields of the pydantic class made from a handler's signature.
  \<open>hints\<close> are the evaluated annotations (which may raise), \<open>capitalize\<close> is \<open>str.capitalize\<close>,
  and \<open>create_model\<close> is pydantic's.
\<close>

datatype param_kind = PositionalOnly | PositionalOrKeyword | VarPositional | KeywordOnly | VarKeyword

record func_param =
  fp_name :: pystr
  fp_kind :: param_kind
  fp_annotation :: "pystr option"
  fp_default :: "pyval option"

type_synonym model_field = "pystr \<times> pystr \<times> pyval option"

definition quoted :: "pystr \<Rightarrow> pystr" where
  "quoted s = [39] @ s @ [39]"

definition model_field :: "pystr \<Rightarrow> (pystr \<times> pystr) list \<Rightarrow> func_param \<Rightarrow> model_field pyres" where
  "model_field tool hints p =
     (if fp_kind p = VarPositional \<or> fp_kind p = VarKeyword \<or> fp_kind p = PositionalOnly then
        raise_exc ''TypeError'' (py ''Tool '' @ quoted tool @ py '' contains unsupported parameter: '' @ fp_name p)
      else (case (case dict_get hints (fp_name p) of Some h \<Rightarrow> Some h | None \<Rightarrow> fp_annotation p) of
          None \<Rightarrow> raise_exc ''TypeError''
                    (py ''Tool parameter '' @ quoted (fp_name p) @ py '' must have a type annotation.'')
        | Some h \<Rightarrow> Inr (fp_name p, h, fp_default p)))"

fun split_on :: "nat \<Rightarrow> pystr \<Rightarrow> pystr list" where
  "split_on d [] = [[]]"
| "split_on d (c # s) = (if c = d then [] # split_on d s
     else (case split_on d s of [] \<Rightarrow> [[c]] | p # ps \<Rightarrow> (c # p) # ps))"

definition build_input_model ::
  "(pystr \<Rightarrow> pystr) \<Rightarrow> (pystr \<Rightarrow> model_field list \<Rightarrow> input_model) \<Rightarrow> (pystr \<times> pystr) list pyres \<Rightarrow>
   func_param list \<Rightarrow> pystr \<Rightarrow> input_model pyres" where
  "build_input_model capitalize create_model hints params tool =
     (case hints of
        Inl e \<Rightarrow> raise_exc ''TypeError'' (py ''Unable to resolve annotations for tool '' @ quoted tool @ py ''.'')
      | Inr hs \<Rightarrow>
          (case map_res (model_field tool hs) params of
             Inl e \<Rightarrow> Inl e
           | Inr fs \<Rightarrow>
               Inr (create_model (concat (map capitalize (split_on 95 tool)) @ py ''Arguments'') fs)))"

definition tool_decorator ::
  "(nat \<Rightarrow> bool) \<Rightarrow> pystr \<Rightarrow> pystr \<Rightarrow> bool \<Rightarrow> (pystr \<Rightarrow> input_model pyres) \<Rightarrow>
   (arguments \<Rightarrow> 'w \<Rightarrow> pyval pyres \<times> 'w) \<Rightarrow> 'w registered_tool pyres" where
  "tool_decorator alnum name description safe build handler =
     (if \<not> tool_name_ok alnum name then
        raise_exc ''ValueError'' (py ''Tool name must contain only letters, numbers, and underscores.'')
      else if strip description = [] then
        raise_exc ''ValueError'' (py ''Tool description must not be empty.'')
      else (case build name of
          Inl e \<Rightarrow> Inl e
        | Inr m \<Rightarrow> Inr \<lparr>rt_name = name, rt_description = description, rt_input_model = Some m,
                        rt_handler = handler, rt_parallel_safe = safe, rt_input_schema = None\<rparr>))"

section \<open>The registry\<close>

type_synonym 'w registry = "(pystr \<times> 'w registered_tool) list"

definition register :: "'w registered_tool \<Rightarrow> 'w registry \<Rightarrow> 'w registry pyres" where
  "register t reg =
     (if rt_name t \<in> set (dict_keys reg)
      then raise_exc ''ValueError'' (py ''Tool already registered: '' @ rt_name t)
      else Inr (AList.update (rt_name t) t reg))"

definition get_tool :: "'w registry \<Rightarrow> pystr \<Rightarrow> 'w registered_tool option" where
  "get_tool reg name = dict_get reg name"

text \<open>\<open>definitions()\<close>: one definition per tool in order, closing the schemas on the way.\<close>

fun definitions :: "'w registry \<Rightarrow> tool_definition list pyres \<times> 'w registry" where
  "definitions [] = (Inr [], [])"
| "definitions ((k, t) # reg) =
     (case rt_definition t of
        Inl e \<Rightarrow> (Inl e, (k, t) # reg)
      | Inr (d, t') \<Rightarrow>
          (case definitions reg of
             (Inl e, reg') \<Rightarrow> (Inl e, (k, t') # reg')
           | (Inr ds, reg') \<Rightarrow> (Inr (d # ds), (k, t') # reg')))"

record registration_diff =
  rd_added :: "pystr list"
  rd_removed :: "pystr list"
  rd_updated :: "pystr list"
  rd_unchanged :: "pystr list"

definition starts_with :: "pystr \<Rightarrow> pystr \<Rightarrow> bool" where
  "starts_with p s \<longleftrightarrow> take (length p) s = p"

text \<open>The first loop of \<open>replace_prefix\<close>: it only reads the registry.\<close>

fun collect_incoming ::
  "pystr \<Rightarrow> 'w registry \<Rightarrow> 'w registered_tool list \<Rightarrow> 'w registry \<Rightarrow> 'w registry pyres" where
  "collect_incoming prefix reg [] incoming = Inr incoming"
| "collect_incoming prefix reg (t # ts) incoming =
     (if \<not> starts_with prefix (rt_name t) then
        raise_exc ''ValueError'' (py ''Tool '' @ [39] @ rt_name t @ [39]
          @ py '' does not start with prefix '' @ [39] @ prefix @ [39] @ py ''.'')
      else if rt_name t \<in> set (dict_keys incoming) then
        raise_exc ''ValueError'' (py ''Duplicate registered tool: '' @ rt_name t)
      else if dict_get reg (rt_name t) \<noteq> None \<and> \<not> starts_with prefix (rt_name t) then
        raise_exc ''ValueError'' (py ''Tool already registered: '' @ rt_name t)
      else collect_incoming prefix reg ts (AList.update (rt_name t) t incoming))"

definition tools_equal ::
  "'w registered_tool \<Rightarrow> 'w registered_tool \<Rightarrow> (bool \<times> 'w registered_tool) pyres" where
  "tools_equal left right =
     (case rt_definition left of
        Inl e \<Rightarrow> Inl e
      | Inr (dl, _) \<Rightarrow>
          (case rt_definition right of
             Inl e \<Rightarrow> Inl e
           | Inr (dr, right') \<Rightarrow>
               Inr (dl = dr \<and> rt_parallel_safe left = rt_parallel_safe right, right')))"

text \<open>
  The second loop installs the incoming tools one by one; an exception leaves the registry
  as far as it got.  The lists collect the added, updated and unchanged names.
\<close>

fun install_incoming ::
  "'w registry \<Rightarrow> 'w registry \<Rightarrow> registration_diff \<Rightarrow> registration_diff pyres \<times> 'w registry" where
  "install_incoming [] reg diff = (Inr diff, reg)"
| "install_incoming ((name, t) # incoming) reg diff =
     (case dict_get reg name of
        None \<Rightarrow> install_incoming incoming (AList.update name t reg)
                 (diff\<lparr>rd_added := rd_added diff @ [name]\<rparr>)
      | Some previous \<Rightarrow>
          (case tools_equal previous t of
             Inl e \<Rightarrow> (Inl e, reg)
           | Inr (True, t') \<Rightarrow> install_incoming incoming (AList.update name t' reg)
                 (diff\<lparr>rd_unchanged := rd_unchanged diff @ [name]\<rparr>)
           | Inr (False, t') \<Rightarrow> install_incoming incoming (AList.update name t' reg)
                 (diff\<lparr>rd_updated := rd_updated diff @ [name]\<rparr>)))"

definition replace_prefix ::
  "pystr \<Rightarrow> 'w registered_tool list \<Rightarrow> 'w registry \<Rightarrow> registration_diff pyres \<times> 'w registry" where
  "replace_prefix prefix ts reg =
     (if prefix = [] then (raise_exc ''ValueError'' (py ''Tool prefix must not be empty.''), reg)
      else (case collect_incoming prefix reg ts [] of
          Inl e \<Rightarrow> (Inl e, reg)
        | Inr incoming \<Rightarrow>
            (let existing = filter (starts_with prefix) (dict_keys reg);
                 removed = filter (\<lambda>n. n \<notin> set (dict_keys incoming)) existing;
                 reg' = fold AList.delete removed reg
             in install_incoming incoming reg'
                  \<lparr>rd_added = [], rd_removed = removed, rd_updated = [], rd_unchanged = []\<rparr>)))"


section \<open>Facts about the registry\<close>

text \<open>A tool with a schema has a definition; asking for it changes at most the schema.\<close>

definition has_schema :: "'w registered_tool \<Rightarrow> bool" where
  "has_schema t \<longleftrightarrow> rt_input_model t \<noteq> None \<or> rt_input_schema t \<noteq> None"

definition close_tool :: "'w registered_tool \<Rightarrow> 'w registered_tool" where
  "close_tool t = (if rt_input_model t = None
     then t\<lparr>rt_input_schema := map_option closed_schema (rt_input_schema t)\<rparr> else t)"

definition registry_ok :: "'w registry \<Rightarrow> bool" where
  "registry_ok reg \<longleftrightarrow> dict_ok reg \<and> (\<forall>(k, t) \<in> set reg. rt_name t = k \<and> has_schema t)"

lemma close_tool_simps [simp]:
  "rt_name (close_tool t) = rt_name t" "rt_handler (close_tool t) = rt_handler t"
  "rt_parallel_safe (close_tool t) = rt_parallel_safe t" "rt_input_model (close_tool t) = rt_input_model t"
  "has_schema (close_tool t) = has_schema t"
  by (auto simp: close_tool_def has_schema_def)

lemma rt_definition_ok: "has_schema t \<Longrightarrow> \<exists>d. rt_definition t = Inr (d, close_tool t) \<and> fd_name d = rt_name t"
  by (auto simp: has_schema_def rt_definition_def close_tool_def split: option.splits)

lemma rt_definition_Inl: "rt_definition t = Inl e \<Longrightarrow> \<not> has_schema t"
  using rt_definition_ok by fastforce

lemma tools_equal_ok:
  assumes "has_schema l" and "has_schema r"
  obtains b where "tools_equal l r = Inr (b, close_tool r)"
proof -
  from assms obtain d d' where "rt_definition l = Inr (d, close_tool l)" "rt_definition r = Inr (d', close_tool r)"
    using rt_definition_ok by blast
  then show thesis using that by (simp add: tools_equal_def)
qed

lemma tools_equal_Inr: "tools_equal l r = Inr (b, t) \<Longrightarrow> has_schema r \<Longrightarrow> t = close_tool r"
  using rt_definition_ok [of r] by (fastforce simp: tools_equal_def split: sum.splits)

lemma definitions_ok:
  "\<forall>(k, t) \<in> set reg. rt_name t = k \<and> has_schema t \<Longrightarrow>
   \<exists>ds. definitions reg = (Inr ds, map (\<lambda>(k, t). (k, close_tool t)) reg) \<and> map fd_name ds = dict_keys reg"
proof (induction reg)
  case (Cons kt reg)
  obtain k t where kt: "kt = (k, t)" by (cases kt)
  with Cons obtain ds where ds: "definitions reg = (Inr ds, map (\<lambda>(k, t). (k, close_tool t)) reg)"
    "map fd_name ds = dict_keys reg" by auto
  from Cons.prems kt obtain d where "rt_definition t = Inr (d, close_tool t)" "fd_name d = rt_name t"
    using rt_definition_ok [of t] by auto
  with ds kt Cons.prems show ?case by simp
qed simp

lemma registry_ok_close: "registry_ok reg \<Longrightarrow> registry_ok (map (\<lambda>(k, t). (k, close_tool t)) reg)"
  by (fastforce simp: registry_ok_def dict_ok_def comp_def case_prod_unfold)

lemma map_of_close: "map_of (map (\<lambda>(k, t). (k, close_tool t)) reg) n = map_option close_tool (map_of reg n)"
  by (simp add: map_of_map)

lemma registry_ok_update: "registry_ok reg \<Longrightarrow> has_schema t \<Longrightarrow> registry_ok (AList.update (rt_name t) t reg)"
proof -
  have "set (AList.update k v d) \<subseteq> insert (k, v) (set d)" for k v and d :: "'w registry"
    by (induction d) auto
  moreover assume "registry_ok reg" "has_schema t"
  ultimately show ?thesis by (fastforce simp: registry_ok_def)
qed

lemma set_delete_subset: "set (AList.delete k d) \<subseteq> set d"
  by (auto simp: AList.delete_eq)

lemma registry_ok_delete: "registry_ok reg \<Longrightarrow> registry_ok (AList.delete k reg)"
  unfolding registry_ok_def using set_delete_subset [of k reg] by auto

lemma registry_ok_fold_delete: "registry_ok reg \<Longrightarrow> registry_ok (fold AList.delete ks reg)"
  by (induction ks arbitrary: reg) (auto simp: registry_ok_delete)

lemma get_fold_delete:
  "dict_get (fold AList.delete ks d) n = (if n \<in> set ks then None else dict_get d n)"
  by (induction ks arbitrary: d) (auto simp: dict_simps)

lemma registry_ok_get: "registry_ok reg \<Longrightarrow> dict_get reg n = Some t \<Longrightarrow> rt_name t = n \<and> has_schema t"
  by (fastforce simp: registry_ok_def dest: map_of_SomeD)

lemma get_eq_None_iff: "dict_get d k = None \<longleftrightarrow> k \<notin> set (dict_keys d)"
  by (simp add: map_of_eq_None_iff)

text \<open>A successful first loop has read names that are distinct and carry the prefix.\<close>

lemma collect_incoming_Inr:
  "collect_incoming p reg ts inc = Inr inc' \<Longrightarrow>
   inc' = inc @ map (\<lambda>t. (rt_name t, t)) ts \<and> (\<forall>t \<in> set ts. starts_with p (rt_name t))
   \<and> distinct (map rt_name ts) \<and> set (map rt_name ts) \<inter> set (dict_keys inc) = {}"
proof (induction ts arbitrary: inc)
  case (Cons t ts)
  from Cons.prems have t: "starts_with p (rt_name t)" "rt_name t \<notin> set (dict_keys inc)"
    and rest: "collect_incoming p reg ts (inc @ [(rt_name t, t)]) = Inr inc'"
    by (auto simp: keys_update_new split: if_splits)
  from Cons.IH [OF rest] t show ?case by auto
qed simp

text \<open>
  The second loop on tools with schemas never fails.  One round binds one name and files it
  under added, updated or unchanged.
\<close>

definition diff_step :: "bool \<Rightarrow> pystr \<Rightarrow> registration_diff \<Rightarrow> registration_diff \<Rightarrow> bool" where
  "diff_step fresh n d d' \<longleftrightarrow> rd_removed d' = rd_removed d
     \<and> (if fresh then rd_added d' = rd_added d @ [n] \<and> rd_updated d' = rd_updated d
                    \<and> rd_unchanged d' = rd_unchanged d
        else rd_added d' = rd_added d
           \<and> (rd_updated d' = rd_updated d @ [n] \<and> rd_unchanged d' = rd_unchanged d
              \<or> rd_updated d' = rd_updated d \<and> rd_unchanged d' = rd_unchanged d @ [n]))"

lemma diff_step_filed:
  assumes "diff_step fresh n d d'"
  shows "set (rd_updated d' @ rd_unchanged d') = set (rd_updated d @ rd_unchanged d) \<union> (if fresh then {} else {n})"
    and "distinct (rd_updated d @ rd_unchanged d) \<Longrightarrow> n \<notin> set (rd_updated d @ rd_unchanged d)
         \<Longrightarrow> distinct (rd_updated d' @ rd_unchanged d')"
    and "rd_added d' = rd_added d @ (if fresh then [n] else [])" and "rd_removed d' = rd_removed d"
  using assms unfolding diff_step_def by (cases fresh; auto)+

lemma install_step:
  assumes "registry_ok reg" and "has_schema t"
  obtains t' diff' where "t' = t \<or> t' = close_tool t"
    and "install_incoming ((rt_name t, t) # inc) reg diff
           = install_incoming inc (AList.update (rt_name t) t' reg) diff'"
    and "diff_step (dict_get reg (rt_name t) = None) (rt_name t) diff diff'"
proof (cases "dict_get reg (rt_name t)")
  case None
  with that [of t "diff\<lparr>rd_added := rd_added diff @ [rt_name t]\<rparr>"] show thesis
    by (simp add: diff_step_def)
next
  case (Some prev)
  with assms have "has_schema prev" using registry_ok_get by blast
  then obtain b where "tools_equal prev t = Inr (b, close_tool t)" using assms(2) by (rule tools_equal_ok)
  with Some that [of "close_tool t" "diff\<lparr>rd_unchanged := rd_unchanged diff @ [rt_name t]\<rparr>"]
    that [of "close_tool t" "diff\<lparr>rd_updated := rd_updated diff @ [rt_name t]\<rparr>"] show thesis
    by (cases b) (simp_all add: diff_step_def)
qed

abbreviation named :: "'w registered_tool list \<Rightarrow> 'w registry" where
  "named ts \<equiv> map (\<lambda>t. (rt_name t, t)) ts"

lemma install_incoming_registry:
  assumes "registry_ok reg" and "\<forall>t \<in> set ts. has_schema t" and "distinct (map rt_name ts)"
  shows "\<exists>d reg'. install_incoming (named ts) reg diff = (Inr d, reg') \<and> registry_ok reg'
    \<and> (\<forall>n. n \<notin> rt_name ` set ts \<longrightarrow> dict_get reg' n = dict_get reg n)
    \<and> (\<forall>t \<in> set ts. dict_get reg' (rt_name t) \<in> {Some t, Some (close_tool t)})"
  using assms
proof (induction ts arbitrary: reg diff)
  case (Cons t ts)
  then have t: "has_schema t" "rt_name t \<notin> rt_name ` set ts" by auto
  from Cons.prems(1) t(1) obtain t' diff' where t': "t' = t \<or> t' = close_tool t"
    and eq: "install_incoming ((rt_name t, t) # named ts) reg diff
           = install_incoming (named ts) (AList.update (rt_name t) t' reg) diff'"
    by (rule install_step)
  from t' t(1) have nm: "rt_name t' = rt_name t" "has_schema t'" by auto
  with registry_ok_update [OF Cons.prems(1) nm(2)] have "registry_ok (AList.update (rt_name t) t' reg)" by simp
  with Cons.IH [of "AList.update (rt_name t) t' reg" diff'] Cons.prems obtain d reg' where
    "install_incoming (named ts) (AList.update (rt_name t) t' reg) diff' = (Inr d, reg')" "registry_ok reg'"
    "\<forall>n. n \<notin> rt_name ` set ts \<longrightarrow> dict_get reg' n = dict_get (AList.update (rt_name t) t' reg) n"
    "\<forall>t \<in> set ts. dict_get reg' (rt_name t) \<in> {Some t, Some (close_tool t)}"
    by auto
  with eq t t' show ?case by (auto simp: get_update)
qed simp

lemma install_incoming_diff:
  assumes "registry_ok reg" and "\<forall>t \<in> set ts. has_schema t" and "distinct (map rt_name ts)"
    and "install_incoming (named ts) reg diff = (Inr d, reg')"
    and "distinct (rd_updated diff @ rd_unchanged diff)"
    and "rt_name ` set ts \<inter> set (rd_updated diff @ rd_unchanged diff) = {}"
  shows "rd_removed d = rd_removed diff
    \<and> rd_added d = rd_added diff @ filter (\<lambda>n. dict_get reg n = None) (map rt_name ts)
    \<and> set (rd_updated d @ rd_unchanged d) = set (rd_updated diff @ rd_unchanged diff)
        \<union> {n \<in> rt_name ` set ts. dict_get reg n \<noteq> None}
    \<and> distinct (rd_updated d @ rd_unchanged d)"
  using assms
proof (induction ts arbitrary: reg diff)
  case (Cons t ts)
  then have t: "has_schema t" "rt_name t \<notin> rt_name ` set ts" by auto
  from Cons.prems(1) t(1) obtain t' diff' where t': "t' = t \<or> t' = close_tool t"
    and eq: "install_incoming ((rt_name t, t) # named ts) reg diff
           = install_incoming (named ts) (AList.update (rt_name t) t' reg) diff'"
    and st: "diff_step (dict_get reg (rt_name t) = None) (rt_name t) diff diff'"
    by (rule install_step)
  let ?reg = "AList.update (rt_name t) t' reg"
  from t' t(1) have nm: "rt_name t' = rt_name t" "has_schema t'" by auto
  with registry_ok_update [OF Cons.prems(1) nm(2)] have ok: "registry_ok ?reg" by simp
  have old: "dict_get ?reg n = dict_get reg n" if "n \<in> rt_name ` set ts" for n
    using that t(2) by (auto simp: get_update)
  have st': "distinct (rd_updated diff' @ rd_unchanged diff')"
    using diff_step_filed(2) [OF st Cons.prems(5)] Cons.prems(6) by auto
  have filed: "rt_name ` set ts \<inter> set (rd_updated diff' @ rd_unchanged diff') = {}"
    unfolding diff_step_filed(1) [OF st] using Cons.prems(6) t(2) by auto
  have inst: "install_incoming (named ts) ?reg diff' = (Inr d, reg')" using Cons.prems(4) eq by simp
  have fl: "filter (\<lambda>n. dict_get ?reg n = None) (map rt_name ts) = filter (\<lambda>n. dict_get reg n = None) (map rt_name ts)"
    by (rule filter_cong) (simp_all add: old)
  have st2: "{n \<in> rt_name ` set ts. dict_get ?reg n \<noteq> None} = {n \<in> rt_name ` set ts. dict_get reg n \<noteq> None}"
    using old by auto
  from Cons.IH [OF ok _ _ inst st' filed] Cons.prems(2,3) fl st2
  have ih: "rd_removed d = rd_removed diff'"
    "rd_added d = rd_added diff' @ filter (\<lambda>n. dict_get reg n = None) (map rt_name ts)"
    "set (rd_updated d @ rd_unchanged d) = set (rd_updated diff' @ rd_unchanged diff')
        \<union> {n \<in> rt_name ` set ts. dict_get reg n \<noteq> None}"
    "distinct (rd_updated d @ rd_unchanged d)"
    by auto
  note filed_st = diff_step_filed [OF st]
  show ?case unfolding ih(3) filed_st(1) using ih(1,2,4) filed_st(3,4) by auto
qed simp

text \<open>
  \<open>replace_prefix\<close> either rejects its input and changes nothing, or binds under the prefix
  exactly the new tools, leaves every other name alone, and reports the difference.
\<close>

definition replaced :: "pystr \<Rightarrow> 'w registered_tool list \<Rightarrow> 'w registry \<Rightarrow> 'w registry \<Rightarrow> bool" where
  "replaced p ts reg reg' \<longleftrightarrow>
     (\<forall>n. \<not> starts_with p n \<longrightarrow> dict_get reg' n = dict_get reg n)
     \<and> (\<forall>n. starts_with p n \<longrightarrow> n \<notin> rt_name ` set ts \<longrightarrow> dict_get reg' n = None)
     \<and> (\<forall>t \<in> set ts. dict_get reg' (rt_name t) \<in> {Some t, Some (close_tool t)})"

lemma replace_prefix_cases:
  assumes reg: "registry_ok reg" and sch: "\<forall>t \<in> set ts. has_schema t"
  obtains (rejected) e where "replace_prefix p ts reg = (Inl e, reg)"
  | (installed) d reg' where "replace_prefix p ts reg = (Inr d, reg')" "registry_ok reg'"
      "replaced p ts reg reg'"
      "rd_added d = filter (\<lambda>n. dict_get reg n = None) (map rt_name ts)"
      "rd_removed d = filter (\<lambda>n. starts_with p n \<and> n \<notin> rt_name ` set ts) (dict_keys reg)"
      "set (rd_updated d @ rd_unchanged d) = {n \<in> rt_name ` set ts. dict_get reg n \<noteq> None}"
      "distinct (rd_updated d @ rd_unchanged d)"
proof (cases "p = []")
  case True
  with rejected show thesis by (simp add: replace_prefix_def)
next
  case p: False
  show thesis
  proof (cases "collect_incoming p reg ts []")
    case (Inl e)
    with p rejected show thesis by (simp add: replace_prefix_def)
  next
    case (Inr inc)
    then have inc: "inc = named ts" and pre: "\<forall>t \<in> set ts. starts_with p (rt_name t)"
      and dist: "distinct (map rt_name ts)"
      using collect_incoming_Inr [OF Inr] by auto
    let ?rem = "filter (\<lambda>n. n \<notin> rt_name ` set ts) (filter (starts_with p) (dict_keys reg))"
    let ?reg = "fold AList.delete ?rem reg"
    let ?d0 = "\<lparr>rd_added = [], rd_removed = ?rem, rd_updated = [], rd_unchanged = []\<rparr>"
    have ok: "registry_ok ?reg" using reg by (rule registry_ok_fold_delete)
    have rp: "replace_prefix p ts reg = install_incoming (named ts) ?reg ?d0"
      using p Inr inc by (simp add: replace_prefix_def comp_def image_image)
    from install_incoming_registry [OF ok sch dist, of ?d0] obtain d reg' where
      ins: "install_incoming (named ts) ?reg ?d0 = (Inr d, reg')" and ok': "registry_ok reg'"
      and oth: "\<forall>n. n \<notin> rt_name ` set ts \<longrightarrow> dict_get reg' n = dict_get ?reg n"
      and new: "\<forall>t \<in> set ts. dict_get reg' (rt_name t) \<in> {Some t, Some (close_tool t)}"
      by blast
    have kept: "dict_get ?reg n = dict_get reg n" if "n \<in> rt_name ` set ts" for n
      using that by (simp add: get_fold_delete)
    have gone: "dict_get ?reg n = None" if "starts_with p n" "n \<notin> rt_name ` set ts" for n
      using that by (auto simp: get_fold_delete get_eq_None_iff)
    have diff: "rd_removed d = ?rem \<and> rd_added d = filter (\<lambda>n. dict_get ?reg n = None) (map rt_name ts)
        \<and> set (rd_updated d @ rd_unchanged d) = {n \<in> rt_name ` set ts. dict_get ?reg n \<noteq> None}
        \<and> distinct (rd_updated d @ rd_unchanged d)"
      using install_incoming_diff [OF ok sch dist ins] by simp
    have "replaced p ts reg reg'"
      unfolding replaced_def
    proof (intro conjI allI impI)
      fix n assume "\<not> starts_with p n"
      then show "dict_get reg' n = dict_get reg n"
        using oth pre by (auto simp: get_fold_delete) (metis image_iff)
    qed (use oth new gone in auto)
    moreover have "rd_added d = filter (\<lambda>n. dict_get reg n = None) (map rt_name ts)"
      using diff kept by (auto intro!: filter_cong)
    moreover have "rd_removed d = filter (\<lambda>n. starts_with p n \<and> n \<notin> rt_name ` set ts) (dict_keys reg)"
      using diff by (simp add: conj_commute)
    moreover have "set (rd_updated d @ rd_unchanged d) = {n \<in> rt_name ` set ts. dict_get reg n \<noteq> None}"
      using diff kept by auto
    ultimately show thesis using installed rp ins ok' diff by simp
  qed
qed

end
