(* ===== verification/Agent_Loop.thy ===== *)
theory Agent_Loop
  imports Context_Compaction Tool_Registry
begin

text \<open>
  The ReAct loop of \<open>app/agent/loop.py\<close>: one request to the model per step, the checks that
  end or repeat a step, the execution of its tool calls, and the events the loop yields.

  \<open>agent_env\<close> gathers what the loop is given: the model, the registry, the configuration,
  and, as parameters, \<open>jsonschema\<close>, sqlglot's \<open>parse_one(..).sql()\<close>, the text of a
  \<open>JSONDecodeError\<close>, the Unicode folding table, \<open>perf_counter\<close>, and the order in which
  \<open>asyncio.gather\<close> happens to finish its coroutines.  A tool call runs as one atomic step of
  the world \<open>'w\<close>; the registry does not change while a run lasts.
\<close>

datatype sql_text = SqlText pystr | SqlParseFail | SqlRaises py_exc

record 'w agent_env =
  env_model :: "'w chat_model"
  env_tools :: "'w registry"
  env_config :: agent_config
  env_schema_error :: "arguments \<Rightarrow> arguments \<Rightarrow> pystr option"
  env_parse_one :: "pystr \<Rightarrow> sql_text"
  env_json_error :: "pystr \<Rightarrow> pystr"
  env_fold :: "nat \<Rightarrow> nat list"
  env_clock :: "'w \<Rightarrow> rat"
  env_gather_order :: "'w \<Rightarrow> nat \<Rightarrow> nat list"

section \<open>Signatures of tool calls\<close>

definition fold_sql :: "'w agent_env \<Rightarrow> pystr \<Rightarrow> pystr" where
  "fold_sql env sql = join (py '' '') (words (casefold (env_fold env) sql))"

definition normalized_sql :: "'w agent_env \<Rightarrow> pystr \<Rightarrow> pystr pyres" where
  "normalized_sql env sql =
     (case env_parse_one env sql of
        SqlText t \<Rightarrow> Inr (fold_sql env t)
      | SqlParseFail \<Rightarrow> Inr (fold_sql env sql)
      | SqlRaises e \<Rightarrow> Inl e)"

definition arguments_text :: "arguments \<Rightarrow> pystr" where
  "arguments_text args = dumps default_json (sort_keys (PDict args))"

definition normalized_arguments :: "'w agent_env \<Rightarrow> pystr \<Rightarrow> arguments \<Rightarrow> pystr pyres" where
  "normalized_arguments env name args =
     (case dict_get args (py ''sql'') of
        Some (PStr sql) \<Rightarrow>
          (if sql_tool name then
             (case normalized_sql env sql of
                Inl e \<Rightarrow> Inl e
              | Inr s \<Rightarrow> Inr (arguments_text (AList.update (py ''sql'') (PStr s) args)))
           else Inr (arguments_text args))
      | _ \<Rightarrow> Inr (arguments_text args))"

type_synonym signature = "pystr \<times> pystr"

definition signature_of :: "'w agent_env \<Rightarrow> pystr \<Rightarrow> arguments \<Rightarrow> signature pyres" where
  "signature_of env name args =
     (case normalized_arguments env name args of Inl e \<Rightarrow> Inl e | Inr t \<Rightarrow> Inr (name, t))"

definition call_signatures :: "'w agent_env \<Rightarrow> tool_call list \<Rightarrow> signature list pyres" where
  "call_signatures env calls = map_res (\<lambda>c. signature_of env (tc_name c) (tc_arguments c)) calls"

section \<open>The response of the model\<close>

record call_part =
  cp_id :: pystr
  cp_name :: pystr
  cp_arguments :: pystr

definition assemble_one :: "'w agent_env \<Rightarrow> nat \<times> call_part \<Rightarrow> tool_call pyres" where
  "assemble_one env ip =
     (let p = snd ip;
          text = (if cp_arguments p = [] then py ''{}'' else cp_arguments p);
          invalid = (\<lambda>msg. raise_exc ''ValueError'' (py ''Invalid streamed tool call arguments: '' @ msg))
      in case loads text of
           None \<Rightarrow> invalid (env_json_error env text)
         | Some (PDict args) \<Rightarrow>
             Inr \<lparr>tc_id = (if cp_id p = [] then py ''stream-call-'' @ str_nat (fst ip) else cp_id p),
                  tc_name = cp_name p, tc_arguments = args\<rparr>
         | Some _ \<Rightarrow> invalid (py ''Tool call arguments must be a JSON object.''))"

definition assemble_tool_calls :: "'w agent_env \<Rightarrow> (nat \<times> call_part) list \<Rightarrow> tool_call list pyres" where
  "assemble_tool_calls env parts =
     map_res (assemble_one env) (filter (\<lambda>ip. cp_name (snd ip) \<noteq> []) (sort_key fst parts))"

record stream_acc =
  sa_text :: "pystr list"
  sa_parts :: "(nat \<times> call_part) list"
  sa_usage :: token_usage
  sa_finish :: "pystr option"

definition part_delta :: "tool_call_delta \<Rightarrow> (nat \<times> call_part) list \<Rightarrow> (nat \<times> call_part) list" where
  "part_delta d parts =
     (let b = (case dict_get parts (td_index d) of
                 Some b \<Rightarrow> b | None \<Rightarrow> \<lparr>cp_id = [], cp_name = [], cp_arguments = []\<rparr>)
      in AList.update (td_index d)
           \<lparr>cp_id = content_or (cp_id b) (td_id d),
            cp_name = content_or (cp_name b) (td_name d),
            cp_arguments = cp_arguments b @ content_or [] (td_arguments_delta d)\<rparr> parts)"

definition stream_step :: "stream_event \<Rightarrow> stream_acc \<Rightarrow> agent_stream_event list \<times> stream_acc" where
  "stream_step e a =
     (case se_type e of
        TextDeltaT \<Rightarrow>
          (case se_content_delta e of
             Some t \<Rightarrow> if t = [] then ([], a) else ([TextDelta t], a\<lparr>sa_text := sa_text a @ [t]\<rparr>)
           | None \<Rightarrow> ([], a))
      | ToolCallDeltaT \<Rightarrow>
          (case se_tool_call_delta e of
             Some d \<Rightarrow> ([], a\<lparr>sa_parts := part_delta d (sa_parts a)\<rparr>) | None \<Rightarrow> ([], a))
      | UsageT \<Rightarrow> (case se_usage e of Some u \<Rightarrow> ([], a\<lparr>sa_usage := u\<rparr>) | None \<Rightarrow> ([], a))
      | FinishT \<Rightarrow> ([], a\<lparr>sa_finish := se_finish_reason e\<rparr>))"

fun stream_steps :: "stream_event list \<Rightarrow> stream_acc \<Rightarrow> agent_stream_event list \<times> stream_acc" where
  "stream_steps [] a = ([], a)"
| "stream_steps (e # es) a =
     (let (out, a') = stream_step e a; (outs, a'') = stream_steps es a' in (out @ outs, a''))"

definition empty_acc :: stream_acc where
  "empty_acc = \<lparr>sa_text = [], sa_parts = [], sa_usage = usage_zero, sa_finish = None\<rparr>"

text \<open>The events of one request, then the response or the exception that ended it.\<close>

definition streamed_response ::
  "'w agent_env \<Rightarrow> stream_event list \<Rightarrow> py_exc option \<Rightarrow> agent_stream_event list \<times> llm_response pyres" where
  "streamed_response env es failure =
     (let (out, a) = stream_steps es empty_acc
      in case failure of
           Some e \<Rightarrow> (out, Inl e)
         | None \<Rightarrow>
             (case assemble_tool_calls env (sa_parts a) of
                Inl e \<Rightarrow> (out, Inl e)
              | Inr calls \<Rightarrow>
                  (out @ (if calls \<noteq> [] \<and> sa_text a \<noteq> [] then [TextReset] else []),
                   Inr \<lparr>lr_content = (if calls = [] then Some (concat (sa_text a)) else None),
                        lr_tool_calls = calls, lr_usage = sa_usage a, lr_finish_reason = sa_finish a\<rparr>)))"

definition whole_response :: "llm_response \<Rightarrow> agent_stream_event list" where
  "whole_response r =
     (case lr_content r of
        Some t \<Rightarrow> if t = [] then []
                  else [TextDelta t] @ (if lr_tool_calls r \<noteq> [] then [TextReset] else [])
      | None \<Rightarrow> [])"

definition stream_model_response ::
  "'w agent_env \<Rightarrow> chat_message list \<Rightarrow> tool_definition list \<Rightarrow> uuid option \<Rightarrow> 'w \<Rightarrow>
   agent_stream_event list \<times> llm_response pyres \<times> 'w" where
  "stream_model_response env messages defs trace w =
     (case compacted_messages (env_config env) messages of
        Inl e \<Rightarrow> ([], Inl e, w)
      | Inr model_messages \<Rightarrow>
          (case (stream_model (env_config env), chat_stream (env_model env)) of
             (True, Some f) \<Rightarrow>
               (case f w model_messages defs trace of
                  (es, failure, w') \<Rightarrow>
                    (case streamed_response env es failure of (out, r) \<Rightarrow> (out, r, w')))
           | _ \<Rightarrow>
               (case chat (env_model env) w model_messages defs trace of
                  (Inl e, w') \<Rightarrow> ([], Inl e, w')
                | (Inr r, w') \<Rightarrow> (whole_response r, Inr r, w'))))"

section \<open>Tool execution\<close>

definition execution :: "tool_call \<Rightarrow> pyval pyres \<Rightarrow> rat \<Rightarrow> tool_execution" where
  "execution c r ms = \<lparr>te_tool_call_id = tc_id c, te_tool_name = tc_name c, te_arguments = tc_arguments c,
     te_result = (case r of Inl e \<Rightarrow> PNone | Inr v \<Rightarrow> v),
     te_error = (case r of Inl e \<Rightarrow> Some (render_exc e) | Inr v \<Rightarrow> None), te_duration_ms = ms\<rparr>"

definition execute_one :: "'w agent_env \<Rightarrow> tool_call \<Rightarrow> 'w \<Rightarrow> tool_execution \<times> 'w" where
  "execute_one env c w =
     (case (case get_tool (env_tools env) (tc_name c) of
              None \<Rightarrow> (Inl (key_error (py ''Unknown tool: '' @ tc_name c)), w)
            | Some t \<Rightarrow> invoke (env_schema_error env) t (tc_arguments c) w) of
        (r, w') \<Rightarrow> (execution c r ((env_clock env w' - env_clock env w) * 1000), w'))"

fun execute_serial :: "'w agent_env \<Rightarrow> tool_call list \<Rightarrow> 'w \<Rightarrow> tool_execution list \<times> 'w" where
  "execute_serial env [] w = ([], w)"
| "execute_serial env (c # cs) w =
     (let (x, w') = execute_one env c w; (xs, w'') = execute_serial env cs w' in (x # xs, w''))"

text \<open>
  \<open>gather\<close> starts every call and returns the results in call order.  The world decides the
  order in which the calls take effect: any list of indexes is read as one, the calls it does
  not name coming last, so every permutation is possible.
\<close>

definition task_order :: "nat list \<Rightarrow> nat \<Rightarrow> nat list" where
  "task_order os n = filter (\<lambda>i. i < n) (remdups os) @ filter (\<lambda>i. i \<notin> set os) [0..<n]"

fun execute_in_order ::
  "'w agent_env \<Rightarrow> tool_call list \<Rightarrow> nat list \<Rightarrow> 'w \<Rightarrow> (nat \<times> tool_execution) list \<times> 'w" where
  "execute_in_order env cs [] w = ([], w)"
| "execute_in_order env cs (i # is) w =
     (let (x, w') = execute_one env (cs ! i) w; (xs, w'') = execute_in_order env cs is w'
      in ((i, x) # xs, w''))"

definition execute_gather :: "'w agent_env \<Rightarrow> tool_call list \<Rightarrow> 'w \<Rightarrow> tool_execution list \<times> 'w" where
  "execute_gather env cs w =
     (let (done, w') = execute_in_order env cs (task_order (env_gather_order env w (length cs)) (length cs)) w
      in (map (\<lambda>i. the (dict_get done i)) [0..<length cs], w'))"

definition can_run_in_parallel :: "'w agent_env \<Rightarrow> tool_call list \<Rightarrow> bool" where
  "can_run_in_parallel env cs \<longleftrightarrow> parallel_tool_calls (env_config env)
     \<and> length cs \<le> max_parallel_tools (env_config env)
     \<and> (\<forall>c \<in> set cs. case get_tool (env_tools env) (tc_name c) of
           None \<Rightarrow> False | Some t \<Rightarrow> rt_parallel_safe t)"

definition execute_tool_calls :: "'w agent_env \<Rightarrow> tool_call list \<Rightarrow> 'w \<Rightarrow> tool_execution list \<times> 'w" where
  "execute_tool_calls env cs w =
     (if can_run_in_parallel env cs then execute_gather env cs w else execute_serial env cs w)"

fun jsonable :: "pyval \<Rightarrow> pyval"
  and jsonable_list :: "pyval list \<Rightarrow> pyval list"
  and jsonable_pairs :: "(pystr \<times> pyval) list \<Rightarrow> (pystr \<times> pyval) list" where
  "jsonable (PModel c d r) = PDict d"
| "jsonable (PDict kvs) = PDict (jsonable_pairs kvs)"
| "jsonable (PList xs) = PList (jsonable_list xs)"
| "jsonable (PTuple xs) = PList (jsonable_list xs)"
| "jsonable (PSet xs) = PList (jsonable_list xs)"
| "jsonable (PTime c i r) = PStr i"
| "jsonable (PExact c s r) = PStr s"
| "jsonable v = v"
| "jsonable_list [] = []"
| "jsonable_list (x # xs) = jsonable x # jsonable_list xs"
| "jsonable_pairs [] = []"
| "jsonable_pairs ((k, v) # kvs) = (k, jsonable v) # jsonable_pairs kvs"

definition dict_or_empty :: "pyval \<Rightarrow> (pystr \<times> pyval) list" where
  "dict_or_empty v = (case v of PDict d \<Rightarrow> d | _ \<Rightarrow> [])"

definition opt_str :: "pystr option \<Rightarrow> pyval" where
  "opt_str s = (case s of None \<Rightarrow> PNone | Some t \<Rightarrow> PStr t)"

definition serialize_tool_execution :: "agent_config \<Rightarrow> tool_execution \<Rightarrow> pystr pyres" where
  "serialize_tool_execution cfg x =
     (if te_error x = None \<and> te_tool_name x = py ''plot_chart'' then
        (let spec = dict_or_empty (dget (dict_or_empty (te_result x)) ''spec'')
         in json_dumps compact_json (pdict
              [(''ok'', PBool True),
               (''result'', pdict [(''kind'', pstr ''chart''), (''title'', dget spec ''title''),
                  (''chart_type'', dget spec ''type''), (''rendered'', PBool True)]),
               (''error'', PNone)]))
      else
        (let payload = pdict [(''ok'', PBool (te_error x = None)), (''result'', te_result x),
                              (''error'', opt_str (te_error x))]
         in Inr (take (max_tool_result_chars cfg) (dumps compact_json (jsonable payload)))))"

section \<open>One step of the loop\<close>

record loop_state =
  ls_messages :: "chat_message list"
  ls_usage :: token_usage
  ls_steps :: "agent_step list"
  ls_signatures :: "signature list"
  ls_retries :: nat

definition finish ::
  "agent_status \<Rightarrow> pystr option \<Rightarrow> pystr option \<Rightarrow> loop_state \<Rightarrow> agent_run_result" where
  "finish status out reason st = \<lparr>rr_status = status, rr_output = out, rr_termination_reason = reason,
     rr_messages = ls_messages st, rr_steps = ls_steps st, rr_usage = ls_usage st\<rparr>"

definition token_reason :: "nat \<Rightarrow> nat \<Rightarrow> pystr" where
  "token_reason used budget =
     [24050, 36798, 21040] @ py '' Token '' @ [39044, 31639, 65306, 24050, 20351, 29992] @ py '' ''
     @ str_nat used @ [65292, 39044, 31639, 20026] @ py '' '' @ str_nat budget @ [12290]"

definition retry_prompt :: "nat \<Rightarrow> nat \<Rightarrow> pystr" where
  "retry_prompt n limit =
     [26412, 36718, 25552, 20986, 20102] @ py '' '' @ str_nat n
     @ py '' '' @ [20010, 24037, 20855, 35843, 29992, 65292, 36229, 36807, 21333, 27493, 19978, 38480]
     @ py '' '' @ str_nat limit
     @ [12290, 35831, 19981, 35201, 25191, 34892, 36825, 20123, 35843, 29992, 65292, 37325, 26032,
        35268, 21010, 20026, 26356, 23569, 30340, 24037, 20855, 35843, 29992, 65307, 20248, 20808,
        25353, 20851, 38190, 32500, 24230, 20998, 25209, 20998, 26512, 12290]"

definition budget_reason :: "nat \<Rightarrow> nat \<Rightarrow> pystr" where
  "budget_reason n limit =
     [21333, 27493, 24037, 20855, 35843, 29992, 25968, 20026] @ py '' '' @ str_nat n
     @ [65292, 36229, 36807, 19978, 38480] @ py '' '' @ str_nat limit
     @ [12290, 35831, 32553, 23567, 20998, 26512, 33539, 22260, 21518, 37325, 35797, 12290]"

definition repeat_reason :: "signature list \<Rightarrow> pystr" where
  "repeat_reason sigs =
     [26816, 27979, 21040, 37325, 22797, 30340] @ py '' SQL '' @ [25110, 24037, 20855, 35843, 29992, 65306]
     @ join (py '', '') (sort (remdups (map fst sigs)))
     @ [12290, 35831, 26356, 25442, 20998, 26512, 32500, 24230, 25110, 21442, 25968, 21518, 37325, 35797, 12290]"

definition steps_reason :: "nat \<Rightarrow> pystr" where
  "steps_reason n =
     [24050, 36798, 21040, 26368, 22823, 25191, 34892, 27493, 25968] @ py '' '' @ str_nat n
     @ [65292] @ py ''Agent '' @ [24050, 20572, 27490, 12290]"

definition tool_message :: "agent_config \<Rightarrow> tool_execution \<Rightarrow> chat_message pyres" where
  "tool_message cfg x =
     (case serialize_tool_execution cfg x of
        Inl e \<Rightarrow> Inl e
      | Inr s \<Rightarrow> Inr \<lparr>cm_role = RoleTool, cm_content = Some s, cm_name = Some (te_tool_name x),
                     cm_tool_call_id = Some (te_tool_call_id x), cm_tool_calls = []\<rparr>)"

datatype step_end = Continues loop_state | Finishes agent_run_result | Raises py_exc

text \<open>The part of a step after the checks: execute the calls and append their messages.\<close>

definition run_calls ::
  "'w agent_env \<Rightarrow> agent_step \<Rightarrow> signature list \<Rightarrow> loop_state \<Rightarrow> 'w \<Rightarrow>
   agent_stream_event list \<times> step_end \<times> 'w" where
  "run_calls env step sigs st w =
     (let (xs, w') = execute_tool_calls env (as_tool_calls step) w;
          step' = step\<lparr>as_tool_executions := xs\<rparr>
      in ([StepEvent step'],
          (case map_res (tool_message (env_config env)) xs of
             Inl e \<Rightarrow> Raises e
           | Inr ms \<Rightarrow> Continues (st\<lparr>ls_messages := ls_messages st @ ms,
                 ls_steps := ls_steps st @ [step'], ls_signatures := ls_signatures st @ sigs\<rparr>)),
          w'))"

definition assistant_message :: "llm_response \<Rightarrow> chat_message" where
  "assistant_message r = (message RoleAssistant (lr_content r))\<lparr>cm_tool_calls := lr_tool_calls r\<rparr>"

definition bare_step :: "nat \<Rightarrow> llm_response \<Rightarrow> agent_step" where
  "bare_step number r = \<lparr>as_step = number, as_assistant_content = lr_content r,
     as_tool_calls = lr_tool_calls r, as_tool_executions = [], as_usage = lr_usage r\<rparr>"

text \<open>The state once the response is counted and appended, and once the bare step is recorded.\<close>

definition answered :: "llm_response \<Rightarrow> loop_state \<Rightarrow> loop_state" where
  "answered r st = st\<lparr>ls_usage := usage_add (ls_usage st) (lr_usage r),
                      ls_messages := ls_messages st @ [assistant_message r]\<rparr>"

definition recorded :: "nat \<Rightarrow> llm_response \<Rightarrow> loop_state \<Rightarrow> loop_state" where
  "recorded number r st = (answered r st)\<lparr>ls_steps := ls_steps st @ [bare_step number r]\<rparr>"

definition stop_run ::
  "agent_status \<Rightarrow> pystr \<Rightarrow> nat \<Rightarrow> llm_response \<Rightarrow> loop_state \<Rightarrow> 'w \<Rightarrow>
   agent_stream_event list \<times> step_end \<times> 'w" where
  "stop_run status reason number r st w =
     ([StepEvent (bare_step number r)],
      Finishes (finish status (Some reason) (Some reason) (recorded number r st)), w)"

definition retry_state :: "nat \<Rightarrow> nat \<Rightarrow> llm_response \<Rightarrow> loop_state \<Rightarrow> loop_state" where
  "retry_state limit number r st = (recorded number r st)\<lparr>
     ls_messages := butlast (ls_messages (answered r st))
       @ [message RoleUser (Some (retry_prompt (length (lr_tool_calls r)) limit))],
     ls_retries := ls_retries st + 1\<rparr>"

definition handle_response ::
  "'w agent_env \<Rightarrow> nat \<Rightarrow> llm_response \<Rightarrow> loop_state \<Rightarrow> 'w \<Rightarrow>
   agent_stream_event list \<times> step_end \<times> 'w" where
  "handle_response env number r st w =
     (let cfg = env_config env;
          calls = lr_tool_calls r;
          used = total_tokens (ls_usage (answered r st))
      in if calls = [] then
           ([StepEvent (bare_step number r)],
            Finishes (finish Completed (lr_content r) None (recorded number r st)), w)
         else if used > max_total_tokens cfg then
           stop_run TokenBudgetExceeded (token_reason used (max_total_tokens cfg)) number r st w
         else if length calls > max_tool_calls_per_step cfg then
           (if ls_retries st < max_tool_budget_retries cfg then
              ([], Continues (retry_state (max_tool_calls_per_step cfg) number r st), w)
            else stop_run ToolBudgetExceeded
                   (budget_reason (length calls) (max_tool_calls_per_step cfg)) number r st w)
         else
           (case call_signatures env calls of
              Inl e \<Rightarrow> ([], Raises e, w)
            | Inr sigs \<Rightarrow>
                (let repeated = filter (\<lambda>s. s \<in> set sigs) (ls_signatures st)
                 in if repeated \<noteq> [] \<or> \<not> distinct sigs then
                      stop_run LoopDetected (repeat_reason (if repeated \<noteq> [] then repeated else sigs))
                        number r st w
                    else run_calls env (bare_step number r) sigs (answered r st) w)))"

text \<open>A step that finishes the run yields the completed event after its own events.\<close>

definition agent_iteration ::
  "'w agent_env \<Rightarrow> tool_definition list \<Rightarrow> uuid option \<Rightarrow> nat \<Rightarrow> loop_state \<Rightarrow> 'w \<Rightarrow>
   agent_stream_event list \<times> step_end \<times> 'w" where
  "agent_iteration env defs trace number st w =
     (case stream_model_response env (ls_messages st) defs trace w of
        (out, Inl e, w') \<Rightarrow> (out, Raises e, w')
      | (out, Inr r, w') \<Rightarrow>
          (case handle_response env number r st w' of
             (out', Finishes res, w'') \<Rightarrow> (out @ out' @ [CompletedEvent res], Finishes res, w'')
           | (out', e, w'') \<Rightarrow> (out @ out', e, w'')))"

section \<open>The loop\<close>

text \<open>
  \<open>agent_loop env defs trace k n st w\<close> runs the \<open>k\<close> steps that are left after step \<open>n\<close>.  The
  result is the events yielded, the exception if one ended the generator, and the world.
\<close>

fun agent_loop ::
  "'w agent_env \<Rightarrow> tool_definition list \<Rightarrow> uuid option \<Rightarrow> nat \<Rightarrow> nat \<Rightarrow> loop_state \<Rightarrow> 'w \<Rightarrow>
   agent_stream_event list \<times> py_exc option \<times> 'w" where
  "agent_loop env defs trace 0 n st w =
     (let reason = steps_reason (max_steps (env_config env))
      in ([CompletedEvent (finish MaxSteps (Some reason) (Some reason) st)], None, w))"
| "agent_loop env defs trace (Suc k) n st w =
     (case agent_iteration env defs trace (n + 1) st w of
        (out, Continues st', w') \<Rightarrow>
          (case agent_loop env defs trace k (n + 1) st' w' of (outs, e, w'') \<Rightarrow> (out @ outs, e, w''))
      | (out, Finishes res, w') \<Rightarrow> (out, None, w')
      | (out, Raises e, w') \<Rightarrow> (out, Some e, w'))"

definition initial_messages :: "pystr option \<Rightarrow> chat_message list \<Rightarrow> pystr \<Rightarrow> chat_message list" where
  "initial_messages system history user =
     (if content_or [] system \<noteq> [] then [message RoleSystem system] else [])
     @ history @ [message RoleUser (Some user)]"

definition initial_state :: "chat_message list \<Rightarrow> loop_state" where
  "initial_state ms = \<lparr>ls_messages = ms, ls_usage = usage_zero, ls_steps = [], ls_signatures = [], ls_retries = 0\<rparr>"

definition agent_stream ::
  "'w agent_env \<Rightarrow> pystr \<Rightarrow> pystr option \<Rightarrow> chat_message list \<Rightarrow> uuid option \<Rightarrow> 'w \<Rightarrow>
   agent_stream_event list \<times> py_exc option \<times> 'w" where
  "agent_stream env user system history trace w =
     (case definitions (env_tools env) of
        (Inl e, reg) \<Rightarrow> ([], Some e, w)
      | (Inr defs, reg) \<Rightarrow>
          agent_loop (env\<lparr>env_tools := reg\<rparr>) defs trace (max_steps (env_config env)) 0
            (initial_state (initial_messages system history user)) w)"

fun first_result :: "agent_stream_event list \<Rightarrow> agent_run_result option" where
  "first_result [] = None"
| "first_result (CompletedEvent r # es) = Some r"
| "first_result (_ # es) = first_result es"

definition agent_run ::
  "'w agent_env \<Rightarrow> pystr \<Rightarrow> pystr option \<Rightarrow> chat_message list \<Rightarrow> uuid option \<Rightarrow> 'w \<Rightarrow>
   agent_run_result pyres \<times> 'w" where
  "agent_run env user system history trace w =
     (case agent_stream env user system history trace w of
        (out, e, w') \<Rightarrow>
          (case first_result out of
             Some r \<Rightarrow> (Inr r, w')
           | None \<Rightarrow>
               (case e of
                  Some x \<Rightarrow> (Inl x, w')
                | None \<Rightarrow> (raise_exc ''RuntimeError'' (py ''Agent stream ended without a completed event.''), w'))))"

end
