(* ===== verification/Agent_Invariants.thy ===== *)
theory Agent_Invariants
  imports Agent_Loop
begin

text \<open>
  What the agent loop guarantees: the states it reaches (\<open>loop_reaches\<close>, a step relation over
  \<open>agent_iteration\<close>), their invariant, the shape of the event stream, and the properties of a
  finished run that follow.
\<close>

section \<open>Tool execution\<close>

definition answers :: "tool_call \<Rightarrow> tool_execution \<Rightarrow> bool" where
  "answers c x \<longleftrightarrow> te_tool_call_id x = tc_id c \<and> te_tool_name x = tc_name c \<and> te_arguments x = tc_arguments c
     \<and> (te_error x = None \<or> te_result x = PNone)"

lemma answers_execution [simp]: "answers c (execution c r ms)"
  by (auto simp: answers_def execution_def split: sum.splits)

lemma execute_one_answers: "answers c (fst (execute_one env c w))"
  by (simp add: execute_one_def case_prod_unfold)

lemma execute_serial_answers: "list_all2 answers cs (fst (execute_serial env cs w))"
proof (induction cs arbitrary: w)
  case (Cons c cs)
  then show ?case using execute_one_answers [of c env w] by (simp add: case_prod_unfold Let_def)
qed simp

lemma set_task_order: "set (task_order os n) = {i. i < n}"
  by (auto simp: task_order_def)

lemma distinct_task_order: "distinct (task_order os n)"
  by (auto simp: task_order_def)

lemma execute_in_order_keys: "map fst (fst (execute_in_order env cs is w)) = is"
  by (induction "is" arbitrary: w) (simp_all add: case_prod_unfold Let_def)

lemma execute_in_order_answers:
  "(i, x) \<in> set (fst (execute_in_order env cs is w)) \<Longrightarrow> answers (cs ! i) x"
proof (induction "is" arbitrary: w)
  case (Cons j "is")
  then show ?case using execute_one_answers [of "cs ! j" env w] by (auto simp: case_prod_unfold Let_def)
qed simp

lemma execute_in_order_get:
  assumes "i < length cs"
  obtains x where "map_of (fst (execute_in_order env cs (task_order os (length cs)) w)) i = Some x"
    and "answers (cs ! i) x"
proof -
  let ?done = "fst (execute_in_order env cs (task_order os (length cs)) w)"
  have "i \<in> set (map fst ?done)"
    unfolding execute_in_order_keys set_task_order using assms by simp
  then obtain x where x: "map_of ?done i = Some x"
    by (cases "map_of ?done i") (simp_all add: map_of_eq_None_iff)
  have "answers (cs ! i) x" by (rule execute_in_order_answers [OF map_of_SomeD [OF x]])
  with x show thesis by (rule that)
qed

lemma execute_tool_calls_answers: "list_all2 answers cs (fst (execute_tool_calls env cs w))"
proof (cases "can_run_in_parallel env cs")
  case True
  have "answers (cs ! i) (the (map_of (fst (execute_in_order env cs (task_order os (length cs)) w)) i))"
    if "i < length cs" for i os
    using execute_in_order_get [OF that, of env os w] by (metis option.sel)
  with True show ?thesis
    by (simp add: execute_tool_calls_def execute_gather_def list_all2_conv_all_nth case_prod_unfold Let_def)
next
  case False
  then show ?thesis by (simp add: execute_tool_calls_def execute_serial_answers)
qed

section \<open>One response\<close>

text \<open>The branches of \<open>handle_response\<close>, with what each leaves behind.\<close>

lemma run_calls_cases:
  assumes "run_calls env step sigs st w = (out, e, w')"
  obtains (ran) xs ms where "list_all2 answers (as_tool_calls step) xs"
      "map_res (tool_message (env_config env)) xs = Inr ms"
      "out = [StepEvent (step\<lparr>as_tool_executions := xs\<rparr>)]"
      "e = Continues (st\<lparr>ls_messages := ls_messages st @ ms,
             ls_steps := ls_steps st @ [step\<lparr>as_tool_executions := xs\<rparr>],
             ls_signatures := ls_signatures st @ sigs\<rparr>)"
  | (unserializable) xs x where "out = [StepEvent (step\<lparr>as_tool_executions := xs\<rparr>)]" "e = Raises x"
      "map_res (tool_message (env_config env)) xs = Inl x" "xs = fst (execute_tool_calls env (as_tool_calls step) w)"
proof -
  obtain xs w2 where x: "execute_tool_calls env (as_tool_calls step) w = (xs, w2)" by fastforce
  have al: "list_all2 answers (as_tool_calls step) xs"
    using execute_tool_calls_answers [of "as_tool_calls step" env w] unfolding x by simp
  show thesis
  proof (cases "map_res (tool_message (env_config env)) xs")
    case (Inl y)
    have "out = [StepEvent (step\<lparr>as_tool_executions := xs\<rparr>)]" "e = Raises y"
      using assms unfolding run_calls_def x by (simp_all add: Inl)
    moreover have "xs = fst (execute_tool_calls env (as_tool_calls step) w)" unfolding x by simp
    ultimately show thesis using Inl by (intro unserializable)
  next
    case (Inr ms)
    show thesis
      by (rule ran [OF al Inr]) (use assms in \<open>simp_all add: run_calls_def Let_def x Inr\<close>)
  qed
qed

lemma handle_response_cases:
  assumes "handle_response env number r st w = (out, e, w')"
  obtains (answer) "lr_tool_calls r = []" "out = [StepEvent (bare_step number r)]"
      "e = Finishes (finish Completed (lr_content r) None (recorded number r st))"
  | (stopped) status reason where "lr_tool_calls r \<noteq> []" "status \<noteq> Completed" "status \<noteq> MaxSteps"
      "out = [StepEvent (bare_step number r)]"
      "e = Finishes (finish status (Some reason) (Some reason) (recorded number r st))"
  | (retried) "lr_tool_calls r \<noteq> []" "out = []"
      "max_tool_calls_per_step (env_config env) < length (lr_tool_calls r)"
      "ls_retries st < max_tool_budget_retries (env_config env)"
      "e = Continues (retry_state (max_tool_calls_per_step (env_config env)) number r st)"
  | (ran) sigs where "lr_tool_calls r \<noteq> []"
      "total_tokens (ls_usage (answered r st)) \<le> max_total_tokens (env_config env)"
      "length (lr_tool_calls r) \<le> max_tool_calls_per_step (env_config env)"
      "call_signatures env (lr_tool_calls r) = Inr sigs"
      "distinct (ls_signatures st @ sigs) \<longleftrightarrow> distinct (ls_signatures st)"
      "run_calls env (bare_step number r) sigs (answered r st) w = (out, e, w')"
  | (unsigned) x where "call_signatures env (lr_tool_calls r) = Inl x" "out = []" "e = Raises x"
proof (cases "lr_tool_calls r = []")
  case True
  with assms answer show thesis by (simp add: handle_response_def)
next
  case calls: False
  show thesis
  proof (cases "total_tokens (ls_usage (answered r st)) > max_total_tokens (env_config env)
      \<or> length (lr_tool_calls r) > max_tool_calls_per_step (env_config env)")
    case True
    with calls assms stopped retried show thesis
      by (simp add: handle_response_def stop_run_def Let_def split: if_splits) blast+
  next
    case False
    show thesis
    proof (cases "call_signatures env (lr_tool_calls r)")
      case (Inl x)
      with calls assms False unsigned show thesis by (simp add: handle_response_def)
    next
      case (Inr sigs)
      let ?rep = "filter (\<lambda>s. s \<in> set sigs) (ls_signatures st)"
      show thesis
      proof (cases "?rep \<noteq> [] \<or> \<not> distinct sigs")
        case True
        with calls assms False Inr stopped show thesis
          by (auto simp: handle_response_def stop_run_def Let_def split: if_splits)
      next
        case distinct: False
        then have "distinct (ls_signatures st @ sigs) \<longleftrightarrow> distinct (ls_signatures st)"
          by (auto simp: filter_empty_conv)
        moreover have "run_calls env (bare_step number r) sigs (answered r st) w = (out, e, w')"
          using calls assms False Inr distinct by (simp add: handle_response_def)
        ultimately show thesis using ran calls False Inr by simp
      qed
    qed
  qed
qed

section \<open>The invariant of the loop\<close>

definition execution_signature :: "'w agent_env \<Rightarrow> tool_execution \<Rightarrow> signature pyres" where
  "execution_signature env x = signature_of env (te_tool_name x) (te_arguments x)"

definition all_executions :: "agent_step list \<Rightarrow> tool_execution list" where
  "all_executions steps = concat (map as_tool_executions steps)"

definition spent_after :: "agent_step list \<Rightarrow> nat \<Rightarrow> nat" where
  "spent_after steps i = total_tokens (usage_sum (map as_usage (take (Suc i) steps)))"

text \<open>A step that executed anything executed all its calls, within both budgets.\<close>

definition within_budget :: "agent_config \<Rightarrow> agent_step list \<Rightarrow> bool" where
  "within_budget cfg steps \<longleftrightarrow> (\<forall>i < length steps. as_tool_executions (steps ! i) \<noteq> [] \<longrightarrow>
     list_all2 answers (as_tool_calls (steps ! i)) (as_tool_executions (steps ! i))
     \<and> length (as_tool_executions (steps ! i)) \<le> max_tool_calls_per_step cfg
     \<and> spent_after steps i \<le> max_total_tokens cfg)"

definition over_calls :: "agent_config \<Rightarrow> agent_step \<Rightarrow> bool" where
  "over_calls cfg s \<longleftrightarrow> max_tool_calls_per_step cfg < length (as_tool_calls s)"

definition steps_inv :: "'w agent_env \<Rightarrow> nat \<Rightarrow> loop_state \<Rightarrow> bool" where
  "steps_inv env n st \<longleftrightarrow> map as_step (ls_steps st) = [1..<Suc n]
     \<and> ls_usage st = usage_sum (map as_usage (ls_steps st))
     \<and> map_res (execution_signature env) (all_executions (ls_steps st)) = Inr (ls_signatures st)
     \<and> distinct (ls_signatures st)
     \<and> within_budget (env_config env) (ls_steps st)"

definition loop_inv :: "'w agent_env \<Rightarrow> nat \<Rightarrow> loop_state \<Rightarrow> bool" where
  "loop_inv env n st \<longleftrightarrow> steps_inv env n st \<and> (\<forall>s \<in> set (ls_steps st). as_tool_calls s \<noteq> [])
     \<and> length (filter (over_calls (env_config env)) (ls_steps st)) = ls_retries st
     \<and> ls_retries st \<le> max_tool_budget_retries (env_config env)"

lemma all_executions_snoc [simp]: "all_executions (steps @ [s]) = all_executions steps @ as_tool_executions s"
  by (simp add: all_executions_def)

lemma within_budget_snoc:
  assumes "within_budget cfg steps"
    and "as_tool_executions s \<noteq> [] \<Longrightarrow> list_all2 answers (as_tool_calls s) (as_tool_executions s)
      \<and> length (as_tool_executions s) \<le> max_tool_calls_per_step cfg
      \<and> total_tokens (usage_sum (map as_usage (steps @ [s]))) \<le> max_total_tokens cfg"
  shows "within_budget cfg (steps @ [s])"
  unfolding within_budget_def
proof (intro allI impI)
  fix i assume i: "i < length (steps @ [s])" and ex: "as_tool_executions ((steps @ [s]) ! i) \<noteq> []"
  show "list_all2 answers (as_tool_calls ((steps @ [s]) ! i)) (as_tool_executions ((steps @ [s]) ! i))
     \<and> length (as_tool_executions ((steps @ [s]) ! i)) \<le> max_tool_calls_per_step cfg
     \<and> spent_after (steps @ [s]) i \<le> max_total_tokens cfg"
  proof (cases "i < length steps")
    case True
    with assms(1) ex show ?thesis by (simp add: within_budget_def nth_append spent_after_def)
  next
    case False
    with i have "i = length steps" by simp
    with ex assms(2) show ?thesis by (simp add: spent_after_def)
  qed
qed

lemma steps_inv_snoc:
  assumes inv: "steps_inv env n st" and num: "as_step s = Suc n" and us: "as_usage s = lr_usage r"
    and st': "ls_steps st' = ls_steps st @ [s]" "ls_usage st' = usage_add (ls_usage st) (lr_usage r)"
    and sig: "ls_signatures st' = ls_signatures st @ sigs" "distinct (ls_signatures st')"
    and ex: "map_res (execution_signature env) (as_tool_executions s) = Inr sigs"
    and budget: "as_tool_executions s \<noteq> [] \<Longrightarrow> list_all2 answers (as_tool_calls s) (as_tool_executions s)
      \<and> length (as_tool_executions s) \<le> max_tool_calls_per_step (env_config env)
      \<and> total_tokens (ls_usage st') \<le> max_total_tokens (env_config env)"
  shows "steps_inv env (Suc n) st'"
proof -
  have use: "ls_usage st' = usage_sum (map as_usage (ls_steps st'))"
    using inv st' us by (simp add: steps_inv_def)
  have "within_budget (env_config env) (ls_steps st')"
    unfolding st'(1) by (rule within_budget_snoc) (use inv budget use st'(1) in \<open>simp_all add: steps_inv_def\<close>)
  moreover have "map_res (execution_signature env) (all_executions (ls_steps st')) = Inr (ls_signatures st')"
    unfolding st'(1) sig(1) all_executions_snoc using inv ex by (intro map_res_append) (simp_all add: steps_inv_def)
  moreover have "map as_step (ls_steps st') = [1..<Suc (Suc n)]"
    using inv num st'(1) by (simp add: steps_inv_def)
  ultimately show ?thesis using use sig(2) by (simp only: steps_inv_def simp_thms)
qed

lemma bare_step_simps [simp]:
  "as_step (bare_step n r) = n" "as_usage (bare_step n r) = lr_usage r" "as_tool_executions (bare_step n r) = []"
  "as_tool_calls (bare_step n r) = lr_tool_calls r" "as_assistant_content (bare_step n r) = lr_content r"
  by (simp_all add: bare_step_def)

lemma recorded_simps [simp]:
  "ls_steps (recorded n r st) = ls_steps st @ [bare_step n r]"
  "ls_usage (recorded n r st) = usage_add (ls_usage st) (lr_usage r)"
  "ls_signatures (recorded n r st) = ls_signatures st" "ls_retries (recorded n r st) = ls_retries st"
  "ls_messages (recorded n r st) = ls_messages st @ [assistant_message r]"
  by (simp_all add: recorded_def answered_def)

lemma retry_state_simps [simp]:
  "ls_steps (retry_state k n r st) = ls_steps st @ [bare_step n r]"
  "ls_usage (retry_state k n r st) = usage_add (ls_usage st) (lr_usage r)"
  "ls_signatures (retry_state k n r st) = ls_signatures st" "ls_retries (retry_state k n r st) = Suc (ls_retries st)"
  "ls_messages (retry_state k n r st) = ls_messages st @ [message RoleUser (Some (retry_prompt (length (lr_tool_calls r)) k))]"
  by (simp_all add: retry_state_def answered_def)

lemma answered_simps [simp]:
  "ls_steps (answered r st) = ls_steps st" "ls_usage (answered r st) = usage_add (ls_usage st) (lr_usage r)"
  "ls_signatures (answered r st) = ls_signatures st" "ls_retries (answered r st) = ls_retries st"
  "ls_messages (answered r st) = ls_messages st @ [assistant_message r]"
  by (simp_all add: answered_def)

lemma steps_inv_recorded: "steps_inv env n st \<Longrightarrow> steps_inv env (Suc n) (recorded (Suc n) r st)"
  by (rule steps_inv_snoc [where r = r and sigs = "[]" and s = "bare_step (Suc n) r" and st = st]) (simp_all add: steps_inv_def)

lemma signatures_of_answers:
  "list_all2 answers cs xs \<Longrightarrow> call_signatures env cs = Inr sigs \<Longrightarrow>
   map_res (execution_signature env) xs = Inr sigs"
  unfolding call_signatures_def map_res_Inr
  by (auto simp: list_all2_conv_all_nth answers_def execution_signature_def)

text \<open>What one response does to the invariant.\<close>

lemma handle_response_continues:
  assumes inv: "loop_inv env n st"
    and eq: "handle_response env (Suc n) r st w = (out, Continues st', w')"
  shows "loop_inv env (Suc n) st'"
  using eq
proof (cases rule: handle_response_cases)
  case retried
  then have st': "st' = retry_state (max_tool_calls_per_step (env_config env)) (Suc n) r st" by simp
  have "steps_inv env (Suc n) st'" unfolding st'
    using inv by (intro steps_inv_snoc [where r = r and sigs = "[]" and s = "bare_step (Suc n) r" and st = st]) (simp_all add: loop_inv_def steps_inv_def)
  with inv retried show ?thesis by (auto simp: loop_inv_def over_calls_def st')
next
  case (ran sigs)
  from ran(6) show ?thesis
  proof (cases rule: run_calls_cases)
    case (ran xs ms)
    note r = \<open>call_signatures env (lr_tool_calls r) = Inr sigs\<close>
    let ?s = "bare_step (Suc n) r\<lparr>as_tool_executions := xs\<rparr>"
    from ran have al: "list_all2 answers (lr_tool_calls r) xs" by simp
    have "steps_inv env (Suc n) st'"
      by (rule steps_inv_snoc [where r = r and sigs = sigs and s = ?s and st = st])
        (use inv ran al \<open>length (lr_tool_calls r) \<le> _\<close> \<open>total_tokens _ \<le> _\<close> \<open>distinct _ \<longleftrightarrow> _\<close>
          signatures_of_answers [OF al r] list_all2_lengthD [OF al]
         in \<open>simp_all add: loop_inv_def steps_inv_def\<close>)
    with inv ran \<open>lr_tool_calls r \<noteq> []\<close> \<open>length (lr_tool_calls r) \<le> _\<close> show ?thesis
      by (auto simp: loop_inv_def over_calls_def)
  qed simp
qed simp_all

section \<open>What a finished run looks like\<close>

text \<open>The states the loop is in before each step, from the state and world it starts in.\<close>

inductive loop_reaches ::
  "'w agent_env \<Rightarrow> tool_definition list \<Rightarrow> uuid option \<Rightarrow> loop_state \<Rightarrow> 'w \<Rightarrow> nat \<Rightarrow> loop_state \<Rightarrow> 'w \<Rightarrow> bool"
  for env defs trace st0 w0 where
  start: "loop_reaches env defs trace st0 w0 0 st0 w0"
| step: "loop_reaches env defs trace st0 w0 n st w \<Longrightarrow> n < max_steps (env_config env) \<Longrightarrow>
    agent_iteration env defs trace (Suc n) st w = (out, Continues st', w') \<Longrightarrow>
    loop_reaches env defs trace st0 w0 (Suc n) st' w'"

definition run_ends ::
  "'w agent_env \<Rightarrow> tool_definition list \<Rightarrow> uuid option \<Rightarrow> loop_state \<Rightarrow> 'w \<Rightarrow> agent_run_result \<Rightarrow> bool" where
  "run_ends env defs trace st0 w0 r \<longleftrightarrow> (\<exists>n st w. loop_reaches env defs trace st0 w0 n st w
     \<and> (n = max_steps (env_config env) \<and> (\<exists>t. r = finish MaxSteps (Some t) (Some t) st)
        \<or> n < max_steps (env_config env)
          \<and> (\<exists>out w'. agent_iteration env defs trace (Suc n) st w = (out, Finishes r, w'))))"

fun is_completed :: "agent_stream_event \<Rightarrow> bool" where
  "is_completed (CompletedEvent r) = True"
| "is_completed _ = False"

fun is_text :: "agent_stream_event \<Rightarrow> bool" where
  "is_text (TextDelta t) = True"
| "is_text TextReset = True"
| "is_text _ = False"

lemma stream_steps_text:
  "stream_steps es a = (out, a') \<Longrightarrow> \<exists>ts. sa_text a' = sa_text a @ ts \<and> out = map TextDelta ts"
proof (induction es arbitrary: a out a')
  case (Cons e es)
  obtain o1 a1 where o1: "stream_step e a = (o1, a1)" by fastforce
  obtain o2 a2 where o2: "stream_steps es a1 = (o2, a2)" by fastforce
  have "\<exists>ts. sa_text a1 = sa_text a @ ts \<and> o1 = map TextDelta ts"
    using o1 by (auto simp: stream_step_def split: stream_event_type.splits option.splits if_splits)
  with Cons.IH [OF o2] Cons.prems o1 o2 show ?case by (auto simp: Let_def intro: exI [of _ "_ @ _"])
qed simp

lemma streamed_response_text:
  assumes "streamed_response env es failure = (out, r)"
  obtains ts where "out = map TextDelta ts \<or> out = map TextDelta ts @ [TextReset]"
    and "\<And>x. r = Inr x \<Longrightarrow> if lr_tool_calls x = [] then out = map TextDelta ts \<and> lr_content x = Some (concat ts)
           else out = map TextDelta ts @ (if ts = [] then [] else [TextReset])"
proof -
  obtain out1 a where a: "stream_steps es empty_acc = (out1, a)" by fastforce
  from stream_steps_text [OF a] have out1: "out1 = map TextDelta (sa_text a)" by (auto simp: empty_acc_def)
  show thesis
    by (rule that [of "sa_text a"])
      (use assms a out1 in \<open>auto simp: streamed_response_def split: option.splits sum.splits if_splits\<close>)
qed

lemma stream_model_response_text:
  "stream_model_response env ms defs trace w = (out, r, w') \<Longrightarrow> list_all is_text out"
  by (auto simp: stream_model_response_def whole_response_def list_all_iff
      elim!: streamed_response_text split: sum.splits option.splits bool.splits prod.splits if_splits)

lemma agent_iteration_cases:
  assumes "agent_iteration env defs trace n st w = (out, e, w')"
  obtains (failed) x where "stream_model_response env (ls_messages st) defs trace w = (out, Inl x, w')"
      "e = Raises x"
  | (responded) out1 r w1 out2 where
      "stream_model_response env (ls_messages st) defs trace w = (out1, Inr r, w1)"
      "handle_response env n r st w1 = (out2, e, w')"
      "out = out1 @ out2 @ (case e of Finishes res \<Rightarrow> [CompletedEvent res] | _ \<Rightarrow> [])"
  using assms by (auto simp: agent_iteration_def split: prod.splits sum.splits step_end.splits)

fun step_events :: "agent_stream_event list \<Rightarrow> agent_step list" where
  "step_events [] = []"
| "step_events (StepEvent s # es) = s # step_events es"
| "step_events (_ # es) = step_events es"

lemma step_events_append [simp]: "step_events (a @ b) = step_events a @ step_events b"
  by (induction a rule: step_events.induct) auto

lemma text_not_steps: "list_all is_text out \<Longrightarrow> step_events out = []"
  by (induction out rule: step_events.induct) auto

lemma text_not_completed: "list_all is_text out \<Longrightarrow> filter is_completed out = []"
  by (induction out rule: step_events.induct) auto

text \<open>The events of one step.\<close>

lemma handle_response_events:
  assumes "handle_response env n r st w = (out, e, w')"
  shows "filter is_completed out = []"
    and "\<And>st'. e = Continues st' \<Longrightarrow> \<exists>s. ls_steps st' = ls_steps st @ [s]
           \<and> step_events out = filter (\<lambda>s. \<not> over_calls (env_config env) s) [s]"
    and "\<And>res. e = Finishes res \<Longrightarrow> rr_status res \<noteq> MaxSteps
           \<and> (\<exists>s. rr_steps res = ls_steps st @ [s] \<and> step_events out = [s])"
proof -
  have "filter is_completed out = [] \<and> (\<forall>st'. e = Continues st' \<longrightarrow> (\<exists>s. ls_steps st' = ls_steps st @ [s]
           \<and> step_events out = filter (\<lambda>s. \<not> over_calls (env_config env) s) [s]))
      \<and> (\<forall>res. e = Finishes res \<longrightarrow> rr_status res \<noteq> MaxSteps
           \<and> (\<exists>s. rr_steps res = ls_steps st @ [s] \<and> step_events out = [s]))"
    using assms
  proof (cases rule: handle_response_cases)
    case (ran sigs)
    from ran(6) show ?thesis
      by (cases rule: run_calls_cases) (use ran(3) in \<open>auto simp: over_calls_def\<close>)
  qed (auto simp: over_calls_def finish_def)
  then show "filter is_completed out = []"
    and "\<And>st'. e = Continues st' \<Longrightarrow> \<exists>s. ls_steps st' = ls_steps st @ [s]
           \<and> step_events out = filter (\<lambda>s. \<not> over_calls (env_config env) s) [s]"
    and "\<And>res. e = Finishes res \<Longrightarrow> rr_status res \<noteq> MaxSteps
           \<and> (\<exists>s. rr_steps res = ls_steps st @ [s] \<and> step_events out = [s])"
    by blast+
qed

definition reported_steps :: "agent_config \<Rightarrow> agent_status \<Rightarrow> agent_step list \<Rightarrow> agent_step list" where
  "reported_steps cfg status steps =
     (let kept = filter (\<lambda>s. \<not> over_calls cfg s)
      in if status = MaxSteps then kept steps else kept (butlast steps) @ [last steps])"

text \<open>The event stream of the loop: one completed event at its very end, or an exception.\<close>

lemma agent_loop_events:
  "agent_loop env defs trace k n st w = (out, e, w') \<Longrightarrow>
   (case e of
      Some x \<Rightarrow> filter is_completed out = []
    | None \<Rightarrow> (\<exists>pre r new. out = pre @ [CompletedEvent r] \<and> filter is_completed pre = []
        \<and> rr_steps r = ls_steps st @ new \<and> (rr_status r \<noteq> MaxSteps \<longrightarrow> new \<noteq> [])
        \<and> step_events out = reported_steps (env_config env) (rr_status r) new))"
proof (induction k arbitrary: n st w out)
  case 0
  then have "out = [] @ [CompletedEvent (finish MaxSteps (Some (steps_reason (max_steps (env_config env))))
      (Some (steps_reason (max_steps (env_config env)))) st)]" and "e = None"
    by (auto simp: Let_def)
  then show ?case
    by (auto simp: finish_def reported_steps_def Let_def)
next
  case (Suc k)
  obtain out1 e1 w1 where it: "agent_iteration env defs trace (n + 1) st w = (out1, e1, w1)"
    by (cases "agent_iteration env defs trace (n + 1) st w")
  from it show ?case
  proof (cases rule: agent_iteration_cases)
    case (failed x)
    with Suc.prems it stream_model_response_text [OF failed(1)] show ?thesis
      by (auto simp: text_not_completed)
  next
    case (responded o1 r w2 o2)
    note t = stream_model_response_text [OF responded(1)]
    note h = handle_response_events [OF responded(2)]
    show ?thesis
    proof (cases e1)
      case (Continues st')
      from h(2) [OF Continues] obtain s where s: "ls_steps st' = ls_steps st @ [s]"
        "step_events o2 = filter (\<lambda>s. \<not> over_calls (env_config env) s) [s]" by blast
      obtain outs where outs: "agent_loop env defs trace k (n + 1) st' w1 = (outs, e, w')"
        and out: "out = out1 @ outs"
        using Suc.prems it Continues by (auto split: prod.splits)
      have none: "filter is_completed out1 = []" "step_events out1 = step_events o2"
        using responded(3) Continues t h(1) by (simp_all add: text_not_completed text_not_steps)
      show ?thesis
      proof (cases e)
        case (Some x)
        with Suc.IH [OF outs] none out show ?thesis by simp
      next
        case None
        with Suc.IH [OF outs] obtain pre res new where *: "outs = pre @ [CompletedEvent res]"
          "filter is_completed pre = []" "rr_steps res = ls_steps st' @ new"
          "rr_status res \<noteq> MaxSteps \<longrightarrow> new \<noteq> []"
          "step_events outs = reported_steps (env_config env) (rr_status res) new"
          by (simp only: option.case) blast
        have "step_events out = reported_steps (env_config env) (rr_status res) (s # new)"
          using * out none s(2) by (auto simp: reported_steps_def Let_def)
        moreover have "out = (out1 @ pre) @ [CompletedEvent res]" "filter is_completed (out1 @ pre) = []"
          "rr_steps res = ls_steps st @ (s # new)" using * out none s(1) by simp_all
        ultimately show ?thesis using None by (simp only: option.case) blast
      qed
    next
      case (Finishes res)
      from h(3) [OF Finishes] obtain s where s: "rr_status res \<noteq> MaxSteps" "rr_steps res = ls_steps st @ [s]"
        "step_events o2 = [s]" by blast
      have fin: "out = (o1 @ o2) @ [CompletedEvent res]" "e = None"
        using Suc.prems it Finishes responded(3) by simp_all
      moreover have "filter is_completed (o1 @ o2) = []" "step_events out = reported_steps (env_config env) (rr_status res) [s]"
        using t h(1) s fin by (simp_all add: text_not_completed text_not_steps reported_steps_def)
      ultimately show ?thesis using s(2) by (simp only: option.case) blast
    next
      case (Raises x)
      with Suc.prems it responded(3) t h(1) show ?thesis by (auto simp: text_not_completed)
    qed
  qed
qed

text \<open>Every completed event of the loop belongs to a state the loop reached.\<close>

lemma agent_loop_ends:
  assumes "loop_reaches env defs trace st0 w0 n st w" and "n + k = max_steps (env_config env)"
    and "agent_loop env defs trace k n st w = (out, e, w')" and "CompletedEvent r \<in> set out"
  shows "run_ends env defs trace st0 w0 r"
  using assms
proof (induction k arbitrary: n st w out)
  case 0
  then have "r = finish MaxSteps (Some (steps_reason (max_steps (env_config env))))
      (Some (steps_reason (max_steps (env_config env)))) st" by (auto simp: Let_def)
  with "0.prems"(1,2) show ?case unfolding run_ends_def
    by (intro exI [of _ n] exI [of _ st] exI [of _ w]) auto
next
  case (Suc k)
  obtain out1 e1 w1 where it: "agent_iteration env defs trace (Suc n) st w = (out1, e1, w1)"
    by (cases "agent_iteration env defs trace (Suc n) st w")
  have n: "n < max_steps (env_config env)" using Suc.prems(2) by simp
  have own: "e1 = Finishes r" if "CompletedEvent r \<in> set out1"
  proof -
    have out1: "CompletedEvent r \<in> set (filter is_completed out1)" using that by simp
    from it show ?thesis
    proof (cases rule: agent_iteration_cases)
      case (failed x)
      with stream_model_response_text [OF failed(1)] out1 show ?thesis
        by (simp add: text_not_completed)
    next
      case (responded o1 x w2 o2)
      have same: "filter is_completed out1 = (case e1 of Finishes res \<Rightarrow> [CompletedEvent res] | _ \<Rightarrow> [])"
        using stream_model_response_text [OF responded(1)] handle_response_events(1) [OF responded(2)]
        unfolding responded(3) by (cases e1) (simp_all add: text_not_completed)
      show ?thesis using out1 unfolding same by (cases e1) simp_all
    qed
  qed
  have ends: "run_ends env defs trace st0 w0 r" if "e1 = Finishes r"
    using Suc.prems(1) n it that unfolding run_ends_def by blast
  show ?case
  proof (cases e1)
    case (Continues st')
    obtain outs where outs: "agent_loop env defs trace k (Suc n) st' w1 = (outs, e, w')" and out: "out = out1 @ outs"
      using Suc.prems(3) it Continues by (auto split: prod.splits)
    have "loop_reaches env defs trace st0 w0 (Suc n) st' w1"
      using loop_reaches.step [OF Suc.prems(1) n] it Continues by blast
    then show ?thesis
      using Suc.IH [OF _ _ outs] Suc.prems(2,4) out own Continues by auto
  qed (use Suc.prems it own ends in auto)
qed

text \<open>What holds of every result.\<close>

definition result_ok :: "'w agent_env \<Rightarrow> agent_run_result \<Rightarrow> bool" where
  "result_ok env r \<longleftrightarrow> map as_step (rr_steps r) = [1..<Suc (length (rr_steps r))]
     \<and> length (rr_steps r) \<le> max_steps (env_config env)
     \<and> (rr_status r = MaxSteps \<longrightarrow> length (rr_steps r) = max_steps (env_config env))
     \<and> rr_usage r = usage_sum (map as_usage (rr_steps r))
     \<and> (\<exists>sigs. map_res (execution_signature env) (all_executions (rr_steps r)) = Inr sigs \<and> distinct sigs)
     \<and> within_budget (env_config env) (rr_steps r)
     \<and> length (filter (over_calls (env_config env)) (rr_steps r)) \<le> Suc (max_tool_budget_retries (env_config env))"

definition status_ok :: "agent_run_result \<Rightarrow> bool" where
  "status_ok r \<longleftrightarrow>
     (if rr_status r = Completed
      then (\<exists>before s. rr_steps r = before @ [s] \<and> as_tool_calls s = [] \<and> (\<forall>s \<in> set before. as_tool_calls s \<noteq> [])
              \<and> rr_output r = as_assistant_content s) \<and> rr_termination_reason r = None
      else (\<forall>s \<in> set (rr_steps r). as_tool_calls s \<noteq> [])
           \<and> (\<exists>t. rr_output r = Some t \<and> rr_termination_reason r = Some t))"

lemma finish_simps [simp]:
  "rr_status (finish s p q st) = s" "rr_output (finish s p q st) = p" "rr_termination_reason (finish s p q st) = q"
  "rr_steps (finish s p q st) = ls_steps st" "rr_usage (finish s p q st) = ls_usage st"
  "rr_messages (finish s p q st) = ls_messages st"
  by (simp_all add: finish_def)

lemma steps_inv_length: "steps_inv env n st \<Longrightarrow> length (ls_steps st) = n"
  unfolding steps_inv_def by (metis length_map length_upt diff_Suc_1 One_nat_def)

lemma loop_inv_initial: "loop_inv env 0 (initial_state ms)"
  by (simp add: loop_inv_def steps_inv_def initial_state_def all_executions_def within_budget_def)

lemma loop_reaches_inv:
  "loop_reaches env defs trace (initial_state ms) w0 n st w \<Longrightarrow> loop_inv env n st \<and> n \<le> max_steps (env_config env)"
proof (induction rule: loop_reaches.induct)
  case start
  show ?case by (simp add: loop_inv_initial)
next
  case (step n st w out st' w')
  from step(3) show ?case
  proof (cases rule: agent_iteration_cases)
    case (responded o1 r w1 o2)
    with step handle_response_continues show ?thesis by fastforce
  qed simp
qed

lemma result_ok_finish:
  assumes inv: "steps_inv env n st" and "n \<le> max_steps (env_config env)" and "status = MaxSteps \<longrightarrow> n = max_steps (env_config env)"
    and "length (filter (over_calls (env_config env)) (ls_steps st)) \<le> Suc (max_tool_budget_retries (env_config env))"
  shows "result_ok env (finish status p q st)"
  using assms steps_inv_length [OF inv] by (simp add: result_ok_def steps_inv_def)

lemma handle_response_result:
  assumes inv: "loop_inv env n st" and n: "n < max_steps (env_config env)"
    and eq: "handle_response env (Suc n) r st w = (out, Finishes res, w')"
  shows "result_ok env res \<and> status_ok res"
proof -
  have ok: "result_ok env (finish s p q (recorded (Suc n) r st))" if "s \<noteq> MaxSteps" for s p q
    by (rule result_ok_finish [OF steps_inv_recorded]) (use inv n that in \<open>simp_all add: loop_inv_def\<close>)
  from eq show ?thesis
  proof (cases rule: handle_response_cases)
    case answer
    with inv ok [of Completed] show ?thesis by (auto simp: status_ok_def loop_inv_def)
  next
    case (stopped s reason)
    with inv ok [of s] show ?thesis by (auto simp: status_ok_def loop_inv_def)
  next
    case (ran sigs)
    from ran(6) show ?thesis by (cases rule: run_calls_cases) simp_all
  qed simp_all
qed

lemma run_ends_ok:
  assumes "run_ends env defs trace (initial_state ms) w0 r"
  shows "result_ok env r \<and> status_ok r"
proof -
  from assms obtain n st w where reach: "loop_reaches env defs trace (initial_state ms) w0 n st w"
    and "n = max_steps (env_config env) \<and> (\<exists>t. r = finish MaxSteps (Some t) (Some t) st)
        \<or> n < max_steps (env_config env)
          \<and> (\<exists>out w'. agent_iteration env defs trace (Suc n) st w = (out, Finishes r, w'))"
    unfolding run_ends_def by blast
  from this(2) loop_reaches_inv [OF reach] show ?thesis
  proof (elim disjE conjE exE)
    fix t assume inv: "loop_inv env n st" and n: "n = max_steps (env_config env)" and r: "r = finish MaxSteps (Some t) (Some t) st"
    from inv show ?thesis unfolding r
      by (intro conjI result_ok_finish [where n = n]) (simp_all add: loop_inv_def status_ok_def n)
  next
    fix out w' assume inv: "loop_inv env n st" and n: "n < max_steps (env_config env)"
      and "agent_iteration env defs trace (Suc n) st w = (out, Finishes r, w')"
    from this(3) show ?thesis
      by (cases rule: agent_iteration_cases) (use handle_response_result [OF inv n] in auto)
  qed
qed

lemma agent_stream_cases:
  assumes "agent_stream env user system history trace w = (out, e, w')"
  obtains (undefined) x where "out = []" "e = Some x" "w' = w"
  | (ran) defs reg where "definitions (env_tools env) = (Inr defs, reg)"
      "agent_loop (env\<lparr>env_tools := reg\<rparr>) defs trace (max_steps (env_config env)) 0
         (initial_state (initial_messages system history user)) w = (out, e, w')"
  using assms by (auto simp: agent_stream_def split: prod.splits sum.splits)

lemma same_fold_sql [simp]: "fold_sql (env\<lparr>env_tools := reg\<rparr>) = fold_sql env"
  by (simp add: fun_eq_iff fold_sql_def)

lemma same_normalized_sql [simp]: "normalized_sql (env\<lparr>env_tools := reg\<rparr>) = normalized_sql env"
  by (simp add: fun_eq_iff normalized_sql_def split: sql_text.split)

lemma same_signature [simp]: "execution_signature (env\<lparr>env_tools := reg\<rparr>) = execution_signature env"
  by (simp add: fun_eq_iff execution_signature_def signature_of_def normalized_arguments_def
      split: option.splits pyval.splits)

lemma result_ok_tools [simp]: "result_ok (env\<lparr>env_tools := reg\<rparr>) r = result_ok env r"
  by (simp add: result_ok_def)

lemma agent_stream_result:
  assumes "agent_stream env user system history trace w = (out, e, w')" and "CompletedEvent r \<in> set out"
  shows "result_ok env r \<and> status_ok r"
  using assms(1)
proof (cases rule: agent_stream_cases)
  case (ran defs reg)
  let ?env = "env\<lparr>env_tools := reg\<rparr>"
  have "run_ends ?env defs trace (initial_state (initial_messages system history user)) w r"
    by (rule agent_loop_ends [OF loop_reaches.start _ ran(2) assms(2)]) simp
  then show ?thesis using run_ends_ok by fastforce
qed (use assms(2) in simp)

end
