(* ===== verification/Agent_Requests.thy ===== *)
theory Agent_Requests
  imports Agent_Invariants
begin

text \<open>
  What the model is sent and what a client sees: every request pairs each assistant message
  that calls tools with the results of exactly these calls, compaction never raises on a
  conversation the loop made, and the text deltas add up to the output of the run.
\<close>

section \<open>Tool calls and their results\<close>

function paired :: "chat_message list \<Rightarrow> bool" where
  "paired [] = True"
| "paired (m # ms) =
     (let k = length (cm_tool_calls m)
      in \<not> is_tool m \<and> map cm_tool_call_id (take k ms) = map (\<lambda>c. Some (tc_id c)) (cm_tool_calls m)
         \<and> list_all is_tool (take k ms) \<and> paired (drop k ms))"
  by pat_completeness auto
termination by (relation "measure length") auto

lemma paired_append: "paired xs \<Longrightarrow> paired ys \<Longrightarrow> paired (xs @ ys)"
proof (induction xs rule: paired.induct)
  case (2 m ms)
  then have "length (cm_tool_calls m) \<le> length ms"
    by (metis (no_types, lifting) length_map length_take min.absorb_iff2 paired.simps(2))
  with 2 show ?case by (simp add: Let_def)
qed simp

lemma paired_plain [simp]: "cm_tool_calls m = [] \<Longrightarrow> paired [m] \<longleftrightarrow> \<not> is_tool m"
  by simp

lemma is_tool_message [simp]: "is_tool (message r c) \<longleftrightarrow> r = RoleTool"
  by (simp add: is_tool_def)

lemma assistant_message_simps [simp]:
  "cm_tool_calls (assistant_message r) = lr_tool_calls r" "\<not> is_tool (assistant_message r)"
  by (simp_all add: assistant_message_def is_tool_def)

lemma same_frame_map:
  "list_all2 same_frame xs ys \<Longrightarrow> map cm_tool_call_id ys = map cm_tool_call_id xs \<and> list_all is_tool ys = list_all is_tool xs"
  by (induction rule: list_all2_induct) (auto dest: same_frame_fields simp: is_tool_def)

lemma paired_frame: "list_all2 same_frame xs ys \<Longrightarrow> paired ys = paired xs"
proof (induction xs arbitrary: ys rule: paired.induct)
  case (2 m ms)
  then obtain n ns where ys: "ys = n # ns" and f: "same_frame m n" and fs: "list_all2 same_frame ms ns"
    by (auto simp: list_all2_Cons1)
  let ?k = "length (cm_tool_calls m)"
  have "map cm_tool_call_id (take ?k ns) = map cm_tool_call_id (take ?k ms) \<and> list_all is_tool (take ?k ns) = list_all is_tool (take ?k ms)"
    by (rule same_frame_map) (use fs in \<open>rule list_all2_takeI\<close>)
  moreover have "list_all2 same_frame (drop ?k ms) (drop ?k ns)"
    using fs by (rule list_all2_dropI)
  moreover have "is_tool n = is_tool m" "cm_tool_calls n = cm_tool_calls m"
    using same_frame_fields [OF f] by (simp_all add: is_tool_def)
  ultimately show ?case unfolding ys using "2.IH" by (simp add: Let_def)
qed simp

section \<open>Compaction never fails\<close>

definition tool_texts_ok :: "chat_message list \<Rightarrow> bool" where
  "tool_texts_ok ms \<longleftrightarrow> (\<forall>m \<in> set ms. is_tool m \<longrightarrow> opens_object (content_text m))"

lemma opens_object_content: "opens_object s \<Longrightarrow> content_or [] (Some s) = s"
  by (auto simp: content_or_def)

lemma compact_message_ok:
  assumes "opens_object (content_text m)"
  shows "\<exists>m'. compact_message rows m = Inr m' \<and> opens_object (content_text m')"
proof -
  from assms obtain kvs where "compact_tool_content (content_or (py ''tool'') (cm_name m)) (content_text m) rows
      = Inr (dumps compact_json (PDict kvs))"
    using compact_tool_content_ok by blast
  then show ?thesis
    using opens_object_dumps [of compact_json kvs]
    by (simp add: compact_message_def opens_object_content del: dumps.simps)
qed

lemma tool_texts_frame:
  "tool_texts_ok ms \<longleftrightarrow> (\<forall>i < length ms. is_tool (ms ! i) \<longrightarrow> opens_object (content_text (ms ! i)))"
  by (simp add: tool_texts_ok_def all_set_conv_all_nth)

lemma compact_old_ok:
  assumes "tool_texts_ok ms"
  obtains ms' where "compact_old keep ms = Inr ms'" "tool_texts_ok ms'"
proof -
  let ?old = "drop_last keep (indexes is_tool ms)"
  have old: "i < length ms \<and> is_tool (ms ! i)" if "i \<in> set ?old" for i
    using that by (auto simp: drop_last_def indexes_def dest: in_set_takeD split: if_splits)
  have tool: "\<exists>m'. compact_message True (ms ! i) = Inr m' \<and> opens_object (content_text m')" if "i \<in> set ?old" for i
    by (rule compact_message_ok) (use old [OF that] assms in \<open>simp add: tool_texts_frame\<close>)
  have "is_ok (if i \<in> set ?old then compact_message True (ms ! i) else Inr (ms ! i))" for i
    using tool [of i] by auto
  then have "is_ok (compact_old keep ms)" unfolding compact_old_def Let_def by (rule map_res_ok)
  then obtain ms' where ms': "compact_old keep ms = Inr ms'"
    by (auto simp: is_ok_def split: sum.splits)
  have "opens_object (content_text (ms' ! i))" if "i < length ms" "is_tool (ms' ! i)" for i
  proof (cases "i \<in> set ?old")
    case True
    from tool [OF True] obtain m' where "compact_message True (ms ! i) = Inr m'" "opens_object (content_text m')"
      by blast
    with compact_old_nth(2) [OF ms' that(1)] True show ?thesis by simp
  next
    case False
    with compact_old_nth(2) [OF ms' that(1)] assms that show ?thesis by (simp add: tool_texts_frame)
  qed
  with compact_old_nth(1) [OF ms'] have "tool_texts_ok ms'" by (simp add: tool_texts_frame)
  with ms' show thesis by (rule that)
qed

lemma compact_all_ok:
  assumes "tool_texts_ok ms"
  shows "is_ok (compact_all ms)"
  unfolding compact_all_def Let_def
proof (rule map_res_ok)
  fix i assume "i \<in> set [0..<length ms]"
  then have i: "i < length ms" by simp
  have "is_ok (compact_message False (ms ! i))" if "is_tool (ms ! i)"
  proof -
    have "opens_object (content_text (ms ! i))" using assms i that by (simp add: tool_texts_frame)
    from compact_message_ok [OF this, of False] show ?thesis by auto
  qed
  then show "is_ok (if is_tool (ms ! i) then compact_message False (ms ! i)
      else if i \<notin> set (last_n 6 (indexes (\<lambda>m. \<not> is_tool m) ms)) then Inr (cut_message (ms ! i))
      else Inr (ms ! i))" by simp
qed

lemma compacted_ok: "tool_texts_ok ms \<Longrightarrow> is_ok (compacted_messages cfg ms)"
  by (erule compact_old_ok [of _ "keep_recent_tool_results cfg"])
    (auto simp: compacted_messages_def compact_all_ok)

section \<open>Requests of a run\<close>

definition conversation_ok :: "chat_message list \<Rightarrow> bool" where
  "conversation_ok ms \<longleftrightarrow> paired ms \<and> tool_texts_ok ms"

lemma conversation_ok_append: "conversation_ok xs \<Longrightarrow> conversation_ok ys \<Longrightarrow> conversation_ok (xs @ ys)"
  by (auto simp: conversation_ok_def paired_append tool_texts_ok_def)

lemma conversation_ok_message [simp]: "r \<noteq> RoleTool \<Longrightarrow> conversation_ok [message r c]"
  by (simp add: conversation_ok_def tool_texts_ok_def)

lemma conversation_ok_Nil [simp]: "conversation_ok []"
  by (simp add: conversation_ok_def tool_texts_ok_def)

lemma conversation_ok_initial: "conversation_ok history \<Longrightarrow> conversation_ok (initial_messages system history user)"
  unfolding initial_messages_def by (intro conversation_ok_append) simp_all

lemma serialize_opens_object:
  assumes "serialize_tool_execution cfg x = Inr s" and "0 < max_tool_result_chars cfg"
  shows "opens_object s"
  using assms opens_object_take [OF opens_object_dumps]
  by (auto simp: serialize_tool_execution_def Let_def json_dumps_def opens_object_def split: option.splits if_splits)

lemma tool_message_ok:
  assumes "tool_message cfg x = Inr m" and "0 < max_tool_result_chars cfg"
  shows "is_tool m \<and> cm_tool_call_id m = Some (te_tool_call_id x) \<and> opens_object (content_text m)"
  using assms serialize_opens_object [of cfg x]
  by (auto simp: tool_message_def is_tool_def opens_object_content split: sum.splits)

lemma conversation_ok_round:
  assumes al: "list_all2 answers (lr_tool_calls r) xs" and ms: "map_res (tool_message cfg) xs = Inr ms"
    and pos: "0 < max_tool_result_chars cfg"
  shows "conversation_ok (assistant_message r # ms)"
proof -
  have x: "list_all2 (\<lambda>x m. tool_message cfg x = Inr m) xs ms" using ms by (simp add: map_res_Inr)
  have len: "length ms = length (lr_tool_calls r)"
    using list_all2_lengthD [OF al] list_all2_lengthD [OF x] by simp
  have "tool_message cfg (xs ! i) = Inr (ms ! i)" if "i < length ms" for i
    using x that list_all2_lengthD [OF x] by (simp add: list_all2_conv_all_nth)
  note tm = tool_message_ok [OF this pos]
  have "map cm_tool_call_id ms = map (\<lambda>c. Some (tc_id c)) (lr_tool_calls r)"
    by (rule nth_equalityI) (use al tm len in \<open>simp_all add: list_all2_conv_all_nth answers_def\<close>)
  moreover have "list_all is_tool ms" using tm by (simp add: list_all_length)
  moreover have "tool_texts_ok (assistant_message r # ms)"
    using tm by (auto simp: tool_texts_ok_def in_set_conv_nth)
  ultimately show ?thesis using len by (simp add: conversation_ok_def)
qed

lemma handle_response_conversation:
  assumes ok: "conversation_ok (ls_messages st)" and pos: "0 < max_tool_result_chars (env_config env)"
    and eq: "handle_response env n r st w = (out, Continues st', w')"
  shows "conversation_ok (ls_messages st')"
  using eq
proof (cases rule: handle_response_cases)
  case retried
  with ok show ?thesis by (simp add: conversation_ok_append)
next
  case (ran sigs)
  from ran(6) show ?thesis
  proof (cases rule: run_calls_cases)
    case (ran xs ms)
    have "conversation_ok (ls_messages st @ (assistant_message r # ms))"
      by (intro conversation_ok_append conversation_ok_round) (use ok ran pos in simp_all)
    with ran show ?thesis by simp
  qed simp
qed simp_all

lemma loop_reaches_conversation:
  assumes "loop_reaches env defs trace st0 w0 n st w" and "conversation_ok (ls_messages st0)"
    and "0 < max_tool_result_chars (env_config env)"
  shows "conversation_ok (ls_messages st)"
  using assms
proof (induction rule: loop_reaches.induct)
  case (step n st w out st' w')
  from step(3) show ?case
  proof (cases rule: agent_iteration_cases)
    case (responded o1 r w1 o2)
    from step(4) [OF step(5,6)] step(6) responded(2) show ?thesis by (rule handle_response_conversation)
  qed simp
qed simp

section \<open>The text a client has collected\<close>

fun visible :: "pystr \<Rightarrow> agent_stream_event list \<Rightarrow> pystr" where
  "visible acc [] = acc"
| "visible acc (TextDelta t # es) = visible (acc @ t) es"
| "visible acc (TextReset # es) = visible [] es"
| "visible acc (_ # es) = visible acc es"

lemma visible_append [simp]: "visible acc (a @ b) = visible (visible acc a) b"
  by (induction acc a rule: visible.induct) auto

lemma visible_deltas [simp]: "visible acc (map TextDelta ts) = acc @ concat ts"
  by (induction ts arbitrary: acc) auto

lemma visible_response:
  assumes "stream_model_response env ms defs trace w = (out, Inr r, w')"
  shows "visible [] out = (if lr_tool_calls r = [] then content_or [] (lr_content r) else [])"
proof -
  have whole: "visible [] (whole_response r) = (if lr_tool_calls r = [] then content_or [] (lr_content r) else [])"
    by (auto simp: whole_response_def content_or_def split: option.splits)
  have streamed: "visible [] o1 = (if lr_tool_calls r = [] then content_or [] (lr_content r) else [])"
    if eq: "streamed_response env es f = (o1, Inr r)" for es f o1
  proof -
    obtain ts where "if lr_tool_calls r = [] then o1 = map TextDelta ts \<and> lr_content r = Some (concat ts)
           else o1 = map TextDelta ts @ (if ts = [] then [] else [TextReset])"
      by (rule streamed_response_text [OF eq]) blast
    then show ?thesis by (auto simp: content_or_def split: if_splits)
  qed
  from assms show ?thesis unfolding stream_model_response_def
    by (auto simp: whole dest: streamed split: sum.splits option.splits bool.splits prod.splits)
qed

lemma visible_no_text: "step_events out = out' \<Longrightarrow> list_all (\<lambda>e. \<not> is_text e) out \<Longrightarrow> visible acc out = acc"
  by (induction acc out arbitrary: out' rule: visible.induct) auto

lemma handle_response_no_text:
  "handle_response env n r st w = (out, e, w') \<Longrightarrow> visible acc out = acc"
  by (erule handle_response_cases) (auto elim: run_calls_cases)

lemma handle_response_completes:
  assumes "handle_response env n r st w = (out, e, w')"
  shows "lr_tool_calls r = [] \<longleftrightarrow> (\<exists>res. e = Finishes res \<and> rr_status res = Completed)"
    and "e = Finishes res \<Longrightarrow> rr_status res = Completed \<Longrightarrow> rr_output res = lr_content r"
  using assms by (auto elim!: handle_response_cases run_calls_cases simp: call_signatures_def)

lemma agent_loop_visible:
  "agent_loop env defs trace k n st w = (out, None, w') \<Longrightarrow> CompletedEvent r \<in> set out \<Longrightarrow>
   visible [] out = (if rr_status r = Completed then content_or [] (rr_output r) else [])"
proof (induction k arbitrary: n st w out)
  case 0
  then show ?case by (auto simp: Let_def)
next
  case (Suc k)
  obtain out1 e1 w1 where it: "agent_iteration env defs trace (n + 1) st w = (out1, e1, w1)"
    by (cases "agent_iteration env defs trace (n + 1) st w")
  from it show ?case
  proof (cases rule: agent_iteration_cases)
    case (failed x)
    with Suc.prems it show ?thesis by simp
  next
    case (responded o1 x w2 o2)
    note vis = visible_response [OF responded(1)] handle_response_no_text [OF responded(2)]
    note fin = handle_response_completes [OF responded(2)]
    have plain: "CompletedEvent r \<notin> set o1 \<union> set o2"
    proof -
      have "CompletedEvent r \<notin> set (filter is_completed o1) \<union> set (filter is_completed o2)"
        using stream_model_response_text [OF responded(1)] handle_response_events(1) [OF responded(2)]
        by (simp add: text_not_completed)
      then show ?thesis by simp
    qed
    show ?thesis
    proof (cases e1)
      case (Continues st')
      obtain outs where outs: "agent_loop env defs trace k (n + 1) st' w1 = (outs, None, w')"
        and out: "out = out1 @ outs"
        using Suc.prems(1) it Continues by (auto split: prod.splits)
      have "lr_tool_calls x \<noteq> []" using fin(1) Continues by simp
      then have "visible [] out1 = []" using vis responded(3) Continues by simp
      moreover have "CompletedEvent r \<in> set outs"
        using Suc.prems(2) out plain responded(3) Continues by auto
      ultimately show ?thesis using Suc.IH [OF outs] out by simp
    next
      case (Finishes res)
      then have out: "out = o1 @ o2 @ [CompletedEvent res]" "r = res"
        using Suc.prems it responded(3) plain by auto
      show ?thesis
      proof (cases "rr_status res = Completed")
        case True
        with fin Finishes have "lr_tool_calls x = []" "rr_output res = lr_content x" by auto
        with vis out True show ?thesis by simp
      next
        case False
        with fin(1) Finishes have "lr_tool_calls x \<noteq> []" by auto
        with vis out False show ?thesis by simp
      qed
    next
      case (Raises y)
      with Suc.prems(1) it show ?thesis by simp
    qed
  qed
qed

section \<open>Runs that return\<close>

text \<open>
  What a run relies on to return: a model that answers, SQL that sqlglot can parse or rejects
  as a parse error, and charts that are JSON.
\<close>

definition model_answers :: "'w agent_env \<Rightarrow> bool" where
  "model_answers env \<longleftrightarrow> (\<forall>w ms defs trace.
     is_ok (fst (chat (env_model env) w ms defs trace))
     \<and> (\<forall>f es failure w'. chat_stream (env_model env) = Some f \<longrightarrow> f w ms defs trace = (es, failure, w') \<longrightarrow>
          is_ok (snd (streamed_response env es failure))))"

definition sql_never_raises :: "'w agent_env \<Rightarrow> bool" where
  "sql_never_raises env \<longleftrightarrow> (\<forall>s e. env_parse_one env s \<noteq> SqlRaises e)"

definition charts_are_json :: "'w agent_env \<Rightarrow> bool" where
  "charts_are_json env \<longleftrightarrow> (\<forall>t args w v w'. get_tool (env_tools env) (py ''plot_chart'') = Some t \<longrightarrow>
     rt_handler t args w = (Inr v, w') \<longrightarrow> not_json v = None)"

lemma invoke_Inr: "invoke se t args w = (Inr v, w') \<Longrightarrow> \<exists>args'. rt_handler t args' w = (Inr v, w')"
  by (auto simp: invoke_def split: option.splits sum.splits)

lemma stream_model_response_ok:
  assumes "model_answers env" and "tool_texts_ok ms"
  shows "is_ok (fst (snd (stream_model_response env ms defs trace w)))"
proof -
  obtain ms' where cm: "compacted_messages (env_config env) ms = Inr ms'"
    using compacted_ok [OF assms(2)] unfolding is_ok_iff by blast
  have ch: "is_ok (fst (chat (env_model env) w ms' defs trace))"
    and st: "\<And>f es failure w'. chat_stream (env_model env) = Some f \<Longrightarrow> f w ms' defs trace = (es, failure, w') \<Longrightarrow>
          is_ok (snd (streamed_response env es failure))"
    using assms(1) unfolding model_answers_def by blast+
  show ?thesis
  proof (cases "stream_model (env_config env) \<and> chat_stream (env_model env) \<noteq> None")
    case True
    then obtain f where f: "stream_model (env_config env)" "chat_stream (env_model env) = Some f" by auto
    obtain es failure w' where w': "f w ms' defs trace = (es, failure, w')" by (metis prod_cases3)
    show ?thesis using st [OF f(2) w'] by (simp add: stream_model_response_def cm f w' case_prod_unfold)
  next
    case False
    obtain r w' where w': "chat (env_model env) w ms' defs trace = (Inr r, w')"
      using ch by (cases "chat (env_model env) w ms' defs trace") (auto simp: is_ok_iff)
    have "stream_model_response env ms defs trace w = (whole_response r, Inr r, w')"
      using False by (auto simp: stream_model_response_def cm w' split: bool.split option.split)
    then show ?thesis by simp
  qed
qed

lemma call_signatures_ok: "sql_never_raises env \<Longrightarrow> is_ok (call_signatures env calls)"
  unfolding call_signatures_def
proof (rule map_res_ok)
  fix c assume env: "sql_never_raises env"
  have "is_ok (normalized_sql env s)" for s
    using env by (auto simp: normalized_sql_def sql_never_raises_def split: sql_text.split)
  then have "\<exists>t. normalized_sql env s = Inr t" for s by (simp add: is_ok_iff)
  then have "normalized_sql env s = Inr (projr (normalized_sql env s))" for s by (metis sum.sel(2))
  then show "is_ok (signature_of env (tc_name c) (tc_arguments c))"
    by (auto simp: signature_of_def normalized_arguments_def is_ok_def
        split: option.split pyval.split) (metis sum.case(2))
qed

text \<open>Executions come from the tools: the result of a chart call is JSON.\<close>

definition chart_result_ok :: "tool_execution \<Rightarrow> bool" where
  "chart_result_ok x \<longleftrightarrow> (te_error x = None \<and> te_tool_name x = py ''plot_chart'' \<longrightarrow> not_json (te_result x) = None)"

lemma execute_one_chart:
  assumes "charts_are_json env"
  shows "chart_result_ok (fst (execute_one env c w))"
proof (cases "get_tool (env_tools env) (tc_name c)")
  case None
  then show ?thesis by (simp add: execute_one_def chart_result_ok_def execution_def)
next
  case (Some t)
  obtain r w' where r: "invoke (env_schema_error env) t (tc_arguments c) w = (r, w')"
    by (cases "invoke (env_schema_error env) t (tc_arguments c) w")
  have "not_json v = None" if "r = Inr v" "tc_name c = py ''plot_chart''" for v
    using assms Some invoke_Inr [of "env_schema_error env" t "tc_arguments c" w v w'] r that
    unfolding charts_are_json_def by auto
  with Some r show ?thesis
    by (cases r) (simp_all add: execute_one_def chart_result_ok_def execution_def)
qed

lemma execute_serial_chart: "charts_are_json env \<Longrightarrow> list_all chart_result_ok (fst (execute_serial env cs w))"
proof (induction cs arbitrary: w)
  case (Cons c cs)
  then show ?case using execute_one_chart [of env c w] by (simp add: case_prod_unfold Let_def)
qed simp

lemma execute_in_order_chart:
  "charts_are_json env \<Longrightarrow> (i, x) \<in> set (fst (execute_in_order env cs is w)) \<Longrightarrow> chart_result_ok x"
proof (induction "is" arbitrary: w)
  case (Cons j "is")
  then show ?case using execute_one_chart [of env "cs ! j" w] by (auto simp: case_prod_unfold Let_def)
qed simp

lemma execute_tool_calls_chart:
  assumes "charts_are_json env"
  shows "list_all chart_result_ok (fst (execute_tool_calls env cs w))"
proof (cases "can_run_in_parallel env cs")
  case True
  have "chart_result_ok (the (map_of (fst (execute_in_order env cs (task_order os (length cs)) w)) i))"
    if i: "i < length cs" for i os
  proof -
    obtain x where x: "map_of (fst (execute_in_order env cs (task_order os (length cs)) w)) i = Some x"
      by (rule execute_in_order_get [OF i])
    have "chart_result_ok x" by (rule execute_in_order_chart [OF assms map_of_SomeD [OF x]])
    with x show ?thesis by simp
  qed
  with True show ?thesis
    by (simp add: execute_tool_calls_def execute_gather_def list_all_length case_prod_unfold Let_def)
next
  case False
  with assms show ?thesis by (simp add: execute_tool_calls_def execute_serial_chart)
qed

lemma serialize_ok: "chart_result_ok x \<Longrightarrow> is_ok (serialize_tool_execution cfg x)"
proof -
  assume x: "chart_result_ok x"
  have d: "not_json_pairs (dict_or_empty v) = None" if "not_json v = None" for v
    using that by (cases v) (simp_all add: dict_or_empty_def)
  show ?thesis
  proof (cases "te_error x = None \<and> te_tool_name x = py ''plot_chart''")
    case True
    with x have "not_json (te_result x) = None" by (simp add: chart_result_ok_def)
    then have "not_json (dget (dict_or_empty (dget (dict_or_empty (te_result x)) ''spec'')) k) = None" for k
      by (intro not_json_dget d)
    with True show ?thesis by (simp add: serialize_tool_execution_def Let_def json_dumps_def del: dumps.simps)
  next
    case False
    then show ?thesis by (auto simp: serialize_tool_execution_def Let_def simp del: dumps.simps jsonable.simps)
  qed
qed

lemma agent_iteration_returns:
  assumes "model_answers env" and "sql_never_raises env" and "charts_are_json env"
    and "tool_texts_ok (ls_messages st)"
    and "agent_iteration env defs trace n st w = (out, e, w')"
  shows "e \<noteq> Raises x"
  using assms(5)
proof (cases rule: agent_iteration_cases)
  case (failed y)
  with stream_model_response_ok [OF assms(1,4), of defs trace w] show ?thesis by simp
next
  case (responded o1 r w1 o2)
  from responded(2) show ?thesis
  proof (cases rule: handle_response_cases)
    case (ran sigs)
    from ran(6) show ?thesis
    proof (cases rule: run_calls_cases)
      case (unserializable xs y)
      have "is_ok (map_res (tool_message (env_config env)) xs)"
      proof (rule map_res_ok)
        fix x assume "x \<in> set xs"
        with execute_tool_calls_chart [OF assms(3)] unserializable(4) have "chart_result_ok x"
          by (simp add: list_all_iff)
        then have "is_ok (serialize_tool_execution (env_config env) x)" by (rule serialize_ok)
        then show "is_ok (tool_message (env_config env) x)"
          by (auto simp: tool_message_def is_ok_def split: sum.splits)
      qed
      with unserializable(3) show ?thesis by simp
    qed simp
  next
    case (unsigned y)
    with call_signatures_ok [OF assms(2), of "lr_tool_calls r"] show ?thesis by simp
  qed simp_all
qed

lemma agent_loop_returns:
  assumes "model_answers env" and "sql_never_raises env" and "charts_are_json env"
    and "0 < max_tool_result_chars (env_config env)"
  shows "conversation_ok (ls_messages st) \<Longrightarrow> fst (snd (agent_loop env defs trace k n st w)) = None"
proof (induction k arbitrary: n st w)
  case (Suc k)
  obtain out e w1 where it: "agent_iteration env defs trace (n + 1) st w = (out, e, w1)"
    by (cases "agent_iteration env defs trace (n + 1) st w")
  show ?case
  proof (cases e)
    case (Continues st')
    have "conversation_ok (ls_messages st')"
      using it [unfolded Continues]
      by (cases rule: agent_iteration_cases)
        (use Suc.prems assms(4) handle_response_conversation in auto)
    then show ?thesis using Suc.IH [of st' "n + 1" w1] it Continues by (simp add: case_prod_unfold)
  next
    case (Finishes r)
    with it show ?thesis by simp
  next
    case (Raises x)
    with agent_iteration_returns [OF assms(1-3) _ it, of x] Suc.prems show ?thesis
      by (simp add: conversation_ok_def)
  qed
qed (simp add: Let_def)

end
