(* ===== verification/Agent_Properties.thy ===== *)
theory Agent_Properties
  imports Agent_Requests
begin

text \<open>
  The properties of the agent loop, its compaction and the tool registry, and a small agent on
  which they are instantiated: a model that first calls a tool twice, then answers.
\<close>

section \<open>A small agent\<close>

definition demo_call :: "string \<Rightarrow> string \<Rightarrow> int \<Rightarrow> tool_call" where
  "demo_call i n x = \<lparr>tc_id = py i, tc_name = py n, tc_arguments = [(py ''x'', PInt x)]\<rparr>"

definition demo_tool :: "string \<Rightarrow> nat registered_tool" where
  "demo_tool n = \<lparr>rt_name = py n, rt_description = py ''d'', rt_input_model = None,
     rt_handler = (\<lambda>args w. (Inr (PDict args), w + 5)), rt_parallel_safe = True, rt_input_schema = Some []\<rparr>"

definition demo_chat ::
  "nat \<Rightarrow> chat_message list \<Rightarrow> tool_definition list \<Rightarrow> uuid option \<Rightarrow> llm_response pyres \<times> nat" where
  "demo_chat w ms defs trace =
     (if w = 0
      then (Inr \<lparr>lr_content = Some (py ''hm''),
                 lr_tool_calls = [demo_call ''a'' ''echo'' 1, demo_call ''b'' ''echo'' 2],
                 lr_usage = \<lparr>input_tokens = 7, output_tokens = 2\<rparr>, lr_finish_reason = None\<rparr>, 1)
      else (Inr \<lparr>lr_content = Some (py ''ok''), lr_tool_calls = [],
                 lr_usage = \<lparr>input_tokens = 9, output_tokens = 1\<rparr>, lr_finish_reason = None\<rparr>, w + 1))"

definition demo_config :: agent_config where
  "demo_config = \<lparr>max_steps = 3, max_total_tokens = 60, max_tool_calls_per_step = 2,
     max_tool_budget_retries = 1, max_parallel_tools = 2, context_char_budget = 4000,
     keep_recent_tool_results = 1, parallel_tool_calls = True, stream_model = True,
     max_tool_result_chars = 256\<rparr>"

definition demo_env :: "nat agent_env" where
  "demo_env = \<lparr>env_model = \<lparr>chat = demo_chat, chat_stream = None\<rparr>,
     env_tools = [(py ''echo'', demo_tool ''echo'')], env_config = demo_config,
     env_schema_error = (\<lambda>s a. None), env_parse_one = (\<lambda>s. SqlParseFail), env_json_error = (\<lambda>s. []),
     env_fold = ascii_fold, env_clock = (\<lambda>w. 0), env_gather_order = (\<lambda>w n. [1, 0])\<rparr>"

abbreviation demo_stream :: "agent_stream_event list \<times> py_exc option \<times> nat" where
  "demo_stream \<equiv> agent_stream demo_env (py ''hi'') None [] None 0"

lemma demo_value:
  "case demo_stream of (out, e, w) \<Rightarrow> e = None \<and> w = 12 \<and> visible [] out = py ''ok''
     \<and> (case first_result out of None \<Rightarrow> False
        | Some r \<Rightarrow> rr_status r = Completed \<and> length (all_executions (rr_steps r)) = 2
            \<and> total_tokens (rr_usage r) = 19)"
  by code_simp

lemma demo_simps [simp]: "env_config demo_env = demo_config" "max_steps demo_config = 3"
  by (simp_all add: demo_env_def demo_config_def)

lemma demo_ends: "demo_stream = (fst demo_stream, None, 12)"
  using demo_value by (simp add: case_prod_unfold prod_eq_iff)

lemma demo_returns:
  obtains r where "agent_run demo_env (py ''hi'') None [] None 0 = (Inr r, 12)" and "rr_status r = Completed"
    and "length (all_executions (rr_steps r)) = 2" and "total_tokens (rr_usage r) = 19"
proof -
  from demo_value demo_ends obtain r where r: "first_result (fst demo_stream) = Some r" "rr_status r = Completed"
    "length (all_executions (rr_steps r)) = 2" "total_tokens (rr_usage r) = 19"
    by (auto simp: case_prod_unfold split: option.splits)
  have "agent_run demo_env (py ''hi'') None [] None 0 = (Inr r, 12)"
    unfolding agent_run_def by (subst demo_ends) (simp add: r(1))
  with r that show thesis by blast
qed

section \<open>The run\<close>

lemma first_result_append: "filter is_completed pre = [] \<Longrightarrow> first_result (pre @ es) = first_result es"
  by (induction pre rule: first_result.induct) auto

lemma first_result_none: "filter is_completed pre = [] \<Longrightarrow> first_result pre = None"
  by (induction pre rule: first_result.induct) auto

lemma agent_stream_shape:
  assumes "agent_stream env user system history trace w = (out, exc, w')"
  shows "case exc of
      Some x \<Rightarrow> filter is_completed out = []
    | None \<Rightarrow> \<exists>pre r. out = pre @ [CompletedEvent r] \<and> filter is_completed pre = []
        \<and> step_events out = reported_steps (env_config env) (rr_status r) (rr_steps r)"
  using assms
proof (cases rule: agent_stream_cases)
  case (ran defs reg)
  from agent_loop_events [OF ran(2)] show ?thesis
    by (cases exc) (auto simp: initial_state_def)
qed simp

lemma agent_run_stream:
  assumes "agent_run env user system history trace w = (Inr r, w')"
  obtains out where "agent_stream env user system history trace w = (out, None, w')" "CompletedEvent r \<in> set out"
proof -
  obtain out e w1 where s: "agent_stream env user system history trace w = (out, e, w1)"
    by (cases "agent_stream env user system history trace w")
  note shape = agent_stream_shape [OF s]
  show thesis
  proof (cases e)
    case (Some x)
    with shape have "first_result out = None" by (simp add: first_result_none)
    with assms s Some show thesis by (simp add: agent_run_def)
  next
    case None
    with shape obtain pre r' where out: "out = pre @ [CompletedEvent r']" "filter is_completed pre = []" by auto
    then have "first_result out = Some r'" by (simp add: first_result_append)
    with assms s out None that show thesis by (simp add: agent_run_def)
  qed
qed

lemma agent_run_ok:
  assumes "agent_run env user system history trace w = (Inr r, w')"
  shows "result_ok env r" and "status_ok r"
  using agent_run_stream [OF assms] agent_stream_result by metis+

text \<open>
  C2.  The loop terminates: its event stream ends in exactly one completed event, after at most
  \<open>max_steps\<close> steps numbered from 1 without gaps, and the step events are the recorded steps
  except those the loop asked the model to replan; or it ends in an exception, and then no
  completed event was sent.
\<close>

theorem run_completes_once:
  assumes "agent_stream env user system history trace w = (out, exc, w')"
  shows "case exc of
      Some x \<Rightarrow> filter is_completed out = []
    | None \<Rightarrow> \<exists>pre r. out = pre @ [CompletedEvent r] \<and> filter is_completed pre = []
        \<and> agent_run env user system history trace w = (Inr r, w')
        \<and> length (rr_steps r) \<le> max_steps (env_config env)
        \<and> map as_step (rr_steps r) = [1..<Suc (length (rr_steps r))]
        \<and> step_events out = reported_steps (env_config env) (rr_status r) (rr_steps r)"
proof (cases exc)
  case None
  with agent_stream_shape [OF assms] obtain pre r where *: "out = pre @ [CompletedEvent r]"
    "filter is_completed pre = []" "step_events out = reported_steps (env_config env) (rr_status r) (rr_steps r)"
    by auto
  then have "agent_run env user system history trace w = (Inr r, w')"
    using assms by (simp add: agent_run_def first_result_append)
  with * agent_run_ok(1) [OF this] None show ?thesis by (auto simp: result_ok_def)
qed (use agent_stream_shape [OF assms] in simp)

theorem run_completes_once_witness:
  "\<exists>pre r. fst demo_stream = pre @ [CompletedEvent r] \<and> filter is_completed pre = []
     \<and> length (rr_steps r) \<le> 3 \<and> map as_step (rr_steps r) = [1..<Suc (length (rr_steps r))]"
  using run_completes_once [OF demo_ends] unfolding option.case demo_simps by blast

text \<open>
  C3.  No tool call runs twice: over all steps of a run, the signatures of the executed calls
  (tool name and normalised arguments) are pairwise different, and so are the pairs of tool
  name and arguments themselves.
\<close>

theorem no_call_runs_twice:
  assumes "agent_run env user system history trace w = (Inr r, w')"
  shows "\<exists>sigs. map_res (execution_signature env) (all_executions (rr_steps r)) = Inr sigs \<and> distinct sigs
     \<and> distinct (map (\<lambda>x. (te_tool_name x, te_arguments x)) (all_executions (rr_steps r)))"
proof -
  let ?xs = "all_executions (rr_steps r)"
  let ?call = "\<lambda>x. (te_tool_name x, te_arguments x)" and ?f = "\<lambda>(n, a). projr (signature_of env n a)"
  from agent_run_ok(1) [OF assms] obtain sigs where sigs: "map_res (execution_signature env) ?xs = Inr sigs" "distinct sigs"
    unfolding result_ok_def by blast
  have "sigs = map (\<lambda>x. projr (execution_signature env x)) ?xs" by (rule map_res_projr [OF sigs(1)])
  also have "\<dots> = map ?f (map ?call ?xs)" by (simp add: execution_signature_def comp_def)
  finally have "distinct (map ?f (map ?call ?xs))" using sigs(2) by simp
  then have "distinct (map ?call ?xs)" by (simp only: distinct_map)
  with sigs show ?thesis by blast
qed

theorem no_call_runs_twice_witness:
  "\<exists>r w. agent_run demo_env (py ''hi'') None [] None 0 = (Inr r, w) \<and> length (all_executions (rr_steps r)) = 2
     \<and> distinct (map (\<lambda>x. (te_tool_name x, te_arguments x)) (all_executions (rr_steps r)))"
proof -
  obtain r where r: "agent_run demo_env (py ''hi'') None [] None 0 = (Inr r, 12)"
    "length (all_executions (rr_steps r)) = 2" by (rule demo_returns)
  with no_call_runs_twice [OF r(1)] show ?thesis by blast
qed

text \<open>
  C4.  Budgets: a step that executes anything executes all its calls, at most
  \<open>max_tool_calls_per_step\<close> of them, and only while the tokens spent so far are within
  \<open>max_total_tokens\<close>; at most \<open>max_tool_budget_retries + 1\<close> steps propose too many calls; and
  the usage of the run is the sum of the usages of its steps.
\<close>

theorem budgets_respected:
  assumes "agent_run env user system history trace w = (Inr r, w')"
  shows "within_budget (env_config env) (rr_steps r)
     \<and> length (filter (over_calls (env_config env)) (rr_steps r)) \<le> Suc (max_tool_budget_retries (env_config env))
     \<and> rr_usage r = usage_sum (map as_usage (rr_steps r))
     \<and> total_tokens (rr_usage r) = sum_list (map (\<lambda>s. total_tokens (as_usage s)) (rr_steps r))"
proof -
  from agent_run_ok(1) [OF assms] have "rr_usage r = usage_sum (map as_usage (rr_steps r))"
    by (simp add: result_ok_def)
  moreover from this have "total_tokens (rr_usage r) = sum_list (map (\<lambda>s. total_tokens (as_usage s)) (rr_steps r))"
    by (simp add: total_usage_sum comp_def)
  ultimately show ?thesis using agent_run_ok(1) [OF assms] by (simp add: result_ok_def)
qed

theorem budgets_respected_witness:
  "\<exists>r w. agent_run demo_env (py ''hi'') None [] None 0 = (Inr r, w) \<and> within_budget demo_config (rr_steps r)
     \<and> sum_list (map (\<lambda>s. total_tokens (as_usage s)) (rr_steps r)) = 19"
proof -
  obtain r where r: "agent_run demo_env (py ''hi'') None [] None 0 = (Inr r, 12)" "total_tokens (rr_usage r) = 19"
    by (rule demo_returns)
  with budgets_respected [OF r(1)] show ?thesis by auto
qed

text \<open>
  The status of a run: it is \<open>completed\<close> exactly when the last step proposed no tool calls
  (every earlier step did), and then the output is that step's text and there is no
  termination reason; every other status carries its reason as output.  A run that
  reports \<open>max_steps\<close> took all of them.
\<close>

theorem status_means:
  assumes "agent_run env user system history trace w = (Inr r, w')"
  shows "if rr_status r = Completed
      then (\<exists>before s. rr_steps r = before @ [s] \<and> as_tool_calls s = [] \<and> list_all (\<lambda>s. as_tool_calls s \<noteq> []) before
              \<and> rr_output r = as_assistant_content s) \<and> rr_termination_reason r = None
      else list_all (\<lambda>s. as_tool_calls s \<noteq> []) (rr_steps r)
           \<and> (\<exists>t. rr_output r = Some t \<and> rr_termination_reason r = Some t)
           \<and> (if rr_status r = MaxSteps then length (rr_steps r) = max_steps (env_config env) else True)"
  using agent_run_ok [OF assms] by (auto simp: result_ok_def status_ok_def list_all_iff)

theorem status_means_witness:
  "\<exists>r w. agent_run demo_env (py ''hi'') None [] None 0 = (Inr r, w)
     \<and> (\<exists>before s. rr_steps r = before @ [s] \<and> as_tool_calls s = [] \<and> rr_output r = as_assistant_content s)"
proof -
  obtain r where r: "agent_run demo_env (py ''hi'') None [] None 0 = (Inr r, 12)" "rr_status r = Completed"
    by (rule demo_returns)
  with status_means [OF r(1)] show ?thesis by auto
qed

text \<open>
  What a client has collected from the text deltas, emptied at every reset, is at the end
  of a run exactly its answer: the output of a completed run, and nothing otherwise.
\<close>

theorem collected_text_is_answer:
  assumes "agent_stream env user system history trace w = (out, None, w')" and "CompletedEvent r \<in> set out"
  shows "visible [] out = (if rr_status r = Completed then content_or [] (rr_output r) else [])"
  using assms(1)
proof (cases rule: agent_stream_cases)
  case (ran defs reg)
  from ran(2) assms(2) show ?thesis by (rule agent_loop_visible)
qed simp

theorem collected_text_is_answer_witness:
  "\<exists>r. CompletedEvent r \<in> set (fst demo_stream) \<and> content_or [] (rr_output r) = py ''ok''"
proof -
  obtain r where r: "agent_run demo_env (py ''hi'') None [] None 0 = (Inr r, 12)" "rr_status r = Completed"
    by (rule demo_returns)
  from agent_run_stream [OF r(1)] demo_ends have c: "CompletedEvent r \<in> set (fst demo_stream)"
    by (metis prod.inject)
  have "visible [] (fst demo_stream) = py ''ok''" using demo_value by (simp add: case_prod_unfold)
  with collected_text_is_answer [OF demo_ends c] r(2) c show ?thesis by auto
qed

text \<open>
  C14.  Every request a run sends is well formed: starting from a well-formed history, the
  messages of every state the loop reaches can be compacted without an exception, the
  compacted request has the same messages up to their contents, and it answers every tool
  call of an assistant message, in order, by exactly the tool messages that follow it.
\<close>

theorem requests_paired:
  assumes "loop_reaches env defs trace (initial_state (initial_messages system history user)) w n st w'"
    and "paired history" and "tool_texts_ok history" and "config_ok (env_config env)"
  shows "\<exists>ms. compacted_messages (env_config env) (ls_messages st) = Inr ms \<and> paired ms
     \<and> list_all2 same_frame (ls_messages st) ms"
proof -
  have ok: "conversation_ok (ls_messages st)"
    by (rule loop_reaches_conversation [OF assms(1)])
      (use assms(2-4) conversation_ok_initial in \<open>auto simp: initial_state_def conversation_ok_def config_ok_def\<close>)
  then obtain ms where ms: "compacted_messages (env_config env) (ls_messages st) = Inr ms"
    using compacted_ok unfolding conversation_ok_def is_ok_iff by blast
  from compacted_frame [OF ms] ok paired_frame ms show ?thesis by (auto simp: conversation_ok_def)
qed

theorem requests_paired_witness:
  "\<exists>ms. compacted_messages default_config [message RoleUser (Some (py ''hi''))] = Inr ms \<and> paired ms"
  using requests_paired [OF loop_reaches.start, where env = "demo_env\<lparr>env_config := default_config\<rparr>"
      and history = "[]" and system = None and user = "py ''hi''"]
  by (auto simp: tool_texts_ok_def initial_state_def initial_messages_def content_or_def)

lemma same_streamed_response [simp]:
  "streamed_response (env\<lparr>env_tools := reg\<rparr>) es f = streamed_response env es f"
proof -
  have one: "assemble_one (env\<lparr>env_tools := reg\<rparr>) = assemble_one env"
    by (simp add: fun_eq_iff assemble_one_def Let_def split: option.split pyval.split)
  have "assemble_tool_calls (env\<lparr>env_tools := reg\<rparr>) = assemble_tool_calls env"
    by (rule ext) (simp only: assemble_tool_calls_def one)
  then show ?thesis unfolding streamed_response_def by (simp only:)
qed

lemma close_registry:
  assumes "model_answers env" and "sql_never_raises env" and "charts_are_json env"
  shows "model_answers (env\<lparr>env_tools := map (\<lambda>(k, t). (k, close_tool t)) (env_tools env)\<rparr>)"
    and "sql_never_raises (env\<lparr>env_tools := map (\<lambda>(k, t). (k, close_tool t)) (env_tools env)\<rparr>)"
    and "charts_are_json (env\<lparr>env_tools := map (\<lambda>(k, t). (k, close_tool t)) (env_tools env)\<rparr>)"
proof -
  show "charts_are_json (env\<lparr>env_tools := map (\<lambda>(k, t). (k, close_tool t)) (env_tools env)\<rparr>)"
    using assms(3) unfolding charts_are_json_def get_tool_def
    by (simp add: map_of_close) (metis close_tool_simps(2))
qed (use assms in \<open>auto simp: model_answers_def sql_never_raises_def\<close>)



text \<open>
  The tool calls of a step, serial or gathered, give one execution per call in the order
  of the calls, each carrying the call's id, name and arguments, and either a result or an
  error: an unknown tool, invalid arguments and a raising handler are values, not exceptions.
\<close>

theorem executions_answer_calls:
  "list_all2 answers calls (fst (execute_tool_calls env calls w))"
  by (rule execute_tool_calls_answers)

definition outcome :: "tool_execution \<Rightarrow> tool_execution" where
  "outcome x = x\<lparr>te_duration_ms := 0\<rparr>"

definition world_free :: "'w agent_env \<Rightarrow> tool_call \<Rightarrow> bool" where
  "world_free env c \<longleftrightarrow> (\<forall>t. get_tool (env_tools env) (tc_name c) = Some t \<longrightarrow>
     (\<forall>w w'. fst (invoke (env_schema_error env) t (tc_arguments c) w)
            = fst (invoke (env_schema_error env) t (tc_arguments c) w')))"

lemma execute_one_outcome:
  assumes "world_free env c"
  shows "outcome (fst (execute_one env c w)) = outcome (fst (execute_one env c w'))"
proof (cases "get_tool (env_tools env) (tc_name c)")
  case (Some t)
  then have "fst (invoke (env_schema_error env) t (tc_arguments c) w)
      = fst (invoke (env_schema_error env) t (tc_arguments c) w')"
    using assms unfolding world_free_def by blast
  with Some show ?thesis by (simp add: execute_one_def outcome_def execution_def case_prod_unfold)
qed (simp add: execute_one_def outcome_def execution_def)

lemma execute_serial_outcome:
  assumes "\<forall>c \<in> set cs. world_free env c"
  shows "map outcome (fst (execute_serial env cs w)) = map (\<lambda>c. outcome (fst (execute_one env c w0))) cs"
  using assms
proof (induction cs arbitrary: w)
  case (Cons c cs)
  then show ?case using execute_one_outcome [of env c w w0] by (simp add: case_prod_unfold Let_def)
qed simp

lemma execute_in_order_outcome:
  assumes "\<forall>c \<in> set cs. world_free env c"
  shows "\<forall>i \<in> set is. i < length cs \<Longrightarrow> (i, x) \<in> set (fst (execute_in_order env cs is w)) \<Longrightarrow>
    outcome x = outcome (fst (execute_one env (cs ! i) w0))"
proof (induction "is" arbitrary: w)
  case (Cons j "is")
  then show ?case using execute_one_outcome [of env "cs ! j" w w0] assms
    by (auto simp: case_prod_unfold Let_def)
qed simp



text \<open>
  Outside the SQL tools, two calls of a tool have the same signature exactly when their
  arguments are the same up to the order of dictionary keys: loop detection neither misses a
  repeated call nor confuses different ones.
\<close>

theorem signature_separates:
  assumes "json_ok (PDict a)" and "json_ok (PDict b)" and "\<not> sql_tool name"
  shows "signature_of env name a = signature_of env name b \<longleftrightarrow> sort_keys (PDict a) = sort_keys (PDict b)"
proof -
  have "normalized_arguments env name x = Inr (arguments_text x)" for x
    using assms(3) by (simp add: normalized_arguments_def split: option.split pyval.split)
  moreover have "arguments_text a = arguments_text b \<longleftrightarrow> sort_keys (PDict a) = sort_keys (PDict b)"
    unfolding arguments_text_def
    by (rule dumps_inject [OF seps_ok_opts(2)]) (rule json_ok_sort_keys(1) [OF assms(1)] json_ok_sort_keys(1) [OF assms(2)])+
  ultimately show ?thesis by (simp add: signature_of_def)
qed

theorem signature_separates_witness:
  "signature_of demo_env (py ''echo'') [(py ''x'', PInt 1), (py ''y'', PInt 2)]
     = signature_of demo_env (py ''echo'') [(py ''y'', PInt 2), (py ''x'', PInt 1)]"
  by (subst signature_separates)
    (simp_all add: sql_tool_def text_ok_def py_def sort_key_def insort_key.simps)

section \<open>Compaction and serialisation\<close>

definition summarising_is_enough :: "agent_config \<Rightarrow> chat_message list \<Rightarrow> bool" where
  "summarising_is_enough cfg ms = (case compact_old (keep_recent_tool_results cfg) ms of
     Inl e \<Rightarrow> False | Inr ms' \<Rightarrow> total_chars ms' \<le> context_char_budget cfg)"

definition recent_plain :: "chat_message list \<Rightarrow> nat list" where
  "recent_plain ms = last_n 6 (indexes (\<lambda>m. \<not> is_tool m) ms)"

lemma indexes_frame: "list_all2 same_frame ms ms' \<Longrightarrow> indexes (\<lambda>m. \<not> is_tool m) ms' = indexes (\<lambda>m. \<not> is_tool m) ms"
  unfolding indexes_def list_all2_conv_all_nth
  by (intro filter_cong) (auto dest!: same_frame_fields simp: is_tool_def)

lemma last_not_dropped: "distinct xs \<Longrightarrow> 0 < k \<Longrightarrow> x \<in> set (last_n k xs) \<Longrightarrow> x \<notin> set (drop_last k xs)"
  using set_take_disj_set_drop_if_distinct [of xs "length xs - k" "length xs - k"]
  by (auto simp: last_n_def drop_last_def)

lemma last_or_dropped:
  assumes "0 < k" and "x \<in> set xs"
  shows "x \<in> set (last_n k xs) \<or> x \<in> set (drop_last k xs)"
proof -
  have "set xs = set (take (length xs - k) xs) \<union> set (drop (length xs - k) xs)" by (simp flip: set_append)
  with assms show ?thesis by (auto simp: last_n_def drop_last_def)
qed

lemma distinct_indexes [simp]: "distinct (indexes P xs)"
  by (simp add: indexes_def)

lemma compact_old_plain:
  assumes "compact_old keep ms = Inr ms'" and "i < length ms" and "\<not> is_tool (ms ! i)"
  shows "ms' ! i = ms ! i"
  using compact_old_nth(2) [OF assms(1,2)] assms(3)
  by (auto simp: drop_last_def indexes_def dest: in_set_takeD split: if_splits)

lemma cut_message_length:
  "cm_role m \<noteq> RoleSystem \<Longrightarrow> length (content_text (cut_message m)) \<le> 500"
  by (auto simp: cut_message_def content_or_def split: option.splits if_splits)

text \<open>
  Compaction changes contents only, and not all of them: system messages and the last six
  messages that are not tool results are never touched; if summarising the old tool results is
  enough, the recent tool results are verbatim too and the conversation is within its budget;
  otherwise every other message is cut to at most 500 characters.
\<close>

theorem compaction_keeps:
  assumes "compacted_messages cfg ms = Inr ms'" and "config_ok cfg" and "i < length ms"
  shows "same_frame (ms ! i) (ms' ! i)
    \<and> (if \<not> is_tool (ms ! i) \<and> (cm_role (ms ! i) = RoleSystem \<or> i \<in> set (recent_plain ms)) then ms' ! i = ms ! i
       else if summarising_is_enough cfg ms then
         total_chars ms' \<le> context_char_budget cfg
         \<and> (if \<not> is_tool (ms ! i) \<or> i \<in> set (last_n (keep_recent_tool_results cfg) (indexes is_tool ms))
            then ms' ! i = ms ! i else compact_message True (ms ! i) = Inr (ms' ! i))
       else if is_tool (ms ! i) then True
       else length (content_text (ms' ! i)) \<le> 500)"
proof -
  have frame: "same_frame (ms ! i) (ms' ! i)"
    using compacted_frame [OF assms(1)] assms(3) by (simp add: list_all2_conv_all_nth)
  obtain ms1 where ms1: "compact_old (keep_recent_tool_results cfg) ms = Inr ms1"
    using assms(1) by (auto simp: compacted_messages_def split: sum.splits)
  note old = compact_old_nth [OF ms1]
  have plain: "ms1 ! i = ms ! i" if "\<not> is_tool (ms ! i)" using compact_old_plain [OF ms1 assms(3) that] .
  show ?thesis
  proof (cases "total_chars ms1 \<le> context_char_budget cfg")
    case True
    with assms(1) ms1 have "ms1 = ms'" by (simp add: compacted_messages_def)
    moreover have "ms1 ! i = ms ! i" if "i \<in> set (last_n (keep_recent_tool_results cfg) (indexes is_tool ms))"
      using old(2) [OF assms(3)] last_not_dropped [OF _ _ that] assms(2) by (simp add: config_ok_def)
    moreover have "i \<in> set (drop_last (keep_recent_tool_results cfg) (indexes is_tool ms))"
      if "is_tool (ms ! i)" "i \<notin> set (last_n (keep_recent_tool_results cfg) (indexes is_tool ms))"
    proof -
      have "i \<in> set (indexes is_tool ms)" using that(1) assms(3) by (simp add: indexes_def)
      with last_or_dropped [of "keep_recent_tool_results cfg" i "indexes is_tool ms"] that(2) assms(2)
      show ?thesis by (simp add: config_ok_def)
    qed
    ultimately show ?thesis
      using frame plain True ms1 old(2) [OF assms(3)]
      by (cases "is_tool (ms ! i)";
          cases "i \<in> set (last_n (keep_recent_tool_results cfg) (indexes is_tool ms))";
          cases "i \<in> set (drop_last (keep_recent_tool_results cfg) (indexes is_tool ms))")
        (simp_all add: summarising_is_enough_def)
  next
    case False
    with assms(1) ms1 have all: "compact_all ms1 = Inr ms'" by (simp add: compacted_messages_def)
    have i: "i < length ms1" using old(1) assms(3) by simp
    have tool: "is_tool (ms1 ! i) = is_tool (ms ! i)"
      using compact_old_frame [OF ms1] i same_frame_fields by (auto simp: list_all2_conv_all_nth is_tool_def)
    have rec: "last_n 6 (indexes (\<lambda>m. \<not> is_tool m) ms1) = recent_plain ms"
      using indexes_frame [OF compact_old_frame [OF ms1]] by (simp add: recent_plain_def)
    have sys: "cut_message (ms ! i) = ms ! i" if "cm_role (ms ! i) = RoleSystem"
      using that by (simp add: cut_message_def)
    from compact_all_nth(2) [OF all i] show ?thesis
      using frame plain tool rec ms1 False cut_message_length [of "ms ! i"] sys
      by (cases "is_tool (ms ! i)"; cases "i \<in> set (recent_plain ms)"; cases "cm_role (ms ! i) = RoleSystem")
        (simp_all add: summarising_is_enough_def)
  qed
qed

theorem compaction_keeps_witness:
  "\<exists>ms'. compacted_messages default_config [message RoleSystem (Some (py ''s'')), message RoleUser (Some (py ''u''))] = Inr ms'
     \<and> ms' ! 0 = message RoleSystem (Some (py ''s''))"
proof -
  let ?ms = "[message RoleSystem (Some (py ''s'')), message RoleUser (Some (py ''u''))]"
  have "is_ok (compacted_messages default_config ?ms)"
    by (rule compacted_ok) (simp add: tool_texts_ok_def)
  then obtain ms' where ms': "compacted_messages default_config ?ms = Inr ms'" by (auto simp: is_ok_iff)
  from compaction_keeps [OF this, of 0] ms' show ?thesis by simp
qed

definition result_payload :: "tool_execution \<Rightarrow> pyval" where
  "result_payload x = pdict [(''ok'', PBool (te_error x = None)), (''result'', te_result x),
                             (''error'', opt_str (te_error x))]"

text \<open>
  What a tool message carries: except for a chart, at most \<open>max_tool_result_chars\<close>
  characters that start a JSON object; and when the whole object fits and is JSON, reading the
  message gives back the success flag, the result and the error.
\<close>

theorem tool_message_readable:
  assumes "serialize_tool_execution cfg x = Inr s" and "te_tool_name x \<noteq> py ''plot_chart'' \<or> te_error x \<noteq> None"
    and "config_ok cfg"
  shows "length s \<le> max_tool_result_chars cfg \<and> opens_object s
    \<and> (if json_ok (jsonable (result_payload x))
          \<and> length (dumps compact_json (jsonable (result_payload x))) \<le> max_tool_result_chars cfg
       then loads s = Some (jsonable (result_payload x)) else True)"
proof -
  have s: "s = take (max_tool_result_chars cfg) (dumps compact_json (jsonable (result_payload x)))"
    using assms(1,2) by (auto simp: serialize_tool_execution_def Let_def result_payload_def
        simp del: dumps.simps jsonable.simps)
  have "opens_object s" by (rule serialize_opens_object [OF assms(1)]) (use assms(3) in \<open>simp add: config_ok_def\<close>)
  then show ?thesis using s loads_dumps [OF seps_ok_opts(1)] by auto
qed

theorem tool_message_readable_witness:
  "loads (dumps compact_json (jsonable (result_payload (execution (demo_call ''a'' ''echo'' 1) (Inr (PInt 5)) 0))))
     = Some (pdict [(''ok'', PBool True), (''result'', PInt 5), (''error'', PNone)])"
proof -
  let ?x = "execution (demo_call ''a'' ''echo'' 1) (Inr (PInt 5)) 0"
  have p: "jsonable (result_payload ?x) = pdict [(''ok'', PBool True), (''result'', PInt 5), (''error'', PNone)]"
    by (simp add: result_payload_def execution_def opt_str_def)
  have len: "length (dumps compact_json (jsonable (result_payload ?x))) = 35" unfolding p by code_simp
  have ok: "json_ok (jsonable (result_payload ?x))"
    unfolding p by (simp add: text_ok_def py_def)
  have "serialize_tool_execution demo_config ?x = Inr (take 256 (dumps compact_json (jsonable (result_payload ?x))))"
    by (simp add: serialize_tool_execution_def demo_config_def execution_def demo_call_def result_payload_def Let_def
        del: dumps.simps jsonable.simps)
  then have s: "serialize_tool_execution (default_config\<lparr>max_tool_result_chars := 256\<rparr>) ?x
      = Inr (dumps compact_json (jsonable (result_payload ?x)))"
    using len by (simp add: serialize_tool_execution_def demo_config_def execution_def demo_call_def Let_def
        del: dumps.simps jsonable.simps)
  have "config_ok (default_config\<lparr>max_tool_result_chars := 256\<rparr>)" by (simp add: config_ok_def default_config_def)
  from tool_message_readable [OF s _ this] len ok p show ?thesis
    by (simp add: execution_def demo_call_def del: dumps.simps)
qed

text \<open>
  JSON round trip: reading what the program wrote, compact or with the default separators,
  with or without ASCII escapes, gives back the value.
\<close>

theorem json_round_trip:
  assumes "json_ok v" and "opts = compact_json \<or> opts = default_json"
  shows "json_dumps opts v = Inr (dumps opts v) \<and> loads (dumps opts v) = Some v"
  using assms loads_dumps seps_ok_opts not_json_ok(1) by (auto simp: json_dumps_def)

theorem json_round_trip_witness:
  "loads (dumps default_json (PDict [(py ''k'', PList [PInt (- 7), PStr [26412, 34, 128512], PNone])]))
     = Some (PDict [(py ''k'', PList [PInt (- 7), PStr [26412, 34, 128512], PNone])])"
  using json_round_trip [of "PDict [(py ''k'', PList [PInt (- 7), PStr [26412, 34, 128512], PNone])]" default_json]
  by (simp add: text_ok_def py_def del: dumps.simps)

section \<open>The registry\<close>

text \<open>
  \<open>replace_prefix\<close> is all or nothing: it either rejects the tools and leaves the registry
  as it was, or keeps a well-formed registry that binds, under the prefix, exactly the new
  tools, and every other name as before; and the difference it reports is the true one.
\<close>

theorem replace_prefix_all_or_nothing:
  assumes "registry_ok reg" and "\<forall>t \<in> set ts. has_schema t"
  shows "case replace_prefix p ts reg of
      (Inl e, reg') \<Rightarrow> reg' = reg
    | (Inr d, reg') \<Rightarrow> registry_ok reg' \<and> replaced p ts reg reg'
        \<and> rd_added d = filter (\<lambda>n. dict_get reg n = None) (map rt_name ts)
        \<and> rd_removed d = filter (\<lambda>n. starts_with p n \<and> n \<notin> rt_name ` set ts) (dict_keys reg)
        \<and> set (rd_updated d @ rd_unchanged d) = {n \<in> rt_name ` set ts. dict_get reg n \<noteq> None}
        \<and> distinct (rd_updated d @ rd_unchanged d)"
  by (rule replace_prefix_cases [OF assms, of p]) simp_all

theorem replace_prefix_all_or_nothing_witness:
  "case replace_prefix (py ''mcp__'') [demo_tool ''mcp__b''] [(py ''mcp__a'', demo_tool ''mcp__a''), (py ''echo'', demo_tool ''echo'')] of
      (Inl e, reg') \<Rightarrow> False
    | (Inr d, reg') \<Rightarrow> rd_added d = [py ''mcp__b''] \<and> rd_removed d = [py ''mcp__a'']
        \<and> dict_get reg' (py ''echo'') = Some (demo_tool ''echo'')"
proof -
  let ?reg = "[(py ''mcp__a'', demo_tool ''mcp__a''), (py ''echo'', demo_tool ''echo'')]"
  have "registry_ok ?reg" "\<forall>t \<in> set [demo_tool ''mcp__b'']. has_schema t"
    by (auto simp: registry_ok_def dict_ok_def demo_tool_def has_schema_def)
  note ok = replace_prefix_all_or_nothing [OF this, of "py ''mcp__''"]
  have "case replace_prefix (py ''mcp__'') [demo_tool ''mcp__b''] ?reg of (Inl e, reg') \<Rightarrow> False | (Inr d, reg') \<Rightarrow> True"
    by code_simp
  with ok show ?thesis
    by (auto simp: replaced_def starts_with_def demo_tool_def py_def split: prod.splits sum.splits)
qed

end
