(* ===== verification/Sql_Guard.thy ===== *)
theory Sql_Guard
  imports Json
begin

text \<open>
  \<open>app/tools/sql_guard.py\<close>: the policy every SQL text passes before it is executed.

  sqlglot is third-party: its parser and its printer are parameters.  A parsed statement is a
  tree of nodes; a node shows what the policy asks of it: its class name, whether it is an
  anonymous function, a known function, a common table expression or a table (and then the
  parts of its name), and its children.
\<close>

section \<open>Statements\<close>

datatype node_kind =
    OtherNode
  | AnonymousFunc pystr \<comment> \<open>\<open>str(node.this)\<close>\<close>
  | KnownFunc
  | CteNode pystr \<comment> \<open>\<open>alias_or_name\<close>\<close>
  | TableNode bool pystr pystr pystr \<comment> \<open>\<open>this\<close> is an identifier; \<open>catalog\<close>, \<open>db\<close>, \<open>name\<close>\<close>

datatype ast = Ast (node_class: pystr) (node_kind: node_kind) (node_children: "ast list")

text \<open>\<open>walk\<close> visits the tree breadth first.\<close>

function walk_queue :: "ast list \<Rightarrow> ast list" where
  "walk_queue [] = []"
| "walk_queue (n # ns) = n # walk_queue (ns @ node_children n)"
  by pat_completeness auto

fun ast_size :: "ast \<Rightarrow> nat" where
  "ast_size (Ast c k cs) = Suc (sum_list (map ast_size cs))"

termination walk_queue
proof (relation "measure (\<lambda>ns. sum_list (map ast_size ns))")
  fix n :: ast and ns
  have "sum_list (map ast_size (node_children n)) < ast_size n" by (cases n) simp
  then show "(ns @ node_children n, n # ns) \<in> measure (\<lambda>ns. sum_list (map ast_size ns))" by simp
qed simp

definition walk :: "ast \<Rightarrow> ast list" where
  "walk t = walk_queue [t]"

section \<open>The policy\<close>

definition read_only_roots :: "pystr list" where
  "read_only_roots = map py [''Select'', ''Union'', ''Intersect'', ''Except'']"

definition forbidden_nodes :: "pystr list" where
  "forbidden_nodes = map py [''Alter'', ''Attach'', ''Command'', ''Commit'', ''Copy'', ''Create'', ''Delete'',
     ''Detach'', ''Drop'', ''Execute'', ''Grant'', ''Insert'', ''Into'', ''Pragma'', ''Prepare'', ''Rollback'',
     ''Set'', ''Transaction'', ''TruncateTable'', ''Update'', ''Use'']"

definition forbidden_functions :: "pystr list" where
  "forbidden_functions = map py [''currentsetting'', ''dblink'', ''dblinkconnect'', ''getenv'', ''glob'',
     ''installextension'', ''loexport'', ''loimport'', ''loadextension'', ''mysqlscan'', ''parquetscan'',
     ''pgcancelbackend'', ''pgadvisorylock'', ''pgadvisorylockshared'', ''pgnotify'', ''pgreadbinaryfile'',
     ''pgreadfile'', ''pgreadserverfiles'', ''pgsleep'', ''pgstatfile'', ''pgterminatebackend'',
     ''postgresscan'', ''query'', ''querytable'', ''readblob'', ''readcsv'', ''readcsvauto'', ''readjson'',
     ''readjsonauto'', ''readparquet'', ''readtext'', ''setconfig'', ''sqlitescan'']"

datatype parse_result = Parsed "ast option list" | ParseFailed pystr | ParseRaises py_exc

record sql_policy =
  sp_max_lines :: nat
  sp_max_chars :: nat
  sp_allow_qualified :: bool
  sp_parse :: "pystr \<Rightarrow> parse_result" \<comment> \<open>\<open>parse(sql, read=dialect)\<close>\<close>
  sp_render :: "ast \<Rightarrow> pystr" \<comment> \<open>\<open>expression.sql(dialect=dialect)\<close>\<close>
  sp_fold :: "nat \<Rightarrow> nat list"

definition invalid_sql :: "pystr \<Rightarrow> 'a pyres" where
  "invalid_sql msg = raise_exc ''SQLValidationError'' msg"

definition function_name :: "(nat \<Rightarrow> nat list) \<Rightarrow> pystr \<Rightarrow> pystr" where
  "function_name cf s = casefold cf (filter (\<lambda>c. c \<noteq> 95) s)"

text \<open>The checks of one node: \<open>None\<close> when it passes, else the message.\<close>

definition check_node :: "(nat \<Rightarrow> nat list) \<Rightarrow> ast \<Rightarrow> pystr option" where
  "check_node cf n =
     (if node_class n \<in> set forbidden_nodes then
        Some (py ''SQL operation is not allowed: '' @ node_class n @ py ''.'')
      else (case node_kind n of
          AnonymousFunc f \<Rightarrow>
            if function_name cf f \<in> set forbidden_functions
            then Some (py ''SQL function is not allowed: '' @ f) else None
        | KnownFunc \<Rightarrow>
            if function_name cf (node_class n) \<in> set forbidden_functions
            then Some (py ''SQL function is not allowed: '' @ node_class n) else None
        | _ \<Rightarrow> None))"

fun cte_names :: "(nat \<Rightarrow> nat list) \<Rightarrow> ast list \<Rightarrow> pystr list" where
  "cte_names cf [] = []"
| "cte_names cf (n # ns) = (case node_kind n of
      CteNode a \<Rightarrow> (if a = [] then [] else [casefold cf a])
    | _ \<Rightarrow> []) @ cte_names cf ns"

definition table_key :: "(nat \<Rightarrow> nat list) \<Rightarrow> pystr \<Rightarrow> pystr \<Rightarrow> pystr" where
  "table_key cf db name = (if db = [] then casefold cf name else casefold cf (db @ py ''.'' @ name))"

definition check_table :: "sql_policy \<Rightarrow> pystr list \<Rightarrow> pystr list \<Rightarrow> ast \<Rightarrow> pystr option" where
  "check_table p ctes allowed n = (case node_kind n of
      TableNode identifier catalog db name \<Rightarrow>
        if \<not> identifier then Some (py ''Table functions and dynamic data sources are not allowed.'')
        else if catalog \<noteq> [] then Some (py ''Qualified or external table names are not allowed.'')
        else if db \<noteq> [] \<and> \<not> sp_allow_qualified p
        then Some (py ''Qualified or external table names are not allowed.'')
        else if table_key (sp_fold p) db name \<in> set ctes then None
        else if table_key (sp_fold p) db name \<notin> set allowed
        then Some (py ''Table is not allowed: '' @ table_key (sp_fold p) db name)
        else None
    | _ \<Rightarrow> None)"

fun first_error :: "('a \<Rightarrow> pystr option) \<Rightarrow> 'a list \<Rightarrow> pystr option" where
  "first_error f [] = None"
| "first_error f (x # xs) = (case f x of Some m \<Rightarrow> Some m | None \<Rightarrow> first_error f xs)"

definition check_statement :: "sql_policy \<Rightarrow> pystr list \<Rightarrow> ast \<Rightarrow> pystr pyres" where
  "check_statement p allowed_tables t =
     (if node_class t \<notin> set read_only_roots then invalid_sql (py ''Only SELECT queries are allowed.'')
      else (case first_error (check_node (sp_fold p)) (walk t) of
          Some m \<Rightarrow> invalid_sql m
        | None \<Rightarrow>
            (let ctes = cte_names (sp_fold p) (walk t);
                 allowed = map (casefold (sp_fold p)) allowed_tables
             in case first_error (check_table p ctes allowed) (walk t) of
                  Some m \<Rightarrow> invalid_sql m
                | None \<Rightarrow> Inr (sp_render p t))))"

definition validate :: "sql_policy \<Rightarrow> pystr \<Rightarrow> pystr list \<Rightarrow> pystr pyres" where
  "validate p sql allowed_tables =
     (if strip sql = [] then invalid_sql (py ''SQL must not be empty.'')
      else if length sql > sp_max_chars p then
        invalid_sql (py ''SQL exceeds the maximum length of '' @ str_nat (sp_max_chars p) @ py '' characters.'')
      else if length (splitlines sql) > sp_max_lines p then
        invalid_sql (py ''SQL exceeds '' @ str_nat (sp_max_lines p) @ py '' lines and requires manual review.'')
      else (case sp_parse p sql of
          ParseFailed msg \<Rightarrow> invalid_sql (py ''SQL syntax error: '' @ msg)
        | ParseRaises e \<Rightarrow> Inl e
        | Parsed [Some t] \<Rightarrow> check_statement p allowed_tables t
        | Parsed _ \<Rightarrow> invalid_sql (py ''Only one SQL statement is allowed.'')))"

section \<open>What the policy accepts\<close>

text \<open>The nodes of a tree, independently of the order of the walk.\<close>

fun nodes :: "ast \<Rightarrow> ast set" where
  "nodes (Ast c k cs) = insert (Ast c k cs) (\<Union>x \<in> set cs. nodes x)"

lemma nodes_children: "nodes n = insert n (\<Union>x \<in> set (node_children n). nodes x)"
  by (cases n) simp

lemma set_walk_queue: "set (walk_queue ns) = (\<Union>n \<in> set ns. nodes n)"
proof (induction ns rule: walk_queue.induct)
  case (2 n ns)
  then show ?case using nodes_children [of n] by simp blast
qed simp

lemma set_walk: "set (walk t) = nodes t"
  unfolding walk_def set_walk_queue by simp

lemma first_error_None: "first_error f xs = None \<longleftrightarrow> (\<forall>x \<in> set xs. f x = None)"
  by (induction xs) (auto split: option.split)

lemma set_cte_names: "a \<in> set (cte_names cf ns) \<longleftrightarrow>
  (\<exists>n \<in> set ns. \<exists>b. node_kind n = CteNode b \<and> b \<noteq> [] \<and> a = casefold cf b)"
proof (induction ns)
  case (Cons n ns)
  then show ?case by (cases "node_kind n") auto
qed simp

text \<open>
  The contract: a read-only root, no forbidden operation or function anywhere, and every table
  an unqualified (or allowed qualified) name that is a common table expression of the
  statement or one of the allowed tables, all up to case.
\<close>

definition node_safe :: "(nat \<Rightarrow> nat list) \<Rightarrow> ast \<Rightarrow> bool" where
  "node_safe cf n \<longleftrightarrow> node_class n \<notin> set forbidden_nodes
     \<and> (\<forall>f. node_kind n = AnonymousFunc f \<longrightarrow> function_name cf f \<notin> set forbidden_functions)
     \<and> (node_kind n = KnownFunc \<longrightarrow> function_name cf (node_class n) \<notin> set forbidden_functions)"

definition defines_cte :: "(nat \<Rightarrow> nat list) \<Rightarrow> ast \<Rightarrow> pystr \<Rightarrow> bool" where
  "defines_cte cf t key \<longleftrightarrow> (\<exists>n \<in> nodes t. \<exists>a. node_kind n = CteNode a \<and> a \<noteq> [] \<and> casefold cf a = key)"

definition table_safe :: "sql_policy \<Rightarrow> pystr list \<Rightarrow> ast \<Rightarrow> ast \<Rightarrow> bool" where
  "table_safe p allowed t n \<longleftrightarrow> (\<forall>identifier catalog db name.
     node_kind n = TableNode identifier catalog db name \<longrightarrow>
       identifier \<and> catalog = [] \<and> (db = [] \<or> sp_allow_qualified p)
       \<and> (defines_cte (sp_fold p) t (table_key (sp_fold p) db name)
          \<or> table_key (sp_fold p) db name \<in> casefold (sp_fold p) ` set allowed))"

definition statement_safe :: "sql_policy \<Rightarrow> pystr list \<Rightarrow> ast \<Rightarrow> bool" where
  "statement_safe p allowed t \<longleftrightarrow> node_class t \<in> set read_only_roots
     \<and> (\<forall>n \<in> nodes t. node_safe (sp_fold p) n \<and> table_safe p allowed t n)"

lemma check_node_None: "check_node cf n = None \<longleftrightarrow> node_safe cf n"
  by (auto simp: check_node_def node_safe_def split: node_kind.split)

lemma cte_names_defines: "k \<in> set (cte_names cf (walk t)) \<longleftrightarrow> defines_cte cf t k"
  unfolding set_cte_names set_walk defines_cte_def by blast

lemma check_table_None:
  "check_table p (cte_names (sp_fold p) (walk t)) (map (casefold (sp_fold p)) allowed) n = None
   \<longleftrightarrow> table_safe p allowed t n"
  by (cases "node_kind n") (auto simp: check_table_def table_safe_def cte_names_defines)

lemma check_statement_Inr:
  "check_statement p allowed t = Inr s \<longleftrightarrow> statement_safe p allowed t \<and> s = sp_render p t"
  by (auto simp: check_statement_def statement_safe_def first_error_None check_node_None check_table_None
      set_walk Let_def invalid_sql_def option.case_eq_if split: if_splits)

lemma validate_Inr:
  "validate p sql allowed = Inr s \<longleftrightarrow> strip sql \<noteq> [] \<and> length sql \<le> sp_max_chars p
     \<and> length (splitlines sql) \<le> sp_max_lines p
     \<and> (\<exists>t. sp_parse p sql = Parsed [Some t] \<and> statement_safe p allowed t \<and> s = sp_render p t)"
  by (auto simp: validate_def check_statement_Inr invalid_sql_def
      split: parse_result.split list.split option.split)

text \<open>
  C15.  The SQL guard is exact: it accepts a text precisely when it is not blank, within the
  length limits, parses as one statement, and that statement is safe; and what it returns is
  the printed statement, not the text.
\<close>

theorem guard_accepts_exactly_safe:
  "validate p sql allowed = Inr s \<longleftrightarrow> strip sql \<noteq> [] \<and> length sql \<le> sp_max_chars p
     \<and> length (splitlines sql) \<le> sp_max_lines p
     \<and> (\<exists>t. sp_parse p sql = Parsed [Some t] \<and> statement_safe p allowed t \<and> s = sp_render p t)"
  by (rule validate_Inr)

text \<open>
  Rejections are errors of the guard's own class: unless the parser itself raises something
  other than a parse error, \<open>validate\<close> never lets another exception through.
\<close>

theorem guard_errors_are_validation_errors:
  assumes "validate p sql allowed = Inl e" and "\<And>x. sp_parse p sql \<noteq> ParseRaises x"
  shows "exc_type e = py ''SQLValidationError''"
  using assms
  by (auto simp: validate_def check_statement_def invalid_sql_def Let_def
      split: parse_result.splits list.splits option.splits if_splits)

definition demo_policy :: "(pystr \<Rightarrow> parse_result) \<Rightarrow> sql_policy" where
  "demo_policy parse = \<lparr>sp_max_lines = 300, sp_max_chars = 1000, sp_allow_qualified = False,
     sp_parse = parse, sp_render = node_class, sp_fold = ascii_fold\<rparr>"

theorem guard_errors_are_validation_errors_witness:
  "\<exists>e. validate (demo_policy (\<lambda>s. Parsed [])) (py ''x'') [] = Inl e \<and> exc_type e = py ''SQLValidationError''"
proof -
  obtain e where e: "validate (demo_policy (\<lambda>s. Parsed [])) (py ''x'') [] = Inl e"
    by (cases "validate (demo_policy (\<lambda>s. Parsed [])) (py ''x'') []") (simp_all add: validate_Inr demo_policy_def)
  from guard_errors_are_validation_errors [OF this] e show ?thesis by (simp add: demo_policy_def)
qed

definition shadowing_statement :: ast where
  "shadowing_statement = (let secret = Ast (py ''Table'') (TableNode True [] [] (py ''secret'')) []
     in Ast (py ''Select'') OtherNode
          [Ast (py ''With'') OtherNode
             [Ast (py ''CTE'') (CteNode (py ''secret'')) [Ast (py ''Select'') OtherNode [secret]]],
           secret])"

text \<open>
  A limit of the whitelist: a common table expression exempts every table of its name in the
  whole statement, also the one its own body reads.  In this statement the body of the expression
  \<open>secret\<close> reads the table \<open>secret\<close>; no table at all is allowed, and the statement passes.
\<close>

theorem shadowing_cte_passes:
  "check_statement (demo_policy parse) [] shadowing_statement = Inr (py ''Select'')"
  by (simp add: check_statement_Inr statement_safe_def shadowing_statement_def Let_def node_safe_def
      table_safe_def defines_cte_def demo_policy_def read_only_roots_def forbidden_nodes_def table_key_def)

end
