(* ===== verification/Nl2sql.thy ===== *)
theory Nl2sql
  imports Agent_Models Sql_Guard
begin

text \<open>
  \<open>app/agent/nl2sql.py\<close>: one question to one SELECT, retried with the error of the previous
  attempt, validated by the SQL guard before it is executed.  The analytics engine is an
  argument with its three operations; the texts of pydantic's and \<open>json\<close>'s errors are
  parameters.
\<close>

section \<open>Data\<close>

record query_result =
  qr_columns :: "pystr list"
  qr_rows :: "arguments list"
  qr_row_count :: nat
  qr_truncated :: bool
  qr_elapsed_ms :: rat

datatype nl2sql_status = NlSuccess | NlEmptyResult | NlFailed

datatype empty_reason = Ambiguous | NoData

fun reason_text :: "empty_reason \<Rightarrow> pystr" where
  "reason_text Ambiguous = [27495, 20041]"
| "reason_text NoData = [26080, 25968, 25454]"

record empty_decision =
  ed_reason :: empty_reason
  ed_suggestion :: pystr

record nl2sql_result =
  nr_status :: nl2sql_status
  nr_question :: pystr
  nr_sql :: "pystr option"
  nr_query_result :: "query_result option"
  nr_reason :: "empty_reason option"
  nr_suggestion :: "pystr option"
  nr_attempts :: nat
  nr_errors :: "pystr list"
  nr_usage :: token_usage

record 'w nl2sql_env =
  nl_model :: "'w chat_model"
  nl_max_retries :: nat
  nl_policy :: sql_policy
  nl_table_names :: "'w \<Rightarrow> pystr list pyres \<times> 'w"
  nl_schema :: "pystr \<Rightarrow> 'w \<Rightarrow> arguments pyres \<times> 'w"
  nl_execute :: "pystr \<Rightarrow> 'w \<Rightarrow> query_result pyres \<times> 'w"
  nl_json_error :: "pystr \<Rightarrow> pystr"
  nl_decision_error :: "pyval \<Rightarrow> pystr"

section \<open>Fenced answers\<close>

text \<open>The first occurrence of three backquotes: what is before and what is after.\<close>

fun split_fence :: "pystr \<Rightarrow> (pystr \<times> pystr) option" where
  "split_fence [] = None"
| "split_fence (c # s) =
     (if take 3 (c # s) = [96, 96, 96] then Some ([], drop 2 s)
      else map_option (apfst (Cons c)) (split_fence s))"

text \<open>Case-insensitive match of an ASCII letter; the long s matches \<open>s\<close> as well.\<close>

definition letter_matches :: "nat \<Rightarrow> nat \<Rightarrow> bool" where
  "letter_matches d c \<longleftrightarrow> ascii_lower c = d \<or> (d = 115 \<and> c = 383)"

definition skip_tag :: "pystr \<Rightarrow> pystr \<Rightarrow> pystr" where
  "skip_tag tag s =
     (if length tag \<le> length s \<and> list_all2 letter_matches tag (take (length tag) s)
      then drop (length tag) s else s)"

text \<open>
  The regular expression: a fence, the optional tag, white space, the shortest text up to the
  next fence.
\<close>

definition unfence :: "pystr \<Rightarrow> pystr \<Rightarrow> pystr" where
  "unfence tag content =
     (case split_fence content of
        None \<Rightarrow> content
      | Some (_, rest) \<Rightarrow>
          (case split_fence (lstrip (skip_tag tag rest)) of
             None \<Rightarrow> content
           | Some (body, _) \<Rightarrow> body))"

definition extract_sql :: "pystr \<Rightarrow> pystr pyres" where
  "extract_sql content =
     (let candidate = strip (unfence (py ''sql'') content);
          candidate' = (if candidate \<noteq> [] \<and> last candidate = 59 then rstrip (butlast candidate) else candidate)
      in if candidate' = [] then raise_exc ''ValueError'' (py ''Model returned empty SQL.'')
         else Inr candidate')"

definition extract_json :: "'w nl2sql_env \<Rightarrow> pystr \<Rightarrow> pyval pyres" where
  "extract_json env content =
     (let candidate = strip (unfence (py ''json'') content)
      in case loads candidate of
           None \<Rightarrow> raise_exc ''JSONDecodeError'' (nl_json_error env candidate)
         | Some v \<Rightarrow> Inr v)"

text \<open>\<open>EmptyResultDecision.model_validate\<close>: both fields, nothing else, a suggestion of 1 to 500 characters.\<close>

definition reason_of :: "pyval \<Rightarrow> empty_reason option" where
  "reason_of v = (if v = PStr (reason_text Ambiguous) then Some Ambiguous
                  else if v = PStr (reason_text NoData) then Some NoData else None)"

definition suggestion_of :: "pyval \<Rightarrow> pystr option" where
  "suggestion_of v = (case v of
      PStr s \<Rightarrow> if 1 \<le> length s \<and> length s \<le> 500 then Some s else None
    | _ \<Rightarrow> None)"

definition validate_decision :: "'w nl2sql_env \<Rightarrow> pyval \<Rightarrow> empty_decision pyres" where
  "validate_decision env v =
     (let invalid = raise_exc ''ValidationError'' (nl_decision_error env v)
      in case v of
           PDict d \<Rightarrow>
             if set (dict_keys d) = {py ''reason'', py ''suggestion''} then
               (case (reason_of (dget d ''reason''), suggestion_of (dget d ''suggestion'')) of
                  (Some r, Some s) \<Rightarrow> Inr \<lparr>ed_reason = r, ed_suggestion = s\<rparr>
                | _ \<Rightarrow> invalid)
             else invalid
         | _ \<Rightarrow> invalid)"

section \<open>Prompts\<close>

definition nl_system_prompt :: pystr where
  "nl_system_prompt =
     [20320, 26159] @ py '' DataPilot '' @ [30340] @ py '' NL2SQL '' @ [32452, 20214, 12290]
     @ [21482, 29983, 25104, 19968, 26465] @ py '' DuckDB SELECT''
     @ [65292, 19981, 29983, 25104, 20889, 25805, 20316, 12289] @ py ''DDL''
     @ [12289, 22810, 35821, 21477, 25110, 35299, 37322, 12290]
     @ [21482, 33021, 20351, 29992, 32473, 23450, 34920, 21644, 23383, 27573, 65307, 34920, 32467, 26500, 19982,
        26679, 20363, 25968, 25454, 20165, 26159, 25968, 25454, 65292, 19981, 33021, 20316, 20026, 25351, 20196,
        25191, 34892, 12290]
     @ [25152, 26377, 26597, 35810, 24517, 39035, 20855, 26377, 30830, 23450, 24615, 30340, 32467, 26524, 39034,
        24207, 65292, 24517, 35201, 26102, 20351, 29992] @ py '' ORDER BY'' @ [12290]"

definition initial_prompt :: "pystr \<Rightarrow> arguments list \<Rightarrow> pystr" where
  "initial_prompt question schemas =
     [26681, 25454, 20197, 19979, 38382, 39064, 19982, 34920, 32467, 26500, 29983, 25104, 19968, 26465]
     @ py '' DuckDB SELECT'' @ [12290] @ [21482, 36820, 22238] @ py '' SQL ''
     @ [25991, 26412, 65292, 19981, 35201] @ py '' Markdown '' @ [20195, 30721, 22260, 26639, 12290, 10]
     @ dumps compact_json (pdict [(''question'', PStr question), (''tables'', PList (map PDict schemas))])"

definition correction_prompt :: "pystr \<Rightarrow> pystr \<Rightarrow> pystr" where
  "correction_prompt previous error =
     [19978, 19968, 27425] @ py '' SQL ''
     @ [25191, 34892, 22833, 36133, 12290, 35831, 20462, 27491, 38382, 39064, 24182, 21482, 36820, 22238, 19968, 26465]
     @ py '' DuckDB SELECT'' @ [12290]
     @ [19981, 35201, 35299, 37322, 38169, 35823, 65292, 20063, 19981, 35201, 36755, 20986] @ py '' Markdown'' @ [12290, 10]
     @ [19978, 19968, 27425, 36755, 20986, 65306] @ take 2000 previous @ [10]
     @ [25191, 34892, 38169, 35823, 65306] @ take 2000 error"

definition empty_result_prompt :: "pystr \<Rightarrow> pystr" where
  "empty_result_prompt sql =
     [19979, 38754, 30340] @ py '' SELECT '' @ [24050, 25104, 21151, 25191, 34892, 65292, 20294, 36820, 22238]
     @ py '' 0 '' @ [34892, 12290, 19981, 35201, 32534, 36896, 31572, 26696, 12290]
     @ [21482, 36820, 22238] @ py '' JSON'' @ [65292, 26684, 24335, 24517, 39035, 26159] @ py '' ''
     @ py ''{'' @ [34] @ py ''reason'' @ [34] @ py '':'' @ [34, 27495, 20041] @ py ''|'' @ [26080, 25968, 25454, 34]
     @ py '','' @ [34] @ py ''suggestion'' @ [34] @ py '':''
     @ [34, 32473, 29992, 25143, 30340, 19979, 19968, 27493, 24314, 35758, 34] @ py ''}'' @ [12290]
     @ py ''reason '' @ [21482, 33021, 21462, 8220, 27495, 20041, 8221, 25110, 8220, 26080, 25968, 25454, 8221, 12290, 10]
     @ py ''SQL: '' @ sql"

section \<open>\<open>generate\<close>\<close>

definition nl_failed ::
  "pystr \<Rightarrow> pystr option \<Rightarrow> query_result option \<Rightarrow> nat \<Rightarrow> pystr list \<Rightarrow> token_usage \<Rightarrow> nl2sql_result" where
  "nl_failed question sql qr attempts errors usage =
     \<lparr>nr_status = NlFailed, nr_question = question, nr_sql = sql, nr_query_result = qr, nr_reason = None,
      nr_suggestion = None, nr_attempts = attempts, nr_errors = errors, nr_usage = usage\<rparr>"

text \<open>\<open>_classify_empty\<close>; an exception of the model itself is not caught.\<close>

definition classify_empty ::
  "'w nl2sql_env \<Rightarrow> chat_message list \<Rightarrow> pystr \<Rightarrow> 'w \<Rightarrow> (empty_decision pyres \<times> token_usage) pyres \<times> 'w" where
  "classify_empty env messages sql w =
     (case chat (nl_model env) w (messages @ [message RoleUser (Some (empty_result_prompt sql))]) [] None of
        (Inl e, w') \<Rightarrow> (Inl e, w')
      | (Inr r, w') \<Rightarrow>
          (Inr ((case extract_json env (case lr_content r of None \<Rightarrow> [] | Some t \<Rightarrow> t) of
                   Inl e \<Rightarrow> Inl e
                 | Inr v \<Rightarrow> validate_decision env v), lr_usage r), w'))"

text \<open>What the \<open>try\<close> block of an attempt does with the raw answer: extract, validate, execute.\<close>

definition try_sql ::
  "'w nl2sql_env \<Rightarrow> pystr list \<Rightarrow> pystr \<Rightarrow> 'w \<Rightarrow> (pystr \<times> query_result) pyres \<times> 'w" where
  "try_sql env tables raw w =
     (case extract_sql raw of
        Inl e \<Rightarrow> (Inl e, w)
      | Inr candidate \<Rightarrow>
          (case validate (nl_policy env) candidate tables of
             Inl e \<Rightarrow> (Inl e, w)
           | Inr safe \<Rightarrow>
               (case nl_execute env safe w of
                  (Inl e, w') \<Rightarrow> (Inl e, w')
                | (Inr qr, w') \<Rightarrow> (Inr (safe, qr), w'))))"

definition nl_finish ::
  "'w nl2sql_env \<Rightarrow> pystr \<Rightarrow> chat_message list \<Rightarrow> nat \<Rightarrow> pystr list \<Rightarrow> token_usage \<Rightarrow> pystr \<Rightarrow> query_result \<Rightarrow>
   'w \<Rightarrow> nl2sql_result pyres \<times> 'w" where
  "nl_finish env question messages attempt errors usage sql qr w =
     (if qr_row_count qr = 0 then
        (case classify_empty env messages sql w of
           (Inl e, w') \<Rightarrow> (Inl e, w')
         | (Inr (Inl e, u), w') \<Rightarrow>
             (Inr (nl_failed question (Some sql) (Some qr) attempt (errors @ [render_exc e]) (usage_add usage u)), w')
         | (Inr (Inr d, u), w') \<Rightarrow>
             (Inr \<lparr>nr_status = NlEmptyResult, nr_question = question, nr_sql = Some sql,
                   nr_query_result = Some qr, nr_reason = Some (ed_reason d),
                   nr_suggestion = Some (ed_suggestion d), nr_attempts = attempt, nr_errors = errors,
                   nr_usage = usage_add usage u\<rparr>, w'))
      else
        (Inr \<lparr>nr_status = NlSuccess, nr_question = question, nr_sql = Some sql, nr_query_result = Some qr,
              nr_reason = None, nr_suggestion = None, nr_attempts = attempt, nr_errors = errors,
              nr_usage = usage\<rparr>, w))"

text \<open>
  \<open>nl_loop env question tables k attempt messages errors usage w\<close>: the \<open>k\<close> iterations left of
  the loop over \<open>attempt\<close>.
\<close>

fun nl_loop ::
  "'w nl2sql_env \<Rightarrow> pystr \<Rightarrow> pystr list \<Rightarrow> nat \<Rightarrow> nat \<Rightarrow> chat_message list \<Rightarrow> pystr list \<Rightarrow> token_usage \<Rightarrow>
   'w \<Rightarrow> nl2sql_result pyres \<times> 'w" where
  "nl_loop env question tables 0 attempt messages errors usage w =
     (raise_exc ''AssertionError'' (py ''NL2SQL retry loop exited unexpectedly.''), w)"
| "nl_loop env question tables (Suc k) attempt messages errors usage w =
     (case chat (nl_model env) w messages [] None of
        (Inl e, w1) \<Rightarrow> (Inl e, w1)
      | (Inr r, w1) \<Rightarrow>
          (let usage' = usage_add usage (lr_usage r);
               raw = (case lr_content r of None \<Rightarrow> [] | Some t \<Rightarrow> t)
           in case try_sql env tables raw w1 of
                (Inr (sql, qr), w2) \<Rightarrow> nl_finish env question messages attempt errors usage' sql qr w2
              | (Inl e, w2) \<Rightarrow>
                  (if attempt > nl_max_retries env then
                     (Inr (nl_failed question None None attempt (errors @ [render_exc e]) usage'), w2)
                   else nl_loop env question tables k (attempt + 1)
                     (messages @ [message RoleAssistant (Some raw),
                                  message RoleUser (Some (correction_prompt raw (render_exc e)))])
                     (errors @ [render_exc e]) usage' w2)))"

fun collect_schemas :: "'w nl2sql_env \<Rightarrow> pystr list \<Rightarrow> 'w \<Rightarrow> arguments list pyres \<times> 'w" where
  "collect_schemas env [] w = (Inr [], w)"
| "collect_schemas env (t # ts) w =
     (case nl_schema env t w of
        (Inl e, w') \<Rightarrow> (Inl e, w')
      | (Inr s, w') \<Rightarrow>
          (case collect_schemas env ts w' of
             (Inl e, w'') \<Rightarrow> (Inl e, w'')
           | (Inr ss, w'') \<Rightarrow> (Inr (s # ss), w'')))"

definition nl_generate :: "'w nl2sql_env \<Rightarrow> pystr \<Rightarrow> 'w \<Rightarrow> nl2sql_result pyres \<times> 'w" where
  "nl_generate env question w =
     (if strip question = [] then
        (Inr (nl_failed question None None 0 [py ''Question must not be empty.''] usage_zero), w)
      else (case nl_table_names env w of
          (Inl e, w1) \<Rightarrow> (Inl e, w1)
        | (Inr tables, w1) \<Rightarrow>
            (case collect_schemas env tables w1 of
               (Inl e, w2) \<Rightarrow> (Inl e, w2)
             | (Inr schemas, w2) \<Rightarrow>
                 if schemas = [] then
                   (Inr (nl_failed question None None 0 [py ''No tables are available for analysis.''] usage_zero), w2)
                 else nl_loop env question tables (nl_max_retries env + 1) 1
                   [message RoleSystem (Some nl_system_prompt),
                    message RoleUser (Some (initial_prompt question schemas))] [] usage_zero w2)))"

section \<open>Facts\<close>

text \<open>What a result shows: bounded attempts, one error per failed attempt, and SQL that passed the guard.\<close>

definition guarded :: "'w nl2sql_env \<Rightarrow> pystr list \<Rightarrow> pystr \<Rightarrow> bool" where
  "guarded env tables sql \<longleftrightarrow> (\<exists>candidate. validate (nl_policy env) candidate tables = Inr sql)"

definition nl_result_ok :: "'w nl2sql_env \<Rightarrow> pystr list \<Rightarrow> nl2sql_result \<Rightarrow> bool" where
  "nl_result_ok env tables r \<longleftrightarrow>
     nr_attempts r \<le> nl_max_retries env + 1
     \<and> (\<forall>sql. nr_sql r = Some sql \<longrightarrow> guarded env tables sql)
     \<and> (nr_status r = NlSuccess \<longrightarrow> nr_sql r \<noteq> None
          \<and> (\<exists>qr. nr_query_result r = Some qr \<and> qr_row_count qr \<noteq> 0) \<and> Suc (length (nr_errors r)) = nr_attempts r)
     \<and> (nr_status r = NlEmptyResult \<longrightarrow> nr_sql r \<noteq> None \<and> nr_reason r \<noteq> None
          \<and> (\<exists>qr. nr_query_result r = Some qr \<and> qr_row_count qr = 0)
          \<and> (\<exists>s. nr_suggestion r = Some s \<and> 1 \<le> length s \<and> length s \<le> 500)
          \<and> Suc (length (nr_errors r)) = nr_attempts r)
     \<and> (nr_status r = NlFailed \<longrightarrow> length (nr_errors r) = nr_attempts r
          \<and> (nr_sql r = None \<longrightarrow> nr_attempts r = nl_max_retries env + 1))"

lemma try_sql_guarded: "try_sql env tables raw w = (Inr (sql, qr), w') \<Longrightarrow> guarded env tables sql"
  by (auto simp: try_sql_def guarded_def split: sum.splits prod.splits)

lemma validate_decision_length:
  "validate_decision env v = Inr d \<Longrightarrow> 1 \<le> length (ed_suggestion d) \<and> length (ed_suggestion d) \<le> 500"
  by (auto simp: validate_decision_def suggestion_of_def Let_def split: pyval.splits if_splits option.splits)

lemma nl_finish_ok:
  assumes "nl_finish env question messages attempt errors usage sql qr w = (Inr r, w')"
    and "guarded env tables sql" and "attempt = Suc (length errors)" and "attempt \<le> nl_max_retries env + 1"
  shows "nl_result_ok env tables r"
proof (cases "qr_row_count qr = 0")
  case True
  obtain c w1 where c: "classify_empty env messages sql w = (c, w1)" by fastforce
  show ?thesis
  proof (cases c)
    case (Inr du)
    obtain d u where du: "du = (d, u)" by fastforce
    show ?thesis
    proof (cases d)
      case (Inl e)
      with assms True c Inr du show ?thesis by (auto simp: nl_finish_def nl_failed_def nl_result_ok_def)
    next
      case (Inr dd)
      have "\<exists>v. validate_decision env v = Inr dd"
        using c \<open>c = Inr du\<close> du Inr by (auto simp: classify_empty_def split: sum.splits prod.splits)
      then have "1 \<le> length (ed_suggestion dd) \<and> length (ed_suggestion dd) \<le> 500"
        using validate_decision_length by blast
      with assms True c \<open>c = Inr du\<close> du Inr show ?thesis by (auto simp: nl_finish_def nl_result_ok_def)
    qed
  qed (use assms True c in \<open>simp add: nl_finish_def\<close>)
next
  case False
  with assms show ?thesis by (auto simp: nl_finish_def nl_result_ok_def)
qed

lemma nl_loop_ok:
  "nl_loop env question tables k attempt messages errors usage w = (Inr r, w') \<Longrightarrow>
   attempt = Suc (length errors) \<Longrightarrow> k + length errors = nl_max_retries env + 1 \<Longrightarrow> nl_result_ok env tables r"
proof (induction k arbitrary: attempt messages errors usage w)
  case (Suc k)
  obtain x w1 where x: "chat (nl_model env) w messages [] None = (Inr x, w1)"
    using Suc.prems(1) by (auto split: sum.splits prod.splits)
  let ?raw = "case lr_content x of None \<Rightarrow> [] | Some t \<Rightarrow> t"
  obtain t w2 where t: "try_sql env tables ?raw w1 = (t, w2)" by fastforce
  show ?case
  proof (cases t)
    case (Inl e)
    show ?thesis
    proof (cases "attempt > nl_max_retries env")
      case True
      with Suc.prems x t Inl show ?thesis by (auto simp: nl_result_ok_def nl_failed_def)
    next
      case False
      with Suc.prems(1) x t Inl have "nl_loop env question tables k (attempt + 1)
          (messages @ [message RoleAssistant (Some ?raw),
             message RoleUser (Some (correction_prompt ?raw (render_exc e)))])
          (errors @ [render_exc e]) (usage_add usage (lr_usage x)) w2 = (Inr r, w')"
        by (simp add: Let_def)
      then show ?thesis by (rule Suc.IH) (use Suc.prems in simp_all)
    qed
  next
    case (Inr sq)
    obtain sql qr where sq: "sq = (sql, qr)" by fastforce
    have "nl_finish env question messages attempt errors (usage_add usage (lr_usage x)) sql qr w2 = (Inr r, w')"
      using Suc.prems(1) x t Inr sq by simp
    then show ?thesis
      by (rule nl_finish_ok) (use t Inr sq try_sql_guarded Suc.prems in auto)
  qed
qed simp

text \<open>The retry loop never falls through to its assertion.\<close>

lemma nl_loop_no_assertion:
  assumes "\<And>w ms. fst (chat (nl_model env) w ms [] None) \<noteq> Inl (Exc (py ''AssertionError'') m)"
  shows "attempt + k = nl_max_retries env + 2 \<Longrightarrow> 0 < k \<Longrightarrow>
    fst (nl_loop env question tables k attempt messages errors usage w) \<noteq> Inl (Exc (py ''AssertionError'') m)"
proof (induction k arbitrary: attempt messages errors usage w)
  case (Suc k)
  obtain x w1 where x: "chat (nl_model env) w messages [] None = (x, w1)" by fastforce
  show ?case
  proof (cases x)
    case (Inl e)
    with x assms [of w messages] show ?thesis by simp
  next
    case (Inr r)
    let ?raw = "case lr_content r of None \<Rightarrow> [] | Some t \<Rightarrow> t"
    obtain t w2 where t: "try_sql env tables ?raw w1 = (t, w2)" by fastforce
    show ?thesis
    proof (cases t)
      case (Inl e)
      with Suc x Inr t show ?thesis by (simp add: Let_def)
    next
      case (Inr sq)
      have "fst (classify_empty env messages sql w3) \<noteq> Inl (Exc (py ''AssertionError'') m)" for sql w3
        using assms by (auto simp: classify_empty_def split: sum.splits prod.splits) (metis fst_conv)
      then have "fst (nl_finish env question messages attempt errors u sql qr w3) \<noteq> Inl (Exc (py ''AssertionError'') m)"
        for u sql qr w3
        by (auto simp: nl_finish_def split: sum.splits prod.splits) (metis fst_conv)
      with x \<open>x = Inr r\<close> t Inr show ?thesis by (cases sq) simp
    qed
  qed
qed simp

text \<open>
  C31.  A question costs at most \<open>max_retries + 1\<close> attempts, with one recorded error for every
  attempt that did not succeed; whatever SQL a result reports has passed the guard for the
  tables of the engine; a success has rows, an empty result has none and carries a reason and
  a suggestion of 1 to 500 characters, and a failure without SQL used every attempt.
\<close>

theorem nl2sql_bounded_and_guarded:
  assumes "nl_generate env question w = (Inr r, w')" and "strip question \<noteq> []"
    and "nl_table_names env w = (Inr tables, w1)"
  shows "if fst (collect_schemas env tables w1) = Inr []
    then nr_status r = NlFailed \<and> nr_attempts r = 0 \<and> nr_sql r = None
    else nl_result_ok env tables r"
proof -
  obtain c w2 where c: "collect_schemas env tables w1 = (c, w2)" by fastforce
  show ?thesis
  proof (cases c)
    case (Inr ss)
    with assms c show ?thesis
      by (cases "ss = []") (auto simp: nl_generate_def nl_failed_def simp del: nl_loop.simps intro: nl_loop_ok)
  qed (use assms c in \<open>simp add: nl_generate_def\<close>)
qed

definition demo_nl :: "unit nl2sql_env" where
  "demo_nl = \<lparr>nl_model = \<lparr>chat = (\<lambda>w ms defs tr. (Inr \<lparr>lr_content = Some (py ''SELECT 1;''), lr_tool_calls = [],
        lr_usage = usage_zero, lr_finish_reason = None\<rparr>, w)), chat_stream = None\<rparr>,
     nl_max_retries = 2, nl_policy = demo_policy (\<lambda>s. Parsed [Some (Ast (py ''Select'') OtherNode [])]),
     nl_table_names = (\<lambda>w. (Inr [py ''t''], w)), nl_schema = (\<lambda>t w. (Inr [], w)),
     nl_execute = (\<lambda>s w. (Inr \<lparr>qr_columns = [], qr_rows = [[]], qr_row_count = 1, qr_truncated = False,
        qr_elapsed_ms = 0\<rparr>, w)), nl_json_error = (\<lambda>s. []), nl_decision_error = (\<lambda>v. [])\<rparr>"

theorem nl2sql_bounded_and_guarded_witness:
  "case nl_generate demo_nl (py ''how many'') () of
     (Inl e, w) \<Rightarrow> False
   | (Inr r, w) \<Rightarrow> nr_status r = NlSuccess \<and> nl_result_ok demo_nl [py ''t''] r"
proof -
  have sql: "extract_sql (py ''SELECT 1;'') = Inr (py ''SELECT 1'')" by code_simp
  have "validate (nl_policy demo_nl) (py ''SELECT 1'') [py ''t''] = Inr (py ''Select'')"
    unfolding validate_Inr
    by (auto simp: demo_nl_def demo_policy_def statement_safe_def node_safe_def table_safe_def read_only_roots_def
        forbidden_nodes_def strip_def lstrip_def rstrip_def py_def py_space_def splitlines_def line_break_def)
  with sql have "case nl_generate demo_nl (py ''how many'') () of (Inl e, w) \<Rightarrow> False | (Inr r, w) \<Rightarrow> nr_status r = NlSuccess"
    by (simp add: nl_generate_def demo_nl_def strip_def lstrip_def rstrip_def py_def py_space_def try_sql_def
        nl_finish_def Let_def numeral_3_eq_3)
  then obtain r w where r: "nl_generate demo_nl (py ''how many'') () = (Inr r, w)" "nr_status r = NlSuccess"
    by (auto split: prod.splits sum.splits)
  from nl2sql_bounded_and_guarded [OF r(1), of "[py ''t'']" "()"]
  have "nl_result_ok demo_nl [py ''t''] r"
    by (simp add: demo_nl_def strip_def lstrip_def rstrip_def py_def py_space_def)
  with r show ?thesis by simp
qed

end
