(* ===== verification/Chat_Tasks.thy ===== *)
theory Chat_Tasks
  imports Prelude
begin

text \<open>
  \<open>app/chat/tasks.py\<close>: the table of running chat tasks.  The event loop is a step relation:
  requests start and abort tasks, a task ends (by itself or because it was cancelled), and the
  callback of an ended task runs some time later and removes the entry of its message.
\<close>

datatype task_state = TaskRunning | TaskCancelling | TaskDone

record task_manager =
  tm_tasks :: "(uuid \<times> nat) list" \<comment> \<open>\<open>self._tasks\<close>: message to task\<close>
  tm_states :: "(nat \<times> task_state) list" \<comment> \<open>every task created so far\<close>
  tm_owner :: "(nat \<times> uuid) list" \<comment> \<open>the message each task was started for\<close>
  tm_callbacks :: "nat list" \<comment> \<open>done callbacks that have not run yet\<close>
  tm_next :: nat

definition no_tasks :: task_manager where
  "no_tasks = \<lparr>tm_tasks = [], tm_states = [], tm_owner = [], tm_callbacks = [], tm_next = 0\<rparr>"

definition task_live :: "task_manager \<Rightarrow> nat \<Rightarrow> bool" where
  "task_live M t = (case dict_get (tm_states M) t of
     Some TaskRunning \<Rightarrow> True | Some TaskCancelling \<Rightarrow> True | _ \<Rightarrow> False)"

definition is_running :: "uuid \<Rightarrow> task_manager \<Rightarrow> bool" where
  "is_running m M = (case dict_get (tm_tasks M) m of None \<Rightarrow> False | Some t \<Rightarrow> task_live M t)"

text \<open>\<open>start\<close>: refused while the message has a task that is not done.\<close>

definition start_task :: "uuid \<Rightarrow> task_manager \<Rightarrow> bool \<times> task_manager" where
  "start_task m M =
     (if is_running m M then (False, M)
      else (True, M\<lparr>tm_tasks := AList.update m (tm_next M) (tm_tasks M),
                    tm_states := AList.update (tm_next M) TaskRunning (tm_states M),
                    tm_owner := AList.update (tm_next M) m (tm_owner M), tm_next := tm_next M + 1\<rparr>))"

definition cancel_task :: "nat \<Rightarrow> task_manager \<Rightarrow> task_manager" where
  "cancel_task t M = (if task_live M t
     then M\<lparr>tm_states := AList.update t TaskCancelling (tm_states M)\<rparr> else M)"

definition abort_task :: "uuid \<Rightarrow> task_manager \<Rightarrow> bool \<times> task_manager" where
  "abort_task m M = (case dict_get (tm_tasks M) m of
      None \<Rightarrow> (False, M)
    | Some t \<Rightarrow> if task_live M t then (True, cancel_task t M) else (False, M))"

text \<open>A task ends: it is done and its callback is scheduled.\<close>

definition end_task :: "nat \<Rightarrow> task_manager \<Rightarrow> task_manager" where
  "end_task t M = M\<lparr>tm_states := AList.update t TaskDone (tm_states M), tm_callbacks := tm_callbacks M @ [t]\<rparr>"

text \<open>\<open>_discard\<close>: pops the message's entry, whichever task it now holds.\<close>

definition discard_task :: "nat \<Rightarrow> task_manager \<Rightarrow> task_manager" where
  "discard_task t M = (case dict_get (tm_owner M) t of
      None \<Rightarrow> M
    | Some m \<Rightarrow> M\<lparr>tm_tasks := AList.delete m (tm_tasks M), tm_callbacks := removeAll t (tm_callbacks M)\<rparr>)"

text \<open>
  \<open>shutdown\<close> cancels every live task, waits until these are done, then clears the table; the
  callbacks of the tasks run as well and find nothing left to remove.
\<close>

definition shutdown_tasks :: "task_manager \<Rightarrow> task_manager" where
  "shutdown_tasks M =
     (let live = filter (task_live M) (map snd (tm_tasks M));
          M' = fold end_task live (fold cancel_task live M)
      in M'\<lparr>tm_tasks := []\<rparr>)"

section \<open>The event loop\<close>

inductive task_step :: "task_manager \<Rightarrow> task_manager \<Rightarrow> bool" where
  start: "start_task m M = (b, M') \<Longrightarrow> task_step M M'"
| abort: "abort_task m M = (b, M') \<Longrightarrow> task_step M M'"
| finishes: "task_live M t \<Longrightarrow> task_step M (end_task t M)"
| callback: "t \<in> set (tm_callbacks M) \<Longrightarrow> task_step M (discard_task t M)"

inductive_cases task_stepE: "task_step M M'"

inductive task_reach :: "uuid set \<Rightarrow> task_manager \<Rightarrow> bool" where
  init: "task_reach {} no_tasks"
| fresh_start: "task_reach S M \<Longrightarrow> m \<notin> S \<Longrightarrow> start_task m M = (b, M') \<Longrightarrow> task_reach (insert m S) M'"
| abort: "task_reach S M \<Longrightarrow> abort_task m M = (b, M') \<Longrightarrow> task_reach S M'"
| finishes: "task_reach S M \<Longrightarrow> task_live M t \<Longrightarrow> task_reach S (end_task t M)"
| callback: "task_reach S M \<Longrightarrow> t \<in> set (tm_callbacks M) \<Longrightarrow> task_reach S (discard_task t M)"

text \<open>
  \<open>task_reach S M\<close>: \<open>M\<close> is reached with one start for each message of \<open>S\<close> and none for others,
  which is how the program uses the table (a message is created just before its task).
\<close>

definition table_inv :: "uuid set \<Rightarrow> task_manager \<Rightarrow> bool" where
  "table_inv S M \<longleftrightarrow>
     (\<forall>t. task_live M t \<longrightarrow> (\<exists>m \<in> S. dict_get (tm_owner M) t = Some m \<and> dict_get (tm_tasks M) m = Some t))
     \<and> (\<forall>m t. dict_get (tm_tasks M) m = Some t \<longrightarrow> m \<in> S \<and> dict_get (tm_owner M) t = Some m)
     \<and> (\<forall>t m. dict_get (tm_owner M) t = Some m \<longrightarrow> t < tm_next M \<and> m \<in> S)
     \<and> (\<forall>t u m. dict_get (tm_owner M) t = Some m \<longrightarrow> dict_get (tm_owner M) u = Some m \<longrightarrow> t = u)
     \<and> (\<forall>t \<in> set (tm_callbacks M). \<not> task_live M t \<and> dict_get (tm_owner M) t \<noteq> None)
     \<and> (\<forall>t s. dict_get (tm_states M) t = Some s \<longrightarrow> t < tm_next M)"

lemma table_invD:
  assumes "table_inv S M"
  shows "task_live M t \<Longrightarrow> \<exists>m \<in> S. dict_get (tm_owner M) t = Some m \<and> dict_get (tm_tasks M) m = Some t"
    and "dict_get (tm_tasks M) m = Some t \<Longrightarrow> m \<in> S \<and> dict_get (tm_owner M) t = Some m"
    and "dict_get (tm_owner M) t = Some m \<Longrightarrow> t < tm_next M \<and> m \<in> S"
    and "dict_get (tm_owner M) t = Some m \<Longrightarrow> dict_get (tm_owner M) u = Some m \<Longrightarrow> t = u"
    and "t \<in> set (tm_callbacks M) \<Longrightarrow> \<not> task_live M t \<and> dict_get (tm_owner M) t \<noteq> None"
    and "dict_get (tm_states M) t = Some x \<Longrightarrow> t < tm_next M"
  using assms unfolding table_inv_def by blast+

lemma table_invI:
  assumes "\<And>t. task_live M t \<Longrightarrow> \<exists>m \<in> S. dict_get (tm_owner M) t = Some m \<and> dict_get (tm_tasks M) m = Some t"
    and "\<And>m t. dict_get (tm_tasks M) m = Some t \<Longrightarrow> m \<in> S \<and> dict_get (tm_owner M) t = Some m"
    and "\<And>t m. dict_get (tm_owner M) t = Some m \<Longrightarrow> t < tm_next M \<and> m \<in> S"
    and "\<And>t u m. dict_get (tm_owner M) t = Some m \<Longrightarrow> dict_get (tm_owner M) u = Some m \<Longrightarrow> t = u"
    and "\<And>t. t \<in> set (tm_callbacks M) \<Longrightarrow> \<not> task_live M t \<and> dict_get (tm_owner M) t \<noteq> None"
    and "\<And>t s. dict_get (tm_states M) t = Some s \<Longrightarrow> t < tm_next M"
  shows "table_inv S M"
  unfolding table_inv_def using assms by simp

lemma live_update:
  "task_live (M\<lparr>tm_states := AList.update t s (tm_states M)\<rparr>) u
     = (if u = t then s = TaskRunning \<or> s = TaskCancelling else task_live M u)"
  by (cases s) (auto simp: task_live_def dict_simps)

lemma task_live_cong: "tm_states M' = tm_states M \<Longrightarrow> task_live M' t = task_live M t"
  by (simp add: task_live_def)

lemma table_inv_cancel:
  assumes "table_inv S M"
  shows "table_inv S (cancel_task t M)"
proof (cases "task_live M t")
  case True
  have live: "task_live (cancel_task t M) u = task_live M u" for u
    using True by (auto simp: cancel_task_def live_update)
  have same: "tm_tasks (cancel_task t M) = tm_tasks M" "tm_owner (cancel_task t M) = tm_owner M"
    "tm_next (cancel_task t M) = tm_next M" "tm_callbacks (cancel_task t M) = tm_callbacks M"
    by (simp_all add: cancel_task_def)
  have "t < tm_next M" using True assms by (auto simp: table_inv_def task_live_def split: option.splits)
  then have "u < tm_next M" if "dict_get (tm_states (cancel_task t M)) u = Some s" for u s
    using that assms by (auto simp: cancel_task_def dict_simps table_inv_def split: if_splits)
  with assms show ?thesis unfolding table_inv_def live same by blast
qed (use assms in \<open>simp add: cancel_task_def\<close>)

lemma table_inv_start:
  assumes inv: "table_inv S M" and m: "m \<notin> S" and eq: "start_task m M = (b, M')"
  shows "table_inv (insert m S) M'" and "b"
proof -
  have "dict_get (tm_tasks M) m = None"
    using inv m unfolding table_inv_def by (metis not_None_eq)
  then have "\<not> is_running m M" by (simp add: is_running_def)
  with eq show b by (simp add: start_task_def)
  have M': "M' = M\<lparr>tm_tasks := AList.update m (tm_next M) (tm_tasks M),
        tm_states := AList.update (tm_next M) TaskRunning (tm_states M),
        tm_owner := AList.update (tm_next M) m (tm_owner M), tm_next := tm_next M + 1\<rparr>"
    using eq \<open>\<not> is_running m M\<close> by (simp add: start_task_def)
  have live: "task_live M' u = (if u = tm_next M then True else task_live M u)" for u
    by (auto simp: M' task_live_def dict_simps)
  have old: "dict_get (tm_owner M) t = Some n \<Longrightarrow> t \<noteq> tm_next M \<and> t < tm_next M \<and> n \<in> S" for t n
    using inv unfolding table_inv_def by blast
  have tasks: "dict_get (tm_tasks M') n = (if n = m then Some (tm_next M) else dict_get (tm_tasks M) n)" for n
    by (simp add: M' dict_simps)
  have owner: "dict_get (tm_owner M') t = (if t = tm_next M then Some m else dict_get (tm_owner M) t)" for t
    by (simp add: M' dict_simps)
  have cb: "tm_callbacks M' = tm_callbacks M" and nx: "tm_next M' = tm_next M + 1" by (simp_all add: M')
  have st: "dict_get (tm_states M') t = (if t = tm_next M then Some TaskRunning else dict_get (tm_states M) t)" for t
    by (simp add: M' dict_simps)
  have cbn: "\<forall>t \<in> set (tm_callbacks M). t \<noteq> tm_next M"
    using inv old unfolding table_inv_def by (metis option.exhaust)
  show "table_inv (insert m S) M'"
    unfolding table_inv_def live tasks owner cb nx st
  proof (intro conjI allI ballI impI)
    fix t assume "if t = tm_next M then True else task_live M t"
    then show "\<exists>n \<in> insert m S. (if t = tm_next M then Some m else dict_get (tm_owner M) t) = Some n
        \<and> (if n = m then Some (tm_next M) else dict_get (tm_tasks M) n) = Some t"
      using inv m unfolding table_inv_def by (cases "t = tm_next M") auto
  next
    fix n t assume "(if n = m then Some (tm_next M) else dict_get (tm_tasks M) n) = Some t"
    then have "n = m \<and> t = tm_next M \<or> n \<noteq> m \<and> dict_get (tm_tasks M) n = Some t" by (auto split: if_splits)
    moreover have "n \<in> S \<and> dict_get (tm_owner M) t = Some n" if "dict_get (tm_tasks M) n = Some t"
      using inv that unfolding table_inv_def by blast
    ultimately show "n \<in> insert m S" "(if t = tm_next M then Some m else dict_get (tm_owner M) t) = Some n"
      using old by auto
  next
    fix t u n assume "(if t = tm_next M then Some m else dict_get (tm_owner M) t) = Some n"
      and "(if u = tm_next M then Some m else dict_get (tm_owner M) u) = Some n"
    with m old inv show "t = u" unfolding table_inv_def by (metis option.inject)
  next
    fix t assume "t \<in> set (tm_callbacks M)"
    with cbn inv show "\<not> (if t = tm_next M then True else task_live M t)"
      "(if t = tm_next M then Some m else dict_get (tm_owner M) t) \<noteq> None"
      unfolding table_inv_def by auto
  next
    fix t s assume "(if t = tm_next M then Some TaskRunning else dict_get (tm_states M) t) = Some s"
    with inv show "t < tm_next M + 1" unfolding table_inv_def by (metis less_add_one trans_less_add1)
  qed (use old in \<open>auto split: if_splits simp: less_SucI\<close>)
qed

lemma table_inv_end:
  assumes inv: "table_inv S M" and t: "task_live M t"
  shows "table_inv S (end_task t M)"
proof -
  have live: "task_live (end_task t M) u = (u \<noteq> t \<and> task_live M u)" for u
    by (auto simp: end_task_def task_live_def dict_simps)
  have st: "dict_get (tm_states (end_task t M)) u = (if u = t then Some TaskDone else dict_get (tm_states M) u)" for u
    by (simp add: end_task_def dict_simps)
  obtain m where own: "dict_get (tm_owner M) t = Some m" using table_invD(1) [OF inv t] by blast
  then have less: "t < tm_next M" using table_invD(3) [OF inv] by blast
  have same: "tm_tasks (end_task t M) = tm_tasks M" "tm_owner (end_task t M) = tm_owner M"
    "tm_next (end_task t M) = tm_next M" "tm_callbacks (end_task t M) = tm_callbacks M @ [t]"
    by (simp_all add: end_task_def)
  note I = table_invD [OF inv]
  show ?thesis
  proof (rule table_invI)
    fix v assume "task_live (end_task t M) v"
    then show "\<exists>m \<in> S. dict_get (tm_owner (end_task t M)) v = Some m \<and> dict_get (tm_tasks (end_task t M)) m = Some v"
      using I(1) [of v] live same by simp
  next
    fix v assume "v \<in> set (tm_callbacks (end_task t M))"
    then show "\<not> task_live (end_task t M) v \<and> dict_get (tm_owner (end_task t M)) v \<noteq> None"
      using I(5) [of v] live same own by auto
  next
    fix v s assume "dict_get (tm_states (end_task t M)) v = Some s"
    then show "v < tm_next (end_task t M)" using I(6) [of v] st same less by (simp split: if_splits)
  qed (unfold same, fact I(2), fact I(3), fact I(4))
qed

lemma table_inv_discard:
  assumes inv: "table_inv S M" and t: "t \<in> set (tm_callbacks M)"
  shows "table_inv S (discard_task t M)"
proof -
  obtain m where own: "dict_get (tm_owner M) t = Some m" and dead: "\<not> task_live M t"
    using table_invD(5) [OF inv t] by blast
  have eq: "discard_task t M = M\<lparr>tm_tasks := AList.delete m (tm_tasks M), tm_callbacks := removeAll t (tm_callbacks M)\<rparr>"
    using own by (simp add: discard_task_def)
  have live: "task_live (discard_task t M) u = task_live M u" for u by (rule task_live_cong) (simp add: eq)
  have kept: "dict_get (tm_tasks (discard_task t M)) n = Some u"
    if u: "task_live M u" "dict_get (tm_owner M) u = Some n" "dict_get (tm_tasks M) n = Some u" for n u
  proof -
    have "n \<noteq> m"
    proof
      assume "n = m"
      with u(2) own have "u = t" using table_invD(4) [OF inv] by blast
      with u(1) dead show False by simp
    qed
    with u(3) show ?thesis by (simp add: eq dict_simps)
  qed
  have sub: "dict_get (tm_tasks (discard_task t M)) n = Some u \<Longrightarrow> dict_get (tm_tasks M) n = Some u" for n u
    by (auto simp: eq dict_simps split: if_splits)
  have same: "tm_owner (discard_task t M) = tm_owner M" "tm_next (discard_task t M) = tm_next M"
    "tm_states (discard_task t M) = tm_states M" "set (tm_callbacks (discard_task t M)) \<subseteq> set (tm_callbacks M)"
    by (auto simp: eq)
  note I = table_invD [OF inv]
  show ?thesis
  proof (rule table_invI)
    fix v assume "task_live (discard_task t M) v"
    with live have "task_live M v" by simp
    from I(1) [OF this] this kept show "\<exists>n \<in> S. dict_get (tm_owner (discard_task t M)) v = Some n
        \<and> dict_get (tm_tasks (discard_task t M)) n = Some v" unfolding same(1) by blast
  next
    fix v assume "v \<in> set (tm_callbacks (discard_task t M))"
    with same(4) have "v \<in> set (tm_callbacks M)" by blast
    from I(5) [OF this] show "\<not> task_live (discard_task t M) v \<and> dict_get (tm_owner (discard_task t M)) v \<noteq> None"
      unfolding live same(1) .
  next
    fix n v assume "dict_get (tm_tasks (discard_task t M)) n = Some v"
    from I(2) [OF sub [OF this]] show "n \<in> S \<and> dict_get (tm_owner (discard_task t M)) v = Some n"
      unfolding same(1) .
  next
    fix v s assume "dict_get (tm_states (discard_task t M)) v = Some s"
    then show "v < tm_next (discard_task t M)" unfolding same(2,3) by (rule I(6))
  qed (unfold same(1,2), fact I(3), fact I(4))
qed

lemma task_reach_inv: "task_reach S M \<Longrightarrow> table_inv S M"
proof (induction rule: task_reach.induct)
  case init
  show ?case by (simp add: table_inv_def no_tasks_def task_live_def)
next
  case (fresh_start S M m b M')
  then show ?case using table_inv_start by blast
next
  case (abort S M m b M')
  then show ?case using table_inv_cancel by (auto simp: abort_task_def split: option.splits if_splits)
next
  case (finishes S M t)
  then show ?case by (simp add: table_inv_end)
next
  case (callback S M t)
  then show ?case by (simp add: table_inv_discard)
qed



definition late_callback :: task_manager where
  "late_callback = discard_task 0 (snd (start_task 7 (end_task 0 (snd (start_task 7 no_tasks)))))"

lemma late_callback_reached:
  "task_step\<^sup>*\<^sup>* no_tasks late_callback"
proof -
  let ?M1 = "snd (start_task 7 no_tasks)" and ?M2 = "end_task 0 (snd (start_task 7 no_tasks))"
  let ?M3 = "snd (start_task 7 ?M2)"
  have "task_step no_tasks ?M1" by (rule task_step.start [of 7 _ "fst (start_task 7 no_tasks)"]) simp
  moreover have "task_step ?M1 ?M2"
    by (rule task_step.finishes) (simp add: task_live_def start_task_def no_tasks_def is_running_def)
  moreover have "task_step ?M2 ?M3" by (rule task_step.start [of 7 _ "fst (start_task 7 ?M2)"]) simp
  moreover have "task_step ?M3 late_callback" unfolding late_callback_def
    by (rule task_step.callback)
      (simp add: start_task_def end_task_def no_tasks_def is_running_def task_live_def)
  ultimately show ?thesis by (meson converse_rtranclp_into_rtranclp rtranclp.rtrancl_refl)
qed

text \<open>
  The restriction to new messages matters.  When a message is started again after its task
  is done but before the callback of that task has run, the callback removes the entry of the new
  task: this state is reachable, the new task is alive, \<open>is_running\<close> denies it, and a third start
  runs beside it.
\<close>

theorem late_callback_loses_task:
  "task_step\<^sup>*\<^sup>* no_tasks late_callback \<and> task_live late_callback 1 \<and> \<not> is_running 7 late_callback
   \<and> task_live (snd (start_task 7 late_callback)) 1 \<and> task_live (snd (start_task 7 late_callback)) 2"
  using late_callback_reached
  by (simp add: late_callback_def start_task_def end_task_def discard_task_def no_tasks_def is_running_def task_live_def)

end
