(* ===== verification/Chat_Runtime.thy ===== *)
theory Chat_Runtime
  imports Agent_Requests
begin

text \<open>
  \<open>app/chat/runtime.py\<close> and \<open>app/chat/sse.py\<close>: the runtime events a chat worker consumes, the
  runtimes that produce them (the agent, the preview, the unavailable one), the JSON dump of
  an event, and its framing as a server-sent event.
\<close>

section \<open>Runtime events\<close>

datatype runtime_event_type = RtStep | RtText | RtTextReset | RtDone | RtError

fun runtime_type_text :: "runtime_event_type \<Rightarrow> pystr" where
  "runtime_type_text RtStep = py ''step''"
| "runtime_type_text RtText = py ''text''"
| "runtime_type_text RtTextReset = py ''text_reset''"
| "runtime_type_text RtDone = py ''done''"
| "runtime_type_text RtError = py ''error''"

record runtime_event =
  re_type :: runtime_event_type
  re_step :: "agent_step option"
  re_text :: "pystr option"
  re_message :: "pystr option"
  re_data :: arguments

definition rt_event :: "runtime_event_type \<Rightarrow> runtime_event" where
  "rt_event t = \<lparr>re_type = t, re_step = None, re_text = None, re_message = None, re_data = []\<rparr>"

section \<open>The agent as a runtime\<close>

definition agent_system_prompt :: pystr where
  "agent_system_prompt =
     [20320, 26159] @ py '' DataPilot '' @ [23545, 35805, 24335, 25968, 25454, 20998, 26512, 26234, 33021, 20307,
     12290, 26412, 22320, 20998, 26512, 25968, 25454, 19982, 20844, 21496] @ py '' MCP '' @ [25968, 25454,
     26159, 20004, 20010, 29420, 31435, 25968, 25454, 28304, 12290, 26412, 22320, 25968, 25454, 65306, 20808,
     20351, 29992] @ py '' list_tables '' @ [21644] @ py '' get_schema '' @ [20102, 35299, 34920, 32467,
     26500, 65292, 20877, 29992] @ py '' run_sql '' @ [25191, 34892, 21482, 35835] @ py '' SELECT'' @ [12290,
     38656, 35201] @ py '' Python '' @ [28165, 27927, 12289, 24314, 27169, 25110, 23548, 20986, 25991, 20214,
     26102, 20351, 29992] @ py '' run_python'' @ [65292, 24182, 36890, 36807] @ py '' datasets '' @ [21442,
     25968, 21015, 20986, 25152, 38656, 34920, 21517, 65307, 20195, 30721, 20013, 21482, 33021, 20174] @ py ''
     /data/<table_name>/data.parquet '' @ [35835, 21462, 25968, 25454, 65292, 24182, 25226] @ py '' .csv'' @
     [12289] @ py ''.json '' @ [25110] @ py '' .png '' @ [32467, 26524, 20889, 20837] @ py ''
     /workspace/outputs'' @ [12290, 19981, 24471, 20889, 20837] @ py '' /workspace '' @ [20043, 22806, 30340,
     20301, 32622, 12290, 20844, 21496] @ py '' MCP '' @ [25968, 25454, 65306, 20808, 20351, 29992] @ py ''
     mcp__get_company_schema'' @ [65292, 20877, 20351, 29992] @ py '' mcp__query_company_data'' @ [65307,
     31105, 27490, 26597, 35810] @ py '' information_schema'' @ [12290, 38656, 35201, 22270, 34920, 26102,
     20351, 29992] @ py '' plot_chart'' @ [65292, 24182, 20256, 20837, 32467, 26500, 21270] @ py '' Chart
     Spec'' @ [12290, 31105, 27490, 29983, 25104, 20889, 25805, 20316, 25110, 35775, 38382, 26410, 30331,
     35760, 25968, 25454, 28304, 12290, 27599, 36718, 24037, 20855, 35843, 29992, 20248, 20808, 25511, 21046,
     22312] @ py '' 3 '' @ [20010, 20197, 20869, 65292, 25353, 20851, 38190, 32500, 24230, 20998, 25209,
     20998, 26512, 12290, 24037, 20855, 22833, 36133, 21518, 24517, 39035, 26681, 25454, 38169, 35823, 20462,
     27491, 21442, 25968, 25110, 26356, 25442, 24037, 20855, 65292, 31105, 27490, 37325, 22797, 25552, 20132,
     23436, 20840, 30456, 21516, 30340, 24037, 20855, 35843, 29992, 12290, 35843, 29992, 24037, 20855, 26102,
     19981, 35201, 36755, 20986, 38754, 21521, 29992, 25143, 30340, 32467, 35770, 65307, 33719, 24471, 36275,
     22815, 20449, 24687, 21518, 20877, 31616, 27905, 22238, 31572, 12290]"

definition error_message :: "agent_run_result \<Rightarrow> pystr" where
  "error_message r = content_or (content_or (py ''Agent stopped with status: '' @ status_text (rr_status r))
     (rr_output r)) (rr_termination_reason r)"

fun runtime_of_event :: "agent_stream_event \<Rightarrow> runtime_event list" where
  "runtime_of_event (TextDelta t) = (if t = [] then [] else [(rt_event RtText)\<lparr>re_text := Some t\<rparr>])"
| "runtime_of_event TextReset = [rt_event RtTextReset]"
| "runtime_of_event (StepEvent s) = [(rt_event RtStep)\<lparr>re_step := Some s\<rparr>]"
| "runtime_of_event (CompletedEvent r) =
     (if rr_status r = Completed
      then [(rt_event RtDone)\<lparr>re_data := [(py ''status'', PStr (status_text (rr_status r))),
              (py ''termination_reason'', opt_str (rr_termination_reason r))]\<rparr>]
      else [(rt_event RtError)\<lparr>re_message := Some (error_message r)\<rparr>])"

text \<open>
  The workspace is a context variable of the world: set for the run, restored at its end, also
  when the run raises.
\<close>

record 'w workspace_var =
  wv_get :: "'w \<Rightarrow> uuid option"
  wv_set :: "uuid option \<Rightarrow> 'w \<Rightarrow> 'w"

definition agent_chat_stream ::
  "'w agent_env \<Rightarrow> 'w workspace_var \<Rightarrow> pystr \<Rightarrow> chat_message list \<Rightarrow> uuid \<Rightarrow> uuid option \<Rightarrow> 'w \<Rightarrow>
   runtime_event list \<times> py_exc option \<times> 'w" where
  "agent_chat_stream env var question history workspace trace w =
     (case agent_stream env question (Some agent_system_prompt) history trace (wv_set var (Some workspace) w) of
        (out, exc, w') \<Rightarrow> (concat (map runtime_of_event out), exc, wv_set var (wv_get var w) w'))"

section \<open>The other runtimes\<close>

definition unavailable_stream :: "runtime_event list" where
  "unavailable_stream = [(rt_event RtError)\<lparr>re_message := Some (
     [30495, 23454, 27169, 22411, 36816, 34892, 26102, 23578, 26410, 37197, 32622, 12290])\<rparr>]"

definition preview_step :: "nat \<Rightarrow> pystr \<Rightarrow> string \<Rightarrow> arguments \<Rightarrow> pyval \<Rightarrow> rat \<Rightarrow> agent_step" where
  "preview_step n thought tool args result ms =
     (let call_id = py ''preview-call-'' @ str_nat n
      in \<lparr>as_step = n, as_assistant_content = Some thought,
          as_tool_calls = [\<lparr>tc_id = call_id, tc_name = py tool, tc_arguments = args\<rparr>],
          as_tool_executions = [\<lparr>te_tool_call_id = call_id, te_tool_name = py tool, te_arguments = args,
             te_result = result, te_error = None, te_duration_ms = ms\<rparr>],
          as_usage = usage_zero\<rparr>)"

definition preview_rows :: "string \<Rightarrow> pyval" where
  "preview_rows field = PList [pdict [(''region'', pstr ''East''), (field, PInt 120)],
                               pdict [(''region'', pstr ''West''), (field, PInt 80)]]"

definition preview_spec :: pyval where
  "preview_spec = pdict [(''type'', pstr ''bar''),
     (''title'', PStr ([21306, 22495, 38144, 21806, 39069])),
     (''x_field'', pstr ''region''), (''y_fields'', PList [pstr ''total'']), (''data'', preview_rows ''total'')]"

definition preview_stream :: "pystr \<Rightarrow> runtime_event list" where
  "preview_stream question =
     map (\<lambda>s. (rt_event RtStep)\<lparr>re_step := Some s\<rparr>)
       [preview_step 1 ([26816, 26597, 24403, 21069, 31034, 20363, 25968, 25454, 32467, 26500, 65292, 30830, 35748, 21487, 20998,
     26512, 23383, 27573, 12290]) ''get_schema''
          [(py ''table_name'', pstr ''sales'')]
          (pdict [(''table_name'', pstr ''sales''),
             (''columns'', PList
                [pdict [(''name'', pstr ''region''), (''data_type'', pstr ''VARCHAR''), (''nullable'', PBool True)],
                 pdict [(''name'', pstr ''amount''), (''data_type'', pstr ''BIGINT''), (''nullable'', PBool True)]]),
             (''sample_rows'', preview_rows ''amount'')]) 18,
        preview_step 2 ([25353, 21306, 22495, 32858, 21512, 38144, 21806, 39069, 12290]) ''run_sql''
          [(py ''sql'', pstr ''SELECT region, SUM(amount) AS total FROM sales GROUP BY region ORDER BY region'')]
          (pdict [(''columns'', PList [pstr ''region'', pstr ''total'']), (''rows'', preview_rows ''total''),
             (''row_count'', PInt 2), (''truncated'', PBool False)]) 24,
        preview_step 3 ([23558, 32858, 21512, 32467, 26524, 25972, 29702, 20026, 21487, 28210, 26579, 22270, 34920, 12290]) ''plot_chart''
          [(py ''spec'', preview_spec)]
          (pdict [(''kind'', pstr ''chart''), (''spec'', preview_spec)]) 6]
     @ [(rt_event RtText)\<lparr>re_text := Some (
          [24403, 21069, 26410, 37197, 32622, 30495, 23454, 27169, 22411, 65292, 20197, 19978, 20026, 30028, 38754,
     39044, 35272, 36712, 36857, 12290, 25910, 21040, 30340, 38382, 39064, 65306] @ question @ [12290])\<rparr>,
        (rt_event RtDone)\<lparr>re_data := [(py ''status'', pstr ''completed'')]\<rparr>]"

text \<open>
  \<open>build_chat_runtime\<close>: the choice and, for the agent, its configuration, which pydantic validates when
  it is built.  The settings themselves are unbounded integers.
\<close>

record runtime_settings =
  st_mode :: pystr
  st_max_steps :: int
  st_max_total_tokens :: int
  st_max_tool_calls :: int
  st_max_retries :: int
  st_max_parallel :: int
  st_char_budget :: int
  st_keep_recent :: int
  st_parallel :: bool

datatype chat_runtime = PreviewRuntime | AgentRuntime agent_config | UnavailableRuntime

definition runtime_settings_ok :: "runtime_settings \<Rightarrow> bool" where
  "runtime_settings_ok s \<longleftrightarrow> 1 \<le> st_max_steps s \<and> 1 \<le> st_max_total_tokens s \<and> 1 \<le> st_max_tool_calls s
     \<and> 0 \<le> st_max_retries s \<and> st_max_retries s \<le> 2 \<and> 1 \<le> st_max_parallel s \<and> 4000 \<le> st_char_budget s
     \<and> 1 \<le> st_keep_recent s \<and> st_keep_recent s \<le> 20"

definition settings_config :: "runtime_settings \<Rightarrow> agent_config pyres" where
  "settings_config s =
     (if runtime_settings_ok s then
        Inr (default_config\<lparr>max_steps := nat (st_max_steps s), max_total_tokens := nat (st_max_total_tokens s),
          max_tool_calls_per_step := nat (st_max_tool_calls s), max_tool_budget_retries := nat (st_max_retries s),
          max_parallel_tools := nat (st_max_parallel s), context_char_budget := nat (st_char_budget s),
          keep_recent_tool_results := nat (st_keep_recent s), parallel_tool_calls := st_parallel s,
          stream_model := True\<rparr>)
      else raise_exc ''ValidationError'' (py ''AgentConfig''))"

definition build_chat_runtime :: "runtime_settings \<Rightarrow> bool \<Rightarrow> bool \<Rightarrow> chat_runtime pyres" where
  "build_chat_runtime s has_router has_registry =
     (if st_mode s = py ''preview'' then Inr PreviewRuntime
      else if st_mode s = py ''agent'' \<and> has_router \<and> has_registry then map_sum id AgentRuntime (settings_config s)
      else Inr UnavailableRuntime)"

text \<open>A runtime that was built runs with a configuration within its bounds.\<close>

lemma build_chat_runtime_ok:
  assumes "build_chat_runtime s has_router has_registry = Inr (AgentRuntime cfg)"
  shows "config_ok cfg" "stream_model cfg" "has_router" "int (max_steps cfg) = st_max_steps s"
proof -
  have ok: "runtime_settings_ok s" and cfg: "settings_config s = Inr cfg" and r: "has_router"
    using assms by (auto simp: build_chat_runtime_def settings_config_def split: if_splits)
  show "has_router" by (rule r)
  show "config_ok cfg" "stream_model cfg" "int (max_steps cfg) = st_max_steps s"
    using cfg ok by (auto simp: settings_config_def runtime_settings_ok_def config_ok_def default_config_def)
qed

section \<open>Dumps\<close>

text \<open>
  \<open>model_dump(mode="json")\<close>; how pydantic serialises an arbitrary value, and the text of a
  float, are parameters.
\<close>

record dump_env =
  de_any :: "pyval \<Rightarrow> pyval"
  de_float :: "rat \<Rightarrow> pystr"

definition dump_call :: "dump_env \<Rightarrow> tool_call \<Rightarrow> pyval" where
  "dump_call D c = pdict [(''id'', PStr (tc_id c)), (''name'', PStr (tc_name c)),
     (''arguments'', de_any D (PDict (tc_arguments c)))]"

definition dump_execution :: "dump_env \<Rightarrow> tool_execution \<Rightarrow> pyval" where
  "dump_execution D x = pdict [(''tool_call_id'', PStr (te_tool_call_id x)), (''tool_name'', PStr (te_tool_name x)),
     (''arguments'', de_any D (PDict (te_arguments x))), (''result'', de_any D (te_result x)),
     (''error'', opt_str (te_error x)), (''duration_ms'', PFloat (de_float D (te_duration_ms x)))]"

definition dump_usage :: "token_usage \<Rightarrow> pyval" where
  "dump_usage u = pdict [(''input_tokens'', PInt (int (input_tokens u))),
                         (''output_tokens'', PInt (int (output_tokens u)))]"

definition dump_step :: "dump_env \<Rightarrow> agent_step \<Rightarrow> pyval" where
  "dump_step D s = pdict [(''step'', PInt (int (as_step s))),
     (''assistant_content'', opt_str (as_assistant_content s)),
     (''tool_calls'', PList (map (dump_call D) (as_tool_calls s))),
     (''tool_executions'', PList (map (dump_execution D) (as_tool_executions s))),
     (''usage'', dump_usage (as_usage s))]"

definition dump_event :: "dump_env \<Rightarrow> runtime_event \<Rightarrow> arguments" where
  "dump_event D e = [(py ''type'', PStr (runtime_type_text (re_type e))),
     (py ''step'', case re_step e of None \<Rightarrow> PNone | Some s \<Rightarrow> dump_step D s),
     (py ''text'', opt_str (re_text e)), (py ''message'', opt_str (re_message e)),
     (py ''data'', de_any D (PDict (re_data e)))]"

section \<open>Server-sent events\<close>

definition encode_sse_data :: "pystr \<Rightarrow> arguments \<Rightarrow> pystr option \<Rightarrow> pystr pyres" where
  "encode_sse_data name payload event_id =
     (case json_dumps compact_json (PDict payload) of
        Inl e \<Rightarrow> Inl e
      | Inr data \<Rightarrow>
          Inr ((if content_or [] event_id = [] then [] else py ''id: '' @ content_or [] event_id @ [10])
               @ py ''event: '' @ name @ [10] @ py ''data: '' @ data @ [10, 10]))"

definition encode_sse :: "dump_env \<Rightarrow> runtime_event \<Rightarrow> pystr option \<Rightarrow> pystr pyres" where
  "encode_sse D e name = encode_sse_data (content_or (runtime_type_text (re_type e)) name) (dump_event D e) None"

text \<open>JSON text has no line breaks, so the payload cannot break out of its data line.\<close>

definition one_line :: "pystr \<Rightarrow> bool" where
  "one_line s \<longleftrightarrow> 10 \<notin> set s \<and> 13 \<notin> set s"

lemma one_line_append [simp]: "one_line (a @ b) \<longleftrightarrow> one_line a \<and> one_line b"
  by (auto simp: one_line_def)

lemma one_line_Nil [simp]: "one_line []"
  by (simp add: one_line_def)

lemma one_line_Cons: "one_line (c # s) \<longleftrightarrow> c \<noteq> 10 \<and> c \<noteq> 13 \<and> one_line s"
  by (auto simp: one_line_def)

lemma hex_digit_range: "n < 16 \<Longrightarrow> 48 \<le> hex_digit n"
  by simp

lemma one_line_hex4: "one_line (hex4 n)"
proof -
  have ge: "48 \<le> hex_digit (m mod 16)" for m by (rule hex_digit_range) simp
  have "hex_digit (m mod 16) \<noteq> 10 \<and> hex_digit (m mod 16) \<noteq> 13" for m
    using ge [of m] by linarith
  then show ?thesis by (simp add: hex4_def one_line_Cons del: hex_digit.simps)
qed

lemma one_line_json_char: "one_line (json_char asc c)"
  using one_line_hex4 by (auto simp: json_char_def one_line_Cons)

lemma one_line_json_string: "one_line (json_string asc s)"
  unfolding json_string_def by (induction s) (auto simp: one_line_Cons one_line_json_char)

lemma parse_number_chars:
  assumes "parse_number t = Some (PFloat t, [])"
  shows "one_line t"
proof -
  have digits: "one_line (takeWhile is_digit s)" for s
    by (auto simp: one_line_def dest: set_takeWhileD)
  have i: "one_line i" if "lex_int t = Some (i, r)" for i r
    using that digits by (auto simp: lex_int_def lex_nat_def one_line_Cons split: if_splits list.splits)
  have f: "one_line (fst (lex_frac s))" for s
    using digits by (simp add: lex_frac_def one_line_Cons)
  have e: "one_line (fst (lex_exp s))" for s
    using digits by (auto simp: lex_exp_def exp_sign_def one_line_Cons Let_def)
  obtain i r where l: "lex_int t = Some (i, r)" using assms by (auto simp: parse_number_def split: option.splits)
  obtain u where "t = i @ fst (lex_frac r) @ fst (lex_exp (snd (lex_frac r)))"
    using assms l by (auto simp: parse_number_def Let_def case_prod_unfold split: if_splits)
  with i [OF l] f e show ?thesis by (metis one_line_append)
qed

lemma one_line_dumps:
  "json_ok v \<Longrightarrow> one_line (dumps compact_json v)"
  "json_ok_list xs \<Longrightarrow> one_line (dumps_items compact_json xs)"
  "json_ok_pairs kvs \<Longrightarrow> one_line (dumps_pairs compact_json kvs)"
proof (induction v and xs and kvs rule: json_ok_json_ok_list_json_ok_pairs.induct)
  case (3 i)
  have "one_line (str_nat n)" for n
    using str_nat_digits by (fastforce simp: one_line_def)
  then show ?case by (simp add: str_int_def one_line_Cons)
next
  case (4 t)
  then show ?case using parse_number_chars by (auto simp: float_ok_def json_float_def one_line_def py_Cons)
qed (auto simp: one_line_json_string one_line_Cons py_Cons compact_json_def)

text \<open>The lines of a text, at line feeds.\<close>

fun lines_of :: "pystr \<Rightarrow> pystr list" where
  "lines_of [] = [[]]"
| "lines_of (c # s) = (if c = 10 then [] # lines_of s
     else (case lines_of s of [] \<Rightarrow> [[c]] | l # ls \<Rightarrow> (c # l) # ls))"

lemma lines_of_one: "one_line a \<Longrightarrow> lines_of (a @ 10 # s) = a # lines_of s"
  by (induction a) (auto simp: one_line_Cons)

text \<open>
  A server-sent event cannot be broken or forged by its payload: whatever JSON the payload
  holds, the frame consists of the identifier line (when there is one), the event line and one
  data line, then the blank line; and reading the data line as JSON gives back the payload.
\<close>

theorem sse_frame_lines:
  assumes "json_ok (PDict payload)" and "one_line name" and "one_line event_id"
  shows "\<exists>frame data. encode_sse_data name payload (Some event_id) = Inr frame
    \<and> lines_of frame = (if event_id = [] then [] else [py ''id: '' @ event_id])
        @ [py ''event: '' @ name, py ''data: '' @ data, [], []]
    \<and> loads data = Some (PDict payload)"
proof -
  let ?data = "dumps compact_json (PDict payload)"
  have d: "json_dumps compact_json (PDict payload) = Inr ?data"
    unfolding json_dumps_def by (simp only: not_json_ok(1) [OF assms(1)] option.case)
  have p: "one_line (py ''id: '')" "one_line (py ''event: '')" "one_line (py ''data: '')"
    by (simp_all add: one_line_def py_def)
  have "one_line ?data" by (rule one_line_dumps(1) [OF assms(1)])
  then have "lines_of (py ''event: '' @ name @ [10] @ py ''data: '' @ ?data @ [10, 10])
      = [py ''event: '' @ name, py ''data: '' @ ?data, [], []]"
    using lines_of_one [of "py ''event: '' @ name"] lines_of_one [of "py ''data: '' @ ?data"] p assms(2)
    by (simp del: dumps.simps)
  moreover have "lines_of (py ''id: '' @ event_id @ 10 # s) = (py ''id: '' @ event_id) # lines_of s" for s
    using lines_of_one [of "py ''id: '' @ event_id"] p assms(3) by simp
  ultimately have "encode_sse_data name payload (Some event_id)
      = Inr ((if event_id = [] then [] else py ''id: '' @ event_id @ [10])
          @ py ''event: '' @ name @ [10] @ py ''data: '' @ ?data @ [10, 10])
    \<and> lines_of ((if event_id = [] then [] else py ''id: '' @ event_id @ [10])
          @ py ''event: '' @ name @ [10] @ py ''data: '' @ ?data @ [10, 10])
      = (if event_id = [] then [] else [py ''id: '' @ event_id])
        @ [py ''event: '' @ name, py ''data: '' @ ?data, [], []]"
    using d by (simp add: encode_sse_data_def content_or_def del: dumps.simps)
  with loads_dumps [OF seps_ok_opts(1) assms(1)] show ?thesis by blast
qed

theorem sse_frame_lines_witness:
  "\<exists>frame data. encode_sse_data (py ''text'') [(py ''text'', PStr [104, 10, 10, 105])] (Some (py ''3-0'')) = Inr frame
    \<and> lines_of frame = [py ''id: 3-0'', py ''event: text'', py ''data: '' @ data, [], []]"
proof -
  have "json_ok (PDict [(py ''text'', PStr [104, 10, 10, 105])])" by (simp add: text_ok_def py_def)
  from sse_frame_lines [OF this, of "py ''text''" "py ''3-0''"]
  show ?thesis by (auto simp: one_line_def py_def)
qed

end
