(* ===== verification/Event_Broker.thy ===== *)
theory Event_Broker
  imports Json
begin

text \<open>
  \<open>app/chat/events.py\<close>: the in-memory broker and the Redis broker, and the contract their
  clients rely on, as the locales \<open>event_log\<close> (a log per message and reads that return what follows an identifier)
  and \<open>event_broker\<close> (which also appends published events).  Inside the second a reader that resumes from the last
  identifier it has seen is shown to receive every event of its message exactly once and in order, however its reads
  interleave with publications.  The in-memory broker interprets both; \<open>Redis_Broker\<close> derives the first from what Redis
  documents of its streams.
\<close>

record broker_event =
  be_id :: pystr
  be_event :: pystr
  be_data :: "(pystr \<times> pyval) list"

definition stream_key :: "uuid \<Rightarrow> pystr" where
  "stream_key m = py ''datapilot:chat:stream:'' @ str_uuid m"

section \<open>Event identifiers\<close>

text \<open>\<open>s.split("-", maxsplit=1)[0]\<close>.\<close>

definition before_dash :: "pystr \<Rightarrow> pystr" where
  "before_dash s = takeWhile (\<lambda>c. c \<noteq> 45) s"

text \<open>
  \<open>int(text)\<close>: white space around, a sign, ASCII digits with single underscores between them.
  (Other decimal digits of Unicode, which \<open>int\<close> accepts as well, are not modelled.)
\<close>

fun digit_groups :: "bool \<Rightarrow> pystr \<Rightarrow> pystr option" where
  "digit_groups after_digit [] = (if after_digit then Some [] else None)"
| "digit_groups after_digit (c # s) =
     (if is_digit c then map_option (Cons c) (digit_groups True s)
      else if c = 95 \<and> after_digit then digit_groups False s
      else None)"

definition int_literal :: "pystr \<Rightarrow> int pyres" where
  "int_literal text =
     (let t = strip text;
          sign = (if take 1 t = [45] then -1 else 1 :: int);
          body = (if take 1 t = [45] \<or> take 1 t = [43] then drop 1 t else t)
      in case digit_groups False body of
           Some ds \<Rightarrow> Inr (sign * int (nat_of_digits ds))
         | None \<Rightarrow> raise_exc ''ValueError''
                     (py ''invalid literal for int() with base 10: '' @ repr_str text))"

definition event_sequence :: "pystr \<Rightarrow> int pyres" where
  "event_sequence eid = int_literal (before_dash eid)"

section \<open>The in-memory broker\<close>

record mem_broker =
  mb_events :: "(pystr \<times> broker_event list) list"
  mb_counter :: nat

definition new_broker :: mem_broker where
  "new_broker = \<lparr>mb_events = [], mb_counter = 0\<rparr>"

text \<open>\<open>self._events[key]\<close> of a \<open>defaultdict\<close>: reading a missing key inserts it.\<close>

definition events_at :: "pystr \<Rightarrow> mem_broker \<Rightarrow> broker_event list \<times> mem_broker" where
  "events_at key b = (case dict_get (mb_events b) key of
      Some es \<Rightarrow> (es, b)
    | None \<Rightarrow> ([], b\<lparr>mb_events := AList.update key [] (mb_events b)\<rparr>))"

definition mem_publish ::
  "uuid \<Rightarrow> pystr \<Rightarrow> (pystr \<times> pyval) list \<Rightarrow> mem_broker \<Rightarrow> pystr \<times> mem_broker" where
  "mem_publish m event data b =
     (let n = mb_counter b + 1;
          event_id = str_nat n @ py ''-0'';
          (es, b') = events_at (stream_key m) (b\<lparr>mb_counter := n\<rparr>)
      in (event_id, b'\<lparr>mb_events := AList.update (stream_key m)
            (es @ [\<lparr>be_id = event_id, be_event = event, be_data = data\<rparr>]) (mb_events b')\<rparr>))"

fun events_after :: "int \<Rightarrow> broker_event list \<Rightarrow> broker_event list pyres" where
  "events_after n [] = Inr []"
| "events_after n (e # es) =
     (case event_sequence (be_id e) of
        Inl x \<Rightarrow> Inl x
      | Inr k \<Rightarrow> (case events_after n es of
                   Inl x \<Rightarrow> Inl x
                 | Inr rest \<Rightarrow> Inr (if k > n then e # rest else rest)))"

definition mem_read ::
  "uuid \<Rightarrow> pystr \<Rightarrow> nat \<Rightarrow> mem_broker \<Rightarrow> broker_event list pyres \<times> mem_broker" where
  "mem_read m last_event_id count b =
     (case (if last_event_id = [] then Inr 0 else event_sequence last_event_id) of
        Inl e \<Rightarrow> (Inl e, b)
      | Inr n \<Rightarrow>
          (let (es, b') = events_at (stream_key m) b
           in (case events_after n es of Inl e \<Rightarrow> Inl e | Inr xs \<Rightarrow> Inr (take count xs), b')))"

text \<open>\<open>watch\<close> polls for ever; here it yields what the first \<open>k\<close> polls find.\<close>

fun mem_watch :: "nat \<Rightarrow> uuid \<Rightarrow> pystr \<Rightarrow> mem_broker \<Rightarrow> broker_event list pyres \<times> mem_broker" where
  "mem_watch 0 m cursor b = (Inr [], b)"
| "mem_watch (Suc k) m cursor b =
     (case mem_read m cursor 100 b of
        (Inl e, b') \<Rightarrow> (Inl e, b')
      | (Inr es, b') \<Rightarrow>
          (case mem_watch k m (if es = [] then cursor else be_id (last es)) b' of
             (Inl e, b'') \<Rightarrow> (Inl e, b'')
           | (Inr rest, b'') \<Rightarrow> (Inr (es @ rest), b'')))"

section \<open>The Redis broker\<close>

text \<open>
  Redis is a server: its three commands are the fields of a record over its state \<open>'r\<close>.  A
  stream entry is an identifier and the fields of the entry.
\<close>

record 'r redis_streams =
  rs_xadd :: "pystr \<Rightarrow> (pystr \<times> pystr) list \<Rightarrow> nat \<Rightarrow> 'r \<Rightarrow> pystr pyres \<times> 'r"
  rs_expire :: "pystr \<Rightarrow> nat \<Rightarrow> 'r \<Rightarrow> unit pyres \<times> 'r"
  rs_xread :: "pystr \<Rightarrow> pystr \<Rightarrow> nat \<Rightarrow> nat option \<Rightarrow> 'r \<Rightarrow>
     (pystr \<times> (pystr \<times> (pystr \<times> pystr) list) list) list pyres \<times> 'r"

definition redis_publish ::
  "'r redis_streams \<Rightarrow> nat \<Rightarrow> uuid \<Rightarrow> pystr \<Rightarrow> (pystr \<times> pyval) list \<Rightarrow> 'r \<Rightarrow> pystr pyres \<times> 'r" where
  "redis_publish R max_events m event data r =
     (case json_dumps compact_json (PDict data) of
        Inl e \<Rightarrow> (Inl e, r)
      | Inr text \<Rightarrow>
          (case rs_xadd R (stream_key m) [(py ''event'', event), (py ''data'', text)] max_events r of
             (Inl e, r') \<Rightarrow> (Inl e, r')
           | (Inr event_id, r') \<Rightarrow>
               (case rs_expire R (stream_key m) (24 * 60 * 60) r' of
                  (Inl e, r'') \<Rightarrow> (Inl e, r'')
                | (Inr u, r'') \<Rightarrow> (Inr event_id, r''))))"

definition decode_entry :: "(pystr \<Rightarrow> pystr) \<Rightarrow> pystr \<times> (pystr \<times> pystr) list \<Rightarrow> broker_event pyres" where
  "decode_entry json_error entry =
     (case (dict_get (snd entry) (py ''event''), dict_get (snd entry) (py ''data'')) of
        (Some event, Some text) \<Rightarrow>
          (case loads text of
             None \<Rightarrow> raise_exc ''JSONDecodeError'' (json_error text)
           | Some (PDict d) \<Rightarrow> Inr \<lparr>be_id = fst entry, be_event = event, be_data = d\<rparr>
           | Some v \<Rightarrow> raise_exc ''ValidationError'' (py ''data''))
      | (None, _) \<Rightarrow> Inl (key_error (py ''event''))
      | (_, None) \<Rightarrow> Inl (key_error (py ''data'')))"

definition redis_read ::
  "(pystr \<Rightarrow> pystr) \<Rightarrow> 'r redis_streams \<Rightarrow> uuid \<Rightarrow> pystr \<Rightarrow> nat \<Rightarrow> nat \<Rightarrow> 'r \<Rightarrow> broker_event list pyres \<times> 'r" where
  "redis_read json_error R m last_event_id block_ms count r =
     (case rs_xread R (stream_key m) last_event_id count (if block_ms > 0 then Some block_ms else None) r of
        (Inl e, r') \<Rightarrow> (Inl e, r')
      | (Inr result, r') \<Rightarrow>
          (map_res (decode_entry json_error) (concat (map snd result)), r'))"

section \<open>The contract\<close>

text \<open>A client's view of an interleaving: others publish, the reader polls with its cursor.\<close>

datatype broker_op = PublishOp uuid pystr "(pystr \<times> pyval) list" | PollOp nat

record 'b reader_state =
  rd_broker :: 'b
  rd_cursor :: pystr
  rd_seen :: "broker_event list"

definition reader_step ::
  "(uuid \<Rightarrow> pystr \<Rightarrow> (pystr \<times> pyval) list \<Rightarrow> 'b \<Rightarrow> pystr \<times> 'b) \<Rightarrow>
   (uuid \<Rightarrow> pystr \<Rightarrow> nat \<Rightarrow> 'b \<Rightarrow> broker_event list pyres \<times> 'b) \<Rightarrow> uuid \<Rightarrow> broker_op \<Rightarrow> 'b reader_state \<Rightarrow>
   'b reader_state" where
  "reader_step publish read m oper s =
     (case oper of
        PublishOp n e d \<Rightarrow> s\<lparr>rd_broker := snd (publish n e d (rd_broker s))\<rparr>
      | PollOp count \<Rightarrow>
          (case read m (rd_cursor s) count (rd_broker s) of
             (Inl x, b) \<Rightarrow> s\<lparr>rd_broker := b\<rparr>
           | (Inr es, b) \<Rightarrow> \<lparr>rd_broker = b,
               rd_cursor = (if es = [] then rd_cursor s else be_id (last es)), rd_seen = rd_seen s @ es\<rparr>))"

definition reader_run ::
  "(uuid \<Rightarrow> pystr \<Rightarrow> (pystr \<times> pyval) list \<Rightarrow> 'b \<Rightarrow> pystr \<times> 'b) \<Rightarrow>
   (uuid \<Rightarrow> pystr \<Rightarrow> nat \<Rightarrow> 'b \<Rightarrow> broker_event list pyres \<times> 'b) \<Rightarrow> uuid \<Rightarrow> broker_op list \<Rightarrow> 'b reader_state \<Rightarrow>
   'b reader_state" where
  "reader_run publish read m ops s = fold (reader_step publish read m) ops s"

fun op_ok :: "broker_op \<Rightarrow> bool" where
  "op_ok (PublishOp n e d) = (n < 2 ^ 128)"
| "op_ok (PollOp c) = True"

text \<open>
  Reading: a log per message, which reads leave alone, and a read after a cursor returns the first events
  that follow it.
\<close>

locale event_log =
  fixes read :: "uuid \<Rightarrow> pystr \<Rightarrow> nat \<Rightarrow> 'b \<Rightarrow> broker_event list pyres \<times> 'b"
    and log :: "'b \<Rightarrow> uuid \<Rightarrow> broker_event list"
    and inv :: "'b \<Rightarrow> bool"
    and origin :: pystr
  assumes read_inv: "inv b \<Longrightarrow> inv (snd (read m c k b))"
    and read_log: "inv b \<Longrightarrow> log (snd (read m c k b)) n = log b n"
    and read_origin: "inv b \<Longrightarrow> 0 < k \<Longrightarrow> fst (read m origin k b) = Inr (take k (log b m))"
    and read_after: "inv b \<Longrightarrow> 0 < k \<Longrightarrow> log b m = xs @ x # ys \<Longrightarrow> fst (read m (be_id x) k b) = Inr (take k ys)"
begin

text \<open>A cursor stands after a part of the log.\<close>

definition cursor_at :: "broker_event list \<Rightarrow> pystr" where
  "cursor_at sent = (if sent = [] then origin else be_id (last sent))"

lemma read_at:
  assumes "inv b" and "0 < k" and "log b m = sent @ rest"
  shows "fst (read m (cursor_at sent) k b) = Inr (take k rest)"
proof (cases "sent = []")
  case True
  with assms show ?thesis by (simp add: cursor_at_def read_origin)
next
  case False
  then have "log b m = butlast sent @ last sent # rest" using assms(3) by (simp flip: append_butlast_last_id)
  with assms(1,2) False show ?thesis by (auto simp: cursor_at_def intro: read_after)
qed

end

text \<open>A broker also publishes, to the end of one log, and a read may ask for nothing.\<close>

locale event_broker = event_log read log inv origin
  for read :: "uuid \<Rightarrow> pystr \<Rightarrow> nat \<Rightarrow> 'b \<Rightarrow> broker_event list pyres \<times> 'b"
    and log :: "'b \<Rightarrow> uuid \<Rightarrow> broker_event list"
    and inv :: "'b \<Rightarrow> bool"
    and origin :: pystr +
  fixes publish :: "uuid \<Rightarrow> pystr \<Rightarrow> (pystr \<times> pyval) list \<Rightarrow> 'b \<Rightarrow> pystr \<times> 'b"
  assumes publish_inv: "inv b \<Longrightarrow> inv (snd (publish m e d b))"
    and publish_log: "inv b \<Longrightarrow> m < 2 ^ 128 \<Longrightarrow> n < 2 ^ 128 \<Longrightarrow>
      log (snd (publish m e d b)) n
        = (if n = m then log b m @ [\<lparr>be_id = fst (publish m e d b), be_event = e, be_data = d\<rparr>] else log b n)"
    and read_nothing: "inv b \<Longrightarrow> log b m = sent @ rest \<Longrightarrow> fst (read m (cursor_at sent) 0 b) = Inr []"
begin

text \<open>What a reader has seen is a prefix of the log, and its cursor is where that prefix ends.\<close>

definition reader_ok :: "uuid \<Rightarrow> 'b reader_state \<Rightarrow> bool" where
  "reader_ok m s \<longleftrightarrow> inv (rd_broker s) \<and> (\<exists>rest. log (rd_broker s) m = rd_seen s @ rest)
     \<and> rd_cursor s = cursor_at (rd_seen s)"

lemma read_cursor:
  assumes "reader_ok m s" and "log (rd_broker s) m = rd_seen s @ rest"
  shows "fst (read m (rd_cursor s) k (rd_broker s)) = Inr (take k rest)"
  using assms read_at [OF _ _ assms(2)] read_nothing [OF _ assms(2)] by (cases "k = 0") (auto simp: reader_ok_def)

lemma reader_step_ok:
  assumes ok: "reader_ok m s" and "m < 2 ^ 128" and "op_ok oper"
  shows "reader_ok m (reader_step publish read m oper s)"
proof -
  from ok obtain rest where rest: "log (rd_broker s) m = rd_seen s @ rest" and inv: "inv (rd_broker s)"
    by (auto simp: reader_ok_def)
  show ?thesis
  proof (cases oper)
    case (PublishOp n e d)
    have "log (snd (publish n e d (rd_broker s))) m
        = (if m = n then log (rd_broker s) n @ [\<lparr>be_id = fst (publish n e d (rd_broker s)), be_event = e, be_data = d\<rparr>]
           else log (rd_broker s) m)"
      using publish_log [OF inv] assms(2,3) PublishOp by simp
    then have "\<exists>rest'. log (snd (publish n e d (rd_broker s))) m = rd_seen s @ rest'"
      using rest by (cases "m = n") auto
    with ok PublishOp publish_inv [OF inv] show ?thesis by (simp add: reader_ok_def reader_step_def)
  next
    case (PollOp k)
    obtain r b where r: "read m (rd_cursor s) k (rd_broker s) = (r, b)" by fastforce
    from read_cursor [OF ok rest, of k] r have es: "r = Inr (take k rest)" by simp
    have "inv b" "log b m = (rd_seen s @ take k rest) @ drop k rest"
      using read_inv [OF inv, of m "rd_cursor s" k] read_log [OF inv, of m "rd_cursor s" k m] r rest by simp_all
    then have "\<exists>rest'. log b m = (rd_seen s @ take k rest) @ rest'" by blast
    moreover have "rd_cursor s = cursor_at (rd_seen s)"
      using ok by (simp add: reader_ok_def)
    ultimately show ?thesis
      using \<open>inv b\<close> PollOp r es by (simp add: reader_ok_def reader_step_def cursor_at_def last_append)
  qed
qed

lemma reader_run_ok:
  assumes "reader_ok m s" and "m < 2 ^ 128" and "list_all op_ok ops"
  shows "reader_ok m (reader_run publish read m ops s)"
  using assms(3,1) unfolding reader_run_def
  by (induction ops arbitrary: s) (auto intro: reader_step_ok [OF _ assms(2)])

text \<open>Every operation adds at most one event to the log.\<close>

lemma reader_step_length:
  assumes "inv (rd_broker s)" and "m < 2 ^ 128" and "op_ok oper"
  shows "length (log (rd_broker (reader_step publish read n oper s)) m) \<le> Suc (length (log (rd_broker s) m))"
    and "inv (rd_broker (reader_step publish read n oper s))"
  using assms publish_log [OF assms(1)] publish_inv [OF assms(1)] read_log [OF assms(1)] read_inv [OF assms(1)]
  by (auto simp: reader_step_def case_prod_unfold split: broker_op.split sum.split)

lemma reader_run_length:
  assumes "m < 2 ^ 128"
  shows "inv (rd_broker s) \<Longrightarrow> list_all op_ok ops \<Longrightarrow>
    length (log (rd_broker (reader_run publish read n ops s)) m) \<le> length ops + length (log (rd_broker s) m)"
proof (induction ops arbitrary: s)
  case (Cons oper ops)
  let ?s = "reader_step publish read n oper s"
  have "op_ok oper" using Cons.prems by simp
  note one = reader_step_length [OF Cons.prems(1) assms this, of n]
  with Cons.IH [of ?s] Cons.prems show ?case by (simp add: reader_run_def)
qed (simp add: reader_run_def)

text \<open>A last poll that may return everything brings the reader up to date.\<close>

lemma reader_catches_up:
  assumes ok: "reader_ok m s" and "length (log (rd_broker s) m) \<le> k"
  shows "rd_seen (reader_step publish read m (PollOp k) s) = log (rd_broker s) m"
proof -
  from ok obtain rest where rest: "log (rd_broker s) m = rd_seen s @ rest" by (auto simp: reader_ok_def)
  obtain r b where r: "read m (rd_cursor s) k (rd_broker s) = (r, b)" by fastforce
  from read_cursor [OF ok rest, of k] r rest assms(2) show ?thesis by (simp add: reader_step_def)
qed

end

section \<open>The in-memory broker keeps the contract\<close>

definition mem_log :: "mem_broker \<Rightarrow> uuid \<Rightarrow> broker_event list" where
  "mem_log b m = (case dict_get (mb_events b) (stream_key m) of None \<Rightarrow> [] | Some es \<Rightarrow> es)"

text \<open>Identifiers are sequence numbers, growing along every log and never above the counter.\<close>

definition numbered :: "nat \<Rightarrow> broker_event list \<Rightarrow> bool" where
  "numbered limit es \<longleftrightarrow> (\<exists>ns. map be_id es = map (\<lambda>n. str_nat n @ py ''-0'') ns
     \<and> sorted_wrt (<) ns \<and> (\<forall>n \<in> set ns. 0 < n \<and> n \<le> limit))"

definition mem_inv :: "mem_broker \<Rightarrow> bool" where
  "mem_inv b \<longleftrightarrow> (\<forall>key es. dict_get (mb_events b) key = Some es \<longrightarrow> numbered (mb_counter b) es)"

lemma digit_groups_digits: "\<forall>c \<in> set ds. is_digit c \<Longrightarrow> digit_groups a ds = (if ds = [] \<and> \<not> a then None else Some ds)"
  by (induction ds arbitrary: a) auto

lemma digit_not_space: "is_digit c \<Longrightarrow> \<not> py_space c"
  by (auto simp: py_space_def)

lemma strip_no_space: "\<forall>c \<in> set s. \<not> py_space c \<Longrightarrow> strip s = s"
proof -
  assume "\<forall>c \<in> set s. \<not> py_space c"
  then have "dropWhile py_space s = s" by (cases s) auto
  moreover have "\<forall>c \<in> set (rev s). \<not> py_space c" using \<open>\<forall>c \<in> set s. \<not> py_space c\<close> by simp
  then have "dropWhile py_space (rev s) = rev s" by (cases "rev s") auto
  ultimately show ?thesis by (simp add: strip_def lstrip_def rstrip_def)
qed

lemma event_sequence_str_nat: "event_sequence (str_nat n @ py ''-0'') = Inr (int n)"
proof -
  have digits: "\<forall>c \<in> set (str_nat n). is_digit c" using str_nat_digits by blast
  then have "\<forall>c \<in> set (str_nat n). c \<noteq> 45" by auto
  then have "before_dash (str_nat n @ py ''-0'') = str_nat n"
    by (simp add: before_dash_def py_Cons takeWhile_append2)
  moreover have "strip (str_nat n) = str_nat n"
    using digits digit_not_space by (intro strip_no_space) blast
  moreover obtain c cs where "str_nat n = c # cs" by (cases "str_nat n") simp_all
  moreover have "digit_groups False (str_nat n) = Some (str_nat n)"
    using digits by (simp add: digit_groups_digits)
  ultimately show ?thesis
    using digits nat_of_digits_str_nat [of n] by (auto simp: event_sequence_def int_literal_def Let_def)
qed

lemma events_after_numbered:
  assumes "map be_id es = map (\<lambda>n. str_nat n @ py ''-0'') ns"
  shows "events_after k es = Inr (map fst (filter (\<lambda>(e, n). k < int n) (zip es ns)))"
  using assms
proof (induction es arbitrary: ns)
  case (Cons e es)
  then obtain n ns' where ns: "ns = n # ns'" "be_id e = str_nat n @ py ''-0''"
    and "map be_id es = map (\<lambda>n. str_nat n @ py ''-0'') ns'" by (cases ns) auto
  with Cons.IH [of ns'] show ?case by (simp add: event_sequence_str_nat)
qed simp

lemma mem_log_read: "mem_log (snd (mem_read m c k b)) n = mem_log b n"
  by (auto simp: mem_read_def events_at_def mem_log_def dict_simps Let_def case_prod_unfold
      split: sum.splits option.splits)

lemma mem_inv_log: "mem_inv b \<Longrightarrow> numbered (mb_counter b) (mem_log b m)"
  by (auto simp: mem_inv_def mem_log_def numbered_def split: option.splits)

lemma mem_inv_read: "mem_inv b \<Longrightarrow> mem_inv (snd (mem_read m c k b))"
  by (auto simp: mem_read_def events_at_def mem_inv_def dict_simps Let_def case_prod_unfold numbered_def
      split: sum.splits option.splits if_splits)

lemma events_at_fst: "fst (events_at (stream_key m) b) = mem_log b m"
  by (simp add: events_at_def mem_log_def split: option.split)

lemma mem_read_fst:
  "fst (mem_read m c k b) = (case (if c = [] then Inr 0 else event_sequence c) of
     Inl e \<Rightarrow> Inl e
   | Inr n \<Rightarrow> (case events_after n (mem_log b m) of Inl e \<Rightarrow> Inl e | Inr xs \<Rightarrow> Inr (take k xs)))"
  using events_at_fst [of m b] by (simp add: mem_read_def Let_def case_prod_unfold split: sum.split)

lemma filter_all_zip: "\<forall>n \<in> set ns. P n \<Longrightarrow> length es = length ns \<Longrightarrow> map fst (filter (\<lambda>(e, n). P n) (zip es ns)) = es"
proof (induction es arbitrary: ns)
  case (Cons e es)
  then show ?case by (cases ns) auto
qed simp

lemma filter_none_zip: "\<forall>n \<in> set ns. \<not> P n \<Longrightarrow> filter (\<lambda>(e, n). P n) (zip es ns) = []"
  by (auto simp: filter_empty_conv dest: set_zip_rightD)

lemma mem_read_after:
  assumes inv: "mem_inv b" and log: "mem_log b m = xs @ x # ys"
  shows "fst (mem_read m (be_id x) k b) = Inr (take k ys)"
proof -
  let ?f = "\<lambda>n. str_nat n @ py ''-0''"
  from mem_inv_log [OF inv, of m] log obtain ns where eq: "map be_id (xs @ x # ys) = map ?f ns"
    and so: "sorted_wrt (<) ns" by (auto simp: numbered_def)
  from eq have "map be_id xs @ be_id x # map be_id ys = map ?f ns" by simp
  then obtain as n bs where ns: "ns = as @ n # bs" and as: "map be_id xs = map ?f as"
    and x: "be_id x = ?f n" and bs: "map be_id ys = map ?f bs"
    by (auto simp only: append_eq_map_conv Cons_eq_map_conv)
  have len: "length xs = length as" "length ys = length bs" using as bs by (metis length_map)+
  have less: "\<forall>k \<in> set as. k < n" "\<forall>k \<in> set bs. n < k" using so ns by (auto simp: sorted_wrt_append)
  have "filter (\<lambda>(e, k). int n < int k) (zip xs as) = []"
    by (rule filter_none_zip) (use less(1) in fastforce)
  moreover have "map fst (filter (\<lambda>(e, k). int n < int k) (zip ys bs)) = ys"
    by (rule filter_all_zip) (use less(2) len in simp_all)
  ultimately have "map fst (filter (\<lambda>(e, k). int n < int k) (zip (xs @ x # ys) ns)) = ys"
    using len ns by simp
  with events_after_numbered [OF eq] have "events_after (int n) (mem_log b m) = Inr ys" by (simp only: log)
  moreover have "be_id x \<noteq> []" using x by simp
  ultimately show ?thesis by (simp add: mem_read_fst x event_sequence_str_nat)
qed

lemma mem_read_start:
  assumes inv: "mem_inv b"
  shows "fst (mem_read m (py ''0-0'') k b) = Inr (take k (mem_log b m))"
proof -
  from mem_inv_log [OF inv, of m] obtain ns where ns: "map be_id (mem_log b m) = map (\<lambda>n. str_nat n @ py ''-0'') ns"
    and pos: "\<forall>n \<in> set ns. 0 < n" by (auto simp: numbered_def)
  have "events_after 0 (mem_log b m) = Inr (mem_log b m)"
    using events_after_numbered [OF ns] filter_all_zip [of ns "\<lambda>n. 0 < int n" "mem_log b m"] pos ns
    by (metis length_map of_nat_0_less_iff)
  moreover have "event_sequence (py ''0-0'') = Inr 0"
    using event_sequence_str_nat [of 0] by (simp add: str_nat.simps [of 0] py_Cons)
  ultimately show ?thesis by (simp add: mem_read_fst)
qed

lemma stream_key_inject: "m < 2 ^ 128 \<Longrightarrow> n < 2 ^ 128 \<Longrightarrow> stream_key m = stream_key n \<longleftrightarrow> m = n"
  by (simp add: stream_key_def str_uuid_inject)

lemma mem_publish_events:
  "snd (mem_publish m e d b) = \<lparr>mb_events = AList.update (stream_key m)
       (mem_log b m @ [\<lparr>be_id = fst (mem_publish m e d b), be_event = e, be_data = d\<rparr>])
       (mb_events (snd (events_at (stream_key m) b))), mb_counter = Suc (mb_counter b)\<rparr>"
  by (simp add: mem_publish_def events_at_def mem_log_def Let_def split: option.split)

lemma events_at_get:
  "dict_get (mb_events (snd (events_at key b))) k
     = (if k = key \<and> dict_get (mb_events b) key = None then Some [] else dict_get (mb_events b) k)"
  by (auto simp: events_at_def dict_simps split: option.split)

lemma mem_publish_id: "fst (mem_publish m e d b) = str_nat (Suc (mb_counter b)) @ py ''-0''"
  by (simp add: mem_publish_def Let_def case_prod_unfold)

lemma numbered_mono: "numbered k es \<Longrightarrow> k \<le> l \<Longrightarrow> numbered l es"
  unfolding numbered_def by (meson le_trans)

lemma numbered_snoc:
  assumes "numbered k es" and "be_id e = str_nat (Suc k) @ py ''-0''"
  shows "numbered (Suc k) (es @ [e])"
proof -
  from assms(1) obtain ns where "map be_id es = map (\<lambda>n. str_nat n @ py ''-0'') ns"
    "sorted_wrt (<) ns" "\<forall>n \<in> set ns. 0 < n \<and> n \<le> k" by (auto simp: numbered_def)
  with assms(2) show ?thesis
    unfolding numbered_def by (intro exI [of _ "ns @ [Suc k]"]) (auto simp: sorted_wrt_append)
qed

lemma mem_publish_inv: "mem_inv b \<Longrightarrow> mem_inv (snd (mem_publish m e d b))"
proof -
  assume inv: "mem_inv b"
  have new: "numbered (Suc (mb_counter b)) (mem_log b m @ [\<lparr>be_id = fst (mem_publish m e d b), be_event = e, be_data = d\<rparr>])"
    by (rule numbered_snoc [OF mem_inv_log [OF inv]]) (simp add: mem_publish_id)
  have "numbered (Suc (mb_counter b)) es" if "dict_get (mb_events b) k = Some es" for k es
    using inv that numbered_mono unfolding mem_inv_def by (metis le_SucI le_refl)
  with new show ?thesis
    by (auto simp: mem_inv_def mem_publish_events dict_simps events_at_get numbered_def [of _ "[]"] split: if_splits)
qed

lemma mem_publish_log:
  assumes "m < 2 ^ 128" and "n < 2 ^ 128"
  shows "mem_log (snd (mem_publish m e d b)) n
    = (if n = m then mem_log b m @ [\<lparr>be_id = fst (mem_publish m e d b), be_event = e, be_data = d\<rparr>] else mem_log b n)"
  using stream_key_inject [OF assms]
  by (simp add: mem_publish_events mem_log_def [of "\<lparr>mb_events = _, mb_counter = _\<rparr>"] dict_simps events_at_get)
    (auto simp: mem_log_def)

lemma mem_read_nothing:
  assumes "mem_inv b" and "mem_log b m = sent @ rest"
  shows "fst (mem_read m (if sent = [] then py ''0-0'' else be_id (last sent)) 0 b) = Inr []"
proof (cases "sent = []")
  case False
  then have "mem_log b m = butlast sent @ last sent # rest" using assms(2) by (simp flip: append_butlast_last_id)
  from mem_read_after [OF assms(1) this, of 0] False show ?thesis by simp
qed (simp add: mem_read_start [OF assms(1)])

interpretation mem: event_log mem_read mem_log mem_inv "py ''0-0''"
  by unfold_locales (simp_all add: mem_inv_read mem_log_read mem_read_start mem_read_after)

interpretation mem: event_broker mem_read mem_log mem_inv "py ''0-0''" mem_publish
  by unfold_locales (simp_all add: mem_publish_inv mem_publish_log mem_read_nothing mem.cursor_at_def)

lemma new_broker_inv: "mem_inv new_broker"
  by (simp add: mem_inv_def new_broker_def)

lemma new_broker_log: "mem_log new_broker m = []"
  by (simp add: mem_log_def new_broker_def)

section \<open>Properties\<close>

text \<open>
  Delivery over the in-memory broker is exactly once and in order: whatever the
  interleaving of publications (to any message) and reads with any count, a reader that
  resumes from its last identifier has seen a prefix of the events published to its message,
  and one more read that may return them all leaves it with exactly these events.
\<close>

theorem reader_sees_each_event_once:
  assumes "m < 2 ^ 128" and "list_all op_ok ops"
    and "s = reader_run mem_publish mem_read m ops \<lparr>rd_broker = new_broker, rd_cursor = py ''0-0'', rd_seen = []\<rparr>"
    and "length (mem_log (rd_broker s) m) \<le> k"
  shows "(\<exists>rest. mem_log (rd_broker s) m = rd_seen s @ rest)
     \<and> rd_seen (reader_step mem_publish mem_read m (PollOp k) s) = mem_log (rd_broker s) m
     \<and> distinct (map be_id (mem_log (rd_broker s) m))"
proof -
  have "mem.reader_ok m \<lparr>rd_broker = new_broker, rd_cursor = py ''0-0'', rd_seen = []\<rparr>"
    by (simp add: mem.reader_ok_def mem.cursor_at_def new_broker_inv)
  from mem.reader_run_ok [OF this assms(1,2)] assms(3) have ok: "mem.reader_ok m s" by simp
  then obtain ns where "map be_id (mem_log (rd_broker s) m) = map (\<lambda>n. str_nat n @ py ''-0'') ns" "sorted_wrt (<) ns"
    using mem_inv_log unfolding mem.reader_ok_def numbered_def by blast
  then have "distinct (map be_id (mem_log (rd_broker s) m))"
    by (simp add: distinct_map inj_on_def strict_sorted_iff)
  with ok mem.reader_catches_up [OF ok assms(4)] show ?thesis by (auto simp: mem.reader_ok_def)
qed

theorem reader_sees_each_event_once_witness:
  "rd_seen (reader_step mem_publish mem_read 7 (PollOp 6)
     (reader_run mem_publish mem_read 7 [PublishOp 7 (py ''a'') [], PollOp 1, PublishOp 8 (py ''x'') [],
        PublishOp 7 (py ''b'') [], PublishOp 7 (py ''c'') [], PollOp 1]
        \<lparr>rd_broker = new_broker, rd_cursor = py ''0-0'', rd_seen = []\<rparr>))
   = mem_log (rd_broker (reader_run mem_publish mem_read 7 [PublishOp 7 (py ''a'') [], PollOp 1,
        PublishOp 8 (py ''x'') [], PublishOp 7 (py ''b'') [], PublishOp 7 (py ''c'') [], PollOp 1]
        \<lparr>rd_broker = new_broker, rd_cursor = py ''0-0'', rd_seen = []\<rparr>)) 7"
proof -
  let ?ops = "[PublishOp 7 (py ''a'') [], PollOp 1, PublishOp 8 (py ''x'') [],
     PublishOp 7 (py ''b'') [], PublishOp 7 (py ''c'') [], PollOp 1]"
  let ?s = "reader_run mem_publish mem_read 7 ?ops \<lparr>rd_broker = new_broker, rd_cursor = py ''0-0'', rd_seen = []\<rparr>"
  have "length (mem_log (rd_broker ?s) 7) \<le> 6"
    using mem.reader_run_length [of 7 "\<lparr>rd_broker = new_broker, rd_cursor = py ''0-0'', rd_seen = []\<rparr>" ?ops 7]
    by (simp add: new_broker_inv new_broker_log)
  from reader_sees_each_event_once [OF _ _ refl this] show ?thesis by simp
qed

end
