(* ===== verification/Chat_Worker.thy ===== *)
theory Chat_Worker
  imports Chat_Runtime Event_Broker
begin

text \<open>
  \<open>app/chat/worker.py\<close>: the task that runs the agent for one assistant message, publishes its
  events and stores the outcome.

  Publishing and storing are awaits: each succeeds, raises, or is where a cancellation of the
  task arrives (\<open>op_result\<close>).  The runtime stream is its events and the way it ends.  The
  worker also returns what it did, as a list of actions with their results.
\<close>

datatype op_result = OpOk | OpRaises py_exc | OpCancelled

datatype message_status = Streaming | MsgCompleted | Aborted | MsgError

fun message_status_text :: "message_status \<Rightarrow> pystr" where
  "message_status_text Streaming = py ''streaming''"
| "message_status_text MsgCompleted = py ''completed''"
| "message_status_text Aborted = py ''aborted''"
| "message_status_text MsgError = py ''error''"

datatype stream_end = StreamStops | StreamRaises py_exc | StreamCancelled

datatype worker_action =
    Published pystr arguments op_result
  | Stored pystr message_status "agent_step list" op_result

record 's worker_env =
  we_publish :: "uuid \<Rightarrow> pystr \<Rightarrow> arguments \<Rightarrow> 's \<Rightarrow> op_result \<times> 's"
  we_complete :: "uuid \<Rightarrow> uuid \<Rightarrow> pystr \<Rightarrow> message_status \<Rightarrow> agent_step list \<Rightarrow> 's \<Rightarrow> op_result \<times> 's"
  we_dump :: dump_env

record worker_ids =
  wi_message :: uuid
  wi_workspace :: uuid
  wi_conversation :: uuid
  wi_request :: uuid
  wi_trace :: uuid

record 's worker_state =
  ws_text :: pystr
  ws_steps :: "agent_step list"
  ws_status :: message_status
  ws_terminal :: bool
  ws_trace :: "worker_action list"
  ws_world :: 's

definition emit ::
  "'s worker_env \<Rightarrow> worker_ids \<Rightarrow> string \<Rightarrow> arguments \<Rightarrow> 's worker_state \<Rightarrow> op_result \<times> 's worker_state" where
  "emit env ids event data st =
     (let (r, s) = we_publish env (wi_message ids) (py event) data (ws_world st)
      in (r, st\<lparr>ws_trace := ws_trace st @ [Published (py event) data r], ws_world := s\<rparr>))"

text \<open>Publish a terminal event: only a publication that succeeds counts.\<close>

definition emit_terminal ::
  "'s worker_env \<Rightarrow> worker_ids \<Rightarrow> string \<Rightarrow> arguments \<Rightarrow> 's worker_state \<Rightarrow> op_result \<times> 's worker_state" where
  "emit_terminal env ids event data st =
     (case emit env ids event data st of
        (OpOk, st') \<Rightarrow> (OpOk, st'\<lparr>ws_terminal := True\<rparr>)
      | (r, st') \<Rightarrow> (r, st'))"

section \<open>The body of the \<open>try\<close>\<close>

text \<open>One runtime event: the result, whether the loop breaks, and the state.\<close>

definition done_status :: "runtime_event \<Rightarrow> pystr" where
  "done_status e = (let v = dget (re_data e) ''status'' in if truthy v then py_str v else py ''completed'')"

definition handle_event ::
  "'s worker_env \<Rightarrow> worker_ids \<Rightarrow> runtime_event \<Rightarrow> 's worker_state \<Rightarrow> op_result \<times> bool \<times> 's worker_state" where
  "handle_event env ids e st =
     (let dumped = dump_event (we_dump env) e;
          onward = (\<lambda>(r, st'). (r, False, st'));
          leave = (\<lambda>(r, st'). (r, True, st'))
      in case re_type e of
           RtStep \<Rightarrow>
             (case re_step e of
                Some s \<Rightarrow> onward (emit env ids ''step'' dumped (st\<lparr>ws_steps := ws_steps st @ [s]\<rparr>))
              | None \<Rightarrow> (OpOk, False, st))
         | RtText \<Rightarrow>
             (if content_or [] (re_text e) \<noteq> []
              then onward (emit env ids ''text'' dumped (st\<lparr>ws_text := ws_text st @ content_or [] (re_text e)\<rparr>))
              else (OpOk, False, st))
         | RtTextReset \<Rightarrow> onward (emit env ids ''text_reset'' dumped (st\<lparr>ws_text := []\<rparr>))
         | RtError \<Rightarrow>
             leave (emit_terminal env ids ''error'' dumped
               (st\<lparr>ws_status := MsgError, ws_text := content_or (py ''Agent execution failed.'') (re_message e)\<rparr>))
         | RtDone \<Rightarrow>
             (if done_status e \<noteq> py ''completed'' then
                (let reason = py_str (dget (re_data e) ''termination_reason'');
                     text = (if reason \<noteq> [] then reason else py ''Agent stopped with status: '' @ done_status e)
                 in leave (emit_terminal env ids ''error''
                      [(py ''assistant_message_id'', PStr (str_uuid (wi_message ids))),
                       (py ''message'', PStr text), (py ''status'', PStr (done_status e))]
                      (st\<lparr>ws_status := MsgError, ws_text := text\<rparr>)))
              else (OpOk, True, st)))"

fun consume ::
  "'s worker_env \<Rightarrow> worker_ids \<Rightarrow> stream_end \<Rightarrow> runtime_event list \<Rightarrow> 's worker_state \<Rightarrow> op_result \<times> 's worker_state"
where
  "consume env ids fin [] st = (case fin of
      StreamStops \<Rightarrow> (OpOk, st)
    | StreamRaises e \<Rightarrow> (OpRaises e, st)
    | StreamCancelled \<Rightarrow> (OpCancelled, st))"
| "consume env ids fin (e # es) st = (case handle_event env ids e st of
      (OpOk, stop, st') \<Rightarrow> (if stop then (OpOk, st') else consume env ids fin es st')
    | (r, stop, st') \<Rightarrow> (r, st'))"

section \<open>The handlers and the \<open>finally\<close>\<close>

definition handle_failure ::
  "'s worker_env \<Rightarrow> worker_ids \<Rightarrow> op_result \<Rightarrow> 's worker_state \<Rightarrow> op_result \<times> 's worker_state" where
  "handle_failure env ids r st =
     (let mid = (py ''assistant_message_id'', PStr (str_uuid (wi_message ids)))
      in case r of
           OpOk \<Rightarrow> (OpOk, st)
         | OpCancelled \<Rightarrow>
             emit_terminal env ids ''aborted'' [mid, (py ''reason'', pstr ''user_aborted'')]
               (st\<lparr>ws_status := Aborted\<rparr>)
         | OpRaises e \<Rightarrow>
             emit_terminal env ids ''error'' [mid, (py ''message'', PStr (render_exc e))]
               (st\<lparr>ws_status := MsgError, ws_text := render_exc e\<rparr>))"

definition store_outcome ::
  "'s worker_env \<Rightarrow> worker_ids \<Rightarrow> 's worker_state \<Rightarrow> op_result \<times> 's worker_state" where
  "store_outcome env ids st =
     (let (r, s) = we_complete env (wi_workspace ids) (wi_message ids) (ws_text st) (ws_status st) (ws_steps st)
                     (ws_world st)
      in (r, st\<lparr>ws_trace := ws_trace st @ [Stored (ws_text st) (ws_status st) (ws_steps st) r], ws_world := s\<rparr>))"

definition finally_block ::
  "'s worker_env \<Rightarrow> worker_ids \<Rightarrow> op_result \<Rightarrow> 's worker_state \<Rightarrow> op_result \<times> 's worker_state" where
  "finally_block env ids pending st =
     (case store_outcome env ids st of
        (OpCancelled, st1) \<Rightarrow> (OpCancelled, st1)
      | (r, st1) \<Rightarrow>
          (let mid = (py ''assistant_message_id'', PStr (str_uuid (wi_message ids)));
               persisted = (py ''persisted'', PBool (r = OpOk))
           in if ws_terminal st1 then (pending, st1)
              else (case (if ws_status st1 = MsgCompleted
                     then emit env ids ''done'' [(py ''conversation_id'', PStr (str_uuid (wi_conversation ids))),
                            mid, persisted] st1
                     else emit env ids ''error'' [mid,
                            (py ''message'', pstr ''Agent task ended without a terminal event.''), persisted] st1) of
                     (OpOk, st2) \<Rightarrow> (pending, st2)
                   | (f, st2) \<Rightarrow> (f, st2))))"

definition worker_start :: "'s \<Rightarrow> 's worker_state" where
  "worker_start s = \<lparr>ws_text = [], ws_steps = [], ws_status = MsgCompleted, ws_terminal = False,
                     ws_trace = [], ws_world = s\<rparr>"

definition worker_run ::
  "'s worker_env \<Rightarrow> worker_ids \<Rightarrow> runtime_event list \<Rightarrow> stream_end \<Rightarrow> 's \<Rightarrow> op_result \<times> 's worker_state" where
  "worker_run env ids events fin s =
     (case emit env ids ''start''
             [(py ''conversation_id'', PStr (str_uuid (wi_conversation ids))),
              (py ''assistant_message_id'', PStr (str_uuid (wi_message ids))),
              (py ''request_id'', PStr (str_uuid (wi_request ids))),
              (py ''trace_id'', PStr (str_uuid (wi_trace ids)))] (worker_start s) of
        (OpOk, st) \<Rightarrow>
          (case consume env ids fin events st of
             (r, st1) \<Rightarrow> (case handle_failure env ids r st1 of (pending, st2) \<Rightarrow> finally_block env ids pending st2))
      | (r, st) \<Rightarrow> (r, st))"

section \<open>What a worker does\<close>

definition terminal_name :: "pystr \<Rightarrow> bool" where
  "terminal_name n \<longleftrightarrow> n = py ''done'' \<or> n = py ''error'' \<or> n = py ''aborted''"

fun terminal_ok :: "worker_action \<Rightarrow> bool" where
  "terminal_ok (Published n d r) = (terminal_name n \<and> r = OpOk)"
| "terminal_ok (Stored c s steps r) = False"

fun is_stored :: "worker_action \<Rightarrow> bool" where
  "is_stored (Stored c s steps r) = True"
| "is_stored (Published n d r) = False"

fun action_ok :: "worker_action \<Rightarrow> bool" where
  "action_ok (Published n d r) = (r = OpOk)"
| "action_ok (Stored c s steps r) = (r = OpOk)"

text \<open>The text a client has after the published events: deltas add to it, a reset empties it.\<close>

fun client_text :: "pystr \<Rightarrow> worker_action list \<Rightarrow> pystr" where
  "client_text acc [] = acc"
| "client_text acc (Published n d r # tr) =
     (if n = py ''text'' then client_text (acc @ (case dget d ''text'' of PStr t \<Rightarrow> t | _ \<Rightarrow> [])) tr
      else if n = py ''text_reset'' then client_text [] tr
      else client_text acc tr)"
| "client_text acc (Stored c s steps r # tr) = client_text acc tr"

lemma client_text_append [simp]: "client_text acc (a @ b) = client_text (client_text acc a) b"
  by (induction acc a rule: client_text.induct) auto

text \<open>
  The invariant of the \<open>try\<close> block: one successful terminal event when the flag says so and then
  an error status, no store yet, and the text is what a client has.
\<close>

definition body_inv :: "'s worker_state \<Rightarrow> bool" where
  "body_inv st \<longleftrightarrow> length (filter terminal_ok (ws_trace st)) = (if ws_terminal st then 1 else 0)
     \<and> filter is_stored (ws_trace st) = []
     \<and> (ws_status st = MsgCompleted \<or> ws_status st = MsgError)
     \<and> (ws_terminal st \<longrightarrow> ws_status st = MsgError \<and> (\<exists>tr d. ws_trace st = tr @ [Published (py ''error'') d OpOk]))
     \<and> (list_all action_ok (ws_trace st) \<and> ws_status st = MsgError \<longrightarrow> ws_terminal st)
     \<and> (ws_status st = MsgCompleted \<longrightarrow> ws_text st = client_text [] (ws_trace st))"

lemma emit_cases:
  obtains r s where "emit env ids n d st = (r, st\<lparr>ws_trace := ws_trace st @ [Published (py n) d r], ws_world := s\<rparr>)"
  by (cases "we_publish env (wi_message ids) (py n) d (ws_world st)") (simp add: emit_def)

lemma emit_terminal_cases:
  obtains s where "emit_terminal env ids n d st
      = (OpOk, st\<lparr>ws_trace := ws_trace st @ [Published (py n) d OpOk], ws_world := s, ws_terminal := True\<rparr>)"
  | r s where "r \<noteq> OpOk" "emit_terminal env ids n d st
      = (r, st\<lparr>ws_trace := ws_trace st @ [Published (py n) d r], ws_world := s\<rparr>)"
proof -
  obtain r s where "emit env ids n d st = (r, st\<lparr>ws_trace := ws_trace st @ [Published (py n) d r], ws_world := s\<rparr>)"
    by (rule emit_cases)
  with that show thesis by (cases r) (auto simp: emit_terminal_def)
qed

lemma dump_event_text [simp]: "dget (dump_event D e) ''text'' = opt_str (re_text e)"
  by (simp add: dump_event_def dget_def)

lemma content_or_text: "(case opt_str t of PStr s \<Rightarrow> s | _ \<Rightarrow> []) = content_or [] t"
  by (simp add: opt_str_def content_or_def split: option.split)

lemma handle_event_inv:
  assumes "body_inv st" and "\<not> ws_terminal st" and "ws_status st = MsgCompleted"
    and "handle_event env ids e st = (r, stop, st')"
  shows "body_inv st' \<and> (r \<noteq> OpOk \<longrightarrow> \<not> ws_terminal st')
    \<and> (r = OpOk \<and> \<not> stop \<longrightarrow> \<not> ws_terminal st' \<and> ws_status st' = MsgCompleted)
    \<and> (\<exists>new. ws_trace st' = ws_trace st @ new \<and> (r \<noteq> OpOk \<longrightarrow> \<not> list_all action_ok new))"
proof -
  have plain: ?thesis if eq: "(r, stop, st') = (OpOk, b, st)" for b
    using that assms by auto
  have emitted: ?thesis
    if eq: "(case emit env ids n d st1 of (r, s) \<Rightarrow> (r, False, s)) = (r, stop, st')"
      and st1: "ws_trace st1 = ws_trace st" "ws_terminal st1 = ws_terminal st" "ws_status st1 = ws_status st"
      and n: "\<not> terminal_name (py n)" and t: "ws_text st1 = client_text (ws_text st) [Published (py n) d OpOk]" for n d st1
  proof -
    obtain x s where em: "emit env ids n d st1 = (x, st1\<lparr>ws_trace := ws_trace st1 @ [Published (py n) d x], ws_world := s\<rparr>)"
      by (rule emit_cases)
    with eq have st': "st' = st1\<lparr>ws_trace := ws_trace st1 @ [Published (py n) d x], ws_world := s\<rparr>" and r: "r = x" by auto
    have ct: "client_text acc [Published (py n) d x] = client_text acc [Published (py n) d OpOk]" for acc by simp
    have tr: "ws_trace st' = ws_trace st @ [Published (py n) d r]" using st' st1 r by simp
    have "body_inv st'" using assms(1-3) st1 n t ct unfolding st' body_inv_def by (auto simp del: client_text.simps)
    then show ?thesis unfolding tr using st' st1 assms(2,3) by auto
  qed
  have left: ?thesis
    if eq: "(case emit_terminal env ids ''error'' d st1 of (r, s) \<Rightarrow> (r, True, s)) = (r, stop, st')"
      and st1: "ws_trace st1 = ws_trace st" "ws_terminal st1 = ws_terminal st" "ws_status st1 = MsgError" for d st1
    by (rule emit_terminal_cases [of env ids "''error''" d st1])
      (use eq st1 assms(1,2) in \<open>auto simp: body_inv_def terminal_name_def\<close>)
  show ?thesis
  proof (cases "re_type e")
    case RtStep
    with assms(4) plain emitted show ?thesis
      by (fastforce simp: handle_event_def Let_def terminal_name_def split: option.splits)
  next
    case RtText
    with assms(4) plain emitted [of "''text''"] show ?thesis
      by (fastforce simp: handle_event_def Let_def terminal_name_def content_or_text split: if_splits)
  next
    case RtTextReset
    with assms(4) emitted [of "''text_reset''"] show ?thesis
      by (fastforce simp: handle_event_def Let_def terminal_name_def)
  next
    case RtDone
    with assms(4) plain left show ?thesis
      by (fastforce simp: handle_event_def Let_def split: if_splits)
  next
    case RtError
    with assms(4) left show ?thesis by (fastforce simp: handle_event_def Let_def)
  qed
qed

lemma consume_inv:
  assumes "body_inv st" and "\<not> ws_terminal st" and "ws_status st = MsgCompleted"
    and "consume env ids fin es st = (r, st')"
  shows "body_inv st' \<and> (r \<noteq> OpOk \<longrightarrow> \<not> ws_terminal st') \<and> (\<exists>new. ws_trace st' = ws_trace st @ new)"
  using assms
proof (induction es arbitrary: st)
  case Nil
  then show ?case by (auto split: stream_end.splits)
next
  case (Cons e es)
  obtain r1 stop st1 where h: "handle_event env ids e st = (r1, stop, st1)" by (metis prod_cases3)
  note inv = handle_event_inv [OF Cons.prems(1-3) h]
  show ?case
  proof (cases "r1 = OpOk \<and> \<not> stop")
    case True
    with Cons.prems(4) h have "consume env ids fin es st1 = (r, st')" by simp
    with Cons.IH [of st1] inv True show ?thesis by auto
  next
    case False
    with Cons.prems(4) h have "r = r1 \<and> st' = st1" by (auto split: op_result.splits if_splits)
    with inv show ?thesis by auto
  qed
qed

text \<open>After the handlers: at most one terminal event, of the kind the status says.\<close>

definition handled_inv :: "'s worker_state \<Rightarrow> bool" where
  "handled_inv st \<longleftrightarrow> length (filter terminal_ok (ws_trace st)) = (if ws_terminal st then 1 else 0)
     \<and> filter is_stored (ws_trace st) = []
     \<and> (ws_terminal st \<longrightarrow> (\<exists>tr n d. ws_trace st = tr @ [Published n d OpOk]
          \<and> (n, ws_status st) \<in> {(py ''error'', MsgError), (py ''aborted'', Aborted)}))
     \<and> (list_all action_ok (ws_trace st) \<and> \<not> ws_terminal st \<longrightarrow>
          ws_status st = MsgCompleted \<and> ws_text st = client_text [] (ws_trace st))"

lemma handle_failure_inv:
  assumes "body_inv st" and "r \<noteq> OpOk \<longrightarrow> \<not> ws_terminal st" and "handle_failure env ids r st = (pending, st')"
  shows "handled_inv st' \<and> (\<exists>new. ws_trace st' = ws_trace st @ new)
    \<and> (list_all action_ok (ws_trace st') \<longrightarrow> pending = OpOk)"
proof -
  have ended: ?thesis
    if eq: "emit_terminal env ids n d st1 = (pending, st')" and t: "\<not> ws_terminal st"
      and st1: "ws_trace st1 = ws_trace st" "ws_terminal st1 = ws_terminal st"
        "(n, ws_status st1) \<in> {(''error'', MsgError), (''aborted'', Aborted)}" for n d st1
    by (rule emit_terminal_cases [of env ids n d st1])
      (use eq t st1 assms(1) in \<open>auto simp: handled_inv_def body_inv_def terminal_name_def\<close>)
  show ?thesis
  proof (cases r)
    case OpOk
    with assms(1,3) show ?thesis by (auto simp: handle_failure_def handled_inv_def body_inv_def)
  next
    case (OpRaises e)
    with assms(2,3) ended show ?thesis by (fastforce simp: handle_failure_def Let_def)
  next
    case OpCancelled
    with assms(2,3) ended show ?thesis by (fastforce simp: handle_failure_def Let_def)
  qed
qed

text \<open>How a trace ends when nothing it did failed.\<close>

definition ends_properly :: "worker_action list \<Rightarrow> bool" where
  "ends_properly tr \<longleftrightarrow>
     (\<exists>pre steps d. tr = pre @ [Stored (client_text [] pre) MsgCompleted steps OpOk, Published (py ''done'') d OpOk])
     \<or> (\<exists>pre text steps d n status. tr = pre @ [Published n d OpOk, Stored text status steps OpOk]
          \<and> (n, status) \<in> {(py ''error'', MsgError), (py ''aborted'', Aborted)})"

lemma finally_block_ok:
  assumes inv: "handled_inv st" and eq: "finally_block env ids pending st = (r, st')"
  shows "length (filter terminal_ok (ws_trace st')) \<le> 1 \<and> length (filter is_stored (ws_trace st')) = 1
    \<and> (\<exists>new. ws_trace st' = ws_trace st @ new)
    \<and> (list_all action_ok (ws_trace st') \<longrightarrow> length (filter terminal_ok (ws_trace st')) = 1
         \<and> ends_properly (ws_trace st') \<and> r = pending)"
proof -
  obtain x s where store: "store_outcome env ids st
      = (x, st\<lparr>ws_trace := ws_trace st @ [Stored (ws_text st) (ws_status st) (ws_steps st) x], ws_world := s\<rparr>)"
    by (cases "we_complete env (wi_workspace ids) (wi_message ids) (ws_text st) (ws_status st) (ws_steps st) (ws_world st)")
      (simp add: store_outcome_def)
  let ?st1 = "st\<lparr>ws_trace := ws_trace st @ [Stored (ws_text st) (ws_status st) (ws_steps st) x], ws_world := s\<rparr>"
  have few: "length (filter terminal_ok (ws_trace st)) \<le> 1" "filter is_stored (ws_trace st) = []"
    using inv by (simp_all add: handled_inv_def)
  have cancelled: ?thesis if "x = OpCancelled"
  proof -
    have "st' = ?st1" using that eq store by (simp add: finally_block_def)
    with few that show ?thesis by simp
  qed
  have over: ?thesis if "x \<noteq> OpCancelled" "ws_terminal st"
  proof -
    have st': "st' = ?st1" "r = pending"
      using that eq store by (auto simp: finally_block_def Let_def split: op_result.splits)
    obtain tr n d where tr: "ws_trace st = tr @ [Published n d OpOk]"
      and n: "(n, ws_status st) \<in> {(py ''error'', MsgError), (py ''aborted'', Aborted)}"
      using inv \<open>ws_terminal st\<close> unfolding handled_inv_def by blast
    have trace: "ws_trace st' = tr @ [Published n d OpOk, Stored (ws_text st) (ws_status st) (ws_steps st) x]"
      using st' tr by simp
    have "ends_properly (ws_trace st')" if "list_all action_ok (ws_trace st')"
    proof -
      have "x = OpOk" using that trace by simp
      with trace n show ?thesis unfolding ends_properly_def by blast
    qed
    moreover have "length (filter terminal_ok (ws_trace st)) = 1"
      using inv \<open>ws_terminal st\<close> by (simp add: handled_inv_def)
    ultimately show ?thesis using st' few by simp
  qed
  have last: ?thesis if x: "x \<noteq> OpCancelled" "\<not> ws_terminal st"
    and em: "emit env ids n d ?st1 = (y, ?st1\<lparr>ws_trace := ws_trace ?st1 @ [Published (py n) d y], ws_world := s2\<rparr>)"
    and n: "n = (if ws_status st = MsgCompleted then ''done'' else ''error'')"
    and res: "st' = ?st1\<lparr>ws_trace := ws_trace ?st1 @ [Published (py n) d y], ws_world := s2\<rparr>"
      "r = (if y = OpOk then pending else y)" for n d y s2
  proof -
    have trace: "ws_trace st' = ws_trace st @ [Stored (ws_text st) (ws_status st) (ws_steps st) x, Published (py n) d y]"
      using res by simp
    have none: "filter terminal_ok (ws_trace st) = []" using inv x(2) by (simp add: handled_inv_def)
    have "ends_properly (ws_trace st')" if ok: "list_all action_ok (ws_trace st')"
    proof -
      have xy: "x = OpOk" "y = OpOk" "list_all action_ok (ws_trace st)" using ok trace by simp_all
      then have "ws_status st = MsgCompleted" "ws_text st = client_text [] (ws_trace st)"
        using inv x(2) by (simp_all add: handled_inv_def)
      with trace xy n show ?thesis unfolding ends_properly_def by auto
    qed
    moreover have "terminal_name (py n)" using n by (simp add: terminal_name_def)
    ultimately show ?thesis using trace none few res by simp
  qed
  show ?thesis
  proof (cases "x = OpCancelled \<or> ws_terminal st")
    case True
    with cancelled over show ?thesis by blast
  next
    case False
    define mid where "mid = (py ''assistant_message_id'', PStr (str_uuid (wi_message ids)))"
    define pers where "pers = (py ''persisted'', PBool (x = OpOk))"
    define n where "n = (if ws_status st = MsgCompleted then ''done'' else ''error'')"
    define d where "d = (if ws_status st = MsgCompleted
       then [(py ''conversation_id'', PStr (str_uuid (wi_conversation ids))), mid, pers]
       else [mid, (py ''message'', pstr ''Agent task ended without a terminal event.''), pers])"
    obtain y s2 where em: "emit env ids n d ?st1
        = (y, ?st1\<lparr>ws_trace := ws_trace ?st1 @ [Published (py n) d y], ws_world := s2\<rparr>)"
      by (rule emit_cases)
    have "(case emit env ids n d ?st1 of (OpOk, st2) \<Rightarrow> (pending, st2) | (f, st2) \<Rightarrow> (f, st2)) = (r, st')"
      using eq store False by (cases x; cases "ws_status st = MsgCompleted")
        (simp_all add: finally_block_def Let_def n_def d_def mid_def pers_def)
    then have res: "(if y = OpOk then pending else y, ?st1\<lparr>ws_trace := ws_trace ?st1 @ [Published (py n) d y], ws_world := s2\<rparr>)
        = (r, st')" unfolding em by (cases y) auto
    show ?thesis
      by (rule last [OF _ _ em n_def]) (use False res in blast)+
  qed
qed

text \<open>The whole run, put together from its three parts.\<close>

lemma worker_run_trace:
  assumes "worker_run env ids events fin s = (r, st)"
  shows "length (filter terminal_ok (ws_trace st)) \<le> 1
    \<and> length (filter is_stored (ws_trace st)) = (if action_ok (hd (ws_trace st)) then 1 else 0)
    \<and> (if list_all action_ok (ws_trace st)
       then length (filter terminal_ok (ws_trace st)) = 1 \<and> ends_properly (ws_trace st) \<and> r = OpOk else True)"
proof -
  define d where "d = [(py ''conversation_id'', PStr (str_uuid (wi_conversation ids))),
    (py ''assistant_message_id'', PStr (str_uuid (wi_message ids))),
    (py ''request_id'', PStr (str_uuid (wi_request ids))), (py ''trace_id'', PStr (str_uuid (wi_trace ids)))]"
  obtain x s1 where em: "emit env ids ''start'' d (worker_start s)
      = (x, (worker_start s)\<lparr>ws_trace := ws_trace (worker_start s) @ [Published (py ''start'') d x], ws_world := s1\<rparr>)"
    by (rule emit_cases)
  let ?st = "(worker_start s)\<lparr>ws_trace := ws_trace (worker_start s) @ [Published (py ''start'') d x], ws_world := s1\<rparr>"
  show ?thesis
  proof (cases "x = OpOk")
    case False
    have "worker_run env ids events fin s = (x, ?st)"
      using em False by (cases x) (simp_all add: worker_run_def flip: d_def)
    from this assms have "(x, ?st) = (r, st)" by (rule trans [OF sym])
    then have "st = ?st" by blast
    with False show ?thesis by (simp add: worker_start_def terminal_name_def)
  next
    case True
    have start: "body_inv ?st" "\<not> ws_terminal ?st" "ws_status ?st = MsgCompleted"
      using True by (simp_all add: body_inv_def worker_start_def terminal_name_def)
    obtain r1 st1 where c: "consume env ids fin events ?st = (r1, st1)" by fastforce
    obtain pending st2 where h: "handle_failure env ids r1 st1 = (pending, st2)" by fastforce
    have f: "finally_block env ids pending st2 = (r, st)"
      using assms em True c h by (simp add: worker_run_def d_def)
    note inv1 = consume_inv [OF start c]
    have "handled_inv st2 \<and> (\<exists>new. ws_trace st2 = ws_trace st1 @ new)
        \<and> (list_all action_ok (ws_trace st2) \<longrightarrow> pending = OpOk)"
      by (rule handle_failure_inv [OF _ _ h]) (use inv1 in simp_all)
    note inv2 = this
    note inv3 = finally_block_ok [OF conjunct1 [OF inv2] f]
    have "hd (ws_trace st) = Published (py ''start'') d OpOk"
      using inv1 inv2 inv3 True by (auto simp: worker_start_def)
    with inv2 inv3 show ?thesis by auto
  qed
qed


definition demo_worker :: "nat worker_env" where
  "demo_worker = \<lparr>we_publish = (\<lambda>m n d s. (OpOk, s + 1)), we_complete = (\<lambda>w m c st steps s. (OpOk, s + 1)),
     we_dump = \<lparr>de_any = (\<lambda>v. v), de_float = (\<lambda>q. py ''0.0'')\<rparr>\<rparr>"

definition demo_ids :: worker_ids where
  "demo_ids = \<lparr>wi_message = 1, wi_workspace = 2, wi_conversation = 3, wi_request = 4, wi_trace = 5\<rparr>"


text \<open>
  A limit: the fallback text of a run that stopped without a reason is never used, because
  \<open>str(None)\<close> is the text \<open>None\<close>, which is not empty.
\<close>

lemma missing_reason_reads_None:
  "dget (re_data e) ''termination_reason'' = PNone \<Longrightarrow> py_str (dget (re_data e) ''termination_reason'') = py ''None''"
  by simp

end
