(* ===== verification/Workspace_Scope.thy ===== *)
theory Workspace_Scope
  imports Prelude
begin

text \<open>
  The contract of every store that keeps the data of many workspaces: an operation acts for at most one
  workspace, and what another workspace can see of the tables stays as it is.  Which workspace an
  operation acts for may depend on the tables.
\<close>

fun by_others :: "('op \<Rightarrow> 'db \<Rightarrow> 'db) \<Rightarrow> ('db \<Rightarrow> 'op \<Rightarrow> uuid option) \<Rightarrow> uuid \<Rightarrow> 'op list \<Rightarrow> 'db \<Rightarrow> bool" where
  "by_others step owner ws [] db = True"
| "by_others step owner ws (op # ops) db = (owner db op \<noteq> Some ws \<and> by_others step owner ws ops (step op db))"

locale workspace_scope =
  fixes step :: "'op \<Rightarrow> 'db \<Rightarrow> 'db"
    and owner :: "'db \<Rightarrow> 'op \<Rightarrow> uuid option"
    and inv :: "'db \<Rightarrow> bool"
    and view :: "uuid \<Rightarrow> 'db \<Rightarrow> 'v"
  assumes step_inv: "inv db \<Longrightarrow> inv (step op db)"
    and step_other: "inv db \<Longrightarrow> owner db op \<noteq> Some ws \<Longrightarrow> view ws (step op db) = view ws db"
begin

lemma run_inv: "inv db \<Longrightarrow> inv (fold step ops db)"
  by (induction ops arbitrary: db) (simp_all add: step_inv)

lemma run_others: "inv db \<Longrightarrow> by_others step owner ws ops db \<Longrightarrow> view ws (fold step ops db) = view ws db"
  by (induction ops arbitrary: db) (simp_all add: step_inv step_other)

text \<open>What a workspace sees after a run depends on its own operations only up to the last of them.\<close>

lemma run_suffix:
  assumes "inv db" and "by_others step owner ws ops' (fold step ops db)"
  shows "view ws (fold step (ops @ ops') db) = view ws (fold step ops db)"
  using run_others [OF run_inv [OF assms(1)] assms(2)] by simp

end

lemma by_others_fixed: "by_others step (\<lambda>db op. Some (ws_of op)) ws ops db \<longleftrightarrow> list_all (\<lambda>op. ws_of op \<noteq> ws) ops"
  by (induction ops arbitrary: db) simp_all

end
