(* ===== verification/Chat_Store.thy ===== *)
theory Chat_Store
  imports Context_Compaction Chat_Worker Workspace_Scope
begin

text \<open>
  \<open>app/chat/service.py\<close> over the tables \<open>conversations\<close>, \<open>messages\<close> and \<open>agent_steps\<close> of
  \<open>app/db/models.py\<close>: every operation of \<open>ConversationService\<close> is one transaction on the
  tables.  A new row's identifier and the current time are arguments (the program draws them
  from \<open>uuid4\<close> and the clock); the unique constraints of the tables are checked and violated
  ones raise \<open>IntegrityError\<close>; \<open>ilike\<close> (PostgreSQL's operator) and the JSON round trip of a step
  through its columns are parameters.
\<close>

section \<open>Tables\<close>

record conversation_row =
  cv_id :: uuid
  cv_workspace :: uuid
  cv_title :: pystr
  cv_created :: int
  cv_updated :: int
  cv_next_sequence :: nat
  cv_archived :: "int option"

record message_row =
  mg_id :: uuid
  mg_conversation :: uuid
  mg_sequence :: nat
  mg_role :: chat_role
  mg_content :: "pystr option"
  mg_status :: message_status
  mg_tool_calls :: "pyval list"
  mg_steps :: "agent_step list"
  mg_request :: "uuid option"
  mg_trace :: "uuid option"
  mg_created :: int

record chat_db =
  db_conversations :: "conversation_row list"
  db_messages :: "message_row list"

text \<open>A message view is the row without its place in the conversation; steps come by index.\<close>

record message_view =
  mv_id :: uuid
  mv_role :: chat_role
  mv_content :: "pystr option"
  mv_status :: message_status
  mv_tool_calls :: "pyval list"
  mv_steps :: "agent_step list"
  mv_request :: "uuid option"
  mv_trace :: "uuid option"
  mv_created :: int

record conversation_detail =
  cd_id :: uuid
  cd_title :: pystr
  cd_messages :: "message_view list"
  cd_created :: int
  cd_updated :: int

record conversation_summary =
  cs_id :: uuid
  cs_title :: pystr
  cs_message_count :: nat
  cs_created :: int
  cs_updated :: int
  cs_archived :: "int option"

record conversation_page =
  cp_items :: "conversation_summary list"
  cp_total :: nat
  cp_limit :: nat
  cp_offset :: nat

definition message_view_of :: "message_row \<Rightarrow> message_view" where
  "message_view_of m = \<lparr>mv_id = mg_id m, mv_role = mg_role m, mv_content = mg_content m, mv_status = mg_status m,
     mv_tool_calls = mg_tool_calls m, mv_steps = sort_key as_step (mg_steps m), mv_request = mg_request m,
     mv_trace = mg_trace m, mv_created = mg_created m\<rparr>"

definition conversation_detail_of :: "conversation_row \<Rightarrow> message_view list \<Rightarrow> conversation_detail" where
  "conversation_detail_of c ms = \<lparr>cd_id = cv_id c, cd_title = cv_title c, cd_messages = ms,
     cd_created = cv_created c, cd_updated = cv_updated c\<rparr>"

text \<open>The rows a workspace can select.\<close>

definition own_conversation :: "uuid \<Rightarrow> uuid \<Rightarrow> conversation_row \<Rightarrow> bool" where
  "own_conversation workspace cid c \<longleftrightarrow> cv_id c = cid \<and> cv_workspace c = workspace"

definition select_conversation :: "uuid \<Rightarrow> uuid \<Rightarrow> chat_db \<Rightarrow> conversation_row option" where
  "select_conversation workspace cid db = find (own_conversation workspace cid) (db_conversations db)"

definition messages_of :: "uuid \<Rightarrow> chat_db \<Rightarrow> message_row list" where
  "messages_of cid db = sort_key mg_sequence (filter (\<lambda>m. mg_conversation m = cid) (db_messages db))"

definition in_workspace :: "uuid \<Rightarrow> chat_db \<Rightarrow> message_row \<Rightarrow> bool" where
  "in_workspace workspace db m \<longleftrightarrow> select_conversation workspace (mg_conversation m) db \<noteq> None"

definition update_conversations ::
  "(conversation_row \<Rightarrow> bool) \<Rightarrow> (conversation_row \<Rightarrow> conversation_row) \<Rightarrow> chat_db \<Rightarrow> chat_db" where
  "update_conversations P f db =
     db\<lparr>db_conversations := map (\<lambda>c. if P c then f c else c) (db_conversations db)\<rparr>"

section \<open>Operations\<close>

definition new_title :: pystr where
  "new_title = [26032, 20250, 35805]"

definition create_conversation :: "uuid \<Rightarrow> int \<Rightarrow> uuid \<Rightarrow> pystr \<Rightarrow> chat_db \<Rightarrow> conversation_detail pyres \<times> chat_db" where
  "create_conversation i now workspace title db =
     (if i \<in> set (map cv_id (db_conversations db)) then (raise_exc ''IntegrityError'' (py ''conversations_pkey''), db)
      else (let c = \<lparr>cv_id = i, cv_workspace = workspace, cv_title = title, cv_created = now, cv_updated = now,
                     cv_next_sequence = 1, cv_archived = None\<rparr>
            in (Inr (conversation_detail_of c []), db\<lparr>db_conversations := db_conversations db @ [c]\<rparr>)))"

definition list_conversations ::
  "(pystr \<Rightarrow> pystr \<Rightarrow> bool) \<Rightarrow> uuid \<Rightarrow> nat \<Rightarrow> nat \<Rightarrow> pystr option \<Rightarrow> bool \<Rightarrow> chat_db \<Rightarrow> conversation_page" where
  "list_conversations ilike workspace limit offset query include_archived db =
     (let hit = (\<lambda>c. cv_workspace c = workspace \<and> (include_archived \<or> cv_archived c = None)
                 \<and> (content_or [] query = [] \<or>
                    ilike (cv_title c) (py ''%'' @ strip (content_or [] query) @ py ''%'')));
          rows = filter hit (db_conversations db);
          ordered = sort_key (\<lambda>c. - cv_updated c) rows
      in \<lparr>cp_items = map (\<lambda>c. \<lparr>cs_id = cv_id c, cs_title = cv_title c,
              cs_message_count = length (filter (\<lambda>m. mg_conversation m = cv_id c) (db_messages db)),
              cs_created = cv_created c, cs_updated = cv_updated c, cs_archived = cv_archived c\<rparr>)
            (take limit (drop offset ordered)),
          cp_total = length rows, cp_limit = limit, cp_offset = offset\<rparr>)"

definition get_conversation :: "uuid \<Rightarrow> uuid \<Rightarrow> chat_db \<Rightarrow> conversation_detail option" where
  "get_conversation workspace cid db =
     map_option (\<lambda>c. conversation_detail_of c (map message_view_of (messages_of cid db)))
       (select_conversation workspace cid db)"

definition append_message ::
  "uuid \<Rightarrow> int \<Rightarrow> uuid \<Rightarrow> uuid \<Rightarrow> chat_role \<Rightarrow> pystr option \<Rightarrow> message_status \<Rightarrow> pyval list \<Rightarrow>
   uuid option \<Rightarrow> uuid option \<Rightarrow> chat_db \<Rightarrow> message_view pyres \<times> chat_db" where
  "append_message i now workspace cid role content status calls request trace db =
     (case select_conversation workspace cid db of
        None \<Rightarrow> (Inl (key_error (py ''Conversation not found: '' @ str_uuid cid)), db)
      | Some c \<Rightarrow>
          (let m = \<lparr>mg_id = i, mg_conversation = cid, mg_sequence = cv_next_sequence c, mg_role = role,
                    mg_content = content, mg_status = status, mg_tool_calls = calls, mg_steps = [],
                    mg_request = request, mg_trace = trace, mg_created = now\<rparr>;
               title = (if role = RoleUser \<and> cv_title c = new_title \<and> content_or [] content \<noteq> []
                        then take 40 (strip (content_or [] content)) else cv_title c)
           in if i \<in> set (map mg_id (db_messages db)) then
                (raise_exc ''IntegrityError'' (py ''messages_pkey''), db)
              else if request \<noteq> None \<and> request \<in> set (map mg_request (db_messages db)) then
                (raise_exc ''IntegrityError'' (py ''uq_messages_request_id''), db)
              else if (cid, cv_next_sequence c) \<in> set (map (\<lambda>m. (mg_conversation m, mg_sequence m)) (db_messages db)) then
                (raise_exc ''IntegrityError'' (py ''uq_messages_conversation_sequence''), db)
              else (Inr (message_view_of m),
                    (update_conversations (own_conversation workspace cid)
                       (\<lambda>c. c\<lparr>cv_title := title, cv_updated := now, cv_next_sequence := cv_next_sequence c + 1\<rparr>) db)
                    \<lparr>db_messages := db_messages db @ [m]\<rparr>)))"

definition select_message :: "uuid \<Rightarrow> uuid \<Rightarrow> chat_db \<Rightarrow> message_row option" where
  "select_message workspace mid db = find (\<lambda>m. mg_id m = mid \<and> in_workspace workspace db m) (db_messages db)"

text \<open>
  The flush inserts the new step records before it deletes the cleared ones, so the unique
  constraint over a message's step indexes is checked with both present.
\<close>

definition complete_assistant_message ::
  "(agent_step \<Rightarrow> agent_step) \<Rightarrow> int \<Rightarrow> uuid \<Rightarrow> uuid \<Rightarrow> pystr option \<Rightarrow> message_status \<Rightarrow> agent_step list \<Rightarrow> chat_db \<Rightarrow>
   message_view pyres \<times> chat_db" where
  "complete_assistant_message column now workspace mid content status steps db =
     (case select_message workspace mid db of
        None \<Rightarrow> (Inl (key_error (py ''Message not found: '' @ str_uuid mid)), db)
      | Some m \<Rightarrow>
          (if \<not> distinct (map as_step (mg_steps m @ steps)) then
             (raise_exc ''IntegrityError'' (py ''uq_agent_steps_message_index''), db)
           else
             (let change = (\<lambda>m. m\<lparr>mg_content := content, mg_status := status, mg_steps := map column steps\<rparr>)
              in (Inr ((message_view_of (change m))\<lparr>mv_steps := map column steps\<rparr>),
                  (update_conversations (own_conversation workspace (mg_conversation m)) (\<lambda>c. c\<lparr>cv_updated := now\<rparr>) db)
                  \<lparr>db_messages := map (\<lambda>x. if mg_id x = mid then change x else x) (db_messages db)\<rparr>))))"

definition archive_conversation :: "int \<Rightarrow> uuid \<Rightarrow> uuid \<Rightarrow> bool \<Rightarrow> chat_db \<Rightarrow> bool \<times> chat_db" where
  "archive_conversation now workspace cid archived db =
     (case select_conversation workspace cid db of
        None \<Rightarrow> (False, db)
      | Some c \<Rightarrow> (True, update_conversations (own_conversation workspace cid)
          (\<lambda>c. c\<lparr>cv_archived := (if archived then Some now else None), cv_updated := now\<rparr>) db))"

definition delete_conversation :: "uuid \<Rightarrow> uuid \<Rightarrow> chat_db \<Rightarrow> bool \<times> chat_db" where
  "delete_conversation workspace cid db =
     (case select_conversation workspace cid db of
        None \<Rightarrow> (False, db)
      | Some c \<Rightarrow> (True, \<lparr>db_conversations = filter (\<lambda>c. cv_id c \<noteq> cid) (db_conversations db),
                           db_messages = filter (\<lambda>m. mg_conversation m \<noteq> cid) (db_messages db)\<rparr>))"

definition get_assistant_by_request_id :: "uuid \<Rightarrow> uuid \<Rightarrow> uuid \<Rightarrow> chat_db \<Rightarrow> message_view option" where
  "get_assistant_by_request_id workspace cid request db =
     map_option message_view_of
       (find (\<lambda>m. mg_conversation m = cid \<and> mg_role m = RoleAssistant \<and> mg_request m = Some request
              \<and> in_workspace workspace db m) (db_messages db))"

definition get_message :: "uuid \<Rightarrow> uuid \<Rightarrow> chat_db \<Rightarrow> message_view option" where
  "get_message workspace mid db = map_option message_view_of (select_message workspace mid db)"

section \<open>History\<close>

definition execution_detail :: "tool_execution \<Rightarrow> pystr" where
  "execution_detail x =
     (let result = (case te_result x of PDict d \<Rightarrow> d | _ \<Rightarrow> [])
      in if py ''rows'' \<in> set (dict_keys result) then
           py ''columns='' @ py_str (dget result ''columns'') @ py '', row_count='' @ py_str (dget result ''row_count'')
         else if py ''table_name'' \<in> set (dict_keys result) then
           py ''table='' @ py_str (dget result ''table_name'')
         else if dget result ''kind'' = pstr ''chart'' then py ''chart_rendered=true''
         else if content_or [] (te_error x) \<noteq> [] then py ''error='' @ take 200 (content_or [] (te_error x))
         else py ''result=available'')"

definition history_step_summary :: "agent_step \<Rightarrow> pystr" where
  "history_step_summary s = py ''- step '' @ str_nat (as_step s) @ py '': ''
     @ join (py ''; '') (map (\<lambda>x. te_tool_name x @ py '': '' @ execution_detail x) (as_tool_executions s))"

definition history_content :: "message_view \<Rightarrow> pystr" where
  "history_content m =
     (let summaries = map history_step_summary (filter (\<lambda>s. as_tool_executions s \<noteq> []) (mv_steps m));
          parts = (if content_or [] (mv_content m) = [] then [] else [content_or [] (mv_content m)])
            @ (if summaries = [] then []
               else [[21382, 21490, 24037, 20855, 25191, 34892, 25688, 35201, 65306, 10] @ join [10] summaries])
      in take 6000 (join [10, 10] parts))"

text \<open>The loop over the messages from the newest back; the result is in that order.\<close>

fun select_history :: "nat \<Rightarrow> message_view list \<Rightarrow> chat_message list" where
  "select_history remaining [] = []"
| "select_history remaining (m # ms) =
     (if mv_role m \<noteq> RoleUser \<and> mv_role m \<noteq> RoleAssistant then select_history remaining ms
      else if history_content m = [] then select_history remaining ms
      else (let content = take remaining (history_content m)
            in if content = [] then []
               else message (mv_role m) (Some content)
                    # (if remaining - length content = 0 then []
                       else select_history (remaining - length content) ms)))"

text \<open>\<open>xs[-k:]\<close>, which for \<open>k = 0\<close> is the whole list.\<close>

definition last_slice :: "nat \<Rightarrow> 'a list \<Rightarrow> 'a list" where
  "last_slice k xs = (if k = 0 then xs else last_n k xs)"

definition get_history :: "nat \<Rightarrow> uuid \<Rightarrow> uuid \<Rightarrow> nat \<Rightarrow> chat_db \<Rightarrow> chat_message list" where
  "get_history char_budget workspace cid limit db =
     (case get_conversation workspace cid db of
        None \<Rightarrow> []
      | Some d \<Rightarrow> rev (select_history char_budget (rev (last_slice limit (cd_messages d)))))"

section \<open>The invariant of the tables\<close>

text \<open>The sequence numbers of a conversation's messages, in the order the rows were written.\<close>

definition numbers :: "uuid \<Rightarrow> message_row list \<Rightarrow> nat list" where
  "numbers cid ms = map mg_sequence (filter (\<lambda>m. mg_conversation m = cid) ms)"

text \<open>The request identifiers the messages carry.\<close>

definition requests :: "message_row list \<Rightarrow> uuid option list" where
  "requests ms = map mg_request (filter (\<lambda>m. mg_request m \<noteq> None) ms)"

definition store_ok :: "chat_db \<Rightarrow> bool" where
  "store_ok db \<longleftrightarrow> distinct (map cv_id (db_conversations db)) \<and> distinct (map mg_id (db_messages db))
     \<and> distinct (requests (db_messages db))
     \<and> (\<forall>m \<in> set (db_messages db). mg_conversation m \<in> cv_id ` set (db_conversations db))
     \<and> (\<forall>c \<in> set (db_conversations db). 1 \<le> cv_next_sequence c
          \<and> numbers (cv_id c) (db_messages db) = [1..<cv_next_sequence c])"

lemma store_okD:
  assumes "store_ok db"
  shows "distinct (map cv_id (db_conversations db))" "distinct (map mg_id (db_messages db))"
    "distinct (requests (db_messages db))"
    "m \<in> set (db_messages db) \<Longrightarrow> mg_conversation m \<in> cv_id ` set (db_conversations db)"
    "c \<in> set (db_conversations db) \<Longrightarrow> 1 \<le> cv_next_sequence c"
    "c \<in> set (db_conversations db) \<Longrightarrow> numbers (cv_id c) (db_messages db) = [1..<cv_next_sequence c]"
  using assms unfolding store_ok_def by blast+

lemma select_conversation_Some:
  "select_conversation w cid db = Some c \<Longrightarrow> c \<in> set (db_conversations db) \<and> cv_id c = cid \<and> cv_workspace c = w"
  by (auto simp: select_conversation_def own_conversation_def dest: find_some)

lemma conversation_unique:
  "store_ok db \<Longrightarrow> c \<in> set (db_conversations db) \<Longrightarrow> d \<in> set (db_conversations db) \<Longrightarrow> cv_id c = cv_id d \<Longrightarrow> c = d"
  by (rule inj_onD [of cv_id "set (db_conversations db)"]) (simp_all add: store_ok_def distinct_map)

lemma message_unique:
  "store_ok db \<Longrightarrow> m \<in> set (db_messages db) \<Longrightarrow> n \<in> set (db_messages db) \<Longrightarrow> mg_id m = mg_id n \<Longrightarrow> m = n"
  by (rule inj_onD [of mg_id "set (db_messages db)"]) (simp_all add: store_ok_def distinct_map)

lemma update_conversations_messages [simp]: "db_messages (update_conversations P f db) = db_messages db"
  by (simp add: update_conversations_def)

text \<open>An update of conversation rows that keeps identifiers and sequence counters keeps the invariant.\<close>

lemma store_ok_update:
  assumes ok: "store_ok db" and keep: "\<And>c. cv_id (f c) = cv_id c" "\<And>c. cv_next_sequence (f c) = cv_next_sequence c"
  shows "store_ok (update_conversations P f db)"
proof -
  have "map cv_id (db_conversations (update_conversations P f db)) = map cv_id (db_conversations db)"
    using keep by (simp add: update_conversations_def)
  moreover from this have "cv_id ` set (db_conversations (update_conversations P f db)) = cv_id ` set (db_conversations db)"
    by (metis set_map)
  moreover have "1 \<le> cv_next_sequence d \<and> numbers (cv_id d) (db_messages db) = [1..<cv_next_sequence d]"
    if "d \<in> set (db_conversations (update_conversations P f db))" for d
  proof -
    from that obtain c where "c \<in> set (db_conversations db)" "d = (if P c then f c else c)"
      by (auto simp: update_conversations_def)
    then show ?thesis using store_okD(5,6) [OF ok, of c] keep by simp
  qed
  ultimately show ?thesis using store_okD [OF ok] unfolding store_ok_def update_conversations_messages by simp
qed

lemma store_ok_create:
  assumes ok: "store_ok db"
  shows "store_ok (snd (create_conversation i now w t db))"
proof (cases "i \<in> set (map cv_id (db_conversations db))")
  case False
  then have "numbers i (db_messages db) = []"
    using store_okD(4) [OF ok] by (auto simp: numbers_def filter_empty_conv)
  with False ok show ?thesis by (auto simp: create_conversation_def store_ok_def Let_def)
qed (use ok in \<open>simp add: create_conversation_def\<close>)

lemma store_ok_archive: "store_ok db \<Longrightarrow> store_ok (snd (archive_conversation now w cid a db))"
  by (auto simp: archive_conversation_def intro!: store_ok_update split: option.split)

lemma requests_filter: "distinct (requests ms) \<Longrightarrow> distinct (requests (filter P ms))"
proof -
  assume "distinct (requests ms)"
  then have "distinct (map mg_request (filter P (filter (\<lambda>m. mg_request m \<noteq> None) ms)))"
    unfolding requests_def by (rule distinct_map_filter)
  then show ?thesis by (simp add: requests_def conj_commute)
qed

lemma store_ok_delete:
  assumes ok: "store_ok db"
  shows "store_ok (snd (delete_conversation w cid db))"
proof (cases "select_conversation w cid db")
  case (Some c)
  let ?cs = "filter (\<lambda>c. cv_id c \<noteq> cid) (db_conversations db)"
  let ?ms = "filter (\<lambda>m. mg_conversation m \<noteq> cid) (db_messages db)"
  have same: "numbers d ?ms = numbers d (db_messages db)" if "d \<noteq> cid" for d
    using that unfolding numbers_def filter_filter by (intro arg_cong [of _ _ "map mg_sequence"] filter_cong) auto
  have "store_ok \<lparr>db_conversations = ?cs, db_messages = ?ms\<rparr>"
    unfolding store_ok_def chat_db.simps
  proof (intro conjI ballI)
    show "distinct (map cv_id ?cs)" "distinct (map mg_id ?ms)" "distinct (requests ?ms)"
      using store_okD(1-3) [OF ok] by (simp_all add: distinct_map_filter requests_filter)
  next
    fix m assume "m \<in> set ?ms"
    then show "mg_conversation m \<in> cv_id ` set ?cs" using store_okD(4) [OF ok, of m] by auto
  next
    fix c assume "c \<in> set ?cs"
    then show "1 \<le> cv_next_sequence c" "numbers (cv_id c) ?ms = [1..<cv_next_sequence c]"
      using store_okD(5,6) [OF ok, of c] same [of "cv_id c"] by simp_all
  qed
  with Some show ?thesis by (simp add: delete_conversation_def)
qed (use ok in \<open>simp add: delete_conversation_def\<close>)

text \<open>So does a change of messages that keeps their identifier, place and request.\<close>

definition same_place :: "(message_row \<Rightarrow> message_row) \<Rightarrow> bool" where
  "same_place f \<longleftrightarrow> (\<forall>m. mg_id (f m) = mg_id m \<and> mg_conversation (f m) = mg_conversation m
     \<and> mg_sequence (f m) = mg_sequence m \<and> mg_request (f m) = mg_request m)"

lemma same_place_maps:
  assumes "same_place f"
  shows "map mg_id (map f ms) = map mg_id ms" "map mg_conversation (map f ms) = map mg_conversation ms"
    "requests (map f ms) = requests ms" "numbers cid (map f ms) = numbers cid ms"
  using assms by (auto simp: same_place_def requests_def numbers_def filter_map comp_def)

lemma store_ok_relabel:
  assumes ok: "store_ok db" and f: "same_place f"
  shows "store_ok (db\<lparr>db_messages := map f (db_messages db)\<rparr>)"
proof -
  have "mg_conversation ` set (map f (db_messages db)) = mg_conversation ` set (db_messages db)"
    using same_place_maps(2) [OF f, of "db_messages db"] by (metis set_map)
  then have fk: "mg_conversation m \<in> cv_id ` set (db_conversations db)" if "m \<in> set (map f (db_messages db))" for m
  proof -
    from that have "mg_conversation m \<in> mg_conversation ` set (map f (db_messages db))" by (rule imageI)
    with \<open>mg_conversation ` set (map f (db_messages db)) = _\<close>
    obtain n where "n \<in> set (db_messages db)" "mg_conversation m = mg_conversation n" by auto
    with store_okD(4) [OF ok, of n] show ?thesis by simp
  qed
  have sel: "db_conversations (db\<lparr>db_messages := ms\<rparr>) = db_conversations db" "db_messages (db\<lparr>db_messages := ms\<rparr>) = ms" for ms
    by simp_all
  show ?thesis
    unfolding store_ok_def sel same_place_maps [OF f]
    using store_okD(1-3) [OF ok] store_okD(5,6) [OF ok] fk by blast
qed

lemma store_ok_complete:
  assumes ok: "store_ok db"
  shows "store_ok (snd (complete_assistant_message column now w mid content status steps db))"
proof (cases "select_message w mid db")
  case (Some m)
  have "store_ok (update_conversations (own_conversation w (mg_conversation m)) (\<lambda>c. c\<lparr>cv_updated := now\<rparr>) db)"
    by (rule store_ok_update [OF ok]) simp_all
  from store_ok_relabel [OF this, of "\<lambda>x. if mg_id x = mid
      then x\<lparr>mg_content := content, mg_status := status, mg_steps := map column steps\<rparr> else x"]
  show ?thesis using ok Some by (simp add: complete_assistant_message_def same_place_def Let_def)
qed (use ok in \<open>simp add: complete_assistant_message_def\<close>)

text \<open>What a successful append does, and that under the invariant the sequence constraint never fires.\<close>

definition appended_title :: "chat_role \<Rightarrow> pystr option \<Rightarrow> conversation_row \<Rightarrow> pystr" where
  "appended_title role content c =
     (if role = RoleUser \<and> cv_title c = new_title \<and> content_or [] content \<noteq> []
      then take 40 (strip (content_or [] content)) else cv_title c)"

lemma append_message_cases:
  assumes ok: "store_ok db"
  obtains (missing) "select_conversation w cid db = None"
      "append_message i now w cid role content status calls request trace db
         = (Inl (key_error (py ''Conversation not found: '' @ str_uuid cid)), db)"
  | (clash) e where "append_message i now w cid role content status calls request trace db = (Inl e, db)"
      "exc_type e = py ''IntegrityError''"
      "i \<in> mg_id ` set (db_messages db) \<or> request \<noteq> None \<and> request \<in> mg_request ` set (db_messages db)"
  | (appended) c f m where "select_conversation w cid db = Some c"
      "\<And>c. cv_id (f c) = cv_id c" "\<And>c. cv_workspace (f c) = cv_workspace c"
      "\<And>c. cv_next_sequence (f c) = cv_next_sequence c + 1"
      "m = \<lparr>mg_id = i, mg_conversation = cid, mg_sequence = cv_next_sequence c, mg_role = role,
            mg_content = content, mg_status = status, mg_tool_calls = calls, mg_steps = [],
            mg_request = request, mg_trace = trace, mg_created = now\<rparr>"
      "i \<notin> mg_id ` set (db_messages db)" "request = None \<or> request \<notin> mg_request ` set (db_messages db)"
      "append_message i now w cid role content status calls request trace db
         = (Inr (message_view_of m),
            (update_conversations (own_conversation w cid) f db)\<lparr>db_messages := db_messages db @ [m]\<rparr>)"
proof (cases "select_conversation w cid db")
  case None
  then show thesis by (intro missing) (simp_all add: append_message_def)
next
  case (Some c)
  let ?call = "append_message i now w cid role content status calls request trace db"
  have c: "c \<in> set (db_conversations db)" "cv_id c = cid" using select_conversation_Some [OF Some] by auto
  have "cv_next_sequence c \<notin> set (numbers cid (db_messages db))"
    using store_okD(6) [OF ok c(1)] c(2) by simp
  then have fresh: "(cid, cv_next_sequence c) \<notin> set (map (\<lambda>m. (mg_conversation m, mg_sequence m)) (db_messages db))"
    by (auto simp: numbers_def)
  consider "i \<in> set (map mg_id (db_messages db))"
    | "i \<notin> set (map mg_id (db_messages db))" "request \<noteq> None" "request \<in> set (map mg_request (db_messages db))"
    | (free) "i \<notin> set (map mg_id (db_messages db))" "\<not> (request \<noteq> None \<and> request \<in> set (map mg_request (db_messages db)))"
    by blast
  then show thesis
  proof cases
    case 1
    with Some show thesis by (intro clash [of "Exc (py ''IntegrityError'') (py ''messages_pkey'')"])
      (auto simp: append_message_def Let_def)
  next
    case 2
    with Some show thesis by (intro clash [of "Exc (py ''IntegrityError'') (py ''uq_messages_request_id'')"])
      (auto simp: append_message_def Let_def)
  next
    case free
    show thesis
    proof (rule appended [OF Some _ _ _ refl])
      show "?call = (Inr (message_view_of \<lparr>mg_id = i, mg_conversation = cid, mg_sequence = cv_next_sequence c, mg_role = role,
            mg_content = content, mg_status = status, mg_tool_calls = calls, mg_steps = [],
            mg_request = request, mg_trace = trace, mg_created = now\<rparr>),
            (update_conversations (own_conversation w cid) (\<lambda>x. x\<lparr>cv_title := appended_title role content c, cv_updated := now,
               cv_next_sequence := cv_next_sequence x + 1\<rparr>) db)\<lparr>db_messages := db_messages db @ [\<lparr>mg_id = i, mg_conversation = cid, mg_sequence = cv_next_sequence c, mg_role = role,
            mg_content = content, mg_status = status, mg_tool_calls = calls, mg_steps = [],
            mg_request = request, mg_trace = trace, mg_created = now\<rparr>]\<rparr>)"
        using Some free fresh by (simp add: append_message_def appended_title_def Let_def del: set_map)
    qed (use free in auto)
  qed
qed

lemma store_ok_append:
  assumes ok: "store_ok db"
  shows "store_ok (snd (append_message i now w cid role content status calls request trace db))"
  using ok
proof (cases rule: append_message_cases [of db w cid i now role content status calls request trace])
  case (appended c f m)
  have c: "c \<in> set (db_conversations db)" "cv_id c = cid" "cv_workspace c = w"
    using select_conversation_Some [OF appended(1)] by auto
  let ?db1 = "update_conversations (own_conversation w cid) f db"
  have ids: "map cv_id (db_conversations ?db1) = map cv_id (db_conversations db)"
    using appended(2) by (simp add: update_conversations_def)
  have "store_ok (?db1\<lparr>db_messages := db_messages db @ [m]\<rparr>)"
    unfolding store_ok_def
  proof (intro conjI ballI)
    show "distinct (map cv_id (db_conversations (?db1\<lparr>db_messages := db_messages db @ [m]\<rparr>)))"
      using store_okD(1) [OF ok] ids by simp
    show "distinct (map mg_id (db_messages (?db1\<lparr>db_messages := db_messages db @ [m]\<rparr>)))"
      using store_okD(2) [OF ok] appended(5,6) by auto
    show "distinct (requests (db_messages (?db1\<lparr>db_messages := db_messages db @ [m]\<rparr>)))"
      using store_okD(3) [OF ok] appended(5,7) by (auto simp: requests_def)
  next
    fix x assume "x \<in> set (db_messages (?db1\<lparr>db_messages := db_messages db @ [m]\<rparr>))"
    then have "mg_conversation x \<in> set (map cv_id (db_conversations db))"
      using store_okD(4) [OF ok, of x] c appended(5) by auto
    then show "mg_conversation x \<in> cv_id ` set (db_conversations (?db1\<lparr>db_messages := db_messages db @ [m]\<rparr>))"
      unfolding ids [symmetric] by simp
  next
    fix d assume "d \<in> set (db_conversations (?db1\<lparr>db_messages := db_messages db @ [m]\<rparr>))"
    then obtain d0 where d0: "d0 \<in> set (db_conversations db)" "d = (if own_conversation w cid d0 then f d0 else d0)"
      by (auto simp: update_conversations_def)
    show "1 \<le> cv_next_sequence d" using store_okD(5) [OF ok d0(1)] d0(2) appended(4) by simp
    show "numbers (cv_id d) (db_messages (?db1\<lparr>db_messages := db_messages db @ [m]\<rparr>)) = [1..<cv_next_sequence d]"
    proof (cases "cv_id d0 = cid")
      case True
      then have "d0 = c" using conversation_unique [OF ok d0(1) c(1)] c(2) by simp
      then have "d = f c" using d0(2) c by (simp add: own_conversation_def)
      then show ?thesis
        using store_okD(5,6) [OF ok c(1)] c(2) appended(2,4,5) by (simp add: numbers_def)
    next
      case False
      then show ?thesis
        using store_okD(6) [OF ok d0(1)] d0(2) appended(5) by (simp add: numbers_def own_conversation_def)
    qed
  qed
  then show ?thesis unfolding appended(8) by simp
qed (use ok in simp_all)

section \<open>Sequences of operations\<close>

datatype store_op =
    CreateOp uuid int uuid pystr
  | AppendOp uuid int uuid uuid chat_role "pystr option" message_status "pyval list" "uuid option" "uuid option"
  | CompleteOp int uuid uuid "pystr option" message_status "agent_step list"
  | ArchiveOp int uuid uuid bool
  | DeleteOp uuid uuid

fun store_apply :: "(agent_step \<Rightarrow> agent_step) \<Rightarrow> store_op \<Rightarrow> chat_db \<Rightarrow> chat_db" where
  "store_apply column (CreateOp i now w title) db = snd (create_conversation i now w title db)"
| "store_apply column (AppendOp i now w cid role content status calls request trace) db =
     snd (append_message i now w cid role content status calls request trace db)"
| "store_apply column (CompleteOp now w mid content status steps) db =
     snd (complete_assistant_message column now w mid content status steps db)"
| "store_apply column (ArchiveOp now w cid archived) db = snd (archive_conversation now w cid archived db)"
| "store_apply column (DeleteOp w cid) db = snd (delete_conversation w cid db)"

fun op_workspace :: "store_op \<Rightarrow> uuid" where
  "op_workspace (CreateOp i now w title) = w"
| "op_workspace (AppendOp i now w cid role content status calls request trace) = w"
| "op_workspace (CompleteOp now w mid content status steps) = w"
| "op_workspace (ArchiveOp now w cid archived) = w"
| "op_workspace (DeleteOp w cid) = w"

definition empty_db :: chat_db where
  "empty_db = \<lparr>db_conversations = [], db_messages = []\<rparr>"

definition run_store :: "(agent_step \<Rightarrow> agent_step) \<Rightarrow> store_op list \<Rightarrow> chat_db \<Rightarrow> chat_db" where
  "run_store column ops db = fold (store_apply column) ops db"

lemma store_ok_apply: "store_ok db \<Longrightarrow> store_ok (store_apply column op db)"
  by (cases op) (simp_all add: store_ok_create store_ok_append store_ok_complete store_ok_archive store_ok_delete)

lemma store_ok_empty: "store_ok empty_db"
  by (simp add: store_ok_def empty_db_def requests_def)

text \<open>What one workspace can see of the tables.\<close>

definition workspace_view :: "uuid \<Rightarrow> chat_db \<Rightarrow> (conversation_row \<times> message_row list) list" where
  "workspace_view w db = map (\<lambda>c. (c, filter (\<lambda>m. mg_conversation m = cv_id c) (db_messages db)))
     (filter (\<lambda>c. cv_workspace c = w) (db_conversations db))"

lemma view_update:
  assumes "\<And>c. c \<in> set (db_conversations db) \<Longrightarrow> P c \<Longrightarrow> cv_workspace c \<noteq> w" "\<And>c. cv_workspace (f c) = cv_workspace c"
  shows "workspace_view w (update_conversations P f db) = workspace_view w db"
proof -
  have "filter (\<lambda>c. cv_workspace c = w) (map (\<lambda>c. if P c then f c else c) cs) = filter (\<lambda>c. cv_workspace c = w) cs"
    if "\<And>c. c \<in> set cs \<Longrightarrow> P c \<Longrightarrow> cv_workspace c \<noteq> w" for cs
    using that assms(2) by (induction cs) auto
  then show ?thesis using assms(1) by (simp add: workspace_view_def update_conversations_def)
qed

lemma view_messages:
  assumes "\<And>c. c \<in> set (db_conversations db) \<Longrightarrow> cv_workspace c = w \<Longrightarrow>
      filter (\<lambda>m. mg_conversation m = cv_id c) ms = filter (\<lambda>m. mg_conversation m = cv_id c) (db_messages db)"
  shows "workspace_view w (db\<lparr>db_messages := ms\<rparr>) = workspace_view w db"
  using assms by (simp add: workspace_view_def)

lemma get_conversation_view:
  "get_conversation w cid db = map_option (\<lambda>(c, ms). conversation_detail_of c (map message_view_of (sort_key mg_sequence ms)))
     (find (\<lambda>(c, ms). cv_id c = cid) (workspace_view w db))"
proof -
  have "map_option (\<lambda>c. conversation_detail_of c (map message_view_of (messages_of cid db))) (find (own_conversation w cid) cs)
     = map_option (\<lambda>(c, ms). conversation_detail_of c (map message_view_of (sort_key mg_sequence ms)))
     (find (\<lambda>(c, ms). cv_id c = cid) (map (\<lambda>c. (c, filter (\<lambda>m. mg_conversation m = cv_id c) (db_messages db)))
        (filter (\<lambda>c. cv_workspace c = w) cs)))" for cs
    by (induction cs) (auto simp: own_conversation_def messages_of_def)
  then show ?thesis by (simp add: get_conversation_def select_conversation_def workspace_view_def)
qed

lemma list_conversations_view:
  assumes "workspace_view w db = workspace_view w db'"
  shows "list_conversations ilike w limit offset query archived db = list_conversations ilike w limit offset query archived db'"
proof -
  let ?own = "\<lambda>d. filter (\<lambda>c. cv_workspace c = w) (db_conversations d)"
  let ?hit = "\<lambda>c. (archived \<or> cv_archived c = None) \<and> (content_or [] query = [] \<or>
      ilike (cv_title c) (py ''%'' @ strip (content_or [] query) @ py ''%''))"
  let ?n = "\<lambda>d c. length (filter (\<lambda>m. mg_conversation m = cv_id c) (db_messages d))"
  have fst: "map fst (workspace_view w d) = ?own d" for d by (simp add: workspace_view_def comp_def)
  have own: "?own db = ?own db'" using fst [of db] fst [of db'] assms by simp
  have cnt: "map (\<lambda>x. length (snd x)) (workspace_view w d) = map (?n d) (?own d)" for d
    by (simp add: workspace_view_def)
  have "map (?n db) (?own db) = map (?n db') (?own db)"
    using cnt [of db] cnt [of db'] unfolding own [symmetric] assms by simp
  then have n: "?n db c = ?n db' c" if "c \<in> set (?own db)" for c
    using that unfolding map_eq_conv by (rule bspec)
  have rows: "filter (\<lambda>c. cv_workspace c = w \<and> ?hit c) (db_conversations d) = filter ?hit (?own d)" for d
    unfolding filter_filter by (rule filter_cong) auto
  have page: "c \<in> set (?own db)" if "c \<in> set (take limit (drop offset (sort_key (\<lambda>c. - cv_updated c) (filter ?hit (?own db)))))" for c
  proof -
    from that have "c \<in> set (sort_key (\<lambda>c. - cv_updated c) (filter ?hit (?own db)))"
      by (rule in_set_dropD [OF in_set_takeD])
    then show ?thesis by simp
  qed
  have "map (\<lambda>c. \<lparr>cs_id = cv_id c, cs_title = cv_title c, cs_message_count = ?n db c, cs_created = cv_created c,
      cs_updated = cv_updated c, cs_archived = cv_archived c\<rparr>)
      (take limit (drop offset (sort_key (\<lambda>c. - cv_updated c) (filter ?hit (?own db)))))
    = map (\<lambda>c. \<lparr>cs_id = cv_id c, cs_title = cv_title c, cs_message_count = ?n db' c, cs_created = cv_created c,
      cs_updated = cv_updated c, cs_archived = cv_archived c\<rparr>)
      (take limit (drop offset (sort_key (\<lambda>c. - cv_updated c) (filter ?hit (?own db)))))"
    by (rule map_cong [OF refl]) (simp only: n [OF page])
  then show ?thesis unfolding list_conversations_def Let_def rows own [symmetric] by (simp only:)
qed

text \<open>With unique message identifiers the lookup by identifier is a lookup in the view.\<close>

lemma select_message_view:
  assumes "store_ok db"
  shows "select_message w mid db = find (\<lambda>m. mg_id m = mid) (concat (map snd (workspace_view w db)))"
proof -
  let ?ms = "concat (map snd (workspace_view w db))"
  have inw: "in_workspace w db m \<longleftrightarrow> (\<exists>c \<in> set (db_conversations db). cv_id c = mg_conversation m \<and> cv_workspace c = w)" for m
    by (auto simp: in_workspace_def select_conversation_def own_conversation_def find_None_iff)
  then have mem: "m \<in> set ?ms \<longleftrightarrow> m \<in> set (db_messages db) \<and> in_workspace w db m" for m
    by (auto simp: workspace_view_def)
  have uniq: "m = n" if "m \<in> set (db_messages db)" "n \<in> set (db_messages db)" "mg_id m = mg_id n" for m n
    using message_unique [OF assms] that by blast
  show ?thesis
  proof (cases "\<exists>m. m \<in> set ?ms \<and> mg_id m = mid")
    case True
    then obtain m where m: "m \<in> set ?ms" "mg_id m = mid" by blast
    have "select_message w mid db = Some m" unfolding select_message_def
      by (rule find_unique) (use m mem uniq in auto)
    moreover have "find (\<lambda>m. mg_id m = mid) ?ms = Some m" by (rule find_unique) (use m mem uniq in auto)
    ultimately show ?thesis by simp
  next
    case False
    then have "find (\<lambda>m. mg_id m = mid) ?ms = None" unfolding find_None_iff by blast
    moreover have "select_message w mid db = None" using False mem unfolding select_message_def find_None_iff by blast
    ultimately show ?thesis by simp
  qed
qed

lemma filter_messages_map:
  assumes "\<And>m. m \<in> set ms \<Longrightarrow> P m \<Longrightarrow> f m = m" "\<And>m. P (f m) = P m"
  shows "filter P (map f ms) = filter P ms"
  using assms by (induction ms) auto

lemma workspace_view_apply:
  assumes ok: "store_ok db" and other: "op_workspace op \<noteq> w"
  shows "workspace_view w (store_apply column op db) = workspace_view w db"
proof (cases op)
  case (CreateOp i now v title)
  with ok other show ?thesis
    by (auto simp: create_conversation_def workspace_view_def Let_def)
next
  case (AppendOp i now v cid role content status calls request trace)
  from ok show ?thesis
  proof (cases rule: append_message_cases [of db v cid i now role content status calls request trace])
    case (appended c f m)
    let ?db1 = "update_conversations (own_conversation v cid) f db"
    have c: "c \<in> set (db_conversations db)" "cv_id c = cid" "cv_workspace c = v"
      using select_conversation_Some [OF appended(1)] by auto
    have 1: "workspace_view w ?db1 = workspace_view w db"
      by (rule view_update) (use other AppendOp appended(3) in \<open>auto simp: own_conversation_def\<close>)
    have "workspace_view w (?db1\<lparr>db_messages := db_messages ?db1 @ [m]\<rparr>) = workspace_view w ?db1"
    proof (rule view_messages)
      fix d assume d: "d \<in> set (db_conversations ?db1)" "cv_workspace d = w"
      then obtain d0 where d0: "d0 \<in> set (db_conversations db)" "d = (if own_conversation v cid d0 then f d0 else d0)"
        by (auto simp: update_conversations_def)
      have "cv_id d \<noteq> cid"
      proof
        assume "cv_id d = cid"
        then have "d0 = c" using conversation_unique [OF ok d0(1) c(1)] d0(2) c(2) appended(2) by (auto split: if_splits)
        then show False using d d0(2) c(3) appended(3) other AppendOp by (auto split: if_splits)
      qed
      then show "filter (\<lambda>x. mg_conversation x = cv_id d) (db_messages ?db1 @ [m])
          = filter (\<lambda>x. mg_conversation x = cv_id d) (db_messages ?db1)" using appended(5) by simp
    qed
    with 1 AppendOp appended(8) show ?thesis by simp
  qed (use AppendOp in simp_all)
next
  case (CompleteOp now v mid content status steps)
  show ?thesis
  proof (cases "select_message v mid db")
    case (Some m)
    let ?f = "\<lambda>x. if mg_id x = mid then x\<lparr>mg_content := content, mg_status := status, mg_steps := map column steps\<rparr> else x"
    let ?db1 = "update_conversations (own_conversation v (mg_conversation m)) (\<lambda>c. c\<lparr>cv_updated := now\<rparr>) db"
    have m: "m \<in> set (db_messages db)" "mg_id m = mid" "in_workspace v db m"
      using find_some [OF Some [unfolded select_message_def]] by auto
    then obtain c where c: "c \<in> set (db_conversations db)" "cv_id c = mg_conversation m" "cv_workspace c = v"
      by (auto simp: in_workspace_def dest: select_conversation_Some)
    have uniq: "x = m" if "x \<in> set (db_messages db)" "mg_id x = mid" for x
      using message_unique [OF ok that(1) m(1)] that(2) m(2) by simp
    have 1: "workspace_view w ?db1 = workspace_view w db"
      by (rule view_update) (use other CompleteOp in \<open>auto simp: own_conversation_def\<close>)
    have "workspace_view w (?db1\<lparr>db_messages := map ?f (db_messages ?db1)\<rparr>) = workspace_view w ?db1"
    proof (rule view_messages)
      fix d assume d: "d \<in> set (db_conversations ?db1)" "cv_workspace d = w"
      then obtain d0 where d0: "d0 \<in> set (db_conversations db)" "cv_id d = cv_id d0" "cv_workspace d0 = w"
        by (auto simp: update_conversations_def split: if_splits)
      have "cv_id d \<noteq> mg_conversation m"
        using conversation_unique [OF ok d0(1) c(1)] d0 c other CompleteOp by auto
      then show "filter (\<lambda>x. mg_conversation x = cv_id d) (map ?f (db_messages ?db1))
          = filter (\<lambda>x. mg_conversation x = cv_id d) (db_messages ?db1)"
        by (intro filter_messages_map) (auto dest: uniq)
    qed
    with 1 CompleteOp Some show ?thesis by (simp add: complete_assistant_message_def Let_def)
  qed (use CompleteOp in \<open>simp add: complete_assistant_message_def\<close>)
next
  case (ArchiveOp now v cid a)
  then show ?thesis using other
    by (auto simp: archive_conversation_def own_conversation_def intro!: view_update split: option.split)
next
  case (DeleteOp v cid)
  show ?thesis
  proof (cases "select_conversation v cid db")
    case (Some c)
    have c: "c \<in> set (db_conversations db)" "cv_id c = cid" "cv_workspace c = v"
      using select_conversation_Some [OF Some] by auto
    have keep: "cv_id d \<noteq> cid" if "d \<in> set (db_conversations db)" "cv_workspace d = w" for d
      using conversation_unique [OF ok that(1) c(1)] c that(2) other DeleteOp by auto
    then have "filter (\<lambda>c. cv_id c \<noteq> cid \<and> cv_workspace c = w) (db_conversations db)
        = filter (\<lambda>c. cv_workspace c = w) (db_conversations db)" by (intro filter_cong) auto
    moreover have "filter (\<lambda>m. mg_conversation m \<noteq> cid \<and> mg_conversation m = cv_id d) (db_messages db)
        = filter (\<lambda>m. mg_conversation m = cv_id d) (db_messages db)"
      if "d \<in> set (db_conversations db)" "cv_workspace d = w" for d
      using keep [OF that] by (intro filter_cong) auto
    ultimately show ?thesis using DeleteOp Some
      by (simp add: delete_conversation_def workspace_view_def)
  qed (use DeleteOp in \<open>simp add: delete_conversation_def\<close>)
qed

interpretation chat_scope: workspace_scope "store_apply column" "\<lambda>db op. Some (op_workspace op)" store_ok workspace_view for column
  by unfold_locales (simp_all add: store_ok_apply workspace_view_apply)

lemma store_ok_run: "store_ok db \<Longrightarrow> store_ok (run_store column ops db)"
  unfolding run_store_def by (rule chat_scope.run_inv)

lemma store_ok_isolated:
  assumes "store_ok db" and "list_all (\<lambda>op. op_workspace op \<noteq> w) ops"
  shows "workspace_view w (run_store column ops db) = workspace_view w db"
  unfolding run_store_def using chat_scope.run_others [OF assms(1)] assms(2) unfolding by_others_fixed .

text \<open>
  C5.  Workspaces are isolated: whatever sequence of operations other workspaces issue, with
  whatever identifiers, a workspace reads the same conversation, message and page of
  conversations afterwards as before.
\<close>

theorem workspaces_isolated:
  assumes "store_ok db" and "list_all (\<lambda>op. op_workspace op \<noteq> w) ops" and "db' = run_store column ops db"
  shows "get_conversation w cid db' = get_conversation w cid db \<and> get_message w mid db' = get_message w mid db
    \<and> list_conversations ilike w limit offset query archived db' = list_conversations ilike w limit offset query archived db"
proof (intro conjI)
  have same: "workspace_view w db' = workspace_view w db"
    using store_ok_isolated [OF assms(1,2)] assms(3) by simp
  have ok: "store_ok db'" using store_ok_run [OF assms(1)] assms(3) by simp
  show "get_conversation w cid db' = get_conversation w cid db" by (simp add: get_conversation_view same)
  show "get_message w mid db' = get_message w mid db"
    by (simp add: get_message_def select_message_view [OF ok] select_message_view [OF assms(1)] same)
  show "list_conversations ilike w limit offset query archived db' = list_conversations ilike w limit offset query archived db"
    by (rule list_conversations_view [OF same])
qed

theorem workspaces_isolated_witness:
  "get_conversation 1 5 (run_store (\<lambda>s. s) [DeleteOp 2 5, ArchiveOp 9 2 5 True] (run_store (\<lambda>s. s) [CreateOp 5 0 1 []] empty_db)) \<noteq> None"
proof -
  let ?db = "run_store (\<lambda>s. s) [CreateOp 5 0 1 []] empty_db"
  have "store_ok ?db" by (rule store_ok_run [OF store_ok_empty])
  from workspaces_isolated [OF this, of 1 "[DeleteOp 2 5, ArchiveOp 9 2 5 True]", OF _ refl]
  have "get_conversation 1 5 (run_store (\<lambda>s. s) [DeleteOp 2 5, ArchiveOp 9 2 5 True] ?db) = get_conversation 1 5 ?db"
    by simp
  moreover have "get_conversation 1 5 ?db \<noteq> None"
    by (simp add: run_store_def empty_db_def create_conversation_def get_conversation_def select_conversation_def
        own_conversation_def Let_def)
  ultimately show ?thesis by simp
qed

end
