(* ===== verification/Chat_Store_Properties.thy ===== *)
theory Chat_Store_Properties
  imports Chat_Store Agent_Requests "HOL-Library.Sublist"
begin

text \<open>
  What the conversation store promises its clients: numbered messages, and a history within its
  bounds that the agent can be started from.
\<close>

section \<open>Numbering\<close>

lemma messages_of_filter:
  assumes "store_ok db" and "select_conversation w cid db = Some c"
  shows "messages_of cid db = filter (\<lambda>m. mg_conversation m = cid) (db_messages db)"
    and "map mg_sequence (messages_of cid db) = [1..<cv_next_sequence c]"
proof -
  have c: "c \<in> set (db_conversations db)" "cv_id c = cid" using select_conversation_Some [OF assms(2)] by auto
  have n: "map mg_sequence (filter (\<lambda>m. mg_conversation m = cid) (db_messages db)) = [1..<cv_next_sequence c]"
    using store_okD(6) [OF assms(1) c(1)] c(2) by (simp add: numbers_def)
  then have "sorted (map mg_sequence (filter (\<lambda>m. mg_conversation m = cid) (db_messages db)))" by simp
  then show 1: "messages_of cid db = filter (\<lambda>m. mg_conversation m = cid) (db_messages db)"
    unfolding messages_of_def by (rule sort_key_id_if_sorted)
  show "map mg_sequence (messages_of cid db) = [1..<cv_next_sequence c]" unfolding 1 by (rule n)
qed

lemma select_message_own:
  assumes "store_ok db" and "m \<in> set (db_messages db)" and "select_conversation w (mg_conversation m) db \<noteq> None"
  shows "select_message w (mg_id m) db = Some m"
  unfolding select_message_def
  by (rule find_unique) (use assms message_unique in \<open>auto simp: in_workspace_def\<close>)

text \<open>
  C26.  Messages are numbered without gaps: after any sequence of operations the messages of a
  conversation carry the numbers 1, 2, ... up to their count; appending with a fresh identifier
  (and a request identifier not used yet) always succeeds, adds the message at the end under the
  next number, and the message can be read back.
\<close>

theorem messages_numbered:
  assumes "db = run_store column ops empty_db" and "select_conversation w cid db = Some c"
    and "i \<notin> mg_id ` set (db_messages db)" and "request = None \<or> request \<notin> mg_request ` set (db_messages db)"
  shows "map mg_sequence (messages_of cid db) = [1..<Suc (length (messages_of cid db))]
    \<and> (\<exists>m db'. append_message i now w cid role content status calls request trace db = (Inr (message_view_of m), db')
         \<and> messages_of cid db' = messages_of cid db @ [m] \<and> mg_sequence m = Suc (length (messages_of cid db))
         \<and> mg_content m = content \<and> get_message w i db' = Some (message_view_of m))"
proof -
  have ok: "store_ok db" unfolding assms(1) by (rule store_ok_run [OF store_ok_empty])
  note ms = messages_of_filter [OF ok assms(2)]
  have len: "length (messages_of cid db) = cv_next_sequence c - 1"
    using arg_cong [OF ms(2), of length] by simp
  have c: "c \<in> set (db_conversations db)" using select_conversation_Some [OF assms(2)] by simp
  have next_eq: "cv_next_sequence c = Suc (length (messages_of cid db))"
    using len store_okD(5) [OF ok c] by simp
  obtain f m where m: "m = \<lparr>mg_id = i, mg_conversation = cid, mg_sequence = cv_next_sequence c, mg_role = role,
      mg_content = content, mg_status = status, mg_tool_calls = calls, mg_steps = [], mg_request = request,
      mg_trace = trace, mg_created = now\<rparr>"
    and f: "\<And>c. cv_id (f c) = cv_id c" "\<And>c. cv_workspace (f c) = cv_workspace c"
    and run: "append_message i now w cid role content status calls request trace db
      = (Inr (message_view_of m), (update_conversations (own_conversation w cid) f db)\<lparr>db_messages := db_messages db @ [m]\<rparr>)"
    by (rule append_message_cases [OF ok, of w cid i now role content status calls request trace])
      (use assms(2-4) in auto)
  let ?db = "(update_conversations (own_conversation w cid) f db)\<lparr>db_messages := db_messages db @ [m]\<rparr>"
  have ok': "store_ok ?db"
    using store_ok_append [OF ok, of i now w cid role content status calls request trace] run by simp
  have sel: "select_conversation w cid ?db \<noteq> None"
  proof -
    have "f c \<in> set (db_conversations ?db)" "own_conversation w cid (f c)"
      using select_conversation_Some [OF assms(2)] f c by (auto simp: own_conversation_def update_conversations_def)
    then show ?thesis by (auto simp: select_conversation_def find_None_iff)
  qed
  then obtain c' where c': "select_conversation w cid ?db = Some c'" by blast
  have "messages_of cid ?db = messages_of cid db @ [m]"
    unfolding messages_of_filter(1) [OF ok' c'] ms(1) by (simp add: m)
  moreover have "get_message w i ?db = Some (message_view_of m)"
    using select_message_own [OF ok', of m w] sel by (simp add: get_message_def m)
  ultimately show ?thesis using run ms(2) next_eq by (intro conjI exI [of _ m] exI [of _ ?db]) (auto simp: m)
qed

theorem messages_numbered_witness:
  "\<exists>m db'. append_message 6 3 1 5 RoleUser (Some (py ''hi'')) MsgCompleted [] None None
      (run_store (\<lambda>s. s) [CreateOp 5 0 1 []] empty_db) = (Inr (message_view_of m), db') \<and> mg_sequence m = 1"
proof -
  let ?db = "run_store (\<lambda>s. s) [CreateOp 5 0 1 []] empty_db"
  have db: "?db = \<lparr>db_conversations = [\<lparr>cv_id = 5, cv_workspace = 1, cv_title = [], cv_created = 0, cv_updated = 0,
      cv_next_sequence = 1, cv_archived = None\<rparr>], db_messages = []\<rparr>"
    by (simp add: run_store_def empty_db_def create_conversation_def Let_def)
  then have "select_conversation 1 5 ?db = Some \<lparr>cv_id = 5, cv_workspace = 1, cv_title = [], cv_created = 0, cv_updated = 0,
      cv_next_sequence = 1, cv_archived = None\<rparr>"
    by (simp add: select_conversation_def own_conversation_def)
  from messages_numbered [OF refl this, of 6 None 3 RoleUser "Some (py ''hi'')" MsgCompleted "[]" None]
  obtain m db' where "append_message 6 3 1 5 RoleUser (Some (py ''hi'')) MsgCompleted [] None None ?db = (Inr (message_view_of m), db')"
    "mg_sequence m = Suc (length (messages_of 5 ?db))" unfolding db by auto
  moreover have "messages_of 5 ?db = []" unfolding db by (simp add: messages_of_def)
  ultimately show ?thesis by auto
qed

section \<open>History\<close>

text \<open>The messages that can enter a history at all, and the history if there were no budget.\<close>

definition tellable :: "message_view \<Rightarrow> bool" where
  "tellable v \<longleftrightarrow> (mv_role v = RoleUser \<or> mv_role v = RoleAssistant) \<and> history_content v \<noteq> []"

definition whole_entry :: "message_view \<Rightarrow> chat_message" where
  "whole_entry v = message (mv_role v) (Some (history_content v))"

definition cut_entry :: "nat \<Rightarrow> message_view \<Rightarrow> chat_message" where
  "cut_entry k v = message (mv_role v) (Some (take k (history_content v)))"

text \<open>Newest first: the selection is whole entries, the last of which may be cut.\<close>

lemma select_history_split:
  "\<exists>vs rest. filter tellable ms = vs @ rest
     \<and> (select_history r ms = map whole_entry vs \<and> total_chars (map whole_entry vs) \<le> r \<and> (rest = [] \<or> total_chars (map whole_entry vs) = r)
        \<or> (\<exists>v k rest'. rest = v # rest' \<and> 0 < k \<and> k < length (history_content v)
             \<and> select_history r ms = map whole_entry vs @ [cut_entry k v]
             \<and> total_chars (map whole_entry vs) + k = r))"
proof (induction r ms rule: select_history.induct)
  case (1 r)
  then show ?case by (simp add: total_chars_def)
next
  case (2 r m ms)
  let ?c = "history_content m"
  show ?case
  proof (cases "tellable m")
    case False
    then have "select_history r (m # ms) = select_history r ms" "filter tellable (m # ms) = filter tellable ms"
      by (auto simp: tellable_def)
    with False 2(1,2) show ?thesis by (auto simp: tellable_def)
  next
    case True
    then have t: "mv_role m = RoleUser \<or> mv_role m = RoleAssistant" "?c \<noteq> []" by (auto simp: tellable_def)
    consider "r = 0" | "0 < r" "r < length ?c" | "r = length ?c" | "length ?c < r" by linarith
    then show ?thesis
    proof cases
      case 1
      then have "select_history r (m # ms) = []" using t by auto
      with 1 show ?thesis by (intro exI [of _ "[]"] exI [of _ "filter tellable (m # ms)"]) (simp add: total_chars_def)
    next
      case 2
      then have "select_history r (m # ms) = [cut_entry r m]" using t by (auto simp: cut_entry_def)
      with 2 True show ?thesis
        by (intro exI [of _ "[]"] exI [of _ "filter tellable (m # ms)"]) (auto simp: total_chars_def)
    next
      case 3
      then have "select_history r (m # ms) = [whole_entry m]" using t by (auto simp: whole_entry_def)
      with 3 True show ?thesis
        by (intro exI [of _ "[m]"] exI [of _ "filter tellable ms"])
          (simp add: total_chars_def whole_entry_def content_or_def message_def)
    next
      case 4
      then have cons: "select_history r (m # ms) = whole_entry m # select_history (r - length ?c) ms"
        using t by (auto simp: whole_entry_def Let_def)
      have tot: "total_chars (whole_entry m # xs) = length ?c + total_chars xs" for xs
        by (simp add: total_chars_def whole_entry_def content_or_def message_def)
      have IH: "\<exists>vs rest. filter tellable ms = vs @ rest
       \<and> (select_history (r - length ?c) ms = map whole_entry vs \<and> total_chars (map whole_entry vs) \<le> r - length ?c \<and> (rest = [] \<or> total_chars (map whole_entry vs) = r - length ?c)
        \<or> (\<exists>v k rest'. rest = v # rest' \<and> 0 < k \<and> k < length (history_content v)
             \<and> select_history (r - length ?c) ms = map whole_entry vs @ [cut_entry k v]
             \<and> total_chars (map whole_entry vs) + k = r - length ?c))"
        using 2(3) t 4 by auto
      then obtain vs rest where vs: "filter tellable ms = vs @ rest" and
        sel: "select_history (r - length ?c) ms = map whole_entry vs \<and> total_chars (map whole_entry vs) \<le> r - length ?c \<and> (rest = [] \<or> total_chars (map whole_entry vs) = r - length ?c)
        \<or> (\<exists>v k rest'. rest = v # rest' \<and> 0 < k \<and> k < length (history_content v)
             \<and> select_history (r - length ?c) ms = map whole_entry vs @ [cut_entry k v]
             \<and> total_chars (map whole_entry vs) + k = r - length ?c)" by blast
      have eq: "filter tellable (m # ms) = (m # vs) @ rest" using True vs by simp
      from sel show ?thesis
      proof
        assume "select_history (r - length ?c) ms = map whole_entry vs \<and> total_chars (map whole_entry vs) \<le> r - length ?c
          \<and> (rest = [] \<or> total_chars (map whole_entry vs) = r - length ?c)"
        then have "select_history r (m # ms) = map whole_entry (m # vs)" "total_chars (map whole_entry (m # vs)) \<le> r"
          "rest = [] \<or> total_chars (map whole_entry (m # vs)) = r" using cons tot 4 by auto
        with eq show ?thesis by blast
      next
        assume "\<exists>v k rest'. rest = v # rest' \<and> 0 < k \<and> k < length (history_content v)
             \<and> select_history (r - length ?c) ms = map whole_entry vs @ [cut_entry k v]
             \<and> total_chars (map whole_entry vs) + k = r - length ?c"
        then obtain v k rest' where cut: "rest = v # rest'" "0 < k" "k < length (history_content v)"
          "select_history (r - length ?c) ms = map whole_entry vs @ [cut_entry k v]"
          "total_chars (map whole_entry vs) + k = r - length ?c" by blast
        have "select_history r (m # ms) = map whole_entry (m # vs) @ [cut_entry k v]"
          "total_chars (map whole_entry (m # vs)) + k = r" using cons cut(4,5) tot 4 by simp_all
        with cut(1-3) eq show ?thesis by blast
      qed
    qed
  qed
qed

lemma total_chars_append: "total_chars (xs @ ys) = total_chars xs + total_chars ys"
  by (simp add: total_chars_def)

lemma total_chars_rev: "total_chars (rev xs) = total_chars xs"
  by (simp add: total_chars_def rev_map [symmetric])

lemma total_chars_cut: "k < length (history_content v) \<Longrightarrow> total_chars [cut_entry k v] = k"
  by (auto simp: total_chars_def cut_entry_def content_or_def message_def)

lemma history_content_length: "length (history_content v) \<le> 6000"
  by (simp add: history_content_def Let_def)

lemma entry_ok:
  assumes "tellable v"
  shows "conversation_ok [whole_entry v]" "conversation_ok [cut_entry k v]"
    "length (content_text (whole_entry v)) \<le> 6000" "length (content_text (cut_entry k v)) \<le> 6000"
  using assms history_content_length [of v]
  by (auto simp: tellable_def whole_entry_def cut_entry_def content_or_def)

lemma entries_ok:
  assumes "\<forall>v \<in> set vs. tellable v"
  shows "conversation_ok (map whole_entry vs)" "list_all (\<lambda>m. length (content_text m) \<le> 6000) (map whole_entry vs)"
proof -
  show "conversation_ok (map whole_entry vs)" using assms
  proof (induction vs)
    case (Cons v vs)
    then show ?case using conversation_ok_append [OF entry_ok(1) [of v], of "map whole_entry vs"] by simp
  qed (simp add: conversation_ok_def tool_texts_ok_def)
  show "list_all (\<lambda>m. length (content_text m) \<le> 6000) (map whole_entry vs)"
    using assms entry_ok(3) by (auto simp: list_all_iff)
qed

definition stored_messages :: "uuid \<Rightarrow> uuid \<Rightarrow> chat_db \<Rightarrow> message_view list" where
  "stored_messages w cid db = (case get_conversation w cid db of None \<Rightarrow> [] | Some d \<Rightarrow> cd_messages d)"

lemma get_history_select:
  "get_history r w cid limit db = rev (select_history r (rev (last_slice limit (stored_messages w cid db))))"
  by (simp add: get_history_def stored_messages_def last_slice_def last_n_def split: option.split)

text \<open>
  C27.  The history given to the agent is the newest part of the conversation that fits: its texts
  have at most the budget's characters together and 6000 each, there are at most \<open>limit\<close> of
  them, and it consists of the newest user and assistant messages, in order and whole, up to the
  point where the budget is used up, which may cut the oldest one.  It is a well-formed history
  for the agent.
\<close>

theorem history_is_recent:
  "let h = get_history budget w cid limit db;
       recent = filter tellable (rev (last_slice limit (stored_messages w cid db)))
   in total_chars h \<le> budget \<and> list_all (\<lambda>m. length (content_text m) \<le> 6000) h \<and> conversation_ok h
     \<and> (limit = 0 \<or> length h \<le> limit)
     \<and> (\<exists>vs rest. recent = vs @ rest
          \<and> (h = rev (map whole_entry vs) \<and> (rest = [] \<or> total_chars h = budget)
             \<or> (\<exists>v k rest'. rest = v # rest' \<and> 0 < k \<and> k < length (history_content v)
                  \<and> h = cut_entry k v # rev (map whole_entry vs) \<and> total_chars h = budget)))"
proof -
  define ms where "ms = rev (last_slice limit (stored_messages w cid db))"
  have h: "get_history budget w cid limit db = rev (select_history budget ms)"
    by (simp add: get_history_select ms_def)
  obtain vs rest where vs: "filter tellable ms = vs @ rest" and
    sel: "select_history budget ms = map whole_entry vs \<and> total_chars (map whole_entry vs) \<le> budget
        \<and> (rest = [] \<or> total_chars (map whole_entry vs) = budget)
      \<or> (\<exists>v k rest'. rest = v # rest' \<and> 0 < k \<and> k < length (history_content v)
           \<and> select_history budget ms = map whole_entry vs @ [cut_entry k v]
           \<and> total_chars (map whole_entry vs) + k = budget)"
    using select_history_split [of ms budget] by blast
  have all: "\<forall>v \<in> set (vs @ rest). tellable v" unfolding vs [symmetric] by simp
  have len: "length (filter tellable ms) \<le> length ms" by simp
  have lim: "limit = 0 \<or> length ms \<le> limit" 
    by (simp add: ms_def last_slice_def last_n_def) linarith
  from sel show ?thesis
  proof
    assume s: "select_history budget ms = map whole_entry vs \<and> total_chars (map whole_entry vs) \<le> budget
        \<and> (rest = [] \<or> total_chars (map whole_entry vs) = budget)"
    have "conversation_ok (rev (map whole_entry vs))" "list_all (\<lambda>m. length (content_text m) \<le> 6000) (rev (map whole_entry vs))"
      using entries_ok [of "rev vs"] all by (auto simp: rev_map)
    then show ?thesis using s vs lim len
      unfolding Let_def h ms_def [symmetric] by (auto simp: total_chars_rev)
  next
    assume "\<exists>v k rest'. rest = v # rest' \<and> 0 < k \<and> k < length (history_content v)
           \<and> select_history budget ms = map whole_entry vs @ [cut_entry k v]
           \<and> total_chars (map whole_entry vs) + k = budget"
    then obtain v k rest' where s: "rest = v # rest'" "0 < k" "k < length (history_content v)"
      "select_history budget ms = map whole_entry vs @ [cut_entry k v]" "total_chars (map whole_entry vs) + k = budget" by blast
    have h': "rev (select_history budget ms) = cut_entry k v # rev (map whole_entry vs)" using s(4) by simp
    have tot: "total_chars (cut_entry k v # rev (map whole_entry vs)) = budget"
      using total_chars_append [of "[cut_entry k v]" "rev (map whole_entry vs)"] total_chars_cut [OF s(3)] s(5)
      by (simp add: total_chars_rev)
    have "conversation_ok ([cut_entry k v] @ rev (map whole_entry vs))"
      using all s(1) entries_ok(1) [of "rev vs"] by (intro conversation_ok_append entry_ok(2)) (auto simp: rev_map)
    moreover have "list_all (\<lambda>m. length (content_text m) \<le> 6000) (cut_entry k v # rev (map whole_entry vs))"
      using all s(1) entries_ok(2) [of "rev vs"] entry_ok(4) by (auto simp: rev_map)
    moreover have "length (cut_entry k v # rev (map whole_entry vs)) \<le> length ms" using len vs s(1) by simp
    ultimately show ?thesis using s(1-3) vs lim tot
      unfolding Let_def h ms_def [symmetric] h' by auto
  qed
qed

end
