(* ===== verification/Chat_Routes.thy ===== *)
theory Chat_Routes
  imports Chat_Store_Properties Chat_Tasks
begin

text \<open>
  \<open>app/api/routes/conversations.py\<close>: the HTTP operations on conversations over the store, the
  task table and the event broker.

  A request is one transition: the values it draws (identifiers, the time) are arguments, the
  tasks it starts are recorded as launches.  The response of a streamed message is a generator;
  it is run over a list of turns, each giving the client's connection and the broker at the
  moment the generator looks at them.
\<close>

datatype route_error = HttpError nat pystr | Unprocessable | Crash py_exc

type_synonym 'a route = "route_error + 'a"

text \<open>What a started worker is given.\<close>

record launch =
  ln_message :: uuid
  ln_workspace :: uuid
  ln_conversation :: uuid
  ln_request :: uuid
  ln_trace :: uuid
  ln_question :: pystr
  ln_history :: "chat_message list"

record chat_app =
  ca_db :: chat_db
  ca_tasks :: task_manager
  ca_launched :: "launch list"

record fresh_values =
  fv_user :: uuid
  fv_assistant :: uuid
  fv_request :: uuid
  fv_trace :: uuid
  fv_now :: int

record chat_settings =
  cs_history_budget :: nat
  cs_history_limit :: nat

definition not_found :: "'a route" where
  "not_found = Inl (HttpError 404 (py ''Conversation not found.''))"

section \<open>Conversations\<close>

definition route_create :: "uuid \<Rightarrow> int \<Rightarrow> uuid \<Rightarrow> chat_app \<Rightarrow> conversation_detail route \<times> chat_app" where
  "route_create i now w app =
     (case create_conversation i now w new_title (ca_db app) of
        (Inl e, db) \<Rightarrow> (Inl (Crash e), app\<lparr>ca_db := db\<rparr>)
      | (Inr d, db) \<Rightarrow> (Inr d, app\<lparr>ca_db := db\<rparr>))"

definition route_list ::
  "(pystr \<Rightarrow> pystr \<Rightarrow> bool) \<Rightarrow> uuid \<Rightarrow> int \<Rightarrow> int \<Rightarrow> pystr option \<Rightarrow> bool \<Rightarrow> chat_app \<Rightarrow> conversation_page route" where
  "route_list ilike w limit offset query archived app =
     (if limit < 1 \<or> 100 < limit \<or> offset < 0 \<or> 100 < length (content_or [] query) then Inl Unprocessable
      else Inr (list_conversations ilike w (nat limit) (nat offset) query archived (ca_db app)))"

definition route_get :: "uuid \<Rightarrow> uuid \<Rightarrow> chat_app \<Rightarrow> conversation_detail route" where
  "route_get w cid app = (case get_conversation w cid (ca_db app) of None \<Rightarrow> not_found | Some d \<Rightarrow> Inr d)"

definition route_archive :: "bool \<Rightarrow> int \<Rightarrow> uuid \<Rightarrow> uuid \<Rightarrow> chat_app \<Rightarrow> bool route \<times> chat_app" where
  "route_archive archived now w cid app =
     (case archive_conversation now w cid archived (ca_db app) of
        (False, db) \<Rightarrow> (not_found, app\<lparr>ca_db := db\<rparr>)
      | (True, db) \<Rightarrow> (Inr archived, app\<lparr>ca_db := db\<rparr>))"

definition route_delete :: "uuid \<Rightarrow> uuid \<Rightarrow> chat_app \<Rightarrow> unit route \<times> chat_app" where
  "route_delete w cid app =
     (case delete_conversation w cid (ca_db app) of
        (False, db) \<Rightarrow> (not_found, app\<lparr>ca_db := db\<rparr>)
      | (True, db) \<Rightarrow> (Inr (), app\<lparr>ca_db := db\<rparr>))"

section \<open>Sending a message\<close>

definition launch_worker :: "launch \<Rightarrow> chat_app \<Rightarrow> chat_app" where
  "launch_worker job app =
     (case start_task (ln_message job) (ca_tasks app) of
        (True, M) \<Rightarrow> app\<lparr>ca_tasks := M, ca_launched := ca_launched app @ [job]\<rparr>
      | (False, M) \<Rightarrow> app\<lparr>ca_tasks := M\<rparr>)"

text \<open>A request that is not known yet: the question, an empty answer, and the worker for it.\<close>

definition begin_turn ::
  "chat_settings \<Rightarrow> fresh_values \<Rightarrow> uuid \<Rightarrow> uuid \<Rightarrow> pystr \<Rightarrow> uuid \<Rightarrow> chat_app \<Rightarrow> message_view route \<times> chat_app" where
  "begin_turn S fr w cid content request app =
     (let history = get_history (cs_history_budget S) w cid (cs_history_limit S) (ca_db app)
      in case append_message (fv_user fr) (fv_now fr) w cid RoleUser (Some content) MsgCompleted [] None None (ca_db app) of
           (Inl e, db1) \<Rightarrow> (Inl (Crash e), app\<lparr>ca_db := db1\<rparr>)
         | (Inr u, db1) \<Rightarrow>
             (case append_message (fv_assistant fr) (fv_now fr) w cid RoleAssistant (Some []) Streaming []
                     (Some request) (Some (fv_trace fr)) db1 of
                (Inl e, db2) \<Rightarrow> (Inl (Crash e), app\<lparr>ca_db := db2\<rparr>)
              | (Inr v, db2) \<Rightarrow>
                  (Inr v, launch_worker \<lparr>ln_message = mv_id v, ln_workspace = w, ln_conversation = cid,
                     ln_request = request, ln_trace = fv_trace fr, ln_question = content, ln_history = history\<rparr>
                     (app\<lparr>ca_db := db2\<rparr>))))"

text \<open>An answer left streaming whose worker is gone is closed with an error.\<close>

definition close_orphan ::
  "(agent_step \<Rightarrow> agent_step) \<Rightarrow> int \<Rightarrow> uuid \<Rightarrow> message_view \<Rightarrow> chat_app \<Rightarrow> message_view route \<times> chat_app" where
  "close_orphan column now w v app =
     (case complete_assistant_message column now w (mv_id v) (mv_content v) MsgError (mv_steps v) (ca_db app) of
        (Inl e, db) \<Rightarrow> (Inl (Crash e), app\<lparr>ca_db := db\<rparr>)
      | (Inr v', db) \<Rightarrow> (Inr v', app\<lparr>ca_db := db\<rparr>))"

definition stream_message ::
  "(agent_step \<Rightarrow> agent_step) \<Rightarrow> chat_settings \<Rightarrow> fresh_values \<Rightarrow> uuid \<Rightarrow> uuid \<Rightarrow> pystr \<Rightarrow> uuid option \<Rightarrow> chat_app \<Rightarrow>
   message_view route \<times> chat_app" where
  "stream_message column S fr w cid content client app =
     (if content = [] \<or> 4000 < length content then (Inl Unprocessable, app)
      else case get_conversation w cid (ca_db app) of
        None \<Rightarrow> (not_found, app)
      | Some d \<Rightarrow>
          (let request = (case client of None \<Rightarrow> fv_request fr | Some r \<Rightarrow> r)
           in case get_assistant_by_request_id w cid request (ca_db app) of
                None \<Rightarrow> begin_turn S fr w cid content request app
              | Some v \<Rightarrow> (if mv_status v = Streaming \<and> \<not> is_running (mv_id v) (ca_tasks app)
                          then close_orphan column (fv_now fr) w v app else (Inr v, app))))"

definition abort_message ::
  "(agent_step \<Rightarrow> agent_step) \<Rightarrow> int \<Rightarrow> uuid \<Rightarrow> uuid \<Rightarrow> uuid \<Rightarrow> chat_app \<Rightarrow> bool route \<times> chat_app" where
  "abort_message column now w cid mid app =
     (case abort_task mid (ca_tasks app) of
        (True, M) \<Rightarrow> (Inr True, app\<lparr>ca_tasks := M\<rparr>)
      | (False, M) \<Rightarrow>
          (case get_message w mid (ca_db app) of
             None \<Rightarrow> (Inr False, app)
           | Some v \<Rightarrow>
               (if mv_role v = RoleAssistant \<and> mv_status v = Streaming then
                  (case complete_assistant_message column now w mid (mv_content v) Aborted (mv_steps v) (ca_db app) of
                     (Inl e, db) \<Rightarrow> (Inl (Crash e), app\<lparr>ca_db := db\<rparr>)
                   | (Inr v', db) \<Rightarrow> (Inr True, app\<lparr>ca_db := db\<rparr>))
                else (Inr False, app))))"

section \<open>The streamed response\<close>

datatype stream_outcome = StreamEnds | StreamOpen | StreamGone | StreamFails py_exc

record 'b turn =
  tn_disconnected :: bool
  tn_broker :: 'b

definition encode_broker_event :: "broker_event \<Rightarrow> pystr pyres" where
  "encode_broker_event e = encode_sse_data (be_event e) (be_data e) (Some (be_id e))"

definition ends_stream :: "broker_event \<Rightarrow> bool" where
  "ends_stream e \<longleftrightarrow> be_event e \<in> {py ''done'', py ''error'', py ''aborted''}"

definition ping :: pystr where
  "ping = py '': ping'' @ [10, 10]"

fun send_events :: "broker_event list \<Rightarrow> pystr list \<times> stream_outcome" where
  "send_events [] = ([], StreamOpen)"
| "send_events (e # es) =
     (case encode_broker_event e of
        Inl x \<Rightarrow> ([], StreamFails x)
      | Inr frame \<Rightarrow> (if ends_stream e then ([frame], StreamEnds)
                      else (frame # fst (send_events es), snd (send_events es))))"

fun follow ::
  "(pystr \<Rightarrow> 'b \<Rightarrow> broker_event list pyres) \<Rightarrow> pystr \<Rightarrow> broker_event list \<Rightarrow> 'b turn list \<Rightarrow> pystr list \<times> stream_outcome" where
  "follow read cursor buffered [] = ([], StreamOpen)"
| "follow read cursor buffered (t # ts) =
     (if tn_disconnected t then ([], StreamGone)
      else case (if buffered \<noteq> [] then Inr buffered else read cursor (tn_broker t)) of
        Inl x \<Rightarrow> ([], StreamFails x)
      | Inr es \<Rightarrow>
          (if es = [] then (ping # fst (follow read cursor [] ts), snd (follow read cursor [] ts))
           else case send_events es of
             (frames, StreamOpen) \<Rightarrow> (frames @ fst (follow read (be_id (last es)) [] ts),
                                    snd (follow read (be_id (last es)) [] ts))
           | (frames, outcome) \<Rightarrow> (frames, outcome)))"

text \<open>The frames of a message that is no longer running, from the store.\<close>

definition snapshot_terminal :: "message_status \<Rightarrow> pystr" where
  "snapshot_terminal s = (if s = MsgCompleted then py ''done'' else message_status_text s)"

definition snapshot_events :: "dump_env \<Rightarrow> message_view \<Rightarrow> uuid \<Rightarrow> broker_event list" where
  "snapshot_events D v cid =
     [\<lparr>be_id = py ''snapshot-start'', be_event = py ''start'',
       be_data = [(py ''conversation_id'', PStr (str_uuid cid)), (py ''assistant_message_id'', PStr (str_uuid (mv_id v))),
                  (py ''snapshot'', PBool True)]\<rparr>]
     @ map (\<lambda>s. \<lparr>be_id = py ''snapshot-step-'' @ str_nat (as_step s), be_event = py ''step'',
          be_data = [(py ''type'', pstr ''step''), (py ''step'', dump_step D s), (py ''text'', PNone),
                     (py ''message'', PNone), (py ''data'', PDict [])]\<rparr>) (mv_steps v)
     @ (if content_or [] (mv_content v) = [] then []
        else [\<lparr>be_id = py ''snapshot-text'', be_event = py ''text'',
               be_data = [(py ''type'', pstr ''text''), (py ''step'', PNone), (py ''text'', PStr (content_or [] (mv_content v))),
                          (py ''message'', PNone), (py ''data'', PDict [])]\<rparr>])
     @ [\<lparr>be_id = py ''snapshot-'' @ snapshot_terminal (mv_status v), be_event = snapshot_terminal (mv_status v),
          be_data = [(py ''assistant_message_id'', PStr (str_uuid (mv_id v))), (py ''persisted'', PBool True),
                     (py ''snapshot'', PBool True)]\<rparr>]"

definition snapshot_stream :: "dump_env \<Rightarrow> message_view \<Rightarrow> uuid \<Rightarrow> pystr list \<times> stream_outcome" where
  "snapshot_stream D v cid =
     (case send_events (snapshot_events D v cid) of
        (frames, StreamFails x) \<Rightarrow> (frames, StreamFails x)
      | (frames, _) \<Rightarrow> (frames, StreamEnds))"

definition last_event_id :: "pystr option \<Rightarrow> pystr" where
  "last_event_id header = content_or (py ''0-0'') header"

definition event_stream ::
  "dump_env \<Rightarrow> (pystr \<Rightarrow> 'b \<Rightarrow> broker_event list pyres) \<Rightarrow> uuid \<Rightarrow> message_view \<Rightarrow> pystr option \<Rightarrow> 'b \<Rightarrow> task_manager \<Rightarrow>
   'b turn list \<Rightarrow> pystr list \<times> stream_outcome" where
  "event_stream D read cid v header b M turns =
     (case read (last_event_id header) b of
        Inl x \<Rightarrow> ([], StreamFails x)
      | Inr initial \<Rightarrow>
          (if initial = [] \<and> \<not> is_running (mv_id v) M then
             snapshot_stream D v cid
           else follow read (last_event_id header) initial turns))"

end
