(* ===== verification/Chat_Stream.thy ===== *)
theory Chat_Stream
  imports Chat_Routes
begin

text \<open>
  What the client of a streamed response receives.  The lemmas about the generator are proved
  once, against the contract \<open>event_log\<close>, and used through the in-memory broker here and through Redis in
  \<open>Redis_Broker\<close>.
\<close>

section \<open>Frames\<close>

lemma frame_not_ping: "encode_broker_event e = Inr f \<Longrightarrow> f \<noteq> ping"
  by (auto simp: encode_broker_event_def encode_sse_data_def ping_def py_Cons Let_def split: sum.splits if_splits)

abbreviation the_frame :: "broker_event \<Rightarrow> pystr" where
  "the_frame e \<equiv> projr (encode_broker_event e)"

text \<open>The events a stream sends: up to and including the first that ends it.\<close>

fun upto_end :: "broker_event list \<Rightarrow> broker_event list" where
  "upto_end [] = []"
| "upto_end (e # es) = (if ends_stream e then [e] else e # upto_end es)"

definition has_end :: "broker_event list \<Rightarrow> bool" where
  "has_end es \<longleftrightarrow> list_ex ends_stream es"

lemma has_end_simps [simp]:
  "\<not> has_end []" "has_end (e # es) \<longleftrightarrow> ends_stream e \<or> has_end es" "has_end (xs @ ys) \<longleftrightarrow> has_end xs \<or> has_end ys"
  by (simp_all add: has_end_def)

lemma upto_end_append [simp]: "upto_end (xs @ ys) = (if has_end xs then upto_end xs else xs @ upto_end ys)"
  by (induction xs) auto

lemma upto_end_id: "\<not> has_end xs \<Longrightarrow> upto_end xs = xs"
  using upto_end_append [of xs "[]"] by simp

lemma send_events_ok:
  assumes "\<forall>e \<in> set es. is_ok (encode_broker_event e)"
  shows "send_events es = (map the_frame (upto_end es), if has_end es then StreamEnds else StreamOpen)"
  using assms by (induction es) (auto simp: is_ok_iff)

lemma frames_not_ping:
  assumes "\<forall>e \<in> set es. is_ok (encode_broker_event e)"
  shows "filter (\<lambda>f. f \<noteq> ping) (map the_frame (upto_end es)) = map the_frame (upto_end es)"
  using assms by (induction es) (auto simp: is_ok_iff dest: frame_not_ping)

section \<open>Following a broker\<close>

context event_log begin

text \<open>The brokers the turns see: each is a later state, in which the message's log has only grown.\<close>

fun turns_ok :: "uuid \<Rightarrow> 'b \<Rightarrow> 'b turn list \<Rightarrow> bool" where
  "turns_ok m b [] = True"
| "turns_ok m b (t # ts) = (inv (tn_broker t) \<and> (\<exists>new. log (tn_broker t) m = log b m @ new) \<and> turns_ok m (tn_broker t) ts)"

fun last_broker :: "'b \<Rightarrow> 'b turn list \<Rightarrow> 'b" where
  "last_broker b [] = b"
| "last_broker b (t # ts) = last_broker (tn_broker t) ts"

lemma last_broker_log: "turns_ok m b ts \<Longrightarrow> \<exists>new. log (last_broker b ts) m = log b m @ new"
proof (induction ts arbitrary: b)
  case (Cons t ts)
  then obtain new new' where "log (tn_broker t) m = log b m @ new" "log (last_broker (tn_broker t) ts) m = log (tn_broker t) m @ new'"
    by fastforce
  then show ?case by simp
qed simp

lemma follow_delivers:
  assumes "turns_ok m b ts" and "log b m = sent @ buffered @ rest" and "\<not> has_end sent" and "0 < k"
    and "\<forall>e \<in> set (log (last_broker b ts) m). is_ok (encode_broker_event e)"
    and "follow (\<lambda>c b. fst (read m c k b)) (cursor_at sent) buffered ts = (frames, outcome)"
  shows "\<exists>seen unseen. log (last_broker b ts) m = sent @ seen @ unseen
     \<and> filter (\<lambda>f. f \<noteq> ping) frames = map the_frame (upto_end seen)
     \<and> outcome \<in> (if has_end seen then {StreamEnds} else {StreamOpen, StreamGone})"
  using assms
proof (induction ts arbitrary: b sent buffered rest frames outcome)
  case Nil
  then show ?case by - (rule exI [of _ "[]"], rule exI [of _ "buffered @ rest"], auto)
next
  case (Cons t ts)
  obtain tail where tail: "log (last_broker (tn_broker t) ts) m = log (tn_broker t) m @ tail"
    using last_broker_log [of m "tn_broker t" ts] Cons.prems(1) by auto
  obtain rest' where log_t: "log (tn_broker t) m = sent @ buffered @ rest'"
    using Cons.prems(1,2) by auto
  define es where "es = (if buffered \<noteq> [] then buffered else take k rest')"
  obtain rest'' where split: "log (tn_broker t) m = sent @ es @ rest''"
  proof (cases "buffered = []")
    case True
    then have "log (tn_broker t) m = sent @ es @ drop k rest'" using log_t by (simp add: es_def)
    then show thesis by (rule that)
  next
    case False
    then have "log (tn_broker t) m = sent @ es @ rest'" using log_t by (simp add: es_def)
    then show thesis by (rule that)
  qed
  have all: "\<forall>e \<in> set es. is_ok (encode_broker_event e)" using Cons.prems(5) tail split by auto
  have got: "(if buffered \<noteq> [] then Inr buffered else fst (read m (cursor_at sent) k (tn_broker t))) = Inr es"
    using read_at [of "tn_broker t" k m sent rest'] Cons.prems(1,4) log_t by (auto simp: es_def)
  show ?case
  proof (cases "tn_disconnected t")
    case True
    then have "frames = []" "outcome = StreamGone" using Cons.prems(6) by simp_all
    then show ?thesis using tail split 
      by - (rule exI [of _ "[]"], rule exI [of _ "es @ rest'' @ tail"], auto)
  next
    case False
    let ?read = "\<lambda>c b. fst (read m c k b)"
    show ?thesis
    proof (cases "has_end es")
      case True
      then have "es \<noteq> []" by auto
      then have "frames = map the_frame (upto_end es)" "outcome = StreamEnds"
        using Cons.prems(6) False got send_events_ok [OF all] True by auto
      then show ?thesis using tail split True frames_not_ping [OF all]
        by - (rule exI [of _ es], rule exI [of _ "rest'' @ tail"], simp)
    next
      case unfinished: False
      obtain gs o' where go: "follow ?read (cursor_at (sent @ es)) [] ts = (gs, o')" by fastforce
      have "\<not> has_end (sent @ es)" using Cons.prems(3) unfinished by simp
      from Cons.IH [OF _ _ this Cons.prems(4) _ go, of "tn_broker t" rest''] Cons.prems(1,5) split
      obtain seen unseen where IH: "log (last_broker (tn_broker t) ts) m = (sent @ es) @ seen @ unseen"
        "filter (\<lambda>f. f \<noteq> ping) gs = map the_frame (upto_end seen)"
        "o' \<in> (if has_end seen then {StreamEnds} else {StreamOpen, StreamGone})" by auto
      have step: "(frames, outcome) = (if es = [] then (ping # fst (follow ?read (cursor_at sent) [] ts), snd (follow ?read (cursor_at sent) [] ts))
          else (map the_frame es @ fst (follow ?read (be_id (last es)) [] ts), snd (follow ?read (be_id (last es)) [] ts)))"
        using Cons.prems(6) False got send_events_ok [OF all] unfinished upto_end_id [OF unfinished] by (auto split: if_splits)
      have "(frames, outcome) = (if es = [] then ping # gs else map the_frame es @ gs, o')"
      proof (cases "es = []")
        case True
        with go step show ?thesis by simp
      next
        case False
        with go have "follow ?read (be_id (last es)) [] ts = (gs, o')" by (simp add: cursor_at_def)
        with False step show ?thesis by simp
      qed
      then have "frames = (if es = [] then ping # gs else map the_frame es @ gs)" "outcome = o'" by simp_all
      moreover have "filter (\<lambda>f. f \<noteq> ping) (map the_frame es) = map the_frame es"
        using frames_not_ping [OF all] upto_end_id [OF unfinished] by simp
      ultimately show ?thesis using IH unfinished
        by - (rule exI [of _ "es @ seen"], rule exI [of _ unseen], auto simp del: filter_map)
    qed
  qed
qed

text \<open>Every turn sends at least one new event, so a stream whose end is in the log reaches it.\<close>

lemma follow_ends:
  assumes "turns_ok m b ts" and "log b m = sent @ buffered @ rest" and "0 < k"
    and "\<forall>e \<in> set (log (last_broker b ts) m). is_ok (encode_broker_event e)"
    and "\<forall>t \<in> set ts. \<not> tn_disconnected t"
    and "has_end (buffered @ rest)" and "length (upto_end (buffered @ rest)) \<le> length ts"
  shows "snd (follow (\<lambda>c b. fst (read m c k b)) (cursor_at sent) buffered ts) = StreamEnds"
  using assms
proof (induction ts arbitrary: b sent buffered rest)
  case Nil
  then have "upto_end (buffered @ rest) = []" by simp
  with Nil.prems(6) show ?case by (cases "buffered @ rest") (auto split: if_splits)
next
  case (Cons t ts)
  obtain tail where tail: "log (last_broker (tn_broker t) ts) m = log (tn_broker t) m @ tail"
    using last_broker_log [of m "tn_broker t" ts] Cons.prems(1) by auto
  obtain new where new: "log (tn_broker t) m = sent @ buffered @ rest @ new" using Cons.prems(1,2) by auto
  define es where "es = (if buffered \<noteq> [] then buffered else take k (rest @ new))"
  define more where "more = (if buffered \<noteq> [] then rest @ new else drop k (rest @ new))"
  have split: "buffered @ rest @ new = es @ more" 
    using append_take_drop_id [of k "rest @ new"] by (auto simp: es_def more_def simp del: append_take_drop_id take_append drop_append)
  have "buffered @ rest \<noteq> []" using Cons.prems(6) by auto
  then have ne: "es \<noteq> []" using Cons.prems(3) by (auto simp: es_def)
  have all: "\<forall>e \<in> set es. is_ok (encode_broker_event e)"
    using Cons.prems(4) tail new split by (metis UnCI last_broker.simps(2) set_append)
  have got: "(if buffered \<noteq> [] then Inr buffered else fst (read m (cursor_at sent) k (tn_broker t))) = Inr es"
    using read_at [of "tn_broker t" k m sent "buffered @ rest @ new"] Cons.prems(1,3) new by (auto simp: es_def)
  show ?case
  proof (cases "has_end es")
    case True
    then show ?thesis using Cons.prems(5) got send_events_ok [OF all] ne by auto
  next
    case False
    have "upto_end ((buffered @ rest) @ new) = upto_end (buffered @ rest)" "has_end ((buffered @ rest) @ new)"
      using Cons.prems(6) upto_end_append [of "buffered @ rest" new] by (auto split: if_splits)
    then have "upto_end (es @ more) = upto_end (buffered @ rest)" "has_end (es @ more)"
      unfolding append_assoc split by blast+
    then have "upto_end (buffered @ rest) = es @ upto_end more" "has_end more" using False by simp_all
    moreover from this have "length (upto_end more) \<le> length ts" using Cons.prems(7) ne by (cases es) simp_all
    ultimately have len: "length (upto_end more) \<le> length ts" "has_end ([] @ more)" by simp_all
    have "snd (follow (\<lambda>c b. fst (read m c k b)) (cursor_at (sent @ es)) [] ts) = StreamEnds"
      by (rule Cons.IH [of "tn_broker t" "sent @ es" "[]" more])
        (use Cons.prems len new split in auto)
    then show ?thesis using Cons.prems(5) got send_events_ok [OF all] False ne by (auto simp: cursor_at_def)
  qed
qed

text \<open>A whole response, from the identifier the client names on.\<close>

lemma response_resumes:
  assumes b: "inv b" and split: "log b m = sent @ rest" and "\<not> has_end sent" and "rest \<noteq> [] \<or> is_running m M"
    and turns: "turns_ok m b ts" and enc: "\<forall>e \<in> set (log (last_broker b ts) m). is_ok (encode_broker_event e)"
    and "origin = py ''0-0''" and "sent \<noteq> [] \<longrightarrow> be_id (last sent) \<noteq> []"
    and "header = (if sent = [] then None else Some (be_id (last sent)))" and "mv_id v = m"
    and "event_stream D (\<lambda>c b. fst (read m c 100 b)) cid v header b M ts = (frames, outcome)"
  shows "(\<exists>seen unseen. log (last_broker b ts) m = sent @ seen @ unseen
      \<and> filter (\<lambda>f. f \<noteq> ping) frames = map the_frame (upto_end seen)
      \<and> outcome \<in> (if has_end seen then {StreamEnds} else {StreamOpen, StreamGone}))
    \<and> (has_end rest \<and> length (upto_end rest) \<le> length ts \<and> (\<forall>t \<in> set ts. \<not> tn_disconnected t) \<longrightarrow> outcome = StreamEnds)"
proof -
  let ?read = "\<lambda>c b. fst (read m c 100 b)"
  have cursor: "last_event_id header = cursor_at sent"
    unfolding cursor_at_def last_event_id_def content_or_def using assms(7-9) by simp
  have "?read (last_event_id header) b = Inr (take 100 rest)" unfolding cursor by (rule read_at [OF b _ split]) simp
  then have run: "follow ?read (cursor_at sent) (take 100 rest) ts = (frames, outcome)"
    using assms(4,10,11) by (auto simp: event_stream_def cursor)
  have split': "log b m = sent @ take 100 rest @ drop 100 rest" using split by simp
  have "snd (follow ?read (cursor_at sent) (take 100 rest) ts) = StreamEnds"
    if "has_end rest" "length (upto_end rest) \<le> length ts" "\<forall>t \<in> set ts. \<not> tn_disconnected t"
    by (rule follow_ends [OF turns split' _ enc]) (use that in simp_all)
  with run follow_delivers [OF turns split' assms(3) _ enc run] show ?thesis by simp
qed

end

section \<open>The stream over the in-memory broker\<close>

text \<open>A history: before each turn of the generator some events are published, to any message.\<close>

definition publish_all :: "(uuid \<times> pystr \<times> arguments) list \<Rightarrow> mem_broker \<Rightarrow> mem_broker" where
  "publish_all = fold (\<lambda>(m, e, d) b. snd (mem_publish m e d b))"

fun turns_of :: "mem_broker \<Rightarrow> (bool \<times> (uuid \<times> pystr \<times> arguments) list) list \<Rightarrow> mem_broker turn list" where
  "turns_of b [] = []"
| "turns_of b ((gone, ps) # h) = \<lparr>tn_disconnected = gone, tn_broker = publish_all ps b\<rparr> # turns_of (publish_all ps b) h"

definition final_broker :: "mem_broker \<Rightarrow> (bool \<times> (uuid \<times> pystr \<times> arguments) list) list \<Rightarrow> mem_broker" where
  "final_broker b h = publish_all (concat (map snd h)) b"

definition ids_ok :: "(bool \<times> (uuid \<times> pystr \<times> arguments) list) list \<Rightarrow> bool" where
  "ids_ok h \<longleftrightarrow> (\<forall>(gone, ps) \<in> set h. \<forall>(m, e, d) \<in> set ps. m < 2 ^ 128)"

lemma publish_all_grows:
  assumes "mem_inv b" and "m < 2 ^ 128" and "\<forall>(n, e, d) \<in> set ps. n < 2 ^ 128"
  shows "mem_inv (publish_all ps b) \<and> (\<exists>new. mem_log (publish_all ps b) m = mem_log b m @ new)"
  using assms(1,3)
proof (induction ps arbitrary: b)
  case (Cons p ps)
  obtain n e d where p: "p = (n, e, d)" by (cases p)
  let ?b = "snd (mem_publish n e d b)"
  have "mem_inv ?b" by (rule mem.publish_inv [OF Cons.prems(1)])
  moreover have "\<exists>new. mem_log ?b m = mem_log b m @ new"
    using mem.publish_log [OF Cons.prems(1), of n m e d] assms(2) Cons.prems(2) p by auto
  ultimately show ?case using Cons.IH [of ?b] Cons.prems(2) p by (fastforce simp: publish_all_def)
qed (simp add: publish_all_def)

lemma turns_of_ok:
  assumes "mem_inv b" and "m < 2 ^ 128" and "ids_ok h"
  shows "mem.turns_ok m b (turns_of b h) \<and> mem.last_broker b (turns_of b h) = final_broker b h"
  using assms(1,3)
proof (induction h arbitrary: b)
  case (Cons x h)
  obtain gone ps where x: "x = (gone, ps)" by (cases x)
  have "mem_inv (publish_all ps b) \<and> (\<exists>new. mem_log (publish_all ps b) m = mem_log b m @ new)"
    by (rule publish_all_grows [OF Cons.prems(1) assms(2)]) (use Cons.prems(2) x in \<open>auto simp: ids_ok_def\<close>)
  moreover have "ids_ok h" using Cons.prems(2) by (simp add: ids_ok_def)
  ultimately show ?case using Cons.IH [of "publish_all ps b"] x by (simp add: final_broker_def publish_all_def)
qed (simp add: final_broker_def publish_all_def)

lemma turns_of_connected: "t \<in> set (turns_of b h) \<Longrightarrow> list_all (\<lambda>x. \<not> fst x) h \<Longrightarrow> \<not> tn_disconnected t"
  by (induction b h rule: turns_of.induct) auto

lemma length_turns_of [simp]: "length (turns_of b h) = length h"
  by (induction b h rule: turns_of.induct) auto

text \<open>The contract's lemmas over a history of the in-memory broker.\<close>

lemma event_stream_resumes:
  assumes "mem_inv b" and "mv_id v < 2 ^ 128" and "ids_ok h"
    and "mem_log b (mv_id v) = sent @ rest" and "\<not> has_end sent" and "rest \<noteq> [] \<or> is_running (mv_id v) M"
    and "list_all (\<lambda>e. is_ok (encode_broker_event e)) (mem_log (final_broker b h) (mv_id v))"
    and "header = (if sent = [] then None else Some (be_id (last sent)))"
    and "event_stream D (\<lambda>c b. fst (mem_read (mv_id v) c 100 b)) cid v header b M (turns_of b h) = (frames, outcome)"
  shows "(\<exists>seen unseen. mem_log (final_broker b h) (mv_id v) = sent @ seen @ unseen
      \<and> filter (\<lambda>f. f \<noteq> ping) frames = map the_frame (upto_end seen)
      \<and> outcome \<in> (if has_end seen then {StreamEnds} else {StreamOpen, StreamGone}))
    \<and> (if has_end rest \<and> length (upto_end rest) \<le> length h \<and> list_all (\<lambda>x. \<not> fst x) h
       then outcome = StreamEnds else True)"
proof -
  note turns = turns_of_ok [OF assms(1-3)]
  have ids: "sent \<noteq> [] \<longrightarrow> be_id (last sent) \<noteq> []"
  proof
    assume "sent \<noteq> []"
    then have "mem_log b (mv_id v) = butlast sent @ last sent # rest" using assms(4) by (simp flip: append_butlast_last_id)
    moreover from mem_inv_log [OF assms(1), of "mv_id v"] obtain ns
      where "map be_id (mem_log b (mv_id v)) = map (\<lambda>n. str_nat n @ py ''-0'') ns" by (auto simp: numbered_def)
    ultimately show "be_id (last sent) \<noteq> []" by (auto simp: append_eq_map_conv Cons_eq_map_conv)
  qed
  have enc: "\<forall>e \<in> set (mem_log (mem.last_broker b (turns_of b h)) (mv_id v)). is_ok (encode_broker_event e)"
    using assms(7) turns by (simp add: list_all_iff)
  have "list_all (\<lambda>x. \<not> fst x) h \<Longrightarrow> \<forall>t \<in> set (turns_of b h). \<not> tn_disconnected t" using turns_of_connected by blast
  with mem.response_resumes [OF assms(1,4,5,6) conjunct1 [OF turns] enc refl ids assms(8) refl assms(9)] turns
  show ?thesis by (simp only: length_turns_of split: if_split) blast
qed


lemma encode_empty: "is_ok (encode_broker_event \<lparr>be_id = i, be_event = e, be_data = []\<rparr>)"
  by (simp add: encode_broker_event_def encode_sse_data_def json_dumps_def)


section \<open>A stream that never ends\<close>

lemma send_events_not_gone: "snd (send_events es) \<noteq> StreamGone"
  by (induction es) (auto split: sum.split)

lemma follow_not_gone:
  "\<forall>t \<in> set ts. \<not> tn_disconnected t \<Longrightarrow> snd (follow read cursor buffered ts) \<noteq> StreamGone"
proof (induction ts arbitrary: cursor buffered)
  case (Cons t ts)
  have t: "\<not> tn_disconnected t" and IH: "snd (follow read c es ts) \<noteq> StreamGone" for c es using Cons by auto
  have "send_events es \<noteq> (fs, StreamGone)" for es fs using send_events_not_gone [of es] by auto
  with t IH show ?case by (auto split: sum.split prod.split stream_outcome.split)
qed simp

text \<open>
  A limit: when the server restarts while an answer is streaming, the client that asks again
  is connected to a broker that still holds the events of the lost worker, and these do not end
  the stream.  The message is closed with an error in the store, but the response sends the old
  events and then only pings, for as long as the client stays: no frame tells it that the answer
  is over.
\<close>

theorem orphan_stream_never_ends:
  assumes "mem_inv b" and "mv_id v < 2 ^ 128" and "mem_log b (mv_id v) \<noteq> []" and "\<not> has_end (mem_log b (mv_id v))"
    and "list_all (\<lambda>e. is_ok (encode_broker_event e)) (mem_log b (mv_id v))"
    and "event_stream D (\<lambda>c b. fst (mem_read (mv_id v) c 100 b)) cid v None b M
           (turns_of b (replicate n (False, []))) = (frames, outcome)"
  shows "outcome = StreamOpen \<and> (\<exists>seen unseen. mem_log b (mv_id v) = seen @ unseen
           \<and> filter (\<lambda>f. f \<noteq> ping) frames = map the_frame seen)"
proof -
  have final: "final_broker b (replicate n (False, [])) = b"
    by (induction n) (simp_all add: final_broker_def publish_all_def)
  have "mem.cursor_at [] = last_event_id None" by (simp add: mem.cursor_at_def last_event_id_def content_or_def)
  moreover have "fst (mem_read (mv_id v) (mem.cursor_at []) 100 b) = Inr (take 100 (mem_log b (mv_id v)))"
    by (rule mem.read_at [OF assms(1)]) simp_all
  ultimately have run: "follow (\<lambda>c b. fst (mem_read (mv_id v) c 100 b)) (mem.cursor_at []) (take 100 (mem_log b (mv_id v)))
      (turns_of b (replicate n (False, []))) = (frames, outcome)"
    using assms(3,6) by (simp add: event_stream_def)
  note turns = turns_of_ok [OF assms(1,2), of "replicate n (False, [])"]
  have split: "mem_log b (mv_id v) = [] @ take 100 (mem_log b (mv_id v)) @ drop 100 (mem_log b (mv_id v))" by simp
  have "\<exists>seen unseen. mem_log (mem.last_broker b (turns_of b (replicate n (False, [])))) (mv_id v) = [] @ seen @ unseen
     \<and> filter (\<lambda>f. f \<noteq> ping) frames = map the_frame (upto_end seen)
     \<and> outcome \<in> (if has_end seen then {StreamEnds} else {StreamOpen, StreamGone})"
    by (rule mem.follow_delivers [OF _ split _ _ _ run])
      (use turns final assms(5) in \<open>simp_all add: ids_ok_def list_all_iff\<close>)
  then obtain seen unseen where s: "mem_log b (mv_id v) = seen @ unseen"
    "filter (\<lambda>f. f \<noteq> ping) frames = map the_frame (upto_end seen)" "outcome \<in> (if has_end seen then {StreamEnds} else {StreamOpen, StreamGone})"
    using turns final by (auto simp: ids_ok_def)
  then have "\<not> has_end seen" using assms(4) by simp
  moreover have "outcome \<noteq> StreamGone"
  proof -
    have "list_all (\<lambda>x. \<not> fst x) (replicate n (False, [] :: (uuid \<times> pystr \<times> arguments) list))"
      by (simp add: list_all_iff)
    then have "\<forall>t \<in> set (turns_of b (replicate n (False, []))). \<not> tn_disconnected t" using turns_of_connected by blast
    from follow_not_gone [OF this] run show ?thesis by (metis snd_conv)
  qed
  ultimately show ?thesis using s by (auto simp: upto_end_id)
qed

theorem orphan_stream_never_ends_witness:
  "\<forall>D. snd (event_stream D (\<lambda>c b. fst (mem_read 7 c 100 b)) 5
      \<lparr>mv_id = 7, mv_role = RoleAssistant, mv_content = None, mv_status = MsgError, mv_tool_calls = [], mv_steps = [],
        mv_request = None, mv_trace = None, mv_created = 0\<rparr> None
      (publish_all [(7, py ''start'', [])] new_broker) no_tasks
      (turns_of (publish_all [(7, py ''start'', [])] new_broker) (replicate 1000 (False, [])))) = StreamOpen"
proof
  fix D
  let ?v = "\<lparr>mv_id = 7, mv_role = RoleAssistant, mv_content = None, mv_status = MsgError, mv_tool_calls = [], mv_steps = [],
        mv_request = None, mv_trace = None, mv_created = 0\<rparr>"
  let ?b = "publish_all [(7, py ''start'', [])] new_broker"
  have inv: "mem_inv ?b" using mem.publish_inv [OF new_broker_inv] by (simp add: publish_all_def)
  obtain i where log: "mem_log ?b 7 = [\<lparr>be_id = i, be_event = py ''start'', be_data = []\<rparr>]"
    using mem.publish_log [OF new_broker_inv, of 7 7 "py ''start''" "[]"] by (simp add: publish_all_def new_broker_log)
  obtain frames outcome where run: "event_stream D (\<lambda>c b. fst (mem_read 7 c 100 b)) 5 ?v None ?b no_tasks
      (turns_of ?b (replicate 1000 (False, []))) = (frames, outcome)" by fastforce
  from orphan_stream_never_ends [of ?b ?v D 5 no_tasks 1000 frames outcome]
  show "snd (event_stream D (\<lambda>c b. fst (mem_read 7 c 100 b)) 5
      \<lparr>mv_id = 7, mv_role = RoleAssistant, mv_content = None, mv_status = MsgError, mv_tool_calls = [], mv_steps = [],
        mv_request = None, mv_trace = None, mv_created = 0\<rparr> None
      (publish_all [(7, py ''start'', [])] new_broker) no_tasks
      (turns_of (publish_all [(7, py ''start'', [])] new_broker) (replicate 1000 (False, [])))) = StreamOpen" using inv log run by (simp add: encode_empty ends_stream_def)
qed

end
