(* ===== verification/Chat_Sending.thy ===== *)
theory Chat_Sending
  imports Chat_Routes
begin

text \<open>
  What sending and aborting do to the store and the task table: a request is idempotent in its
  client identifier, and the limits of both operations.
\<close>

lemma get_conversation_None [simp]: "get_conversation w cid db = None \<longleftrightarrow> select_conversation w cid db = None"
  by (simp add: get_conversation_def)

lemma select_after_update:
  assumes "\<And>c. cv_id (f c) = cv_id c" and "\<And>c. cv_workspace (f c) = cv_workspace c"
  shows "select_conversation w cid ((update_conversations P f db)\<lparr>db_messages := ms\<rparr>) = None
     \<longleftrightarrow> select_conversation w cid db = None"
proof -
  define g where "g = (\<lambda>c. if P c then f c else c)"
  have "own_conversation w cid (g c) = own_conversation w cid c" for c
    using assms by (simp add: own_conversation_def g_def)
  moreover have "db_conversations ((update_conversations P f db)\<lparr>db_messages := ms\<rparr>) = map g (db_conversations db)"
    by (simp add: update_conversations_def g_def)
  ultimately show ?thesis by (auto simp: select_conversation_def find_None_iff)
qed

lemma append_fresh:
  assumes ok: "store_ok db" and sel: "select_conversation w cid db \<noteq> None"
    and new: "i \<notin> mg_id ` set (db_messages db)" "request = None \<or> request \<notin> mg_request ` set (db_messages db)"
  obtains m db' where "append_message i now w cid role content status calls request trace db = (Inr (message_view_of m), db')"
    "store_ok db'" "db_messages db' = db_messages db @ [m]"
    "mg_id m = i" "mg_conversation m = cid" "mg_role m = role" "mg_content m = content" "mg_status m = status"
    "mg_steps m = []" "mg_request m = request" "mg_trace m = trace"
    "\<And>w' cid'. select_conversation w' cid' db' = None \<longleftrightarrow> select_conversation w' cid' db = None"
proof (rule append_message_cases [OF ok, of w cid i now role content status calls request trace])
  fix c f m
  assume f: "\<And>c. cv_id (f c) = cv_id c" "\<And>c. cv_workspace (f c) = cv_workspace c"
    and m: "m = \<lparr>mg_id = i, mg_conversation = cid, mg_sequence = cv_next_sequence c, mg_role = role, mg_content = content,
      mg_status = status, mg_tool_calls = calls, mg_steps = [], mg_request = request, mg_trace = trace, mg_created = now\<rparr>"
    and run: "append_message i now w cid role content status calls request trace db =
      (Inr (message_view_of m), update_conversations (own_conversation w cid) f db\<lparr>db_messages := db_messages db @ [m]\<rparr>)"
  show thesis
  proof (rule that [OF run])
    show "store_ok (update_conversations (own_conversation w cid) f db\<lparr>db_messages := db_messages db @ [m]\<rparr>)"
      using store_ok_append [OF ok, of i now w cid role content status calls request trace] run by simp
  qed (simp_all add: m select_after_update f)
qed (use sel new in auto)

text \<open>The message found by a request identifier, which the unique constraint makes the only one.\<close>

lemma get_assistant_found:
  assumes ok: "store_ok db" and m: "m \<in> set (db_messages db)" "mg_conversation m = cid" "mg_role m = RoleAssistant"
    "mg_request m = Some r" and w: "select_conversation w cid db \<noteq> None"
  shows "get_assistant_by_request_id w cid r db = Some (message_view_of m)"
proof -
  have inj: "inj_on mg_request {m \<in> set (db_messages db). mg_request m \<noteq> None}"
    using store_okD(3) [OF ok] by (simp add: requests_def distinct_map)
  have "x = m" if "x \<in> set (db_messages db)" "mg_request x = Some r" for x
    by (rule inj_onD [OF inj]) (use that m in simp_all)
  then have "find (\<lambda>m. mg_conversation m = cid \<and> mg_role m = RoleAssistant \<and> mg_request m = Some r \<and> in_workspace w db m)
      (db_messages db) = Some m"
  proof (intro find_unique)
    show "mg_conversation m = cid \<and> mg_role m = RoleAssistant \<and> mg_request m = Some r \<and> in_workspace w db m"
      using m w by (simp add: in_workspace_def)
  qed (use m(1) \<open>\<And>x. \<lbrakk>x \<in> set (db_messages db); mg_request x = Some r\<rbrakk> \<Longrightarrow> x = m\<close> in blast)+
  then show ?thesis by (simp add: get_assistant_by_request_id_def)
qed

lemma get_assistant_unknown:
  "Some r \<notin> mg_request ` set (db_messages db) \<Longrightarrow> get_assistant_by_request_id w cid r db = None"
  by (force simp: get_assistant_by_request_id_def find_None_iff)

text \<open>The first request with a client identifier.\<close>

lemma stream_message_new:
  assumes "store_ok (ca_db app)" and "select_conversation w cid (ca_db app) \<noteq> None"
    and "content \<noteq> [] \<and> length content \<le> 4000" and "Some r \<notin> mg_request ` set (db_messages (ca_db app))"
    and "fv_user fr \<noteq> fv_assistant fr" and "{fv_user fr, fv_assistant fr} \<inter> mg_id ` set (db_messages (ca_db app)) = {}"
    and "\<not> is_running (fv_assistant fr) (ca_tasks app)"
    and "stream_message column S fr w cid content (Some r) app = (res, app')"
  obtains q a where "res = Inr (message_view_of a)" "store_ok (ca_db app')"
    "db_messages (ca_db app') = db_messages (ca_db app) @ [q, a]"
    "mg_conversation q = cid" "mg_role q = RoleUser" "mg_content q = Some content"
    "mg_id a = fv_assistant fr" "mg_conversation a = cid" "mg_role a = RoleAssistant" "mg_status a = Streaming"
    "mg_request a = Some r" "mg_steps a = []" "select_conversation w cid (ca_db app') \<noteq> None"
    "is_running (mg_id a) (ca_tasks app')"
    "ca_launched app' = ca_launched app @ [\<lparr>ln_message = mg_id a, ln_workspace = w, ln_conversation = cid,
       ln_request = r, ln_trace = fv_trace fr, ln_question = content,
       ln_history = get_history (cs_history_budget S) w cid (cs_history_limit S) (ca_db app)\<rparr>]"
proof -
  let ?db = "ca_db app"
  obtain q db1 where q: "append_message (fv_user fr) (fv_now fr) w cid RoleUser (Some content) MsgCompleted [] None None ?db
      = (Inr (message_view_of q), db1)" "store_ok db1" "db_messages db1 = db_messages ?db @ [q]" "mg_id q = fv_user fr"
      "mg_conversation q = cid" "mg_role q = RoleUser" "mg_content q = Some content" "mg_request q = None"
      and sel1: "\<And>w' cid'. select_conversation w' cid' db1 = None \<longleftrightarrow> select_conversation w' cid' ?db = None"
    by (rule append_fresh [OF assms(1,2), of "fv_user fr" None]) (use assms(6) in auto)
  obtain a db2 where a: "append_message (fv_assistant fr) (fv_now fr) w cid RoleAssistant (Some []) Streaming [] (Some r)
      (Some (fv_trace fr)) db1 = (Inr (message_view_of a), db2)" "store_ok db2" "db_messages db2 = db_messages db1 @ [a]"
      "mg_id a = fv_assistant fr" "mg_conversation a = cid" "mg_role a = RoleAssistant" "mg_status a = Streaming"
      "mg_request a = Some r" "mg_steps a = []"
      and sel2: "\<And>w' cid'. select_conversation w' cid' db2 = None \<longleftrightarrow> select_conversation w' cid' db1 = None"
    by (rule append_fresh [OF q(2), of w cid "fv_assistant fr" "Some r"]) (use assms(2,4,5,6) q sel1 in auto)
  let ?job = "\<lparr>ln_message = mg_id a, ln_workspace = w, ln_conversation = cid, ln_request = r, ln_trace = fv_trace fr,
    ln_question = content, ln_history = get_history (cs_history_budget S) w cid (cs_history_limit S) ?db\<rparr>"
  obtain d where "get_conversation w cid ?db = Some d"
    using assms(2) get_conversation_None [of w cid ?db] by (cases "get_conversation w cid ?db") auto
  then have run: "res = Inr (message_view_of a)" "app' = launch_worker ?job (app\<lparr>ca_db := db2\<rparr>)"
    using assms(3,8) get_assistant_unknown [OF assms(4), of w cid] q(1) a(1)
    by (simp_all add: stream_message_def begin_turn_def Let_def) (simp add: message_view_of_def)
  have app': "ca_db app' = db2" "ca_launched app' = ca_launched app @ [?job]" "is_running (mg_id a) (ca_tasks app')"
    using run(2) assms(7) a(4)
    by (auto simp: launch_worker_def start_task_def is_running_def task_live_def dict_simps)
  show thesis
    by (rule that [of a q]) (use run(1) app' q a sel1 sel2 assms(2) in simp_all)
qed

text \<open>
  C18.  Sending is idempotent: the first request with a client identifier stores the question and an
  empty streaming answer as the last two messages of the conversation and starts one worker for
  the answer, with the history from before the question.  Sending the same identifier again, with
  whatever content, gives the same answer message, and neither stores nor starts anything.
\<close>

theorem sending_is_idempotent:
  assumes "store_ok (ca_db app)" and "select_conversation w cid (ca_db app) \<noteq> None"
    and "content \<noteq> [] \<and> length content \<le> 4000" and "Some r \<notin> mg_request ` set (db_messages (ca_db app))"
    and "fv_user fr \<noteq> fv_assistant fr" and "{fv_user fr, fv_assistant fr} \<inter> mg_id ` set (db_messages (ca_db app)) = {}"
    and "\<not> is_running (fv_assistant fr) (ca_tasks app)"
    and "stream_message column S fr w cid content (Some r) app = (res, app')"
  shows "\<exists>q a. res = Inr (message_view_of a)
     \<and> db_messages (ca_db app') = db_messages (ca_db app) @ [q, a]
     \<and> mg_conversation q = cid \<and> mg_role q = RoleUser \<and> mg_content q = Some content
     \<and> mg_conversation a = cid \<and> mg_role a = RoleAssistant \<and> mg_status a = Streaming
     \<and> is_running (mg_id a) (ca_tasks app')
     \<and> ca_launched app' = ca_launched app @ [\<lparr>ln_message = mg_id a, ln_workspace = w, ln_conversation = cid,
          ln_request = r, ln_trace = fv_trace fr, ln_question = content,
          ln_history = get_history (cs_history_budget S) w cid (cs_history_limit S) (ca_db app)\<rparr>]
     \<and> (if again \<noteq> [] \<and> length again \<le> 4000
        then stream_message column S fr' w cid again (Some r) app' = (res, app') else True)"
proof -
  obtain q a where t: "res = Inr (message_view_of a)" "store_ok (ca_db app')"
    "db_messages (ca_db app') = db_messages (ca_db app) @ [q, a]"
    "mg_conversation q = cid" "mg_role q = RoleUser" "mg_content q = Some content"
    "mg_id a = fv_assistant fr" "mg_conversation a = cid" "mg_role a = RoleAssistant" "mg_status a = Streaming"
    "mg_request a = Some r" "mg_steps a = []" "select_conversation w cid (ca_db app') \<noteq> None"
    "is_running (mg_id a) (ca_tasks app')"
    "ca_launched app' = ca_launched app @ [\<lparr>ln_message = mg_id a, ln_workspace = w, ln_conversation = cid,
       ln_request = r, ln_trace = fv_trace fr, ln_question = content,
       ln_history = get_history (cs_history_budget S) w cid (cs_history_limit S) (ca_db app)\<rparr>]"
    by (rule stream_message_new [OF assms])
  have again: "stream_message column S fr' w cid again (Some r) app' = (res, app')"
    if "again \<noteq> [] \<and> length again \<le> 4000"
  proof -
    obtain d where "get_conversation w cid (ca_db app') = Some d"
      using t(13) get_conversation_None [of w cid "ca_db app'"] by (cases "get_conversation w cid (ca_db app')") auto
    moreover have "get_assistant_by_request_id w cid r (ca_db app') = Some (message_view_of a)"
      by (rule get_assistant_found [OF t(2)]) (use t in auto)
    ultimately show ?thesis using that t(1,10,14) by (auto simp: stream_message_def message_view_of_def)
  qed
  then show ?thesis using t by (intro exI [of _ q] exI [of _ a]) simp
qed

text \<open>A store with one conversation of workspace 1, used by the witnesses.\<close>

definition demo_app :: chat_app where
  "demo_app = \<lparr>ca_db = run_store (\<lambda>s. s) [CreateOp 5 0 1 [], CreateOp 6 0 1 [],
     AppendOp 90 0 1 6 RoleAssistant (Some []) Streaming [] (Some 9) None] empty_db, ca_tasks = no_tasks, ca_launched = []\<rparr>"

definition demo_fresh :: fresh_values where
  "demo_fresh = \<lparr>fv_user = 10, fv_assistant = 11, fv_request = 12, fv_trace = 13, fv_now = 1\<rparr>"

lemma demo_app_db: "store_ok (ca_db demo_app)" "select_conversation 1 5 (ca_db demo_app) \<noteq> None"
  "mg_request ` set (db_messages (ca_db demo_app)) = {Some 9}" "mg_id ` set (db_messages (ca_db demo_app)) = {90}"
  "ca_tasks demo_app = no_tasks"
proof -
  show "store_ok (ca_db demo_app)" unfolding demo_app_def chat_app.simps by (rule store_ok_run [OF store_ok_empty])
qed (simp_all add: demo_app_def run_store_def create_conversation_def append_message_def empty_db_def
    update_conversations_def select_conversation_def own_conversation_def Let_def)

theorem sending_is_idempotent_witness:
  "\<exists>res app'. stream_message (\<lambda>s. s) \<lparr>cs_history_budget = 100, cs_history_limit = 5\<rparr> demo_fresh 1 5 (py ''hi'') (Some 8) demo_app
       = (res, app') \<and> length (ca_launched app') = 1
     \<and> stream_message (\<lambda>s. s) \<lparr>cs_history_budget = 100, cs_history_limit = 5\<rparr> demo_fresh 1 5 (py ''hello'') (Some 8) app' = (res, app')"
proof -
  obtain res app' where run: "stream_message (\<lambda>s. s) \<lparr>cs_history_budget = 100, cs_history_limit = 5\<rparr> demo_fresh 1 5 (py ''hi'')
      (Some 8) demo_app = (res, app')" by fastforce
  have "\<not> is_running (fv_assistant demo_fresh) (ca_tasks demo_app)"
    by (simp add: demo_app_db is_running_def no_tasks_def)
  from sending_is_idempotent [OF demo_app_db(1,2) _ _ _ _ this run, of "py ''hello''" demo_fresh]
  have "length (ca_launched app') = Suc (length (ca_launched demo_app))
      \<and> stream_message (\<lambda>s. s) \<lparr>cs_history_budget = 100, cs_history_limit = 5\<rparr> demo_fresh 1 5 (py ''hello'') (Some 8) app' = (res, app')"
    by (auto simp: demo_app_db demo_fresh_def)
  moreover have "ca_launched demo_app = []" by (simp add: demo_app_def)
  ultimately show ?thesis using run by auto
qed

text \<open>
  A limit of the identifiers: they are unique among all messages, but looked up in one
  conversation.  A request that reuses an identifier of another conversation stores its question
  and then fails with the database's error: the question stays without an answer.
\<close>

theorem reused_identifier_leaves_question:
  assumes "store_ok (ca_db app)" and "select_conversation w cid (ca_db app) \<noteq> None"
    and "content \<noteq> [] \<and> length content \<le> 4000"
    and "m \<in> set (db_messages (ca_db app))" and "mg_request m = Some r" and "mg_conversation m \<noteq> cid"
    and "{fv_user fr, fv_assistant fr} \<inter> mg_id ` set (db_messages (ca_db app)) = {}"
    and "stream_message column S fr w cid content (Some r) app = (res, app')"
  shows "\<exists>e q. res = Inl (Crash e) \<and> exc_type e = py ''IntegrityError''
     \<and> db_messages (ca_db app') = db_messages (ca_db app) @ [q] \<and> mg_conversation q = cid \<and> mg_content q = Some content
     \<and> ca_launched app' = ca_launched app"
proof -
  let ?db = "ca_db app"
  have inj: "inj_on mg_request {m \<in> set (db_messages ?db). mg_request m \<noteq> None}"
    using store_okD(3) [OF assms(1)] by (simp add: requests_def distinct_map)
  have "x = m" if "x \<in> set (db_messages ?db)" "mg_request x = Some r" for x
    by (rule inj_onD [OF inj]) (use that assms(4,5) in simp_all)
  then have none: "get_assistant_by_request_id w cid r ?db = None"
    using assms(6) by (auto simp: get_assistant_by_request_id_def find_None_iff)
  obtain q db1 where q: "append_message (fv_user fr) (fv_now fr) w cid RoleUser (Some content) MsgCompleted [] None None ?db
      = (Inr (message_view_of q), db1)" "store_ok db1" "db_messages db1 = db_messages ?db @ [q]"
      "mg_conversation q = cid" "mg_content q = Some content"
      and sel1: "\<And>w' cid'. select_conversation w' cid' db1 = None \<longleftrightarrow> select_conversation w' cid' ?db = None"
    by (rule append_fresh [OF assms(1,2), of "fv_user fr" None]) (use assms(7) in auto)
  have used: "Some r \<in> mg_request ` set (db_messages db1)" using q(3) assms(4,5) by (auto intro!: image_eqI [of _ _ m])
  obtain e where e: "append_message (fv_assistant fr) (fv_now fr) w cid RoleAssistant (Some []) Streaming [] (Some r)
      (Some (fv_trace fr)) db1 = (Inl e, db1)" "exc_type e = py ''IntegrityError''"
    by (rule append_message_cases [OF q(2), of w cid "fv_assistant fr" "fv_now fr" RoleAssistant "Some []" Streaming "[]" "Some r" "Some (fv_trace fr)"])
      (use assms(2) sel1 [of w cid] used in auto)
  obtain d where "get_conversation w cid ?db = Some d"
    using assms(2) get_conversation_None [of w cid ?db] by (cases "get_conversation w cid ?db") auto
  then have "res = Inl (Crash e)" "app' = app\<lparr>ca_db := db1\<rparr>"
    using assms(3,8) none q(1) e by (simp_all add: stream_message_def begin_turn_def Let_def)
  then show ?thesis using q e by auto
qed

theorem reused_identifier_leaves_question_witness:
  "\<exists>e app'. stream_message (\<lambda>s. s) \<lparr>cs_history_budget = 100, cs_history_limit = 5\<rparr> demo_fresh 1 5 (py ''hi'') (Some 9) demo_app
     = (Inl (Crash e), app') \<and> length (db_messages (ca_db app')) = 2"
proof -
  obtain res app' where run: "stream_message (\<lambda>s. s) \<lparr>cs_history_budget = 100, cs_history_limit = 5\<rparr> demo_fresh 1 5 (py ''hi'')
      (Some 9) demo_app = (res, app')" by fastforce
  have msgs: "map (\<lambda>m. (mg_conversation m, mg_request m)) (db_messages (ca_db demo_app)) = [(6, Some 9)]"
    by (simp add: demo_app_def run_store_def create_conversation_def append_message_def empty_db_def
        update_conversations_def select_conversation_def own_conversation_def Let_def)
  then obtain m where m: "db_messages (ca_db demo_app) = [m]" "mg_conversation m = 6" "mg_request m = Some 9" by auto
  from reused_identifier_leaves_question [OF demo_app_db(1,2) _ _ m(3) _ _ run] m show ?thesis
    using demo_app_db(4) run by (auto simp: demo_fresh_def)
qed

text \<open>
  A limit of aborting: whoever asks, from whatever workspace and naming whatever
  conversation, the running task of a message is cancelled and the abort is reported as done;
  the store, which would know who owns the message, is only consulted when no task runs.
\<close>

theorem abort_needs_no_access:
  assumes "is_running mid (ca_tasks app)"
  shows "\<exists>M. abort_message column now w cid mid app = (Inr True, app\<lparr>ca_tasks := M\<rparr>)
     \<and> (\<exists>t. dict_get (tm_tasks M) mid = Some t \<and> dict_get (tm_states M) t = Some TaskCancelling)"
  using assms
  by (auto simp: abort_message_def abort_task_def is_running_def cancel_task_def dict_simps split: option.splits)

theorem abort_needs_no_access_witness:
  "get_message 2 11 (ca_db (launch_worker \<lparr>ln_message = 11, ln_workspace = 1, ln_conversation = 5, ln_request = 8, ln_trace = 0,
       ln_question = [], ln_history = []\<rparr> demo_app)) = None
   \<and> fst (abort_message (\<lambda>s. s) 0 2 4 11 (launch_worker \<lparr>ln_message = 11, ln_workspace = 1, ln_conversation = 5, ln_request = 8,
       ln_trace = 0, ln_question = [], ln_history = []\<rparr> demo_app)) = Inr True"
proof
  let ?app = "launch_worker \<lparr>ln_message = 11, ln_workspace = 1, ln_conversation = 5, ln_request = 8,
       ln_trace = 0, ln_question = [], ln_history = []\<rparr> demo_app"
  have "11 \<notin> mg_id ` set (db_messages (ca_db demo_app))" by (simp add: demo_app_db)
  moreover have "ca_db ?app = ca_db demo_app"
    by (simp add: launch_worker_def start_task_def demo_app_db is_running_def no_tasks_def)
  ultimately show "get_message 2 11 (ca_db ?app) = None"
    by (force simp: get_message_def select_message_def find_None_iff)
  have "is_running 11 (ca_tasks ?app)"
    by (simp add: launch_worker_def start_task_def demo_app_db is_running_def no_tasks_def task_live_def)
  from abort_needs_no_access [OF this, of "\<lambda>s. s" 0 2 4] show "fst (abort_message (\<lambda>s. s) 0 2 4 11 ?app) = Inr True" by auto
qed

end
