(* ===== verification/Chat_Turn.thy ===== *)
theory Chat_Turn
  imports Chat_Stream Chat_Sending Agent_Properties
begin

text \<open>
  One turn of a conversation from the request to the client: the worker of \<open>app/chat/worker.py\<close> runs the
  agent of \<open>app/agent/loop.py\<close>, publishes to the in-memory broker and stores its outcome in the conversation
  store, while other requests and other workers use both.  What the worker needs of its surroundings is the
  locale \<open>worker_world\<close>, which the store and the broker together interpret.
\<close>

section \<open>The steps an agent reports\<close>

lemma handle_response_reports:
  assumes "handle_response env n r st w = (out, e, w')"
  shows "length (step_events out) \<le> 1 \<and> (\<forall>s \<in> set (step_events out). as_step s = n)"
  using assms
proof (cases rule: handle_response_cases)
  case (ran sigs)
  from ran(6) show ?thesis by (cases rule: run_calls_cases) auto
qed auto

lemma agent_loop_reports:
  "agent_loop env defs trace k n st w = (out, e, w') \<Longrightarrow>
   sorted_wrt (<) (map as_step (step_events out)) \<and> (\<forall>s \<in> set (step_events out). n < as_step s)"
proof (induction k arbitrary: n st w out e w')
  case (Suc k)
  obtain out1 e1 w1 where it: "agent_iteration env defs trace (n + 1) st w = (out1, e1, w1)"
    by (cases "agent_iteration env defs trace (n + 1) st w")
  have one: "length (step_events out1) \<le> 1 \<and> (\<forall>s \<in> set (step_events out1). as_step s = n + 1)"
    using it
  proof (cases rule: agent_iteration_cases)
    case (failed x)
    then show ?thesis using stream_model_response_text text_not_steps by fastforce
  next
    case (responded o1 r w2 o2)
    then show ?thesis
      using handle_response_reports [OF responded(2)] text_not_steps [OF stream_model_response_text [OF responded(1)]]
      by (auto split: step_end.splits)
  qed
  then have own: "sorted_wrt (<) (map as_step (step_events out1)) \<and> (\<forall>s \<in> set (step_events out1). n < as_step s)"
    by (cases "step_events out1") auto
  show ?case
  proof (cases e1)
    case (Continues st')
    obtain outs e2 w2 where outs: "agent_loop env defs trace k (n + 1) st' w1 = (outs, e2, w2)" by (metis prod_cases3)
    from Suc.IH [OF outs] one own Suc.prems it Continues outs show ?thesis
      by (fastforce simp: sorted_wrt_append sorted_wrt_map)
  qed (use Suc.prems it own in auto)
qed (simp add: Let_def)

lemma agent_stream_reports:
  assumes "agent_stream env user system history trace w = (out, e, w')"
  shows "distinct (map as_step (step_events out))"
  using assms
proof (cases rule: agent_stream_cases)
  case (ran defs reg)
  from agent_loop_reports [OF ran(2)] show ?thesis by (simp add: strict_sorted_iff)
qed simp

section \<open>What a worker needs of its surroundings\<close>

text \<open>The events a worker has published, and the text they leave with a client.\<close>

fun published :: "worker_action list \<Rightarrow> (pystr \<times> arguments) list" where
  "published [] = []"
| "published (Published n d r # tr) = (if r = OpOk then (n, d) # published tr else published tr)"
| "published (Stored c s steps r # tr) = published tr"

fun shown_text :: "pystr \<Rightarrow> (pystr \<times> arguments) list \<Rightarrow> pystr" where
  "shown_text acc [] = acc"
| "shown_text acc ((n, d) # es) =
     (if n = py ''text'' then shown_text (acc @ (case dget d ''text'' of PStr t \<Rightarrow> t | _ \<Rightarrow> [])) es
      else if n = py ''text_reset'' then shown_text [] es
      else shown_text acc es)"

lemma published_append [simp]: "published (a @ b) = published a @ published b"
  by (induction a rule: published.induct) auto

lemma shown_text_append [simp]: "shown_text acc (a @ b) = shown_text (shown_text acc a) b"
  by (induction acc a rule: shown_text.induct) auto

lemma client_text_published: "list_all action_ok tr \<Longrightarrow> client_text acc tr = shown_text acc (published tr)"
  by (induction acc tr rule: client_text.induct) auto

text \<open>What is stored of the events a worker has consumed and the way its stream ended.\<close>

definition final_answer :: "agent_stream_event list \<Rightarrow> stream_end \<Rightarrow> pystr \<times> message_status" where
  "final_answer evs fin = (case fin of
      StreamCancelled \<Rightarrow> (visible [] evs, Aborted)
    | StreamRaises x \<Rightarrow> (render_exc x, MsgError)
    | StreamStops \<Rightarrow> (case first_result evs of
        Some r \<Rightarrow> if rr_status r = Completed then (visible [] evs, MsgCompleted) else (error_message r, MsgError)
      | None \<Rightarrow> (visible [] evs, MsgCompleted)))"

lemma final_answer_status: "snd (final_answer evs fin) \<noteq> Streaming"
  by (auto simp: final_answer_def split: stream_end.split option.split)

text \<open>The parts of an agent's stream a worker may see: the whole stream, or what came before a cancellation.\<close>

definition stream_part ::
  "agent_stream_event list \<Rightarrow> py_exc option \<Rightarrow> agent_stream_event list \<Rightarrow> stream_end \<Rightarrow> bool" where
  "stream_part out exc evs fin \<longleftrightarrow>
     evs = out \<and> fin = (case exc of None \<Rightarrow> StreamStops | Some x \<Rightarrow> StreamRaises x)
     \<or> (\<exists>k. evs = take k out) \<and> filter is_completed evs = [] \<and> fin = StreamCancelled"

lemma first_result_prefix: "filter is_completed pre = [] \<Longrightarrow> first_result (pre @ rest) = first_result rest"
  by (induction pre rule: first_result.induct) auto

lemma error_message_not_Nil: "error_message r \<noteq> []"
  by (simp add: error_message_def content_or_def py_Cons split: option.split)

type_synonym saved_answer = "pystr option \<times> message_status \<times> agent_step list"

text \<open>
  The worker's message has a log of events and an answer in the store, and \<open>kept\<close> is what the store makes of
  steps.  Publishing succeeds, adds to the log and leaves the answer alone; storing succeeds once, as long as the answer
  is still being streamed and the steps have different numbers, and leaves the log alone.
\<close>

locale worker_world =
  fixes env :: "'s worker_env"
    and ids :: worker_ids
    and log :: "'s \<Rightarrow> (pystr \<times> arguments) list"
    and answer :: "'s \<Rightarrow> saved_answer"
    and kept :: "agent_step list \<Rightarrow> agent_step list"
    and inv :: "'s \<Rightarrow> bool"
  assumes publishes: "inv s \<Longrightarrow> we_publish env (wi_message ids) n d s = (r, s') \<Longrightarrow>
      r = OpOk \<and> inv s' \<and> log s' = log s @ [(n, d)] \<and> answer s' = answer s"
    and completes: "inv s \<Longrightarrow> fst (snd (answer s)) = Streaming \<Longrightarrow> distinct (map as_step steps) \<Longrightarrow>
      status \<noteq> Streaming \<Longrightarrow> we_complete env (wi_workspace ids) (wi_message ids) text status steps s = (r, s') \<Longrightarrow>
      r = OpOk \<and> inv s' \<and> log s' = log s \<and> answer s' = (Some text, status, kept steps)"
begin

text \<open>What holds while the worker runs, from the world \<open>s0\<close> on.\<close>

definition running :: "'s \<Rightarrow> 's worker_state \<Rightarrow> bool" where
  "running s0 st \<longleftrightarrow> inv (ws_world st) \<and> log (ws_world st) = log s0 @ published (ws_trace st)
     \<and> answer (ws_world st) = answer s0 \<and> list_all action_ok (ws_trace st) \<and> filter is_stored (ws_trace st) = []"

lemma emit_running:
  assumes "running s0 st"
  obtains s where "emit env ids n d st = (OpOk, st\<lparr>ws_trace := ws_trace st @ [Published (py n) d OpOk], ws_world := s\<rparr>)"
    and "running s0 (st\<lparr>ws_trace := ws_trace st @ [Published (py n) d OpOk], ws_world := s\<rparr>)"
proof -
  obtain r s where p: "we_publish env (wi_message ids) (py n) d (ws_world st) = (r, s)" by fastforce
  have "r = OpOk \<and> inv s \<and> log s = log (ws_world st) @ [(py n, d)] \<and> answer s = answer (ws_world st)"
    by (rule publishes [OF _ p]) (use assms in \<open>simp add: running_def\<close>)
  with p assms that show thesis by (simp add: emit_def running_def)
qed

lemma emit_terminal_running:
  assumes "running s0 st"
  obtains s where "emit_terminal env ids n d st
      = (OpOk, st\<lparr>ws_trace := ws_trace st @ [Published (py n) d OpOk], ws_world := s, ws_terminal := True\<rparr>)"
    and "running s0 (st\<lparr>ws_trace := ws_trace st @ [Published (py n) d OpOk], ws_world := s, ws_terminal := True\<rparr>)"
  by (rule emit_running [OF assms, of n d]) (use that in \<open>simp add: emit_terminal_def running_def\<close>)

text \<open>The events of an agent that has not completed: the text a client shows, the steps, nothing else.\<close>

definition agent_reaches :: "'s worker_state \<Rightarrow> agent_stream_event list \<Rightarrow> 's worker_state \<Rightarrow> bool" where
  "agent_reaches st out st' \<longleftrightarrow> ws_text st' = visible (ws_text st) out \<and> ws_steps st' = ws_steps st @ step_events out
     \<and> ws_status st' = ws_status st \<and> ws_terminal st' = ws_terminal st
     \<and> (\<forall>fin rest. consume env ids fin (concat (map runtime_of_event out) @ rest) st = consume env ids fin rest st')"

lemma consume_agent:
  assumes "running s0 st" and "filter is_completed out = []"
  shows "\<exists>st'. running s0 st' \<and> agent_reaches st out st'"
  using assms
proof (induction out arbitrary: st)
  case (Cons e out)
  have go: ?case
    if ev: "runtime_of_event e = [x]"
      and x: "handle_event env ids x st = (case emit env ids n d su of (r, s) \<Rightarrow> (r, False, s))"
      and su: "running s0 su" "ws_status su = ws_status st" "ws_terminal su = ws_terminal st"
        "visible (ws_text su) out = visible (ws_text st) (e # out)" "ws_steps su @ step_events out = ws_steps st @ step_events (e # out)"
    for x n d su
  proof -
    obtain s where s: "emit env ids n d su = (OpOk, su\<lparr>ws_trace := ws_trace su @ [Published (py n) d OpOk], ws_world := s\<rparr>)"
      and run: "running s0 (su\<lparr>ws_trace := ws_trace su @ [Published (py n) d OpOk], ws_world := s\<rparr>)"
      by (rule emit_running [OF su(1), of n d])
    have "filter is_completed out = []" using Cons.prems(2) by (simp split: if_splits)
    from Cons.IH [OF run this] obtain st' where st': "running s0 st'"
      "agent_reaches (su\<lparr>ws_trace := ws_trace su @ [Published (py n) d OpOk], ws_world := s\<rparr>) out st'" by blast
    then have "agent_reaches st (e # out) st'"
      using su(2-5) by (simp add: agent_reaches_def ev x s)
    with st'(1) show ?thesis by blast
  qed
  show ?case
  proof (cases e)
    case (TextDelta t)
    show ?thesis
    proof (cases "t = []")
      case True
      from Cons.IH [OF Cons.prems(1)] Cons.prems(2) TextDelta obtain st' where "running s0 st'" "agent_reaches st out st'" by auto
      with True TextDelta show ?thesis by (intro exI [of _ st']) (simp add: agent_reaches_def)
    next
      case False
      show ?thesis
        by (rule go [where x = "(rt_event RtText)\<lparr>re_text := Some t\<rparr>" and n = "''text''" and d = "dump_event (we_dump env) ((rt_event RtText)\<lparr>re_text := Some t\<rparr>)"
          and su = "st\<lparr>ws_text := ws_text st @ t\<rparr>"])
          (use TextDelta False Cons.prems(1) in \<open>simp_all add: handle_event_def rt_event_def content_or_def running_def Let_def\<close>)
    qed
  next
    case TextReset
    show ?thesis
      by (rule go [where x = "rt_event RtTextReset" and n = "''text_reset''" and d = "dump_event (we_dump env) (rt_event RtTextReset)"
          and su = "st\<lparr>ws_text := []\<rparr>"])
        (use TextReset Cons.prems(1) in \<open>simp_all add: handle_event_def rt_event_def running_def Let_def\<close>)
  next
    case (StepEvent s)
    show ?thesis
      by (rule go [where x = "(rt_event RtStep)\<lparr>re_step := Some s\<rparr>" and n = "''step''" and d = "dump_event (we_dump env) ((rt_event RtStep)\<lparr>re_step := Some s\<rparr>)"
          and su = "st\<lparr>ws_steps := ws_steps st @ [s]\<rparr>"])
        (use StepEvent Cons.prems(1) in \<open>simp_all add: handle_event_def rt_event_def running_def Let_def\<close>)
  next
    case (CompletedEvent r)
    with Cons.prems(2) show ?thesis by simp
  qed
qed (auto simp: agent_reaches_def)

lemma body_ends:
  assumes "running s0 st" and "ws_text st = []" and "ws_steps st = []" and "ws_status st = MsgCompleted" and "\<not> ws_terminal st"
    and "filter is_completed evs = [] \<or> fin = StreamStops \<and> (\<exists>pre r. evs = pre @ [CompletedEvent r] \<and> filter is_completed pre = [])"
  shows "\<exists>su. running s0 su \<and> (ws_text su, ws_status su) = final_answer evs fin \<and> ws_steps su = step_events evs
    \<and> (case consume env ids fin (concat (map runtime_of_event evs)) st of (r, st1) \<Rightarrow> handle_failure env ids r st1) = (OpOk, su)"
proof -
  let ?mid = "(py ''assistant_message_id'', PStr (str_uuid (wi_message ids)))"
  have plain: ?thesis if none: "filter is_completed evs = []"
  proof -
    from consume_agent [OF assms(1) none] obtain st' where st': "running s0 st'" "agent_reaches st evs st'" by blast
    then have c: "consume env ids fin (concat (map runtime_of_event evs)) st = consume env ids fin [] st'"
      unfolding agent_reaches_def by (metis append_Nil2)
    have r: "first_result evs = None" using first_result_prefix [OF none, of "[]"] by simp
    note f = st'(2) [unfolded agent_reaches_def] assms(2-5)
    show ?thesis
    proof (cases fin)
      case StreamStops
      with c f r st'(1) show ?thesis by (intro exI [of _ st']) (simp add: handle_failure_def final_answer_def)
    next
      case (StreamRaises x)
      have "running s0 (st'\<lparr>ws_status := MsgError, ws_text := render_exc x\<rparr>)" using st'(1) by (simp add: running_def)
      from emit_terminal_running [OF this, of "''error''" "[?mid, (py ''message'', PStr (render_exc x))]"]
      show ?thesis by (rule, intro exI conjI) (use c f StreamRaises in \<open>auto simp: handle_failure_def final_answer_def\<close>)
    next
      case StreamCancelled
      have "running s0 (st'\<lparr>ws_status := Aborted\<rparr>)" using st'(1) by (simp add: running_def)
      from emit_terminal_running [OF this, of "''aborted''" "[?mid, (py ''reason'', pstr ''user_aborted'')]"]
      show ?thesis by (rule, intro exI conjI) (use c f StreamCancelled in \<open>auto simp: handle_failure_def final_answer_def\<close>)
    qed
  qed
  show ?thesis
  proof (cases "filter is_completed evs = []")
    case False
    with assms(6) obtain pre r where evs: "evs = pre @ [CompletedEvent r]" "filter is_completed pre = []" and fin: "fin = StreamStops"
      by blast
    from consume_agent [OF assms(1) evs(2)] obtain st' where st': "running s0 st'" "agent_reaches st pre st'" by blast
    note f = st'(2) [unfolded agent_reaches_def] assms(2-5)
    have r: "first_result evs = Some r" using first_result_prefix [OF evs(2)] by (simp add: evs(1))
    have c: "consume env ids fin (concat (map runtime_of_event evs)) st = consume env ids fin (runtime_of_event (CompletedEvent r)) st'"
      using f by (simp add: evs(1))
    show ?thesis
    proof (cases "rr_status r = Completed")
      case True
      then have "consume env ids fin (runtime_of_event (CompletedEvent r)) st' = (OpOk, st')"
        by (simp add: handle_event_def rt_event_def done_status_def dget_def py_Cons)
      with c f fin r True st'(1) show ?thesis
        by (intro exI [of _ st']) (simp add: handle_failure_def final_answer_def evs(1))
    next
      case False
      let ?x = "(rt_event RtError)\<lparr>re_message := Some (error_message r)\<rparr>"
      have "running s0 (st'\<lparr>ws_status := MsgError, ws_text := error_message r\<rparr>)" using st'(1) by (simp add: running_def)
      from emit_terminal_running [OF this, of "''error''" "dump_event (we_dump env) ?x"] obtain s
        where s: "emit_terminal env ids ''error'' (dump_event (we_dump env) ?x) (st'\<lparr>ws_status := MsgError, ws_text := error_message r\<rparr>)
          = (OpOk, st'\<lparr>ws_status := MsgError, ws_text := error_message r, ws_trace := ws_trace st' @ [Published (py ''error'') (dump_event (we_dump env) ?x) OpOk],
               ws_world := s, ws_terminal := True\<rparr>)"
        and run: "running s0 (st'\<lparr>ws_status := MsgError, ws_text := error_message r, ws_trace := ws_trace st' @ [Published (py ''error'') (dump_event (we_dump env) ?x) OpOk],
               ws_world := s, ws_terminal := True\<rparr>)" by auto
      have "content_or (py ''Agent execution failed.'') (Some (error_message r)) = error_message r"
        by (simp add: content_or_def error_message_not_Nil)
      then have "consume env ids fin (runtime_of_event (CompletedEvent r)) st' = (OpOk, st'\<lparr>ws_status := MsgError, ws_text := error_message r,
          ws_trace := ws_trace st' @ [Published (py ''error'') (dump_event (we_dump env) ?x) OpOk], ws_world := s, ws_terminal := True\<rparr>)"
        using False s by (simp add: handle_event_def rt_event_def)
      with c f fin r False show ?thesis
        by - (rule exI, rule conjI [OF run], simp add: handle_failure_def final_answer_def evs(1))
    qed
  qed (rule plain)
qed

lemma finally_stores:
  assumes "running s0 st" and "fst (snd (answer s0)) = Streaming" and "distinct (map as_step (ws_steps st))"
    and "ws_status st \<noteq> Streaming" and "finally_block env ids OpOk st = (res, st')"
  shows "res = OpOk \<and> inv (ws_world st') \<and> log (ws_world st') = log s0 @ published (ws_trace st') \<and> list_all action_ok (ws_trace st')
    \<and> answer (ws_world st') = (Some (ws_text st), ws_status st, kept (ws_steps st))
    \<and> filter is_stored (ws_trace st') = [Stored (ws_text st) (ws_status st) (ws_steps st) OpOk]"
proof -
  obtain r s where c: "we_complete env (wi_workspace ids) (wi_message ids) (ws_text st) (ws_status st) (ws_steps st) (ws_world st) = (r, s)"
    by fastforce
  have s: "r = OpOk \<and> inv s \<and> log s = log (ws_world st) \<and> answer s = (Some (ws_text st), ws_status st, kept (ws_steps st))"
    by (rule completes [OF _ _ assms(3,4) c]) (use assms(1,2) in \<open>simp_all add: running_def\<close>)
  let ?st1 = "st\<lparr>ws_trace := ws_trace st @ [Stored (ws_text st) (ws_status st) (ws_steps st) OpOk], ws_world := s\<rparr>"
  have store: "store_outcome env ids st = (OpOk, ?st1)" using c s by (simp add: store_outcome_def)
  show ?thesis
  proof (cases "ws_terminal st")
    case True
    then have "st' = ?st1" "res = OpOk" using assms(5) store by (simp_all add: finally_block_def)
    with s assms(1) show ?thesis by (simp add: running_def)
  next
    case False
    let ?mid = "(py ''assistant_message_id'', PStr (str_uuid (wi_message ids)))" and ?stored = "(py ''persisted'', PBool True)"
    define n where "n = (if ws_status st = MsgCompleted then ''done'' else ''error'')"
    define d where "d = (if ws_status st = MsgCompleted
       then [(py ''conversation_id'', PStr (str_uuid (wi_conversation ids))), ?mid, ?stored]
       else [?mid, (py ''message'', pstr ''Agent task ended without a terminal event.''), ?stored])"
    obtain r2 s2 where p: "we_publish env (wi_message ids) (py n) d s = (r2, s2)" by fastforce
    have s2: "r2 = OpOk \<and> inv s2 \<and> log s2 = log s @ [(py n, d)] \<and> answer s2 = answer s"
      by (rule publishes [OF _ p]) (use s in simp)
    have "finally_block env ids OpOk st = (case emit env ids n d ?st1 of (OpOk, su) \<Rightarrow> (OpOk, su) | (f, su) \<Rightarrow> (f, su))"
      using False by (simp add: finally_block_def store n_def d_def)
    also have "emit env ids n d ?st1 = (OpOk, ?st1\<lparr>ws_trace := ws_trace ?st1 @ [Published (py n) d OpOk], ws_world := s2\<rparr>)"
      using p s2 by (simp add: emit_def)
    finally have "st' = ?st1\<lparr>ws_trace := ws_trace ?st1 @ [Published (py n) d OpOk], ws_world := s2\<rparr>" "res = OpOk"
      using assms(5) by simp_all
    with s s2 assms(1) show ?thesis by (simp add: running_def)
  qed
qed

text \<open>So every run of a worker with an agent's events stores the answer and reports it.\<close>

lemma worker_answers:
  assumes "inv s" and "fst (snd (answer s)) = Streaming" and "distinct (map as_step (step_events evs))"
    and "filter is_completed evs = [] \<or> fin = StreamStops \<and> (\<exists>pre r. evs = pre @ [CompletedEvent r] \<and> filter is_completed pre = [])"
    and "worker_run env ids (concat (map runtime_of_event evs)) fin s = (res, st)"
  shows "res = OpOk \<and> inv (ws_world st) \<and> log (ws_world st) = log s @ published (ws_trace st) \<and> list_all action_ok (ws_trace st)
    \<and> answer (ws_world st) = (Some (fst (final_answer evs fin)), snd (final_answer evs fin), kept (step_events evs))
    \<and> filter is_stored (ws_trace st) = [Stored (fst (final_answer evs fin)) (snd (final_answer evs fin)) (step_events evs) OpOk]"
proof -
  define d where "d = [(py ''conversation_id'', PStr (str_uuid (wi_conversation ids))),
    (py ''assistant_message_id'', PStr (str_uuid (wi_message ids))),
    (py ''request_id'', PStr (str_uuid (wi_request ids))), (py ''trace_id'', PStr (str_uuid (wi_trace ids)))]"
  have "running s (worker_start s)" using assms(1) by (simp add: running_def worker_start_def)
  from emit_running [OF this, of "''start''" d] obtain s1 where em: "emit env ids ''start'' d (worker_start s) = (OpOk,
      (worker_start s)\<lparr>ws_trace := ws_trace (worker_start s) @ [Published (py ''start'') d OpOk], ws_world := s1\<rparr>)"
    and run: "running s ((worker_start s)\<lparr>ws_trace := ws_trace (worker_start s) @ [Published (py ''start'') d OpOk], ws_world := s1\<rparr>)"
    by blast
  let ?st = "(worker_start s)\<lparr>ws_trace := ws_trace (worker_start s) @ [Published (py ''start'') d OpOk], ws_world := s1\<rparr>"
  from body_ends [OF run _ _ _ _ assms(4)] obtain su where su: "running s su" "(ws_text su, ws_status su) = final_answer evs fin"
    "ws_steps su = step_events evs"
    "(case consume env ids fin (concat (map runtime_of_event evs)) ?st of (r, st1) \<Rightarrow> handle_failure env ids r st1) = (OpOk, su)"
    by (auto simp: worker_start_def)
  have "worker_run env ids (concat (map runtime_of_event evs)) fin s = finally_block env ids OpOk su"
    using em su(4) by (simp add: worker_run_def flip: d_def) (simp split: prod.splits)
  then have f: "finally_block env ids OpOk su = (res, st)" using assms(5) by simp
  have "distinct (map as_step (ws_steps su))" using su(3) assms(3) by simp
  note steps = this
  have "ws_status su \<noteq> Streaming" using su(2) final_answer_status [of evs fin] by (metis snd_conv)
  from finally_stores [OF su(1) assms(2) steps this f] su(2,3) show ?thesis by (metis fst_conv snd_conv)
qed

end

section \<open>How the log of a message ends\<close>

lemma published_no_terminal:
  "list_all action_ok tr \<Longrightarrow> filter terminal_ok tr = [] \<Longrightarrow> list_all (\<lambda>(n, d). \<not> terminal_name n) (published tr)"
  by (induction tr rule: published.induct) (auto split: if_splits)

lemma trace_closes:
  assumes run: "worker_run env ids events fin s = (r, st)" and ok: "list_all action_ok (ws_trace st)"
    and st: "filter is_stored (ws_trace st) = [Stored text status steps OpOk]"
  obtains front d where "published (ws_trace st) = front @ [(snapshot_terminal status, d)]"
    and "list_all (\<lambda>(n, d). \<not> terminal_name n) front"
    and "status = MsgCompleted \<longrightarrow> text = shown_text [] (published (ws_trace st))"
proof -
  from worker_run_trace [OF run] ok have one: "length (filter terminal_ok (ws_trace st)) = 1" and ends: "ends_properly (ws_trace st)"
    by simp_all
  from ends show thesis unfolding ends_properly_def
  proof (elim disjE exE conjE)
    fix pre steps' d
    assume tr: "ws_trace st = pre @ [Stored (client_text [] pre) MsgCompleted steps' OpOk, Published (py ''done'') d OpOk]"
    then have "text = client_text [] pre" "status = MsgCompleted" using st by (auto simp: append_eq_Cons_conv)
    moreover have "filter terminal_ok pre = []" using one tr by (simp add: terminal_name_def)
    moreover have "list_all action_ok pre" using ok tr by simp
    ultimately show thesis
      using tr published_no_terminal [of pre] client_text_published [of pre "[]"]
      by (intro that [of "published pre" d]) (simp_all add: snapshot_terminal_def)
  next
    fix pre text' steps' d n status'
    assume tr: "ws_trace st = pre @ [Published n d OpOk, Stored text' status' steps' OpOk]"
      and n: "(n, status') \<in> {(py ''error'', MsgError), (py ''aborted'', Aborted)}"
    then have "status = status'" using st by (auto simp: append_eq_Cons_conv)
    moreover have "filter terminal_ok pre = []" using one tr n by (auto simp: terminal_name_def)
    moreover have "list_all action_ok pre" using ok tr by simp
    ultimately show thesis
      using tr n published_no_terminal [of pre]
      by (intro that [of "published pre" d]) (auto simp: snapshot_terminal_def)
  qed
qed

section \<open>The store and the broker, with others at work\<close>

text \<open>
  Between the operations of a worker, other requests and other workers use the store and the broker.  What they do
  before each of its operations is a list; the in-memory broker never suspends, so publishing cannot fail or be
  cancelled.
\<close>

datatype other_op = OtherStore store_op | OtherPublish uuid pystr arguments | OtherRead uuid pystr nat

record chat_world =
  cw_db :: chat_db
  cw_broker :: mem_broker
  cw_others :: "other_op list list"

fun other_apply :: "(agent_step \<Rightarrow> agent_step) \<Rightarrow> other_op \<Rightarrow> chat_world \<Rightarrow> chat_world" where
  "other_apply column (OtherStore op) w = w\<lparr>cw_db := store_apply column op (cw_db w)\<rparr>"
| "other_apply column (OtherPublish m n d) w = w\<lparr>cw_broker := snd (mem_publish m n d (cw_broker w))\<rparr>"
| "other_apply column (OtherRead m cursor k) w = w\<lparr>cw_broker := snd (mem_read m cursor k (cw_broker w))\<rparr>"

definition others_act :: "(agent_step \<Rightarrow> agent_step) \<Rightarrow> chat_world \<Rightarrow> chat_world" where
  "others_act column w = (case cw_others w of
      [] \<Rightarrow> w
    | ops # rest \<Rightarrow> (fold (other_apply column) ops w)\<lparr>cw_others := rest\<rparr>)"

text \<open>The store and the broker a \<open>ChatWorker\<close> is constructed with.\<close>

definition chat_worker_env :: "(agent_step \<Rightarrow> agent_step) \<Rightarrow> int \<Rightarrow> dump_env \<Rightarrow> chat_world worker_env" where
  "chat_worker_env column now D = \<lparr>
     we_publish = (\<lambda>m n d w. let w' = others_act column w
        in (OpOk, w'\<lparr>cw_broker := snd (mem_publish m n d (cw_broker w'))\<rparr>)),
     we_complete = (\<lambda>ws m text status steps w. let w' = others_act column w
        in case complete_assistant_message column now ws m (Some text) status steps (cw_db w') of
             (Inl e, db) \<Rightarrow> (OpRaises e, w'\<lparr>cw_db := db\<rparr>)
           | (Inr v, db) \<Rightarrow> (OpOk, w'\<lparr>cw_db := db\<rparr>)),
     we_dump = D\<rparr>"

definition job_ids :: "launch \<Rightarrow> worker_ids" where
  "job_ids job = \<lparr>wi_message = ln_message job, wi_workspace = ln_workspace job, wi_conversation = ln_conversation job,
     wi_request = ln_request job, wi_trace = ln_trace job\<rparr>"

text \<open>
  What the others leave alone: the answer itself, which only its worker completes while it runs, its conversation,
  which somebody could delete, and the events of its message.
\<close>

fun spares :: "uuid \<Rightarrow> uuid \<Rightarrow> other_op \<Rightarrow> bool" where
  "spares m cid (OtherStore (CompleteOp now w mid content status steps)) = (mid \<noteq> m)"
| "spares m cid (OtherStore (DeleteOp w c)) = (c \<noteq> cid)"
| "spares m cid (OtherStore op) = True"
| "spares m cid (OtherPublish n e d) = (n \<noteq> m \<and> n < 2 ^ 128)"
| "spares m cid (OtherRead n cursor k) = True"

subsection \<open>An answer that others spare stays\<close>

definition hosted :: "uuid \<Rightarrow> uuid \<Rightarrow> chat_db \<Rightarrow> bool" where
  "hosted w cid db \<longleftrightarrow> (\<exists>c \<in> set (db_conversations db). cv_id c = cid \<and> cv_workspace c = w)"

lemma hosted_update [simp]:
  "\<lbrakk>\<And>c. cv_id (f c) = cv_id c; \<And>c. cv_workspace (f c) = cv_workspace c\<rbrakk> \<Longrightarrow>
   hosted w cid (update_conversations P f db) = hosted w cid db"
proof -
  assume f: "\<And>c. cv_id (f c) = cv_id c" "\<And>c. cv_workspace (f c) = cv_workspace c"
  define g where "g = (\<lambda>c. if P c then f c else c)"
  have "cv_id (g c) = cv_id c" "cv_workspace (g c) = cv_workspace c" for c using f by (simp_all add: g_def)
  moreover have "db_conversations (update_conversations P f db) = map g (db_conversations db)"
    by (simp add: update_conversations_def g_def)
  ultimately show ?thesis by (simp add: hosted_def)
qed

lemma hosted_messages [simp]: "hosted w cid (db\<lparr>db_messages := ms\<rparr>) = hosted w cid db"
  by (simp add: hosted_def)

lemma select_message_iff:
  assumes "store_ok db"
  shows "select_message w m db = Some row \<longleftrightarrow>
    row \<in> set (db_messages db) \<and> mg_id row = m \<and> hosted w (mg_conversation row) db"
proof -
  have inw: "in_workspace w db x \<longleftrightarrow> hosted w (mg_conversation x) db" for x
    by (auto simp: in_workspace_def hosted_def select_conversation_def own_conversation_def find_None_iff)
  have uniq: "x = y" if "x \<in> set (db_messages db)" "y \<in> set (db_messages db)" "mg_id x = mg_id y" for x y
    by (rule message_unique [OF assms that])
  show ?thesis
  proof
    assume "select_message w m db = Some row"
    then show "row \<in> set (db_messages db) \<and> mg_id row = m \<and> hosted w (mg_conversation row) db"
      unfolding select_message_def inw by (auto dest: find_some)
  next
    assume "row \<in> set (db_messages db) \<and> mg_id row = m \<and> hosted w (mg_conversation row) db"
    then show "select_message w m db = Some row"
      unfolding select_message_def inw by (intro find_unique) (use uniq in auto)
  qed
qed

lemma spared_message:
  assumes ok: "store_ok db" and sel: "select_message w m db = Some row" and "spares m (mg_conversation row) (OtherStore op)"
  shows "select_message w m (store_apply column op db) = Some row"
proof -
  have row: "row \<in> set (db_messages db)" "mg_id row = m" "hosted w (mg_conversation row) db"
    using sel by (simp_all add: select_message_iff [OF ok])
  have "row \<in> set (db_messages (store_apply column op db)) \<and> hosted w (mg_conversation row) (store_apply column op db)"
  proof (cases op)
    case (CreateOp i now v title)
    with row show ?thesis by (auto simp: create_conversation_def hosted_def Let_def)
  next
    case (AppendOp i now v c role content status calls request trace)
    from ok show ?thesis
      by (cases rule: append_message_cases [of db v c i now role content status calls request trace])
        (use row AppendOp in auto)
  next
    case (CompleteOp now v mid content status steps)
    then have "mid \<noteq> m" using assms(3) by simp
    with row CompleteOp show ?thesis
      by (auto simp: complete_assistant_message_def Let_def image_iff intro!: bexI [of _ row] split: option.split)
  next
    case (ArchiveOp now v c archived)
    with row show ?thesis by (auto simp: archive_conversation_def split: option.split)
  next
    case (DeleteOp v c)
    with row assms(3) show ?thesis by (auto simp: delete_conversation_def hosted_def split: option.split)
  qed
  with row(2) show ?thesis by (simp add: select_message_iff [OF store_ok_apply [OF ok]])
qed

subsection \<open>The store and the broker are such surroundings\<close>

definition turn_log :: "worker_ids \<Rightarrow> chat_world \<Rightarrow> (pystr \<times> arguments) list" where
  "turn_log ids w = map (\<lambda>e. (be_event e, be_data e)) (mem_log (cw_broker w) (wi_message ids))"

definition turn_answer :: "worker_ids \<Rightarrow> chat_world \<Rightarrow> saved_answer" where
  "turn_answer ids w = (case select_message (wi_workspace ids) (wi_message ids) (cw_db w) of
      Some row \<Rightarrow> (mg_content row, mg_status row, mg_steps row) | None \<Rightarrow> (None, Aborted, []))"

definition turn_ok :: "worker_ids \<Rightarrow> chat_world \<Rightarrow> bool" where
  "turn_ok ids w \<longleftrightarrow> store_ok (cw_db w) \<and> mem_inv (cw_broker w) \<and> wi_message ids < 2 ^ 128
     \<and> list_all (list_all (spares (wi_message ids) (wi_conversation ids))) (cw_others w)
     \<and> (\<exists>row. select_message (wi_workspace ids) (wi_message ids) (cw_db w) = Some row
          \<and> mg_conversation row = wi_conversation ids \<and> (mg_status row = Streaming \<longrightarrow> mg_steps row = []))"

lemma other_spares:
  assumes "turn_ok ids w" and "spares (wi_message ids) (wi_conversation ids) op"
  shows "turn_ok ids (other_apply column op w) \<and> turn_log ids (other_apply column op w) = turn_log ids w
    \<and> turn_answer ids (other_apply column op w) = turn_answer ids w"
proof (cases op)
  case (OtherStore so)
  from assms(1) obtain row where row: "select_message (wi_workspace ids) (wi_message ids) (cw_db w) = Some row"
    "mg_conversation row = wi_conversation ids" and ok: "store_ok (cw_db w)" by (auto simp: turn_ok_def)
  from spared_message [OF ok row(1), of so column] assms(2) OtherStore row(2)
  have "select_message (wi_workspace ids) (wi_message ids) (store_apply column so (cw_db w)) = Some row" by simp
  with assms(1) row OtherStore store_ok_apply [OF ok] show ?thesis by (simp add: turn_ok_def turn_log_def turn_answer_def)
next
  case (OtherPublish m n d)
  then show ?thesis using assms mem_publish_inv mem_publish_log
    by (simp add: turn_ok_def turn_log_def turn_answer_def)
next
  case (OtherRead m cursor k)
  then show ?thesis using assms mem_inv_read mem_log_read by (simp add: turn_ok_def turn_log_def turn_answer_def)
qed

lemma others_spare:
  assumes "turn_ok ids w"
  shows "turn_ok ids (others_act column w) \<and> turn_log ids (others_act column w) = turn_log ids w
    \<and> turn_answer ids (others_act column w) = turn_answer ids w"
proof (cases "cw_others w")
  case (Cons ops rest)
  have "list_all (spares (wi_message ids) (wi_conversation ids)) ops \<Longrightarrow> turn_ok ids v \<Longrightarrow>
    turn_ok ids (fold (other_apply column) ops v) \<and> turn_log ids (fold (other_apply column) ops v) = turn_log ids v
    \<and> turn_answer ids (fold (other_apply column) ops v) = turn_answer ids v" for v
    by (induction ops arbitrary: v) (use other_spares in \<open>fastforce+\<close>)
  from this [of w] assms Cons show ?thesis
    by (simp add: others_act_def turn_ok_def [of _ "_\<lparr>cw_others := _\<rparr>"] turn_log_def turn_answer_def) (simp add: turn_ok_def)
qed (use assms in \<open>simp add: others_act_def\<close>)

lemma turn_publishes:
  assumes "turn_ok ids w" and "we_publish (chat_worker_env column now D) (wi_message ids) n d w = (r, w')"
  shows "r = OpOk \<and> turn_ok ids w' \<and> turn_log ids w' = turn_log ids w @ [(n, d)] \<and> turn_answer ids w' = turn_answer ids w"
proof -
  let ?w = "others_act column w"
  have w': "r = OpOk" "w' = ?w\<lparr>cw_broker := snd (mem_publish (wi_message ids) n d (cw_broker ?w))\<rparr>"
    using assms(2) by (simp_all add: chat_worker_env_def Let_def)
  note o = others_spare [OF assms(1), of column]
  then have "mem_inv (cw_broker ?w)" "wi_message ids < 2 ^ 128" by (simp_all add: turn_ok_def)
  with mem_publish_inv mem_publish_log [of "wi_message ids" "wi_message ids" n d "cw_broker ?w"] o show ?thesis
    by (simp add: w' turn_ok_def turn_log_def turn_answer_def)
qed

lemma turn_completes:
  assumes "turn_ok ids w" and "fst (snd (turn_answer ids w)) = Streaming" and "distinct (map as_step steps)"
    and "status \<noteq> Streaming" and "we_complete (chat_worker_env column now D) (wi_workspace ids) (wi_message ids) text status steps w = (r, w')"
  shows "r = OpOk \<and> turn_ok ids w' \<and> turn_log ids w' = turn_log ids w \<and> turn_answer ids w' = (Some text, status, map column steps)"
proof -
  let ?w = "others_act column w" and ?m = "wi_message ids"
  note o = others_spare [OF assms(1), of column]
  from o obtain row where sel: "select_message (wi_workspace ids) ?m (cw_db ?w) = Some row"
    and row: "mg_conversation row = wi_conversation ids" "mg_status row = Streaming \<longrightarrow> mg_steps row = []" and ok: "store_ok (cw_db ?w)"
    by (auto simp: turn_ok_def)
  have "turn_answer ids ?w = (mg_content row, mg_status row, mg_steps row)" using sel by (simp add: turn_answer_def)
  then have streaming: "mg_status row = Streaming" "mg_steps row = []" using o assms(2) row(2) by simp_all
  let ?row = "row\<lparr>mg_content := Some text, mg_status := status, mg_steps := map column steps\<rparr>"
  obtain v db where c: "complete_assistant_message column now (wi_workspace ids) ?m (Some text) status steps (cw_db ?w) = (Inr v, db)"
    and db: "db_messages db = map (\<lambda>x. if mg_id x = ?m then x\<lparr>mg_content := Some text, mg_status := status, mg_steps := map column steps\<rparr> else x)
        (db_messages (cw_db ?w))" "hosted (wi_workspace ids) (mg_conversation row) db = hosted (wi_workspace ids) (mg_conversation row) (cw_db ?w)"
    using sel streaming assms(3) by (simp add: complete_assistant_message_def Let_def)
  have w': "r = OpOk" "w' = ?w\<lparr>cw_db := db\<rparr>" using assms(5) c by (simp_all add: chat_worker_env_def Let_def)
  have ok': "store_ok db"
    using store_ok_complete [OF ok, of column now "wi_workspace ids" ?m "Some text" status steps] c by simp
  have "select_message (wi_workspace ids) ?m db = Some ?row"
    using sel unfolding select_message_iff [OF ok] select_message_iff [OF ok'] db(1)
    by (auto simp: db(2) intro!: image_eqI [of _ _ row])
  with o row ok' assms(4) show ?thesis by (auto simp: w' turn_ok_def turn_log_def turn_answer_def)
qed

interpretation turn: worker_world "chat_worker_env column now D" ids "turn_log ids" "turn_answer ids" "map column" "turn_ok ids"
  for column now D ids
  by unfold_locales (blast dest: turn_publishes turn_completes)+

section \<open>A client that comes back when the answer is complete\<close>

text \<open>What a client that has received the first \<open>k\<close> events is sent when it asks for the rest.\<close>

definition resumed_stream ::
  "dump_env \<Rightarrow> uuid \<Rightarrow> message_view \<Rightarrow> nat \<Rightarrow> mem_broker \<Rightarrow> task_manager \<Rightarrow> pystr list \<times> stream_outcome" where
  "resumed_stream D cid v k b M =
     (let log = mem_log b (mv_id v)
      in event_stream D (\<lambda>c b. fst (mem_read (mv_id v) c 100 b)) cid v
           (if k = 0 then None else Some (be_id (log ! (k - 1)))) b M (turns_of b (replicate (length log) (False, []))))"

lemma resumed_stream_complete:
  assumes "mem_inv b" and "mv_id v < 2 ^ 128" and log: "mem_log b (mv_id v) = front @ [e]"
    and front: "\<not> has_end front" and e: "ends_stream e" and k: "k \<le> length front"
    and enc: "list_all (\<lambda>e. is_ok (encode_broker_event e)) (mem_log b (mv_id v))"
    and run: "resumed_stream D cid v k b M = (frames, ending)"
  shows "ending = StreamEnds \<and> filter (\<lambda>f. f \<noteq> ping) frames = map the_frame (drop k (front @ [e]))"
proof -
  let ?sent = "take k front" and ?rest = "drop k front @ [e]" and ?h = "replicate (length (front @ [e])) (False, [] :: (uuid \<times> pystr \<times> arguments) list)"
  have final: "final_broker b ?h = b" by (simp add: final_broker_def publish_all_def)
  have sent: "\<not> has_end ?sent" "\<not> has_end (drop k front)"
    using front has_end_simps(3) [of ?sent "drop k front"] by simp_all
  then have rest: "upto_end ?rest = ?rest" "has_end ?rest" using e by simp_all
  have split: "mem_log b (mv_id v) = ?sent @ ?rest" using log k by simp
  have header: "(if k = 0 then None else Some (be_id (mem_log b (mv_id v) ! (k - 1))))
      = (if ?sent = [] then None else Some (be_id (last ?sent)))"
    using k by (auto simp: log nth_append last_conv_nth)
  have "\<forall>x \<in> set ?h. \<not> fst x" by simp
  then have conn: "list_all (\<lambda>x. \<not> fst x) ?h" by (simp only: list_all_iff)
  have r: "event_stream D (\<lambda>c b. fst (mem_read (mv_id v) c 100 b)) cid v
      (if ?sent = [] then None else Some (be_id (last ?sent))) b M (turns_of b ?h) = (frames, ending)"
    using run unfolding resumed_stream_def Let_def header unfolding log .
  have "list_all (\<lambda>e. is_ok (encode_broker_event e)) (mem_log (final_broker b ?h) (mv_id v))" unfolding final by (rule enc)
  note res = event_stream_resumes [OF assms(1,2) _ split sent(1) _ this refl r]
  have ends: "ending = StreamEnds" using conjunct2 [OF res] conn rest by (simp add: ids_ok_def)
  from conjunct1 [OF res] obtain seen unseen where "mem_log (final_broker b ?h) (mv_id v) = ?sent @ seen @ unseen"
    and frames: "filter (\<lambda>f. f \<noteq> ping) frames = map the_frame (upto_end seen)"
    and e: "ending \<in> (if has_end seen then {StreamEnds} else {StreamOpen, StreamGone})" by (auto simp: ids_ok_def simp del: replicate.simps)
  then have "?sent @ ?rest = ?sent @ seen @ unseen" unfolding final split by simp
  moreover have "has_end seen" using e ends by (auto split: if_splits)
  ultimately have "upto_end seen = ?rest" using rest upto_end_append [of seen unseen] by simp
  with frames ends k show ?thesis by simp
qed

section \<open>The turn\<close>

lemma stream_part_shape:
  assumes "agent_stream env user system history trace w = (out, exc, w')" and part: "stream_part out exc evs fin"
  shows "filter is_completed evs = [] \<or> fin = StreamStops \<and> (\<exists>pre r. evs = pre @ [CompletedEvent r] \<and> filter is_completed pre = [])"
    and "distinct (map as_step (step_events evs))"
proof -
  show "filter is_completed evs = [] \<or> fin = StreamStops \<and> (\<exists>pre r. evs = pre @ [CompletedEvent r] \<and> filter is_completed pre = [])"
    using part agent_stream_shape [OF assms(1)] by (cases exc) (auto simp: stream_part_def)
  obtain rest where "out = evs @ rest" using part unfolding stream_part_def by (metis append_Nil2 append_take_drop_id)
  with agent_stream_reports [OF assms(1)] show "distinct (map as_step (step_events evs))" by simp
qed

text \<open>A completed answer is the agent's.\<close>

lemma completed_answer:
  assumes run: "agent_stream env user system history trace w = (out, exc, w')" and part: "stream_part out exc evs fin"
    and "snd (final_answer evs fin) = MsgCompleted"
  obtains r where "agent_run env user system history trace w = (Inr r, w')" "rr_status r = Completed"
    "fst (final_answer evs fin) = content_or [] (rr_output r)"
proof -
  from part assms(3) have fin: "fin = StreamStops" "evs = out" "exc = None"
    by (auto simp: stream_part_def final_answer_def split: option.splits)
  from agent_stream_shape [OF run] fin(3) obtain pre r where out: "out = pre @ [CompletedEvent r]" "filter is_completed pre = []" by auto
  then have r: "first_result out = Some r" using first_result_prefix [OF out(2)] by simp
  with assms(3) fin have c: "rr_status r = Completed" by (auto simp: final_answer_def split: if_splits)
  have "visible [] out = content_or [] (rr_output r)"
    using collected_text_is_answer [OF run [unfolded fin(3)], of r] out c by simp
  with r c fin run show thesis by (intro that [of r]) (simp_all add: agent_run_def final_answer_def)
qed

text \<open>The world after the request is one a worker can start in.\<close>

lemma launched_turn_ok:
  assumes "store_ok db" and "a \<in> set (db_messages db)" and "mg_conversation a = cid" and "mg_status a = Streaming" and "mg_steps a = []"
    and "select_conversation w cid db \<noteq> None" and "mem_inv b" and "mg_id a < 2 ^ 128" and "list_all (list_all (spares (mg_id a) cid)) others"
    and "ids = \<lparr>wi_message = mg_id a, wi_workspace = w, wi_conversation = cid, wi_request = r, wi_trace = t\<rparr>"
  shows "turn_ok ids \<lparr>cw_db = db, cw_broker = b, cw_others = others\<rparr>"
    and "turn_answer ids \<lparr>cw_db = db, cw_broker = b, cw_others = others\<rparr> = (mg_content a, Streaming, [])"
proof -
  obtain c where "c \<in> set (db_conversations db)" "cv_id c = cid" "cv_workspace c = w"
    using assms(6) by (auto dest: select_conversation_Some)
  then have "select_message w (mg_id a) db = Some a"
    unfolding select_message_iff [OF assms(1)] using assms(2,3) by (auto simp: hosted_def)
  with assms show "turn_ok ids \<lparr>cw_db = db, cw_broker = b, cw_others = others\<rparr>"
    and "turn_answer ids \<lparr>cw_db = db, cw_broker = b, cw_others = others\<rparr> = (mg_content a, Streaming, [])"
    by (simp_all add: turn_ok_def turn_answer_def)
qed

lemma ends_stream_terminal: "ends_stream e \<longleftrightarrow> terminal_name (be_event e)"
  by (auto simp: ends_stream_def terminal_name_def)

lemma snapshot_terminal_name: "s \<noteq> Streaming \<Longrightarrow> terminal_name (snapshot_terminal s)"
  by (cases s) (simp_all add: snapshot_terminal_def terminal_name_def)

text \<open>What a turn leaves in the store and in the log.\<close>

lemma turn_outcome:
  assumes "turn_ok ids s" and "fst (snd (turn_answer ids s)) = Streaming" and "turn_log ids s = []"
    and "agent_stream env user system history trace v0 = (out, exc, v1)" and "stream_part out exc evs fin"
    and run: "worker_run (chat_worker_env column now D) ids (concat (map runtime_of_event evs)) fin s = (res, st)"
  obtains v front e where "get_message (wi_workspace ids) (wi_message ids) (cw_db (ws_world st)) = Some v"
    "mv_content v = Some (fst (final_answer evs fin))" "mv_status v = snd (final_answer evs fin)" "mv_id v = wi_message ids"
    "mv_steps v = sort_key as_step (map column (step_events evs))"
    "mem_log (cw_broker (ws_world st)) (wi_message ids) = front @ [e]" "mem_inv (cw_broker (ws_world st))"
    "\<not> has_end front" "ends_stream e" "be_event e = snapshot_terminal (mv_status v)"
    "mv_status v = MsgCompleted \<longrightarrow> mv_content v = Some (shown_text [] (map (\<lambda>e. (be_event e, be_data e)) (front @ [e])))"
proof -
  let ?ans = "final_answer evs fin" and ?w = "ws_world st"
  note part = stream_part_shape [OF assms(4,5)]
  note end_of = turn.worker_answers [OF assms(1,2) part(2,1) run]
  have st: "filter is_stored (ws_trace st) = [Stored (fst ?ans) (snd ?ans) (step_events evs) OpOk]"
    and ok: "list_all action_ok (ws_trace st)" and world: "turn_ok ids ?w" using end_of by blast+
  obtain front d where pub: "published (ws_trace st) = front @ [(snapshot_terminal (snd ?ans), d)]"
    and nt: "list_all (\<lambda>(n, d). \<not> terminal_name n) front" and shown: "snd ?ans = MsgCompleted \<longrightarrow> fst ?ans = shown_text [] (published (ws_trace st))"
    by (rule trace_closes [OF run ok st])
  have logged: "map (\<lambda>e. (be_event e, be_data e)) (mem_log (cw_broker ?w) (wi_message ids)) = published (ws_trace st)"
    using end_of assms(3) by (simp add: turn_log_def)
  with pub obtain les e where log: "mem_log (cw_broker ?w) (wi_message ids) = les @ [e]"
    "map (\<lambda>e. (be_event e, be_data e)) les = front" "be_event e = snapshot_terminal (snd ?ans)"
    by (auto simp: map_eq_append_conv)
  have none: "\<not> has_end les" using nt log(2) by (auto simp: has_end_def list_all_iff list_ex_iff ends_stream_terminal)
  have e: "ends_stream e" using log(3) final_answer_status [of evs fin] by (simp add: ends_stream_terminal snapshot_terminal_name)
  obtain row where row: "select_message (wi_workspace ids) (wi_message ids) (cw_db ?w) = Some row"
    "mg_content row = Some (fst ?ans)" "mg_status row = snd ?ans" "mg_steps row = map column (step_events evs)"
    using end_of world by (auto simp: turn_answer_def turn_ok_def)
  have "mg_id row = wi_message ids" using row(1) world select_message_iff by (auto simp: turn_ok_def)
  with row have v: "get_message (wi_workspace ids) (wi_message ids) (cw_db ?w) = Some (message_view_of row)"
    "mv_content (message_view_of row) = Some (fst ?ans)" "mv_status (message_view_of row) = snd ?ans"
    "mv_id (message_view_of row) = wi_message ids" "mv_steps (message_view_of row) = sort_key as_step (map column (step_events evs))"
    by (simp_all add: get_message_def message_view_of_def)
  have "mv_status (message_view_of row) = MsgCompleted \<longrightarrow>
      mv_content (message_view_of row) = Some (shown_text [] (map (\<lambda>e. (be_event e, be_data e)) (les @ [e])))"
    unfolding v(2,3) logged [unfolded log(1)] using shown by simp
  moreover have "mem_inv (cw_broker ?w)" "be_event e = snapshot_terminal (mv_status (message_view_of row))"
    using world v(3) log(3) by (simp_all add: turn_ok_def)
  ultimately show thesis by (intro that [OF v log(1) _ none e])
qed

text \<open>
  C1.  A question is answered.  A new question is stored and its worker launched; the worker runs the agent on it, to the
  end of the agent's stream or to a cancellation, while others use the store and the broker in between and leave this
  answer alone.  Then the answer is stored with the status, the text and the steps that the agent's events amount to: a
  completed answer is the output of the agent's completed run, and what a client shows after the published events.  The
  log of the message ends with the event of that status, the only one that ends a stream, and a client that comes back with
  any number of them received is sent exactly the others, and its response ends.
\<close>

theorem question_answered:
  assumes "store_ok (ca_db app)" and "select_conversation w cid (ca_db app) \<noteq> None"
    and "content \<noteq> [] \<and> length content \<le> 4000" and "Some r \<notin> mg_request ` set (db_messages (ca_db app))"
    and "fv_user fr \<noteq> fv_assistant fr" and "{fv_user fr, fv_assistant fr} \<inter> mg_id ` set (db_messages (ca_db app)) = {}"
    and "\<not> is_running (fv_assistant fr) (ca_tasks app)" and "fv_assistant fr < 2 ^ 128"
    and "mem_inv b" and "mem_log b (fv_assistant fr) = []" and "list_all (list_all (spares (fv_assistant fr) cid)) others"
    and "stream_message column S fr w cid content (Some r) app = (sent, app')" and "job = last (ca_launched app')"
    and "agent_stream env (ln_question job) (Some agent_system_prompt) (ln_history job) (Some (ln_trace job)) v0 = (out, exc, v1)"
    and "stream_part out exc evs fin"
    and "worker_run (chat_worker_env column now D) (job_ids job) (concat (map runtime_of_event evs)) fin
      \<lparr>cw_db = ca_db app', cw_broker = b, cw_others = others\<rparr> = (res, st)"
  shows "\<exists>v front e. get_message w (fv_assistant fr) (cw_db (ws_world st)) = Some v
     \<and> mv_content v = Some (fst (final_answer evs fin)) \<and> mv_status v = snd (final_answer evs fin) \<and> mv_status v \<noteq> Streaming
     \<and> mv_steps v = sort_key as_step (map column (step_events evs))
     \<and> mem_log (cw_broker (ws_world st)) (fv_assistant fr) = front @ [e]
     \<and> \<not> has_end front \<and> be_event e = snapshot_terminal (mv_status v)
     \<and> (if mv_status v = MsgCompleted
        then (\<exists>result. agent_run env content (Some agent_system_prompt) (ln_history job) (Some (ln_trace job)) v0 = (Inr result, v1)
               \<and> rr_status result = Completed \<and> mv_content v = Some (content_or [] (rr_output result)))
             \<and> mv_content v = Some (shown_text [] (map (\<lambda>e. (be_event e, be_data e)) (front @ [e]))) else True)
     \<and> (if list_all (\<lambda>e. is_ok (encode_broker_event e)) (front @ [e]) \<and> k \<le> length front
        then \<exists>frames. resumed_stream D cid v k (cw_broker (ws_world st)) M = (frames, StreamEnds)
               \<and> filter (\<lambda>f. f \<noteq> ping) frames = map the_frame (drop k (front @ [e])) else True)"
proof -
  obtain q a where t: "store_ok (ca_db app')" "db_messages (ca_db app') = db_messages (ca_db app) @ [q, a]"
    "mg_id a = fv_assistant fr" "mg_conversation a = cid" "mg_status a = Streaming" "mg_steps a = []"
    "select_conversation w cid (ca_db app') \<noteq> None"
    and job: "ca_launched app' = ca_launched app @ [\<lparr>ln_message = mg_id a, ln_workspace = w, ln_conversation = cid,
       ln_request = r, ln_trace = fv_trace fr, ln_question = content,
       ln_history = get_history (cs_history_budget S) w cid (cs_history_limit S) (ca_db app)\<rparr>]"
    by (rule stream_message_new [OF assms(1-7,12)]) blast
  have ids: "job_ids job = \<lparr>wi_message = mg_id a, wi_workspace = w, wi_conversation = cid, wi_request = r, wi_trace = fv_trace fr\<rparr>"
    and question: "ln_question job = content"
    using job assms(13) by (simp_all add: job_ids_def)
  let ?s = "\<lparr>cw_db = ca_db app', cw_broker = b, cw_others = others\<rparr>" and ?b = "cw_broker (ws_world st)"
  have start: "turn_ok (job_ids job) ?s" "turn_answer (job_ids job) ?s = (mg_content a, Streaming, [])"
    by (rule launched_turn_ok [OF t(1) _ t(4-7) assms(9) _ _ ids]; use t(2,3) assms(8,11) in simp)+
  have streaming: "fst (snd (turn_answer (job_ids job) ?s)) = Streaming" by (simp add: start(2))
  have nolog: "turn_log (job_ids job) ?s = []" using assms(10) t(3) by (simp add: turn_log_def ids)
  obtain v front e where v: "get_message (wi_workspace (job_ids job)) (wi_message (job_ids job)) (cw_db (ws_world st)) = Some v"
    "mv_content v = Some (fst (final_answer evs fin))" "mv_status v = snd (final_answer evs fin)" "mv_id v = wi_message (job_ids job)"
    "mv_steps v = sort_key as_step (map column (step_events evs))"
    and log: "mem_log ?b (wi_message (job_ids job)) = front @ [e]" "mem_inv ?b"
    "\<not> has_end front" "ends_stream e" "be_event e = snapshot_terminal (mv_status v)"
    and shown: "mv_status v = MsgCompleted \<longrightarrow> mv_content v = Some (shown_text [] (map (\<lambda>e. (be_event e, be_data e)) (front @ [e])))"
    by (rule turn_outcome [OF start(1) streaming nolog assms(14,15,16)])
  have answer: "if mv_status v = MsgCompleted
     then (\<exists>result. agent_run env content (Some agent_system_prompt) (ln_history job) (Some (ln_trace job)) v0 = (Inr result, v1)
            \<and> rr_status result = Completed \<and> mv_content v = Some (content_or [] (rr_output result)))
          \<and> mv_content v = Some (shown_text [] (map (\<lambda>e. (be_event e, be_data e)) (front @ [e]))) else True"
    using shown v(2,3) completed_answer [OF assms(14,15)] unfolding question by (metis (no_types, lifting))
  have "\<exists>frames. resumed_stream D cid v k ?b M = (frames, StreamEnds)
       \<and> filter (\<lambda>f. f \<noteq> ping) frames = map the_frame (drop k (front @ [e]))"
    if "list_all (\<lambda>e. is_ok (encode_broker_event e)) (front @ [e]) \<and> k \<le> length front"
  proof -
    obtain frames ending where f: "resumed_stream D cid v k ?b M = (frames, ending)" by fastforce
    from resumed_stream_complete [OF log(2) _ _ log(3,4) _ _ f] show ?thesis
      using f that log(1) v(4) assms(8) t(3) by (simp add: ids)
  qed
  then have client: "if list_all (\<lambda>e. is_ok (encode_broker_event e)) (front @ [e]) \<and> k \<le> length front
     then \<exists>frames. resumed_stream D cid v k ?b M = (frames, StreamEnds)
       \<and> filter (\<lambda>f. f \<noteq> ping) frames = map the_frame (drop k (front @ [e])) else True" by (simp only: split: if_split) blast
  have "mv_status v \<noteq> Streaming" "get_message w (fv_assistant fr) (cw_db (ws_world st)) = Some v"
    "mem_log ?b (fv_assistant fr) = front @ [e]"
    using v(1,3) log(1) final_answer_status [of evs fin] t(3) by (simp_all add: ids)
  with v(2,3,5) log(3,5) answer client show ?thesis by blast
qed

text \<open>An agent without tools that answers at once, whatever it is asked, while others are busy.\<close>

definition terse_env :: "nat agent_env" where
  "terse_env = demo_env\<lparr>env_tools := []\<rparr>\<lparr>env_model := \<lparr>chat = (\<lambda>w ms defs trace. (Inr \<lparr>lr_content = Some (py ''ok''),
     lr_tool_calls = [], lr_usage = usage_zero, lr_finish_reason = None\<rparr>, w + 1)), chat_stream = None\<rparr>\<rparr>"

lemma terse_answers:
  assumes "agent_stream terse_env user system [] trace 0 = (out, exc, v1)"
  shows "exc = None" and "final_answer out StreamStops = (py ''ok'', MsgCompleted)"
proof -
  obtain ms where "compacted_messages demo_config (initial_messages system [] user) = Inr ms"
    using compacted_ok [of "initial_messages system [] user" demo_config] conversation_ok_initial [of "[]" system user]
    by (auto simp: conversation_ok_def tool_texts_ok_def is_ok_iff)
  moreover have "stream_model demo_config" by (simp add: demo_config_def)
  ultimately have "exc = None \<and> final_answer out StreamStops = (py ''ok'', MsgCompleted)"
    using assms by (auto simp: agent_stream_def terse_env_def  numeral_3_eq_3 agent_iteration_def stream_model_response_def
        initial_state_def whole_response_def handle_response_def finish_def final_answer_def)
  then show "exc = None" and "final_answer out StreamStops = (py ''ok'', MsgCompleted)" by simp_all
qed

definition demo_others :: "other_op list list" where
  "demo_others = [[], [OtherStore (CreateOp 7 0 2 []), OtherPublish 4 (py ''done'') []], [OtherRead 11 [] 5]]"

theorem question_answered_witness:
  "\<exists>sent app' job out st v. stream_message (\<lambda>s. s) \<lparr>cs_history_budget = 100, cs_history_limit = 5\<rparr> demo_fresh 1 5 (py ''hi'') (Some 8)
       demo_app = (sent, app') \<and> job = last (ca_launched app')
     \<and> snd (worker_run (chat_worker_env (\<lambda>s. s) 2 \<lparr>de_any = (\<lambda>v. v), de_float = (\<lambda>q. py ''0.0'')\<rparr>) (job_ids job)
         (concat (map runtime_of_event out)) StreamStops \<lparr>cw_db = ca_db app', cw_broker = new_broker, cw_others = demo_others\<rparr>) = st
     \<and> get_message 1 11 (cw_db (ws_world st)) = Some v \<and> mv_status v = MsgCompleted \<and> mv_content v = Some (py ''ok'')"
proof -
  let ?S = "\<lparr>cs_history_budget = 100, cs_history_limit = 5\<rparr>" and ?D = "\<lparr>de_any = (\<lambda>v. v), de_float = (\<lambda>q. py ''0.0'')\<rparr>"
  obtain sent app' where send: "stream_message (\<lambda>s. s) ?S demo_fresh 1 5 (py ''hi'') (Some 8) demo_app = (sent, app')" by fastforce
  define job where "job = last (ca_launched app')"
  have fresh: "\<not> is_running (fv_assistant demo_fresh) (ca_tasks demo_app)" by (simp add: demo_app_db is_running_def no_tasks_def)
  have facts: "py ''hi'' \<noteq> [] \<and> length (py ''hi'') \<le> 4000" "Some 8 \<notin> mg_request ` set (db_messages (ca_db demo_app))"
    "fv_user demo_fresh \<noteq> fv_assistant demo_fresh" "fv_assistant demo_fresh < 2 ^ 128"
    "{fv_user demo_fresh, fv_assistant demo_fresh} \<inter> mg_id ` set (db_messages (ca_db demo_app)) = {}"
    by (simp_all add: demo_app_db demo_fresh_def)
  have "get_history 100 1 5 5 (ca_db demo_app) = []"
    by (simp add: get_history_def get_conversation_def conversation_detail_of_def messages_of_def last_slice_def last_n_def
        demo_app_def run_store_def create_conversation_def append_message_def empty_db_def update_conversations_def
        select_conversation_def own_conversation_def Let_def)
  then have job: "ln_question job = py ''hi''" "ln_history job = []" "ln_trace job = 13"
    unfolding job_def
    by - (rule stream_message_new [OF demo_app_db(1,2) facts(1,2,3,5) fresh send]; simp add: demo_fresh_def)+
  obtain out exc v1 where ag: "agent_stream terse_env (py ''hi'') (Some agent_system_prompt) [] (Some 13) 0 = (out, exc, v1)"
    by (metis prod_cases3)
  note ans = terse_answers [OF ag]
  have part: "stream_part out exc out StreamStops" using ans(1) by (simp add: stream_part_def)
  obtain res st where run: "worker_run (chat_worker_env (\<lambda>s. s) 2 ?D) (job_ids job) (concat (map runtime_of_event out)) StreamStops
      \<lparr>cw_db = ca_db app', cw_broker = new_broker, cw_others = demo_others\<rparr> = (res, st)" by fastforce
  have "list_all (list_all (spares (fv_assistant demo_fresh) 5)) demo_others" by (simp add: demo_others_def demo_fresh_def)
  from question_answered [where k = 0 and M = no_tasks, OF demo_app_db(1,2) facts(1,2,3,5) fresh facts(4) new_broker_inv new_broker_log this send job_def
      ag [folded job] part run] obtain v where "get_message 1 (fv_assistant demo_fresh) (cw_db (ws_world st)) = Some v"
    "mv_content v = Some (fst (final_answer out StreamStops))" "mv_status v = snd (final_answer out StreamStops)" by blast
  then have "get_message 1 11 (cw_db (ws_world st)) = Some v \<and> mv_status v = MsgCompleted \<and> mv_content v = Some (py ''ok'')"
    by (simp add: ans(2) demo_fresh_def)
  with send job_def run show ?thesis by (metis snd_conv)
qed

end
