(* ===== verification/Redis_Broker.thy ===== *)
theory Redis_Broker
  imports Chat_Stream
begin

text \<open>
  The Redis broker of \<open>app/chat/events.py\<close>, which the application runs with.  The documented behaviour of Redis'
  streams is the locale \<open>redis_streams_server\<close>; from it the broker's reads have the contract \<open>event_log\<close>, so that what
  is shown of streamed responses holds for Redis as well, as long as a message has no more events than the broker keeps.
\<close>

section \<open>Entries\<close>

text \<open>What a published event becomes, and that it is read back unchanged.\<close>

lemma decode_id: "decode_entry json_error x = Inr e \<Longrightarrow> be_id e = fst x"
  by (auto simp: decode_entry_def split: option.splits pyval.splits)

lemma decode_published:
  assumes "json_ok (PDict d)"
  shows "decode_entry json_error (i, [(py ''event'', e), (py ''data'', dumps compact_json (PDict d))])
    = Inr \<lparr>be_id = i, be_event = e, be_data = d\<rparr>"
  using loads_dumps [OF _ assms, of compact_json] by (simp add: decode_entry_def)

definition redis_log ::
  "(pystr \<Rightarrow> pystr) \<Rightarrow> ('r \<Rightarrow> pystr \<Rightarrow> (pystr \<times> (pystr \<times> pystr) list) list) \<Rightarrow> 'r \<Rightarrow> uuid \<Rightarrow> broker_event list" where
  "redis_log json_error entries r m = map (\<lambda>x. projr (decode_entry json_error x)) (entries r (stream_key m))"

definition redis_ok ::
  "(pystr \<Rightarrow> pystr) \<Rightarrow> ('r \<Rightarrow> pystr \<Rightarrow> (pystr \<times> (pystr \<times> pystr) list) list) \<Rightarrow> ('r \<Rightarrow> bool) \<Rightarrow> 'r \<Rightarrow> bool" where
  "redis_ok json_error entries good r \<longleftrightarrow>
     good r \<and> (\<forall>m. \<forall>x \<in> set (entries r (stream_key m)). is_ok (decode_entry json_error x))"

lemma redis_ok_decode:
  assumes "redis_ok json_error entries good r" and "x \<in> set (entries r (stream_key m))"
  shows "decode_entry json_error x = Inr (projr (decode_entry json_error x))"
proof -
  have "is_ok (decode_entry json_error x)" using assms unfolding redis_ok_def by blast
  then show ?thesis by (auto simp: is_ok_iff)
qed

text \<open>Publications before each turn of a response.\<close>

definition redis_publish_all :: "'r redis_streams \<Rightarrow> nat \<Rightarrow> (uuid \<times> pystr \<times> arguments) list \<Rightarrow> 'r \<Rightarrow> 'r" where
  "redis_publish_all R limit = fold (\<lambda>(m, e, d) r. snd (redis_publish R limit m e d r))"

fun redis_turns :: "'r redis_streams \<Rightarrow> nat \<Rightarrow> 'r \<Rightarrow> (bool \<times> (uuid \<times> pystr \<times> arguments) list) list \<Rightarrow> 'r turn list" where
  "redis_turns R limit r [] = []"
| "redis_turns R limit r ((gone, ps) # h) =
     \<lparr>tn_disconnected = gone, tn_broker = redis_publish_all R limit ps r\<rparr>
     # redis_turns R limit (redis_publish_all R limit ps r) h"

lemma length_redis_turns [simp]: "length (redis_turns R limit r h) = length h"
  by (induction R limit r h rule: redis_turns.induct) auto

lemma redis_turns_connected: "t \<in> set (redis_turns R limit r h) \<Longrightarrow> list_all (\<lambda>x. \<not> fst x) h \<Longrightarrow> \<not> tn_disconnected t"
  by (induction R limit r h rule: redis_turns.induct) auto

section \<open>The server\<close>

text \<open>
  \<open>XADD\<close> appends an entry under a new identifier and may drop entries of the same key from the front, never below the
  limit; when it raises, the entry may have been added or not.  \<open>EXPIRE\<close> and \<open>XREAD\<close> change no entries (within the day
  the keys live), and \<open>XREAD\<close> returns the first entries after the identifier, of which \<open>0-0\<close> is before all.
\<close>

locale redis_streams_server =
  fixes R :: "'r redis_streams"
    and entries :: "'r \<Rightarrow> pystr \<Rightarrow> (pystr \<times> (pystr \<times> pystr) list) list"
    and good :: "'r \<Rightarrow> bool"
    and json_error :: "pystr \<Rightarrow> pystr"
    and block :: nat
  assumes xadd: "good r \<Longrightarrow> rs_xadd R key fs limit r = (res, r') \<Longrightarrow>
      good r' \<and> (\<forall>k. k \<noteq> key \<longrightarrow> entries r' k = entries r k)
      \<and> (\<exists>i new n. (new = [] \<or> new = [(i, fs)]) \<and> (\<forall>j. res = Inr j \<longrightarrow> new = [(j, fs)])
           \<and> n \<le> Suc (length (entries r key)) - limit \<and> entries r' key = drop n (entries r key @ new))"
    and expire: "good r \<Longrightarrow> rs_expire R key ttl r = (u, r') \<Longrightarrow> good r' \<and> entries r' = entries r"
    and xread: "good r \<Longrightarrow> rs_xread R key c count b r = (found, r') \<Longrightarrow> good r' \<and> entries r' = entries r"
    and xread_first: "good r \<Longrightarrow> 0 < count \<Longrightarrow>
      \<exists>found. fst (rs_xread R key (py ''0-0'') count b r) = Inr found \<and> concat (map snd found) = take count (entries r key)"
    and xread_next: "good r \<Longrightarrow> 0 < count \<Longrightarrow> entries r key = xs @ x # ys \<Longrightarrow>
      \<exists>found. fst (rs_xread R key (fst x) count b r) = Inr found \<and> concat (map snd found) = take count ys"
    and entry_id: "good r \<Longrightarrow> x \<in> set (entries r key) \<Longrightarrow> fst x \<noteq> []"
begin

lemma redis_read_found:
  assumes "redis_ok json_error entries good r" and "set es \<subseteq> set (entries r (stream_key m))"
    and "fst (rs_xread R (stream_key m) c k (if block > 0 then Some block else None) r) = Inr found"
    and "concat (map snd found) = es"
  shows "fst (redis_read json_error R m c block k r) = Inr (map (\<lambda>x. projr (decode_entry json_error x)) es)"
proof -
  have "decode_entry json_error x = Inr (projr (decode_entry json_error x))" if "x \<in> set es" for x
    by (rule redis_ok_decode [OF assms(1)]) (use assms(2) that in blast)
  then have "map_res (decode_entry json_error) es = Inr (map (\<lambda>x. projr (decode_entry json_error x)) es)" by (rule map_res_map)
  with assms(3,4) show ?thesis by (auto simp: redis_read_def split: prod.split)
qed

lemma redis_read_state:
  assumes "good r"
  shows "good (snd (redis_read json_error R m c block k r)) \<and> entries (snd (redis_read json_error R m c block k r)) = entries r"
proof -
  obtain found r' where x: "rs_xread R (stream_key m) c k (if block > 0 then Some block else None) r = (found, r')" by fastforce
  from xread [OF assms this] x show ?thesis by (auto simp: redis_read_def split: sum.split)
qed

end

sublocale redis_streams_server \<subseteq> stream: event_log "\<lambda>m c k r. redis_read json_error R m c block k r" "redis_log json_error entries"
  "redis_ok json_error entries good" "py ''0-0''"
proof
  fix r m c k
  assume ok: "redis_ok json_error entries good r"
  then have good: "good r" by (simp add: redis_ok_def)
  show "redis_ok json_error entries good (snd (redis_read json_error R m c block k r))"
    using ok redis_read_state [OF good] by (simp add: redis_ok_def)
  show "redis_log json_error entries (snd (redis_read json_error R m c block k r)) n = redis_log json_error entries r n" for n
    using redis_read_state [OF good] by (simp add: redis_log_def)
  show "fst (redis_read json_error R m (py ''0-0'') block k r) = Inr (take k (redis_log json_error entries r m))" if k: "0 < k"
  proof -
    obtain found where "fst (rs_xread R (stream_key m) (py ''0-0'') k (if block > 0 then Some block else None) r) = Inr found"
      "concat (map snd found) = take k (entries r (stream_key m))" using xread_first [OF good k] by blast
    from redis_read_found [OF ok set_take_subset this] show ?thesis by (simp add: redis_log_def take_map)
  qed
  show "fst (redis_read json_error R m (be_id x) block k r) = Inr (take k ys)"
    if k: "0 < k" and log: "redis_log json_error entries r m = xs @ x # ys" for xs x ys
  proof -
    let ?f = "\<lambda>x. projr (decode_entry json_error x)"
    from log obtain as a bs where split: "entries r (stream_key m) = as @ a # bs" and x: "x = ?f a" and ys: "ys = map ?f bs"
      unfolding redis_log_def by (auto simp: map_eq_append_conv)
    have "decode_entry json_error a = Inr x" using redis_ok_decode [OF ok, of a m] split x by simp
    from decode_id [OF this] have id: "be_id x = fst a" .
    have sub: "set (take k bs) \<subseteq> set (entries r (stream_key m))" using split by (auto dest: in_set_takeD)
    obtain found where "fst (rs_xread R (stream_key m) (fst a) k (if block > 0 then Some block else None) r) = Inr found"
      "concat (map snd found) = take k bs" using xread_next [OF good k split] by blast
    from redis_read_found [OF ok sub this] show ?thesis by (simp add: id ys take_map)
  qed
qed

context redis_streams_server begin

text \<open>One publication: at most one new event at the end of one log, and exactly that one when it succeeds.\<close>

lemma redis_publish_log:
  assumes ok: "redis_ok json_error entries good r" and d: "json_ok (PDict d)" and ids: "n < 2 ^ 128" "m < 2 ^ 128"
    and room: "n = m \<longrightarrow> length (entries r (stream_key m)) < limit"
    and run: "redis_publish R limit n e d r = (res, r')"
  shows "redis_ok json_error entries good r' \<and> length (entries r' (stream_key m)) \<le> length (entries r (stream_key m)) + (if n = m then 1 else 0)
    \<and> (\<exists>new. redis_log json_error entries r' m = redis_log json_error entries r m @ new
         \<and> (\<forall>i. res = Inr i \<longrightarrow> new = (if n = m then [\<lparr>be_id = i, be_event = e, be_data = d\<rparr>] else [])))"
proof -
  let ?text = "dumps compact_json (PDict d)" and ?key = "stream_key n"
  let ?fs = "[(py ''event'', e), (py ''data'', ?text)]"
  have good: "good r" using ok by (simp add: redis_ok_def)
  obtain added r1 where x: "rs_xadd R ?key ?fs limit r = (added, r1)" by fastforce
  from xadd [OF good x] obtain i new k where g1: "good r1" and other: "\<forall>k. k \<noteq> ?key \<longrightarrow> entries r1 k = entries r k"
    and new: "new = [] \<or> new = [(i, ?fs)]" "\<forall>j. added = Inr j \<longrightarrow> new = [(j, ?fs)]"
    and k: "k \<le> Suc (length (entries r ?key)) - limit" "entries r1 ?key = drop k (entries r ?key @ new)" by blast
  have fin: "good r' \<and> entries r' = entries r1 \<and> (\<forall>i. res = Inr i \<longrightarrow> added = Inr i)"
  proof (cases added)
    case (Inl x)
    with run x d not_json_ok(1) [OF d] g1 show ?thesis by (simp add: redis_publish_def json_dumps_def)
  next
    case (Inr j)
    obtain u r2 where ex: "rs_expire R ?key (24 * 60 * 60) r1 = (u, r2)" by fastforce
    from expire [OF g1 ex] show ?thesis
      using run x Inr ex not_json_ok(1) [OF d] by (auto simp: redis_publish_def json_dumps_def split: sum.splits)
  qed
  have dec: "decode_entry json_error (j, ?fs) = Inr \<lparr>be_id = j, be_event = e, be_data = d\<rparr>" for j
    by (rule decode_published [OF d])
  have "is_ok (decode_entry json_error y)" if "y \<in> set (entries r1 (stream_key q))" for y q
  proof (cases "stream_key q = ?key")
    case True
    then have "y \<in> set (entries r ?key) \<or> y \<in> set new" using that k(2) by (metis Un_iff in_set_dropD set_append)
    then show ?thesis using ok new(1) dec True by (auto simp: redis_ok_def)
  next
    case False
    with that other ok show ?thesis by (simp add: redis_ok_def)
  qed
  then have ok': "redis_ok json_error entries good r'" using fin by (simp add: redis_ok_def)
  show ?thesis
  proof (cases "n = m")
    case True
    then have "k = 0" using room k(1) by simp
    then have "entries r' (stream_key m) = entries r (stream_key m) @ new" using fin k(2) True by simp
    moreover have "map (\<lambda>x. projr (decode_entry json_error x)) new = [\<lparr>be_id = j, be_event = e, be_data = d\<rparr>]" if "res = Inr j" for j
      using that fin new(2) dec by simp
    ultimately show ?thesis using ok' new(1) True by (auto simp: redis_log_def)
  next
    case False
    then have "stream_key m \<noteq> ?key" using stream_key_inject [OF ids] by auto
    then have "entries r' (stream_key m) = entries r (stream_key m)" using fin other by simp
    with ok' False show ?thesis by (simp add: redis_log_def)
  qed
qed

lemma redis_publish_all_grows:
  assumes "redis_ok json_error entries good r" and "m < 2 ^ 128"
    and "list_all (\<lambda>(n, e, d). n < 2 ^ 128 \<and> json_ok (PDict d)) ps"
    and "length (entries r (stream_key m)) + length ps \<le> limit"
  shows "redis_ok json_error entries good (redis_publish_all R limit ps r)
    \<and> length (entries (redis_publish_all R limit ps r) (stream_key m)) \<le> length (entries r (stream_key m)) + length ps
    \<and> (\<exists>new. redis_log json_error entries (redis_publish_all R limit ps r) m = redis_log json_error entries r m @ new)"
  using assms(1,3,4)
proof (induction ps arbitrary: r)
  case (Cons p ps)
  obtain n e d where p: "p = (n, e, d)" by (cases p)
  obtain res r1 where run: "redis_publish R limit n e d r = (res, r1)" by fastforce
  have "json_ok (PDict d)" "n < 2 ^ 128" "n = m \<longrightarrow> length (entries r (stream_key m)) < limit" using Cons.prems(2,3) p by simp_all
  from redis_publish_log [OF Cons.prems(1) this(1,2) assms(2) this(3) run] obtain new where one: "redis_ok json_error entries good r1"
    "length (entries r1 (stream_key m)) \<le> Suc (length (entries r (stream_key m)))"
    "redis_log json_error entries r1 m = redis_log json_error entries r m @ new" by (auto split: if_splits)
  have "redis_publish_all R limit (p # ps) r = redis_publish_all R limit ps r1" by (simp add: redis_publish_all_def p run)
  with Cons.IH [OF one(1)] Cons.prems(2,3) one(2,3) show ?case by fastforce
qed (simp add: redis_publish_all_def)

lemma redis_turns_ok:
  assumes "redis_ok json_error entries good r" and "m < 2 ^ 128"
    and "list_all (\<lambda>(n, e, d). n < 2 ^ 128 \<and> json_ok (PDict d)) (concat (map snd h))"
    and "length (entries r (stream_key m)) + length (concat (map snd h)) \<le> limit"
  shows "stream.turns_ok m r (redis_turns R limit r h)
    \<and> stream.last_broker r (redis_turns R limit r h) = redis_publish_all R limit (concat (map snd h)) r"
  using assms(1,3,4)
proof (induction h arbitrary: r)
  case (Cons x h)
  obtain gone ps where x: "x = (gone, ps)" by (cases x)
  let ?r = "redis_publish_all R limit ps r"
  have g: "redis_ok json_error entries good ?r
    \<and> length (entries ?r (stream_key m)) \<le> length (entries r (stream_key m)) + length ps
    \<and> (\<exists>new. redis_log json_error entries ?r m = redis_log json_error entries r m @ new)"
    by (rule redis_publish_all_grows [OF Cons.prems(1) assms(2)]) (use Cons.prems x in simp_all)
  with Cons.IH [of ?r] Cons.prems x show ?case by (simp add: redis_publish_all_def)
qed (simp add: redis_publish_all_def)

lemma redis_resumes:
  assumes "redis_ok json_error entries good r" and "mv_id v < 2 ^ 128"
    and "list_all (\<lambda>(n, e, d). n < 2 ^ 128 \<and> json_ok (PDict d)) (concat (map snd h))"
    and "length (entries r (stream_key (mv_id v))) + length (concat (map snd h)) \<le> limit"
    and "redis_log json_error entries r (mv_id v) = sent @ rest" and "\<not> has_end sent" and "rest \<noteq> [] \<or> is_running (mv_id v) M"
    and "final = redis_publish_all R limit (concat (map snd h)) r"
    and "list_all (\<lambda>e. is_ok (encode_broker_event e)) (redis_log json_error entries final (mv_id v))"
    and "header = (if sent = [] then None else Some (be_id (last sent)))"
    and "event_stream D (\<lambda>c r. fst (redis_read json_error R (mv_id v) c block 100 r)) cid v header r M (redis_turns R limit r h)
      = (frames, outcome)"
  shows "(\<exists>seen unseen. redis_log json_error entries final (mv_id v) = sent @ seen @ unseen
      \<and> filter (\<lambda>f. f \<noteq> ping) frames = map the_frame (upto_end seen)
      \<and> outcome \<in> (if has_end seen then {StreamEnds} else {StreamOpen, StreamGone}))
    \<and> (if has_end rest \<and> length (upto_end rest) \<le> length h \<and> list_all (\<lambda>x. \<not> fst x) h then outcome = StreamEnds else True)"
proof -
  note turns = redis_turns_ok [OF assms(1-4)]
  have ids: "sent \<noteq> [] \<longrightarrow> be_id (last sent) \<noteq> []"
  proof
    assume "sent \<noteq> []"
    then have "last sent \<in> set (redis_log json_error entries r (mv_id v))" using assms(5) by simp
    then obtain x where x: "x \<in> set (entries r (stream_key (mv_id v)))" "last sent = projr (decode_entry json_error x)"
      by (auto simp: redis_log_def)
    from decode_id [OF redis_ok_decode [OF assms(1) x(1)]] x entry_id [OF _ x(1)] assms(1)
    show "be_id (last sent) \<noteq> []" by (simp add: redis_ok_def)
  qed
  have enc: "\<forall>e \<in> set (redis_log json_error entries (stream.last_broker r (redis_turns R limit r h)) (mv_id v)). is_ok (encode_broker_event e)"
    using assms(8,9) turns by (simp add: list_all_iff)
  have "list_all (\<lambda>x. \<not> fst x) h \<Longrightarrow> \<forall>t \<in> set (redis_turns R limit r h). \<not> tn_disconnected t"
    by (intro ballI) (rule redis_turns_connected)
  with stream.response_resumes [OF assms(1,5,6,7) conjunct1 [OF turns] enc refl ids assms(10) refl assms(11)] turns assms(8)
  show ?thesis by (simp only: length_redis_turns split: if_split) blast
qed

end

section \<open>Streams kept in lists\<close>

text \<open>A server with this behaviour: numbered entries per key, cut to the limit.\<close>

record plain_redis =
  pr_streams :: "pystr \<Rightarrow> (nat \<times> (pystr \<times> pystr) list) list"
  pr_last :: nat

definition plain_id :: "nat \<Rightarrow> pystr" where
  "plain_id n = str_nat n @ py ''-0''"

definition plain_entries :: "plain_redis \<Rightarrow> pystr \<Rightarrow> (pystr \<times> (pystr \<times> pystr) list) list" where
  "plain_entries r key = map (\<lambda>(n, fs). (plain_id n, fs)) (pr_streams r key)"

definition plain_good :: "plain_redis \<Rightarrow> bool" where
  "plain_good r \<longleftrightarrow> (\<forall>key. sorted_wrt (<) (map fst (pr_streams r key))
     \<and> (\<forall>x \<in> set (pr_streams r key). 0 < fst x \<and> fst x \<le> pr_last r))"

definition plain_server :: "plain_redis redis_streams" where
  "plain_server = \<lparr>
     rs_xadd = (\<lambda>key fs limit r. let n = pr_last r + 1; xs = pr_streams r key @ [(n, fs)]
        in (Inr (plain_id n), \<lparr>pr_streams = (pr_streams r)(key := drop (length xs - limit) xs), pr_last = n\<rparr>)),
     rs_expire = (\<lambda>key ttl r. (Inr (), r)),
     rs_xread = (\<lambda>key c count block r. (case event_sequence c of
          Inl e \<Rightarrow> Inl e
        | Inr k \<Rightarrow> (let found = filter (\<lambda>x. k < int (fst x)) (pr_streams r key)
            in Inr (if found = [] then [] else [(key, map (\<lambda>(n, fs). (plain_id n, fs)) (take count found))])), r))\<rparr>"

lemma plain_read:
  assumes "event_sequence c = Inr k" and "filter (\<lambda>x. k < int (fst x)) (pr_streams r key) = found"
  shows "\<exists>res. fst (rs_xread plain_server key c count b r) = Inr res
    \<and> concat (map snd res) = map (\<lambda>(n, fs). (plain_id n, fs)) (take count found)"
  using assms by (simp add: plain_server_def Let_def)

lemma plain_xadd:
  assumes good: "plain_good r" and run: "rs_xadd plain_server key fs limit r = (res, r')"
  shows "plain_good r' \<and> (\<forall>k. k \<noteq> key \<longrightarrow> plain_entries r' k = plain_entries r k)
    \<and> (\<exists>i new n. (new = [] \<or> new = [(i, fs)]) \<and> (\<forall>j. res = Inr j \<longrightarrow> new = [(j, fs)])
         \<and> n \<le> Suc (length (plain_entries r key)) - limit \<and> plain_entries r' key = drop n (plain_entries r key @ new))"
proof -
  let ?n = "Suc (pr_last r)" and ?cut = "Suc (length (pr_streams r key)) - limit"
  have r': "res = Inr (plain_id ?n)"
    "r' = \<lparr>pr_streams = (pr_streams r)(key := drop ?cut (pr_streams r key @ [(?n, fs)])), pr_last = ?n\<rparr>"
    using run by (simp_all add: plain_server_def Let_def)
  have sorted: "sorted_wrt (<) (map fst (pr_streams r key @ [(?n, fs)]))"
    using good by (auto simp: plain_good_def sorted_wrt_append less_Suc_eq_le)
  have "sorted_wrt (<) (map fst (drop ?cut (pr_streams r key @ [(?n, fs)])))"
    using sorted_wrt_drop [OF sorted, of ?cut] unfolding drop_map .
  moreover have "0 < fst x \<and> fst x \<le> ?n" if "x \<in> set (drop ?cut (pr_streams r key @ [(?n, fs)]))" for x
  proof -
    from in_set_dropD [OF that] have "x \<in> set (pr_streams r key) \<or> x = (?n, fs)" by auto
    then show ?thesis using good by (auto simp: plain_good_def le_SucI)
  qed
  ultimately have "plain_good r'"
    using good unfolding r'(2) plain_good_def by (auto simp: le_SucI)
  moreover have "plain_entries r' key = drop ?cut (plain_entries r key @ [(plain_id ?n, fs)])"
    by (simp add: r'(2) plain_entries_def del: drop_append flip: drop_map)
  moreover have "length (plain_entries r key) = length (pr_streams r key)" by (simp add: plain_entries_def)
  ultimately show ?thesis using r' by (auto simp: plain_entries_def intro!: exI [of _ "[(plain_id ?n, fs)]"] exI [of _ ?cut])
qed

lemma plain_first:
  assumes "plain_good r"
  shows "\<exists>found. fst (rs_xread plain_server key (py ''0-0'') count b r) = Inr found
    \<and> concat (map snd found) = take count (plain_entries r key)"
proof -
  have "event_sequence (py ''0-0'') = Inr 0"
    using event_sequence_str_nat [of 0] by (simp add: str_nat.simps [of 0] py_Cons)
  moreover have "filter (\<lambda>x. 0 < int (fst x)) (pr_streams r key) = pr_streams r key"
    using assms by (auto simp: plain_good_def filter_id_conv)
  ultimately show ?thesis
    using plain_read [of "py ''0-0''" 0 r key] by (simp add: plain_entries_def take_map)
qed

lemma plain_next:
  assumes "plain_good r" and "plain_entries r key = xs @ x # ys"
  shows "\<exists>found. fst (rs_xread plain_server key (fst x) count b r) = Inr found \<and> concat (map snd found) = take count ys"
proof -
  from assms(2) obtain as a bs where split: "pr_streams r key = as @ a # bs"
    and x: "fst x = plain_id (fst a)" and ys: "ys = map (\<lambda>(n, fs). (plain_id n, fs)) bs"
    by (auto simp: plain_entries_def map_eq_append_conv)
  have "sorted_wrt (<) (map fst (as @ a # bs))" using assms(1) split unfolding plain_good_def by metis
  then have less: "\<forall>y \<in> set as. fst y < fst a" "\<forall>y \<in> set bs. fst a < fst y" by (auto simp: sorted_wrt_append)
  have "filter (\<lambda>y. int (fst a) < int (fst y)) as = []" "filter (\<lambda>y. int (fst a) < int (fst y)) bs = bs"
    using less by (auto simp: filter_empty_conv filter_id_conv not_less dest: less_imp_le)
  then have "filter (\<lambda>y. int (fst a) < int (fst y)) (pr_streams r key) = bs" by (simp add: split)
  moreover have "event_sequence (fst x) = Inr (int (fst a))" unfolding x plain_id_def by (rule event_sequence_str_nat)
  ultimately show ?thesis using plain_read [of "fst x" "int (fst a)" r key bs] by (simp add: ys take_map)
qed

lemma plain_rest:
  "plain_good r \<Longrightarrow> rs_expire plain_server key ttl r = (u, r') \<Longrightarrow> plain_good r' \<and> plain_entries r' = plain_entries r"
  "plain_good r \<Longrightarrow> rs_xread plain_server key c count b r = (found, r') \<Longrightarrow> plain_good r' \<and> plain_entries r' = plain_entries r"
  "x \<in> set (plain_entries r key) \<Longrightarrow> fst x \<noteq> []"
  by (auto simp: plain_server_def plain_entries_def plain_id_def)

interpretation plain: redis_streams_server plain_server plain_entries plain_good json_error block for json_error block
  by (unfold_locales; (rule plain_xadd plain_first plain_next plain_rest; assumption))

section \<open>Properties\<close>


definition demo_redis :: plain_redis where
  "demo_redis = redis_publish_all plain_server 2000 [(7, py ''start'', []), (7, py ''done'', [])] \<lparr>pr_streams = (\<lambda>key. []), pr_last = 0\<rparr>"

definition demo_answer :: message_view where
  "demo_answer = \<lparr>mv_id = 7, mv_role = RoleAssistant, mv_content = None, mv_status = Streaming, mv_tool_calls = [], mv_steps = [],
     mv_request = None, mv_trace = None, mv_created = 0\<rparr>"


text \<open>
  The limit is real: a server that cuts a stream to what \<open>XADD\<close> was told keeps the last events of an answer only, and a
  client that connects later, or comes back after too long, is never sent the others, whatever text they carried.
\<close>

theorem long_answers_lose_events:
  assumes "list_all (\<lambda>(e, d). json_ok (PDict d)) events" and "0 < limit"
    and "r = redis_publish_all plain_server limit (map (\<lambda>(e, d). (m, e, d)) events) \<lparr>pr_streams = (\<lambda>key. []), pr_last = 0\<rparr>"
  shows "map (\<lambda>e. (be_event e, be_data e)) (redis_log json_error plain_entries r m) = drop (length events - limit) events"
  using assms(1,3)
proof (induction events arbitrary: r rule: rev_induct)
  case Nil
  then show ?case by (simp add: redis_publish_all_def redis_log_def plain_entries_def)
next
  case (snoc x events)
  obtain e d where x: "x = (e, d)" by (cases x)
  define r0 where "r0 = redis_publish_all plain_server limit (map (\<lambda>(e, d). (m, e, d)) events) \<lparr>pr_streams = (\<lambda>key. []), pr_last = 0\<rparr>"
  let ?log = "\<lambda>r. map (\<lambda>e. (be_event e, be_data e)) (redis_log json_error plain_entries r m)"
  have IH: "?log r0 = drop (length events - limit) events" using snoc x by (simp add: r0_def)
  have d: "json_ok (PDict d)" using snoc.prems(1) x by simp
  have one: "Suc 0 - limit = 0" using assms(2) by simp
  have "r = snd (redis_publish plain_server limit m e d r0)" using snoc.prems(2) x by (simp add: r0_def redis_publish_all_def)
  then have "plain_entries r (stream_key m) = drop (Suc (length (plain_entries r0 (stream_key m))) - limit)
      (plain_entries r0 (stream_key m) @ [(plain_id (Suc (pr_last r0)), [(py ''event'', e), (py ''data'', dumps compact_json (PDict d))])])"
    using not_json_ok(1) [OF d] one
    by (simp add: redis_publish_def json_dumps_def plain_server_def plain_entries_def Let_def drop_map del: dumps.simps)
  then have "?log r = drop (Suc (length (?log r0)) - limit) (?log r0 @ [x])"
    using decode_published [OF d] x one by (simp add: redis_log_def drop_map del: dumps.simps) 
  moreover have "Suc (length events) - (length events - limit + limit) + (length events - limit) = Suc (length events) - limit"
    using assms(2) by arith
  ultimately show ?case using IH assms(2) by simp
qed

theorem long_answers_lose_events_witness:
  "map be_event (redis_log (\<lambda>t. t) plain_entries (redis_publish_all plain_server 2
     (map (\<lambda>(e, d). (7, e, d)) [(py ''start'', []), (py ''text'', []), (py ''done'', [])]) \<lparr>pr_streams = (\<lambda>key. []), pr_last = 0\<rparr>) 7)
   = [py ''text'', py ''done'']"
proof -
  have "list_all (\<lambda>(e, d). json_ok (PDict d)) [(py ''start'', []), (py ''text'', []), (py ''done'', [])]" by simp
  from arg_cong [where f = "map fst", OF long_answers_lose_events [OF this, of 2, OF _ refl, where json_error = "\<lambda>t. t" and m = 7]]
  show ?thesis by (simp add: comp_def)
qed

end
