(* ===== verification/Auth_Security.thy ===== *)
theory Auth_Security
  imports Event_Broker
begin

text \<open>
  \<open>app/auth/security.py\<close>: password hashes and session tokens.  UTF-8, Base64 and \<open>split\<close> are
  modelled; PBKDF2 and SHA-256 are parameters, random bytes are arguments.
\<close>

section \<open>UTF-8\<close>

definition utf8_char :: "nat \<Rightarrow> nat list option" where
  "utf8_char c =
     (if c < 128 then Some [c]
      else if c < 2048 then Some [192 + c div 64, 128 + c mod 64]
      else if 55296 \<le> c \<and> c \<le> 57343 then None
      else if c < 65536 then Some [224 + c div 4096, 128 + c div 64 mod 64, 128 + c mod 64]
      else if 1114112 \<le> c then None
      else Some [240 + c div 262144, 128 + c div 4096 mod 64, 128 + c div 64 mod 64, 128 + c mod 64])"

fun utf8_encode :: "pystr \<Rightarrow> nat list option" where
  "utf8_encode [] = Some []"
| "utf8_encode (c # s) =
     (case (utf8_char c, utf8_encode s) of (Some b, Some bs) \<Rightarrow> Some (b @ bs) | _ \<Rightarrow> None)"

definition encode_error :: "'a pyres" where
  "encode_error = raise_exc ''UnicodeEncodeError'' (py ''surrogates not allowed'')"

section \<open>Base64 with the URL-safe alphabet\<close>

definition b64_char :: "nat \<Rightarrow> nat" where
  "b64_char v = (if v < 26 then 65 + v else if v < 52 then 71 + v else if v < 62 then v - 4
     else if v = 62 then 45 else 95)"

fun b64_encode :: "nat list \<Rightarrow> pystr" where
  "b64_encode [] = []"
| "b64_encode [a] = [b64_char (a div 4), b64_char (a mod 4 * 16), 61, 61]"
| "b64_encode [a, b] = [b64_char (a div 4), b64_char (a mod 4 * 16 + b div 16), b64_char (b mod 16 * 4), 61]"
| "b64_encode (a # b # c # r) =
     [b64_char (a div 4), b64_char (a mod 4 * 16 + b div 16), b64_char (b mod 16 * 4 + c div 64), b64_char (c mod 64)]
     @ b64_encode r"

text \<open>Decoding translates \<open>-\<close> and \<open>_\<close> and accepts \<open>+\<close> and \<open>/\<close> as well.\<close>

definition b64_value :: "nat \<Rightarrow> nat option" where
  "b64_value c = (if 65 \<le> c \<and> c \<le> 90 then Some (c - 65) else if 97 \<le> c \<and> c \<le> 122 then Some (c - 71)
     else if 48 \<le> c \<and> c \<le> 57 then Some (c + 4) else if c = 45 \<or> c = 43 then Some 62
     else if c = 95 \<or> c = 47 then Some 63 else None)"

text \<open>
  \<open>binascii.a2b_base64\<close> without strict mode: other characters are skipped, a pad that completes a
  group ends the data, and data that ends within a group is an error.
\<close>

fun b64_scan :: "nat \<Rightarrow> nat \<Rightarrow> nat \<Rightarrow> pystr \<Rightarrow> nat list option" where
  "b64_scan q l p [] = (if q = 0 then Some [] else None)"
| "b64_scan q l p (c # s) =
     (if c = 61 then
        (if 2 \<le> q \<and> 4 \<le> q + (p + 1) then Some []
         else b64_scan q l (if 2 \<le> q then p + 1 else p) s)
      else case b64_value c of
          None \<Rightarrow> b64_scan q l p s
        | Some v \<Rightarrow>
            (if q = 0 then b64_scan 1 v 0 s
             else if q = 1 then map_option (Cons (l * 4 + v div 16)) (b64_scan 2 (v mod 16) 0 s)
             else if q = 2 then map_option (Cons (l * 16 + v div 4)) (b64_scan 3 (v mod 4) 0 s)
             else map_option (Cons (l * 64 + v)) (b64_scan 0 0 0 s)))"

definition b64_decode :: "pystr \<Rightarrow> nat list option" where
  "b64_decode s = b64_scan 0 0 0 s"

lemma b64_value_char: "v < 64 \<Longrightarrow> b64_value (b64_char v) = Some v"
  by (auto simp: b64_value_def b64_char_def)

lemma b64_char_not: "v < 64 \<Longrightarrow> b64_char v \<noteq> 61" "v < 64 \<Longrightarrow> b64_char v \<noteq> 36" "v < 64 \<Longrightarrow> b64_char v < 128"
  by (auto simp: b64_char_def)

definition bytes_ok :: "nat list \<Rightarrow> bool" where
  "bytes_ok bs \<longleftrightarrow> (\<forall>b \<in> set bs. b < 256)"

lemma byte_parts:
  assumes "(a :: nat) < 256" and "b < 256"
  shows "a div 4 < 64" "a mod 4 * 16 < 64" "a mod 4 * 16 + b div 16 < 64" "b mod 16 * 4 < 64" "b mod 16 * 4 + a div 64 < 64"
    "a mod 64 < 64" "a div 4 * 4 + (a mod 4 * 16) div 16 = a" "a div 4 * 4 + (a mod 4 * 16 + b div 16) div 16 = a"
    "(a mod 4 * 16 + b div 16) mod 16 = b div 16" "(a mod 4 * 16) mod 16 = 0"
    "b div 16 * 16 + (b mod 16 * 4 + a div 64) div 4 = b" "b div 16 * 16 + (b mod 16 * 4) div 4 = b"
    "(b mod 16 * 4 + a div 64) mod 4 = a div 64" "a div 64 * 64 + a mod 64 = a"
proof -
  have h: "b div 16 < 16" "a div 64 < 4" "a div 4 < 64" using assms by (simp_all add: less_mult_imp_div_less)
  have r: "a mod 4 < 4" "b mod 16 < 16" "a mod 64 < 64" by simp_all
  show "a div 4 < 64" "a mod 64 < 64" "a div 64 * 64 + a mod 64 = a" using h by simp_all
  show "a mod 4 * 16 < 64" "a mod 4 * 16 + b div 16 < 64" "b mod 16 * 4 < 64" "b mod 16 * 4 + a div 64 < 64"
    using h r by linarith+
  show "(a mod 4 * 16) mod 16 = 0" "b div 16 * 16 + (b mod 16 * 4) div 4 = b" "a div 4 * 4 + (a mod 4 * 16) div 16 = a"
    by simp_all
  show "(a mod 4 * 16 + b div 16) mod 16 = b div 16" "(b mod 16 * 4 + a div 64) mod 4 = a div 64"
    using h by (simp_all add: mod_mult_self3)
  have "(a mod 4 * 16 + b div 16) div 16 = a mod 4" "(b mod 16 * 4 + a div 64) div 4 = b mod 16"
    using h by (simp_all add: div_mult_self3)
  then show "a div 4 * 4 + (a mod 4 * 16 + b div 16) div 16 = a" "b div 16 * 16 + (b mod 16 * 4 + a div 64) div 4 = b"
    by simp_all
qed

lemma b64_scan_group:
  assumes "v < 64" and "w < 64" and "x < 64" and "y < 64"
  shows "b64_scan 0 l p (b64_char v # b64_char w # b64_char x # b64_char y # s) =
      map_option (\<lambda>r. (v * 4 + w div 16) # (w mod 16 * 16 + x div 4) # (x mod 4 * 64 + y) # r) (b64_scan 0 0 0 s)"
    "b64_scan 0 l p [b64_char v, b64_char w, b64_char x, 61] = Some [v * 4 + w div 16, w mod 16 * 16 + x div 4]"
    "b64_scan 0 l p [b64_char v, b64_char w, 61, 61] = Some [v * 4 + w div 16]"
  using assms by (simp_all add: b64_value_char b64_char_not option.map_comp comp_def)

lemma b64_round_trip: "bytes_ok bs \<Longrightarrow> b64_decode (b64_encode bs) = Some bs"
proof (induction bs rule: b64_encode.induct)
  case (2 a)
  then have "a < 256" by (simp add: bytes_ok_def)
  note k = byte_parts [OF this this]
  show ?case by (simp only: b64_decode_def b64_encode.simps b64_scan_group [OF k(1,2,1,1)] k)
next
  case (3 a b)
  then have "a < 256" "b < 256" by (simp_all add: bytes_ok_def)
  note k = byte_parts [OF this]
  show ?case by (simp only: b64_decode_def b64_encode.simps b64_scan_group [OF k(1,3,4,1)] k)
next
  case (4 a b c r)
  then have "a < 256" "b < 256" "c < 256" and IH: "b64_scan 0 0 0 (b64_encode r) = Some r"
    by (simp_all add: bytes_ok_def b64_decode_def)
  note k = byte_parts [OF \<open>a < 256\<close> \<open>b < 256\<close>] and k' = byte_parts [OF \<open>c < 256\<close> \<open>b < 256\<close>]
  show ?case
    by (simp only: b64_decode_def b64_encode.simps append.simps b64_scan_group [OF k(1,3) k'(5,6)] k k' IH option.map)
qed (simp add: b64_decode_def)

definition b64_text :: "nat \<Rightarrow> bool" where
  "b64_text c \<longleftrightarrow> c \<noteq> 36 \<and> c < 128"

lemma b64_text_char: "v < 64 \<Longrightarrow> b64_text (b64_char v)" "b64_text 61"
  using b64_char_not(2,3) by (simp_all add: b64_text_def)

lemma b64_encode_chars: "bytes_ok bs \<Longrightarrow> list_all b64_text (b64_encode bs)"
proof (induction bs rule: b64_encode.induct)
  case (2 a)
  then have "a < 256" by (simp add: bytes_ok_def)
  note k = byte_parts [OF this this]
  show ?case by (simp only: b64_encode.simps list.pred_inject b64_text_char k simp_thms)
next
  case (3 a b)
  then have "a < 256" "b < 256" by (simp_all add: bytes_ok_def)
  note k = byte_parts [OF this]
  show ?case by (simp only: b64_encode.simps list.pred_inject b64_text_char k simp_thms)
next
  case (4 a b c r)
  then have "a < 256" "b < 256" "c < 256" and IH: "list_all b64_text (b64_encode r)"
    by (simp_all add: bytes_ok_def)
  note k = byte_parts [OF \<open>a < 256\<close> \<open>b < 256\<close>] and k' = byte_parts [OF \<open>c < 256\<close> \<open>b < 256\<close>]
  show ?case by (simp only: b64_encode.simps append.simps list.pred_inject b64_text_char k k' IH simp_thms)
qed simp

section \<open>Passwords\<close>

text \<open>\<open>s.split(sep, k)\<close> for a separator of one character.\<close>

fun split_max :: "nat \<Rightarrow> nat \<Rightarrow> pystr \<Rightarrow> pystr list" where
  "split_max d 0 s = [s]"
| "split_max d (Suc k) s =
     (if d \<in> set s then takeWhile (\<lambda>c. c \<noteq> d) s # split_max d k (tl (dropWhile (\<lambda>c. c \<noteq> d) s)) else [s])"

definition pbkdf2_iterations :: nat where
  "pbkdf2_iterations = 240000"

text \<open>\<open>kdf\<close> is \<open>hashlib.pbkdf2_hmac("sha256", password, salt, n)\<close>, \<open>None\<close> where it raises \<open>ValueError\<close>.\<close>

type_synonym kdf = "nat list \<Rightarrow> nat list \<Rightarrow> int \<Rightarrow> nat list option"

definition hash_password :: "kdf \<Rightarrow> nat list \<Rightarrow> pystr \<Rightarrow> pystr pyres" where
  "hash_password kdf salt password =
     (case utf8_encode password of
        None \<Rightarrow> encode_error
      | Some bytes \<Rightarrow>
          (case kdf bytes salt (int pbkdf2_iterations) of
             None \<Rightarrow> raise_exc ''ValueError'' []
           | Some digest \<Rightarrow> Inr (join [36] [py ''pbkdf2_sha256'', str_nat pbkdf2_iterations, b64_encode salt, b64_encode digest])))"

definition ascii_only :: "pystr \<Rightarrow> bool" where
  "ascii_only s \<longleftrightarrow> (\<forall>c \<in> set s. c < 128)"

definition verify_password :: "kdf \<Rightarrow> pystr \<Rightarrow> pystr \<Rightarrow> bool" where
  "verify_password kdf password encoded =
     (case split_max 36 3 encoded of
        [algorithm, iterations, salt_value, digest_value] \<Rightarrow>
          algorithm = py ''pbkdf2_sha256'' \<and> ascii_only salt_value \<and> ascii_only digest_value
          \<and> (case (b64_decode salt_value, b64_decode digest_value, utf8_encode password, int_literal iterations) of
               (Some salt, Some expected, Some bytes, Inr n) \<Rightarrow> kdf bytes salt n = Some expected
             | _ \<Rightarrow> False)
      | _ \<Rightarrow> False)"

definition hash_session_token :: "(nat list \<Rightarrow> pystr) \<Rightarrow> pystr \<Rightarrow> pystr pyres" where
  "hash_session_token sha256_hex token =
     (case utf8_encode token of None \<Rightarrow> encode_error | Some bytes \<Rightarrow> Inr (sha256_hex bytes))"

lemma int_literal_str_nat: "int_literal (str_nat n) = Inr (int n)"
proof -
  have digits: "\<forall>c \<in> set (str_nat n). is_digit c" using str_nat_digits by blast
  moreover have "strip (str_nat n) = str_nat n"
    using digits digit_not_space by (intro strip_no_space) blast
  moreover obtain c cs where "str_nat n = c # cs" by (cases "str_nat n") simp_all
  moreover have "digit_groups False (str_nat n) = Some (str_nat n)" using digits by (simp add: digit_groups_digits)
  ultimately show ?thesis using nat_of_digits_str_nat [of n] by (auto simp: int_literal_def Let_def)
qed

lemma split_max_append: "d \<notin> set s \<Longrightarrow> split_max d (Suc k) (s @ d # t) = s # split_max d k t"
proof -
  assume d: "d \<notin> set s"
  then have "takeWhile (\<lambda>c. c \<noteq> d) (s @ d # t) = s" "dropWhile (\<lambda>c. c \<noteq> d) (s @ d # t) = d # t"
    by (induction s) auto
  then show ?thesis by simp
qed

text \<open>
  Passwords verify: what \<open>hash_password\<close> stores, for any salt, is accepted for the same password,
  and a different password is accepted only when the key derivation gives it the same key.
\<close>

theorem password_verifies:
  assumes "hash_password kdf salt password = Inr stored" and "bytes_ok salt"
    and "\<And>bytes digest. kdf bytes salt (int pbkdf2_iterations) = Some digest \<Longrightarrow> bytes_ok digest"
  shows "verify_password kdf password stored
    \<and> (verify_password kdf other stored \<longleftrightarrow>
         (\<exists>b b'. utf8_encode password = Some b \<and> utf8_encode other = Some b'
            \<and> kdf b' salt (int pbkdf2_iterations) = kdf b salt (int pbkdf2_iterations)))"
proof -
  obtain bytes digest where enc: "utf8_encode password = Some bytes" and key: "kdf bytes salt (int pbkdf2_iterations) = Some digest"
    and stored: "stored = join [36] [py ''pbkdf2_sha256'', str_nat pbkdf2_iterations, b64_encode salt, b64_encode digest]"
    using assms(1) by (auto simp: hash_password_def encode_error_def split: option.splits)
  have ok: "bytes_ok digest" by (rule assms(3) [OF key])
  have parts: "36 \<notin> set (py ''pbkdf2_sha256'')" "36 \<notin> set (str_nat pbkdf2_iterations)" "36 \<notin> set (b64_encode salt)"
    using str_nat_digits [of 36 pbkdf2_iterations] b64_encode_chars [OF assms(2)]
    by (auto simp: py_def list_all_iff b64_text_def)
  have "stored = py ''pbkdf2_sha256'' @ 36 # str_nat pbkdf2_iterations @ 36 # b64_encode salt @ 36 # b64_encode digest"
    unfolding stored by simp
  then have "split_max 36 (Suc (Suc (Suc 0))) stored = [py ''pbkdf2_sha256'', str_nat pbkdf2_iterations, b64_encode salt, b64_encode digest]"
    by (simp only: split_max_append [OF parts(1)] split_max_append [OF parts(2)] split_max_append [OF parts(3)] split_max.simps(1))
  then have split: "split_max 36 3 stored = [py ''pbkdf2_sha256'', str_nat pbkdf2_iterations, b64_encode salt, b64_encode digest]"
    by (simp only: numeral_3_eq_3)
  have "ascii_only (b64_encode salt)" "ascii_only (b64_encode digest)"
    using b64_encode_chars [OF assms(2)] b64_encode_chars [OF ok]
    by (auto simp: ascii_only_def list_all_iff b64_text_def)
  then have "verify_password kdf pw stored \<longleftrightarrow> (\<exists>b. utf8_encode pw = Some b \<and> kdf b salt (int pbkdf2_iterations) = Some digest)" for pw
    by (simp add: verify_password_def split b64_round_trip ok assms(2) int_literal_str_nat split: option.split)
  then show ?thesis using enc key by auto
qed

theorem password_verifies_witness:
  "\<exists>stored. hash_password (\<lambda>b s n. Some (map (\<lambda>x. x mod 256) (b @ s))) [1, 2] (py ''secret'') = Inr stored
     \<and> verify_password (\<lambda>b s n. Some (map (\<lambda>x. x mod 256) (b @ s))) (py ''secret'') stored
     \<and> \<not> verify_password (\<lambda>b s n. Some (map (\<lambda>x. x mod 256) (b @ s))) (py ''Secret'') stored"
proof -
  let ?kdf = "\<lambda>b s (n :: int). Some (map (\<lambda>x. x mod 256) (b @ s)) :: nat list option"
  have enc: "utf8_encode (py ''secret'') = Some (py ''secret'')" "utf8_encode (py ''Secret'') = Some (py ''Secret'')"
    by (simp_all add: py_def utf8_char_def)
  then obtain stored where s: "hash_password ?kdf [1, 2] (py ''secret'') = Inr stored" by (simp add: hash_password_def)
  have "bytes_ok digest" if "?kdf bytes [1, 2] (int pbkdf2_iterations) = Some digest" for bytes digest
    using that by (auto simp: bytes_ok_def)
  from password_verifies [of ?kdf "[1, 2]" "py ''secret''" stored "py ''Secret''", OF s _ this] enc s show ?thesis by (auto simp: bytes_ok_def py_def)
qed

end
