(* ===== verification/Auth_Service.thy ===== *)
theory Auth_Service
  imports Auth_Security
begin

text \<open>
  \<open>app/auth/service.py\<close> over the tables \<open>users\<close>, \<open>workspaces\<close>, \<open>workspace_members\<close> and
  \<open>auth_sessions\<close> of \<open>app/db/models.py\<close>.  Every operation is one transaction: it commits a new
  state or raises and leaves the tables as they were.  Identifiers, the salt, the token and the
  time are arguments; PostgreSQL's \<open>lower\<close>, the key derivation and the token hash are parameters.
  The widths of the text columns and the unique constraints raise as in the database.
\<close>

section \<open>Tables\<close>

record user_row =
  us_id :: uuid
  us_username :: pystr
  us_display_name :: pystr
  us_password_hash :: pystr
  us_created :: int

record workspace_row =
  wk_id :: uuid
  wk_name :: pystr
  wk_slug :: pystr
  wk_owner :: "uuid option"
  wk_updated :: int

record member_row =
  mb_workspace :: uuid
  mb_user :: uuid
  mb_role :: pystr
  mb_created :: int

record session_row =
  se_id :: uuid
  se_user :: uuid
  se_workspace :: uuid
  se_token_hash :: pystr
  se_expires :: int
  se_last_seen :: int

record auth_db =
  ad_users :: "user_row list"
  ad_workspaces :: "workspace_row list"
  ad_members :: "member_row list"
  ad_sessions :: "session_row list"

record user_view =
  uv_id :: uuid
  uv_username :: pystr
  uv_display_name :: pystr
  uv_created :: int

record workspace_view =
  wv_id :: uuid
  wv_name :: pystr
  wv_slug :: pystr
  wv_role :: pystr

record auth_session_view =
  av_user :: user_view
  av_workspace :: workspace_view

record auth_result =
  ar_token :: pystr
  ar_session :: auth_session_view

record auth_context =
  ac_user_id :: uuid
  ac_workspace_id :: uuid
  ac_session_id :: uuid
  ac_username :: pystr
  ac_display_name :: pystr

record auth_env =
  ae_casefold :: "nat \<Rightarrow> nat list"
  ae_sql_lower :: "pystr \<Rightarrow> pystr"
  ae_kdf :: kdf
  ae_sha256 :: "nat list \<Rightarrow> pystr"
  ae_ttl :: nat

text \<open>What a request draws: fresh identifiers, random bytes, the token and the clock.\<close>

record auth_fresh =
  af_user :: uuid
  af_workspace :: uuid
  af_session :: uuid
  af_salt :: "nat list"
  af_slug :: pystr
  af_token :: pystr
  af_now :: int

definition default_workspace_id :: uuid where
  "default_workspace_id = 1"

definition user_view_of :: "user_row \<Rightarrow> user_view" where
  "user_view_of u = \<lparr>uv_id = us_id u, uv_username = us_username u, uv_display_name = us_display_name u,
     uv_created = us_created u\<rparr>"

definition workspace_view_of :: "workspace_row \<Rightarrow> pystr \<Rightarrow> workspace_view" where
  "workspace_view_of w role = \<lparr>wv_id = wk_id w, wv_name = wk_name w, wv_slug = wk_slug w, wv_role = role\<rparr>"

definition auth_error :: "string \<Rightarrow> 'a pyres" where
  "auth_error text = raise_exc ''AuthError'' (py text)"

definition too_long :: "'a pyres" where
  "too_long = raise_exc ''DBAPIError'' (py ''value too long for type character varying'')"

definition integrity_error :: "string \<Rightarrow> 'a pyres" where
  "integrity_error constraint = raise_exc ''IntegrityError'' (py constraint)"

definition find_user :: "auth_env \<Rightarrow> pystr \<Rightarrow> auth_db \<Rightarrow> user_row option" where
  "find_user env username db =
     find (\<lambda>u. ae_sql_lower env (us_username u) = casefold (ae_casefold env) (strip username)) (ad_users db)"

definition find_member :: "uuid \<Rightarrow> uuid \<Rightarrow> auth_db \<Rightarrow> member_row option" where
  "find_member workspace user db = find (\<lambda>m. mb_workspace m = workspace \<and> mb_user m = user) (ad_members db)"

definition find_workspace :: "uuid \<Rightarrow> auth_db \<Rightarrow> workspace_row option" where
  "find_workspace i db = find (\<lambda>w. wk_id w = i) (ad_workspaces db)"

section \<open>Operations\<close>

text \<open>The session both \<open>register\<close> and \<open>login\<close> create.\<close>

definition new_session ::
  "auth_env \<Rightarrow> auth_fresh \<Rightarrow> user_row \<Rightarrow> workspace_row \<Rightarrow> pystr \<Rightarrow> auth_db \<Rightarrow> auth_result pyres \<times> auth_db" where
  "new_session env fr user workspace role db =
     (case hash_session_token (ae_sha256 env) (af_token fr) of
        Inl e \<Rightarrow> (Inl e, db)
      | Inr hash \<Rightarrow>
          (if hash \<in> set (map se_token_hash (ad_sessions db)) then (integrity_error ''auth_sessions_token_hash'', db)
           else if af_session fr \<in> set (map se_id (ad_sessions db)) then (integrity_error ''auth_sessions_pkey'', db)
           else (Inr \<lparr>ar_token = af_token fr, ar_session = \<lparr>av_user = user_view_of user, av_workspace = workspace_view_of workspace role\<rparr>\<rparr>,
                 db\<lparr>ad_sessions := ad_sessions db @ [\<lparr>se_id = af_session fr, se_user = us_id user, se_workspace = wk_id workspace,
                      se_token_hash = hash, se_expires = af_now fr + int (ae_ttl env), se_last_seen = af_now fr\<rparr>]\<rparr>)))"

definition workspace_suffix :: pystr where
  "workspace_suffix = [32, 30340, 24037, 20316, 31354, 38388]"

text \<open>The workspace of a new user: the default one while nobody owns it, else a new one.\<close>

definition adopt_workspace :: "auth_fresh \<Rightarrow> pystr \<Rightarrow> uuid \<Rightarrow> auth_db \<Rightarrow> workspace_row pyres \<times> auth_db" where
  "adopt_workspace fr display_name user db =
     (case find (\<lambda>w. wk_id w = default_workspace_id \<and> wk_owner w = None) (ad_workspaces db) of
        None \<Rightarrow>
          (let w = \<lparr>wk_id = af_workspace fr, wk_name = display_name @ workspace_suffix, wk_slug = py ''workspace-'' @ af_slug fr,
                    wk_owner = Some user, wk_updated = af_now fr\<rparr>
           in if 120 < length (wk_name w) \<or> 80 < length (wk_slug w) then (too_long, db)
              else if wk_id w \<in> set (map wk_id (ad_workspaces db)) then (integrity_error ''workspaces_pkey'', db)
              else if wk_slug w \<in> set (map wk_slug (ad_workspaces db)) then (integrity_error ''workspaces_slug'', db)
              else (Inr w, db\<lparr>ad_workspaces := ad_workspaces db @ [w]\<rparr>))
      | Some w \<Rightarrow>
          (let w' = w\<lparr>wk_owner := Some user, wk_updated := af_now fr\<rparr>
           in (Inr w', db\<lparr>ad_workspaces := map (\<lambda>x. if wk_id x = wk_id w then w' else x) (ad_workspaces db)\<rparr>)))"

definition new_user :: "auth_fresh \<Rightarrow> pystr \<Rightarrow> pystr \<Rightarrow> pystr \<Rightarrow> user_row" where
  "new_user fr username stored display_name =
     \<lparr>us_id = af_user fr, us_username = strip username, us_display_name = display_name,
      us_password_hash = stored, us_created = af_now fr\<rparr>"

definition register_rows ::
  "auth_env \<Rightarrow> auth_fresh \<Rightarrow> pystr \<Rightarrow> pystr \<Rightarrow> pystr \<Rightarrow> auth_db \<Rightarrow> auth_result pyres \<times> auth_db" where
  "register_rows env fr username stored display_name db =
     (let user = new_user fr username stored display_name
      in if 64 < length (us_username user) \<or> 120 < length display_name then (too_long, db)
         else if us_id user \<in> set (map us_id (ad_users db)) then (integrity_error ''users_pkey'', db)
         else if us_username user \<in> set (map us_username (ad_users db)) then (integrity_error ''users_username'', db)
         else (case adopt_workspace fr display_name (us_id user) (db\<lparr>ad_users := ad_users db @ [user]\<rparr>) of
                 (Inl e, db1) \<Rightarrow> (Inl e, db)
               | (Inr workspace, db1) \<Rightarrow>
                   (case new_session env fr user workspace (py ''owner'')
                      (db1\<lparr>ad_members := ad_members db1 @ [\<lparr>mb_workspace = wk_id workspace, mb_user = us_id user,
                         mb_role = py ''owner'', mb_created = af_now fr\<rparr>]\<rparr>) of
                      (Inl e, db2) \<Rightarrow> (Inl e, db)
                    | (Inr r, db2) \<Rightarrow> (Inr r, db2))))"

definition auth_register ::
  "auth_env \<Rightarrow> auth_fresh \<Rightarrow> pystr \<Rightarrow> pystr \<Rightarrow> pystr \<Rightarrow> auth_db \<Rightarrow> auth_result pyres \<times> auth_db" where
  "auth_register env fr username password display_name db =
     (case find_user env username db of
        Some u \<Rightarrow> (auth_error ''Username is already registered.'', db)
      | None \<Rightarrow>
          (case hash_password (ae_kdf env) (af_salt fr) password of
             Inl e \<Rightarrow> (Inl e, db)
           | Inr stored \<Rightarrow> register_rows env fr username stored display_name db))"

definition auth_login :: "auth_env \<Rightarrow> auth_fresh \<Rightarrow> pystr \<Rightarrow> pystr \<Rightarrow> auth_db \<Rightarrow> auth_result pyres \<times> auth_db" where
  "auth_login env fr username password db =
     (case find_user env username db of
        None \<Rightarrow> (auth_error ''Invalid username or password.'', db)
      | Some user \<Rightarrow>
          (if \<not> verify_password (ae_kdf env) password (us_password_hash user) then
             (auth_error ''Invalid username or password.'', db)
           else (case sort_key mb_created (filter (\<lambda>m. mb_user m = us_id user) (ad_members db)) of
                   [] \<Rightarrow> (auth_error ''User has no workspace membership.'', db)
                 | membership # others \<Rightarrow>
                     (case find_workspace (mb_workspace membership) db of
                        None \<Rightarrow> (auth_error ''Workspace not found.'', db)
                      | Some workspace \<Rightarrow> new_session env fr user workspace (mb_role membership) db))))"

definition auth_authenticate :: "auth_env \<Rightarrow> int \<Rightarrow> pystr \<Rightarrow> auth_db \<Rightarrow> auth_context option pyres \<times> auth_db" where
  "auth_authenticate env now token db =
     (case hash_session_token (ae_sha256 env) token of
        Inl e \<Rightarrow> (Inl e, db)
      | Inr hash \<Rightarrow>
          (case find (\<lambda>s. se_token_hash s = hash \<and> se_expires s > now) (ad_sessions db) of
             None \<Rightarrow> (Inr None, db)
           | Some s \<Rightarrow>
               (case (find (\<lambda>u. us_id u = se_user s) (ad_users db), find_member (se_workspace s) (se_user s) db) of
                  (Some user, Some m) \<Rightarrow>
                    (Inr (Some \<lparr>ac_user_id = us_id user, ac_workspace_id = se_workspace s, ac_session_id = se_id s,
                               ac_username = us_username user, ac_display_name = us_display_name user\<rparr>),
                     db\<lparr>ad_sessions := map (\<lambda>x. if se_id x = se_id s then x\<lparr>se_last_seen := now\<rparr> else x) (ad_sessions db)\<rparr>)
                | _ \<Rightarrow> (Inr None, db))))"

definition auth_logout :: "uuid \<Rightarrow> auth_db \<Rightarrow> auth_db" where
  "auth_logout session db = db\<lparr>ad_sessions := filter (\<lambda>s. se_id s \<noteq> session) (ad_sessions db)\<rparr>"

definition current_session :: "auth_context \<Rightarrow> auth_db \<Rightarrow> auth_session_view option" where
  "current_session ctx db =
     (case (find (\<lambda>u. us_id u = ac_user_id ctx) (ad_users db), find_workspace (ac_workspace_id ctx) db,
            find_member (ac_workspace_id ctx) (ac_user_id ctx) db) of
        (Some user, Some workspace, Some m) \<Rightarrow>
          Some \<lparr>av_user = user_view_of user, av_workspace = workspace_view_of workspace (mb_role m)\<rparr>
      | _ \<Rightarrow> None)"

section \<open>The invariant of the tables\<close>

definition auth_ok :: "auth_db \<Rightarrow> bool" where
  "auth_ok db \<longleftrightarrow> distinct (map us_id (ad_users db)) \<and> distinct (map us_username (ad_users db))
     \<and> distinct (map wk_id (ad_workspaces db)) \<and> distinct (map se_id (ad_sessions db))
     \<and> distinct (map se_token_hash (ad_sessions db)) \<and> distinct (map mb_user (ad_members db))
     \<and> (\<forall>m \<in> set (ad_members db). mb_user m \<in> us_id ` set (ad_users db)
          \<and> (\<exists>w \<in> set (ad_workspaces db). wk_id w = mb_workspace m \<and> wk_owner w = Some (mb_user m)))
     \<and> (\<forall>s \<in> set (ad_sessions db). \<exists>m \<in> set (ad_members db). mb_workspace m = se_workspace s \<and> mb_user m = se_user s)"

lemma auth_okD:
  assumes "auth_ok db"
  shows "distinct (map us_id (ad_users db))" "distinct (map us_username (ad_users db))"
    "distinct (map wk_id (ad_workspaces db))" "distinct (map se_id (ad_sessions db))"
    "distinct (map se_token_hash (ad_sessions db))" "distinct (map mb_user (ad_members db))"
    "m \<in> set (ad_members db) \<Longrightarrow> mb_user m \<in> us_id ` set (ad_users db)"
    "m \<in> set (ad_members db) \<Longrightarrow> \<exists>w \<in> set (ad_workspaces db). wk_id w = mb_workspace m \<and> wk_owner w = Some (mb_user m)"
    "s \<in> set (ad_sessions db) \<Longrightarrow> \<exists>m \<in> set (ad_members db). mb_workspace m = se_workspace s \<and> mb_user m = se_user s"
  using assms unfolding auth_ok_def by blast+

lemma new_session_Inr:
  assumes "new_session env fr user w role db = (Inr r, db')"
  obtains hash s where "hash_session_token (ae_sha256 env) (af_token fr) = Inr hash"
    "hash \<notin> set (map se_token_hash (ad_sessions db))" "af_session fr \<notin> set (map se_id (ad_sessions db))"
    "s = \<lparr>se_id = af_session fr, se_user = us_id user, se_workspace = wk_id w, se_token_hash = hash,
          se_expires = af_now fr + int (ae_ttl env), se_last_seen = af_now fr\<rparr>"
    "db' = db\<lparr>ad_sessions := ad_sessions db @ [s]\<rparr>" "ar_token r = af_token fr"
    "av_user (ar_session r) = user_view_of user" "av_workspace (ar_session r) = workspace_view_of w role"
  using assms by (auto simp: new_session_def integrity_error_def split: sum.splits if_splits)

lemma new_session_Inl: "fst (new_session env fr user w role db) = Inl e \<Longrightarrow> snd (new_session env fr user w role db) = db"
  by (auto simp: new_session_def split: sum.splits if_splits)

lemma adopt_workspace_Inr:
  assumes "adopt_workspace fr d u db = (Inr w, db1)" and dist: "distinct (map wk_id (ad_workspaces db))"
  shows "distinct (map wk_id (ad_workspaces db1)) \<and> w \<in> set (ad_workspaces db1) \<and> wk_owner w = Some u
    \<and> (\<forall>x \<in> set (ad_workspaces db). wk_owner x \<noteq> None \<longrightarrow> x \<in> set (ad_workspaces db1))
    \<and> db1 = db\<lparr>ad_workspaces := ad_workspaces db1\<rparr>"
proof (cases "find (\<lambda>w. wk_id w = default_workspace_id \<and> wk_owner w = None) (ad_workspaces db)")
  case None
  with assms show ?thesis
    by (auto simp: adopt_workspace_def Let_def too_long_def integrity_error_def split: if_splits)
next
  case (Some w0)
  then have w0: "w0 \<in> set (ad_workspaces db)" "wk_owner w0 = None" by (auto simp: find_Some_iff)
  let ?g = "\<lambda>x. if wk_id x = wk_id w0 then w0\<lparr>wk_owner := Some u, wk_updated := af_now fr\<rparr> else x"
  have db1: "w = w0\<lparr>wk_owner := Some u, wk_updated := af_now fr\<rparr>" "db1 = db\<lparr>ad_workspaces := map ?g (ad_workspaces db)\<rparr>"
    using assms(1) Some by (simp_all add: adopt_workspace_def Let_def)
  have "map wk_id (map ?g xs) = map wk_id xs" for xs by (induction xs) simp_all
  moreover have "w \<in> set (map ?g (ad_workspaces db))" using w0(1) db1(1) by (force intro!: image_eqI [of _ _ w0])
  moreover have "x \<in> set (map ?g (ad_workspaces db))" if "x \<in> set (ad_workspaces db)" "wk_owner x \<noteq> None" for x
  proof -
    have "wk_id x \<noteq> wk_id w0" using inj_onD [of wk_id "set (ad_workspaces db)" x w0] dist that w0 by (auto simp: distinct_map)
    with that(1) show ?thesis by (auto intro!: image_eqI [of _ _ x])
  qed
  ultimately show ?thesis using dist db1 by (simp del: map_map set_map)
qed

lemma auth_ok_new_session:
  assumes "auth_ok db" and "\<exists>m \<in> set (ad_members db). mb_workspace m = wk_id w \<and> mb_user m = us_id user"
  shows "auth_ok (snd (new_session env fr user w role db))"
proof (cases "new_session env fr user w role db")
  case (Pair r db')
  show ?thesis
  proof (cases r)
    case (Inl e)
    with Pair new_session_Inl [of env fr user w role db e] assms(1) show ?thesis by simp
  next
    case (Inr x)
    with Pair have "new_session env fr user w role db = (Inr x, db')" by simp
    then show ?thesis
    proof (rule new_session_Inr)
      fix hash s
      assume s: "s = \<lparr>se_id = af_session fr, se_user = us_id user, se_workspace = wk_id w, se_token_hash = hash,
          se_expires = af_now fr + int (ae_ttl env), se_last_seen = af_now fr\<rparr>"
        and "db' = db\<lparr>ad_sessions := ad_sessions db @ [s]\<rparr>" "hash \<notin> set (map se_token_hash (ad_sessions db))"
        "af_session fr \<notin> set (map se_id (ad_sessions db))"
      then show ?thesis using assms Pair unfolding auth_ok_def by simp
    qed
  qed
qed

lemma auth_ok_add_member:
  assumes ok: "auth_ok db" and u: "us_id user \<notin> set (map us_id (ad_users db))" "us_username user \<notin> set (map us_username (ad_users db))"
    and w: "adopt_workspace fr d (us_id user) (db\<lparr>ad_users := ad_users db @ [user]\<rparr>) = (Inr w, db1)"
  shows "auth_ok (db1\<lparr>ad_members := ad_members db1 @ [\<lparr>mb_workspace = wk_id w, mb_user = us_id user, mb_role = role, mb_created = now\<rparr>]\<rparr>)"
proof -
  let ?m = "\<lparr>mb_workspace = wk_id w, mb_user = us_id user, mb_role = role, mb_created = now\<rparr>"
  from adopt_workspace_Inr [OF w] auth_okD(3) [OF ok]
  have a: "distinct (map wk_id (ad_workspaces db1))" "w \<in> set (ad_workspaces db1)" "wk_owner w = Some (us_id user)"
    and keep: "\<And>x. x \<in> set (ad_workspaces db) \<Longrightarrow> wk_owner x \<noteq> None \<Longrightarrow> x \<in> set (ad_workspaces db1)"
    and eq: "db1 = (db\<lparr>ad_users := ad_users db @ [user]\<rparr>)\<lparr>ad_workspaces := ad_workspaces db1\<rparr>" by auto
  have f: "ad_users db1 = ad_users db @ [user]" "ad_members db1 = ad_members db" "ad_sessions db1 = ad_sessions db"
    by (subst eq, simp)+
  have owned: "\<exists>x \<in> set (ad_workspaces db1). wk_id x = mb_workspace m \<and> wk_owner x = Some (mb_user m)"
    if "m \<in> set (ad_members db)" for m
    using auth_okD(8) [OF ok that] keep by fastforce
  have "us_id user \<notin> mb_user ` set (ad_members db)" using auth_okD(7) [OF ok] u(1) by auto
  then have mem: "distinct (map mb_user (ad_members db @ [?m]))" using auth_okD(6) [OF ok] by simp
  show ?thesis
    unfolding auth_ok_def
  proof (intro conjI ballI)
    fix m assume "m \<in> set (ad_members (db1\<lparr>ad_members := ad_members db1 @ [?m]\<rparr>))"
    then consider (old) "m \<in> set (ad_members db)" | (new) "m = ?m" using f by auto
    then have "mb_user m \<in> us_id ` set (ad_users db1)
      \<and> (\<exists>w \<in> set (ad_workspaces db1). wk_id w = mb_workspace m \<and> wk_owner w = Some (mb_user m))"
    proof cases
      case old
      with owned auth_okD(7) [OF ok old] f show ?thesis by simp
    next
      case new
      with a(2,3) f show ?thesis by auto
    qed
    then show "mb_user m \<in> us_id ` set (ad_users (db1\<lparr>ad_members := ad_members db1 @ [?m]\<rparr>))"
      "\<exists>w \<in> set (ad_workspaces (db1\<lparr>ad_members := ad_members db1 @ [?m]\<rparr>)). wk_id w = mb_workspace m \<and> wk_owner w = Some (mb_user m)"
      by simp_all
  next
    fix x assume "x \<in> set (ad_sessions (db1\<lparr>ad_members := ad_members db1 @ [?m]\<rparr>))"
    then show "\<exists>m \<in> set (ad_members (db1\<lparr>ad_members := ad_members db1 @ [?m]\<rparr>)). mb_workspace m = se_workspace x \<and> mb_user m = se_user x"
      using auth_okD(9) [OF ok, of x] f by auto
  qed (use auth_okD(1,2,4,5) [OF ok] u a(1) mem f in auto)
qed

lemma auth_register_Inl: "auth_register env fr username pw display db = (Inl e, db') \<Longrightarrow> db' = db"
  by (auto simp: auth_register_def register_rows_def Let_def split: option.splits sum.splits if_splits prod.splits)

lemma auth_register_Inr:
  assumes "auth_register env fr username pw display db = (Inr r, db')"
  obtains stored user w db1 where "find_user env username db = None" "hash_password (ae_kdf env) (af_salt fr) pw = Inr stored"
    "user = new_user fr username stored display" "length (us_username user) \<le> 64" "length display \<le> 120"
    "us_id user \<notin> set (map us_id (ad_users db))" "us_username user \<notin> set (map us_username (ad_users db))"
    "adopt_workspace fr display (us_id user) (db\<lparr>ad_users := ad_users db @ [user]\<rparr>) = (Inr w, db1)"
    "new_session env fr user w (py ''owner'') (db1\<lparr>ad_members := ad_members db1 @ [\<lparr>mb_workspace = wk_id w,
          mb_user = us_id user, mb_role = py ''owner'', mb_created = af_now fr\<rparr>]\<rparr>) = (Inr r, db')"
  using assms
  by (auto simp: auth_register_def register_rows_def Let_def auth_error_def too_long_def integrity_error_def not_less
      split: option.splits sum.splits if_splits prod.splits)

lemma auth_ok_register:
  assumes ok: "auth_ok db"
  shows "auth_ok (snd (auth_register env fr username pw display db))"
proof (cases "auth_register env fr username pw display db")
  case (Pair r db')
  show ?thesis
  proof (cases "db' = db")
    case False
    with Pair obtain x where "r = Inr x" using auth_register_Inl by (cases r) auto
    with Pair obtain user w db1 where
      u: "us_id user \<notin> set (map us_id (ad_users db))" "us_username user \<notin> set (map us_username (ad_users db))"
      and w: "adopt_workspace fr display (us_id user) (db\<lparr>ad_users := ad_users db @ [user]\<rparr>) = (Inr w, db1)"
      and n: "new_session env fr user w (py ''owner'') (db1\<lparr>ad_members := ad_members db1 @ [\<lparr>mb_workspace = wk_id w,
          mb_user = us_id user, mb_role = py ''owner'', mb_created = af_now fr\<rparr>]\<rparr>) = (Inr x, db')"
      using auth_register_Inr by metis
    let ?db2 = "db1\<lparr>ad_members := ad_members db1 @ [\<lparr>mb_workspace = wk_id w, mb_user = us_id user, mb_role = py ''owner'', mb_created = af_now fr\<rparr>]\<rparr>"
    have "auth_ok ?db2" by (rule auth_ok_add_member [OF ok u w])
    then have "auth_ok (snd (new_session env fr user w (py ''owner'') ?db2))" by (rule auth_ok_new_session) simp
    with n Pair show ?thesis by simp
  qed (use ok Pair in simp)
qed

lemma auth_ok_login:
  assumes ok: "auth_ok db"
  shows "auth_ok (snd (auth_login env fr username pw db))"
proof (cases "snd (auth_login env fr username pw db) = db")
  case False
  then obtain user m ms w where
    m: "sort_key mb_created (filter (\<lambda>m. mb_user m = us_id user) (ad_members db)) = m # ms"
    and w: "find_workspace (mb_workspace m) db = Some w"
    and run: "auth_login env fr username pw db = new_session env fr user w (mb_role m) db"
    by (auto simp: auth_login_def split: option.splits list.splits if_splits)
  have "m \<in> set (sort_key mb_created (filter (\<lambda>m. mb_user m = us_id user) (ad_members db)))" by (simp only: m) simp
  then have "m \<in> set (ad_members db)" "mb_user m = us_id user" by auto
  moreover have "wk_id w = mb_workspace m" using w by (auto simp: find_workspace_def find_Some_iff)
  ultimately have "auth_ok (snd (new_session env fr user w (mb_role m) db))"
    by (intro auth_ok_new_session [OF ok]) auto
  with run show ?thesis by simp
qed (use ok in simp)

lemma auth_ok_authenticate:
  assumes ok: "auth_ok db"
  shows "auth_ok (snd (auth_authenticate env now token db))"
proof (cases "snd (auth_authenticate env now token db) = db")
  case False
  then obtain i where run: "snd (auth_authenticate env now token db)
      = db\<lparr>ad_sessions := map (\<lambda>x. if se_id x = i then x\<lparr>se_last_seen := now\<rparr> else x) (ad_sessions db)\<rparr>"
    by (auto simp: auth_authenticate_def split: option.splits sum.splits)
  let ?g = "\<lambda>x. if se_id x = i then x\<lparr>se_last_seen := now\<rparr> else x"
  have keep: "map se_id (map ?g xs) = map se_id xs" "map se_token_hash (map ?g xs) = map se_token_hash xs" for xs
    by (induction xs) simp_all
  have "\<exists>m \<in> set (ad_members db). mb_workspace m = se_workspace s \<and> mb_user m = se_user s"
    if "s \<in> set (map ?g (ad_sessions db))" for s
    using that auth_okD(9) [OF ok] by auto
  then show ?thesis using auth_okD(1-8) [OF ok] unfolding run auth_ok_def by (simp add: keep del: map_map set_map)
qed (use ok in simp)

lemma auth_ok_logout: "auth_ok db \<Longrightarrow> auth_ok (auth_logout i db)"
  by (simp add: auth_ok_def auth_logout_def distinct_map_filter)

end
