(* ===== verification/Auth_Properties.thy ===== *)
theory Auth_Properties
  imports Auth_Service
begin

text \<open>
  What the accounts guarantee: sessions that work exactly until they expire or are closed,
  workspaces that belong to one user, and the limits of registration.
\<close>

datatype auth_op =
    RegisterOp auth_fresh pystr pystr pystr
  | LoginOp auth_fresh pystr pystr
  | AuthenticateOp int pystr
  | LogoutOp uuid

fun auth_apply :: "auth_env \<Rightarrow> auth_op \<Rightarrow> auth_db \<Rightarrow> auth_db" where
  "auth_apply env (RegisterOp fr username pw display) db = snd (auth_register env fr username pw display db)"
| "auth_apply env (LoginOp fr username pw) db = snd (auth_login env fr username pw db)"
| "auth_apply env (AuthenticateOp now token) db = snd (auth_authenticate env now token db)"
| "auth_apply env (LogoutOp i) db = auth_logout i db"

text \<open>The tables of a new installation: the default workspace, owned by nobody.\<close>

definition initial_auth :: "pystr \<Rightarrow> pystr \<Rightarrow> auth_db" where
  "initial_auth name slug = \<lparr>ad_users = [], ad_workspaces = [\<lparr>wk_id = default_workspace_id, wk_name = name, wk_slug = slug,
     wk_owner = None, wk_updated = 0\<rparr>], ad_members = [], ad_sessions = []\<rparr>"

definition run_auth :: "auth_env \<Rightarrow> auth_op list \<Rightarrow> auth_db \<Rightarrow> auth_db" where
  "run_auth env ops db = fold (auth_apply env) ops db"

lemma auth_ok_run: "auth_ok db \<Longrightarrow> auth_ok (run_auth env ops db)"
proof (induction ops arbitrary: db)
  case (Cons op ops)
  have "auth_ok (auth_apply env op db)"
    using Cons.prems by (cases op) (simp_all add: auth_ok_register auth_ok_login auth_ok_authenticate auth_ok_logout)
  with Cons.IH show ?case by (simp add: run_auth_def)
qed (simp add: run_auth_def)

lemma auth_ok_initial: "auth_ok (initial_auth name slug)"
  by (simp add: auth_ok_def initial_auth_def)

lemma authenticate_Some:
  assumes "fst (auth_authenticate env now token db) = Inr (Some ctx)"
  obtains hash s u m where "hash_session_token (ae_sha256 env) token = Inr hash" "s \<in> set (ad_sessions db)"
    "se_token_hash s = hash" "now < se_expires s" "ac_session_id ctx = se_id s" "u \<in> set (ad_users db)" "us_id u = se_user s"
    "m \<in> set (ad_members db)" "mb_workspace m = se_workspace s" "mb_user m = se_user s"
    "ac_user_id ctx = se_user s" "ac_workspace_id ctx = se_workspace s"
proof -
  from assms obtain hash s u m where h: "hash_session_token (ae_sha256 env) token = Inr hash"
    and s: "find (\<lambda>s. se_token_hash s = hash \<and> se_expires s > now) (ad_sessions db) = Some s"
    and u: "find (\<lambda>u. us_id u = se_user s) (ad_users db) = Some u" and m: "find_member (se_workspace s) (se_user s) db = Some m"
    and ctx: "ac_user_id ctx = us_id u" "ac_workspace_id ctx = se_workspace s" "ac_session_id ctx = se_id s"
    by (auto simp: auth_authenticate_def split: sum.splits option.splits)
  show thesis
    by (rule that [OF h, of s u m]) (use find_some [OF s] find_some [OF u] find_some [OF m [unfolded find_member_def]] ctx in simp_all)
qed

text \<open>
  A workspace belongs to one user: after any sequence of registrations, logins, requests and
  logouts of a new installation, two tokens that authenticate into the same workspace authenticate
  the same user.
\<close>

theorem workspace_has_one_user:
  assumes "db = run_auth env ops (initial_auth name slug)"
    and "fst (auth_authenticate env t1 token1 db) = Inr (Some c1)" and "fst (auth_authenticate env t2 token2 db) = Inr (Some c2)"
    and "ac_workspace_id c1 = ac_workspace_id c2"
  shows "ac_user_id c1 = ac_user_id c2"
proof -
  have ok: "auth_ok db" unfolding assms(1) by (rule auth_ok_run [OF auth_ok_initial])
  obtain m1 where m1: "m1 \<in> set (ad_members db)" "mb_workspace m1 = ac_workspace_id c1" "mb_user m1 = ac_user_id c1"
    by (rule authenticate_Some [OF assms(2)]) simp
  obtain m2 where m2: "m2 \<in> set (ad_members db)" "mb_workspace m2 = ac_workspace_id c2" "mb_user m2 = ac_user_id c2"
    by (rule authenticate_Some [OF assms(3)]) simp
  obtain w1 where w1: "w1 \<in> set (ad_workspaces db)" "wk_id w1 = mb_workspace m1" "wk_owner w1 = Some (mb_user m1)"
    using auth_okD(8) [OF ok m1(1)] by blast
  obtain w2 where w2: "w2 \<in> set (ad_workspaces db)" "wk_id w2 = mb_workspace m2" "wk_owner w2 = Some (mb_user m2)"
    using auth_okD(8) [OF ok m2(1)] by blast
  have "w1 = w2"
    by (rule inj_onD [of wk_id "set (ad_workspaces db)"]) (use auth_okD(3) [OF ok] w1 w2 m1 m2 assms(4) in \<open>simp_all add: distinct_map\<close>)
  with w1(3) w2(3) m1(3) m2(3) show ?thesis by simp
qed

section \<open>Sessions\<close>

text \<open>
  The token of a registration authenticates the new user at every time before the session expires
  and at none after it, the session page shows what the registration returned, and after the
  logout the token authenticates nobody.
\<close>

lemma registration_session:
  assumes "auth_ok db" and "auth_register env fr username pw display db = (Inr r, db')"
  shows "\<exists>ctx. (\<forall>t. fst (auth_authenticate env t (ar_token r) db')
        = Inr (if t < af_now fr + int (ae_ttl env) then Some ctx else None))
     \<and> ac_user_id ctx = af_user fr \<and> ac_username ctx = strip username
     \<and> current_session ctx db' = Some (ar_session r)
     \<and> (\<forall>t. fst (auth_authenticate env t (ar_token r) (auth_logout (ac_session_id ctx) db')) = Inr None)"
  using assms(2)
proof (rule auth_register_Inr)
  fix stored user w db1
  assume user: "user = new_user fr username stored display"
    and u: "us_id user \<notin> set (map us_id (ad_users db))" "us_username user \<notin> set (map us_username (ad_users db))"
    and w: "adopt_workspace fr display (us_id user) (db\<lparr>ad_users := ad_users db @ [user]\<rparr>) = (Inr w, db1)"
    and n: "new_session env fr user w (py ''owner'') (db1\<lparr>ad_members := ad_members db1 @ [\<lparr>mb_workspace = wk_id w,
          mb_user = us_id user, mb_role = py ''owner'', mb_created = af_now fr\<rparr>]\<rparr>) = (Inr r, db')"
  let ?m = "\<lparr>mb_workspace = wk_id w, mb_user = us_id user, mb_role = py ''owner'', mb_created = af_now fr\<rparr>"
  have ok': "auth_ok db'" using auth_ok_register [OF assms(1), of env fr username pw display] assms(2) by simp
  from adopt_workspace_Inr [OF w] auth_okD(3) [OF assms(1)]
  have a: "w \<in> set (ad_workspaces db1)" "distinct (map wk_id (ad_workspaces db1))"
    and eq: "db1 = (db\<lparr>ad_users := ad_users db @ [user]\<rparr>)\<lparr>ad_workspaces := ad_workspaces db1\<rparr>" by auto
  have f: "ad_users db1 = ad_users db @ [user]" "ad_members db1 = ad_members db" "ad_sessions db1 = ad_sessions db"
    by (subst eq, simp)+
  from n show ?thesis
  proof (rule new_session_Inr)
    fix hash s
    assume h: "hash_session_token (ae_sha256 env) (af_token fr) = Inr hash"
      and new: "hash \<notin> set (map se_token_hash (ad_sessions (db1\<lparr>ad_members := ad_members db1 @ [?m]\<rparr>)))"
        "af_session fr \<notin> set (map se_id (ad_sessions (db1\<lparr>ad_members := ad_members db1 @ [?m]\<rparr>)))"
      and s: "s = \<lparr>se_id = af_session fr, se_user = us_id user, se_workspace = wk_id w, se_token_hash = hash,
          se_expires = af_now fr + int (ae_ttl env), se_last_seen = af_now fr\<rparr>"
      and db': "db' = db1\<lparr>ad_members := ad_members db1 @ [?m]\<rparr>
          \<lparr>ad_sessions := ad_sessions (db1\<lparr>ad_members := ad_members db1 @ [?m]\<rparr>) @ [s]\<rparr>"
      and r: "ar_token r = af_token fr" "av_user (ar_session r) = user_view_of user"
        "av_workspace (ar_session r) = workspace_view_of w (py ''owner'')"
    have tabs: "ad_users db' = ad_users db @ [user]" "ad_members db' = ad_members db @ [?m]"
      "ad_sessions db' = ad_sessions db @ [s]" "ad_workspaces db' = ad_workspaces db1" using db' f by simp_all
    have "\<forall>x \<in> set (ad_users db). us_id x \<noteq> us_id user" using u(1) by (metis image_eqI set_map)
    then have user_found: "find (\<lambda>x. us_id x = us_id user) (ad_users db') = Some user"
      unfolding tabs by (rule find_snoc_new) simp
    have no_member: "\<forall>m \<in> set (ad_members db). mb_user m \<noteq> us_id user"
      using auth_okD(7) [OF assms(1)] u(1) by (metis set_map)
    then have member_found: "find_member (wk_id w) (us_id user) db' = Some ?m"
      unfolding find_member_def tabs by (intro find_snoc_new) auto
    have ws_found: "find_workspace (wk_id w) db' = Some w" unfolding find_workspace_def tabs
      by (rule find_unique_key) (use a in auto)
    have old: "\<forall>x \<in> set (ad_sessions db). se_token_hash x \<noteq> hash" using new(1) f by auto
    let ?ctx = "\<lparr>ac_user_id = us_id user, ac_workspace_id = wk_id w, ac_session_id = af_session fr,
      ac_username = us_username user, ac_display_name = us_display_name user\<rparr>"
    have auth: "fst (auth_authenticate env t (ar_token r) db') = Inr (if t < af_now fr + int (ae_ttl env) then Some ?ctx else None)" for t
    proof -
      have "find (\<lambda>x. se_token_hash x = hash \<and> se_expires x > t) (ad_sessions db')
          = (if t < af_now fr + int (ae_ttl env) then Some s else None)"
      proof -
        have e: "se_token_hash s = hash" "se_expires s = af_now fr + int (ae_ttl env)" using s by simp_all
        show ?thesis unfolding tabs
          using old e find_snoc_new [of "ad_sessions db" "\<lambda>x. se_token_hash x = hash \<and> se_expires x > t" s]
          by (auto simp: find_None_iff)
      qed
      with h r(1) s user_found member_found show ?thesis by (simp add: auth_authenticate_def)
    qed
    have out: "fst (auth_authenticate env t (ar_token r) (auth_logout (af_session fr) db')) = Inr None" for t
    proof -
      have "find (\<lambda>x. se_token_hash x = hash \<and> se_expires x > t) (ad_sessions (auth_logout (af_session fr) db')) = None"
        using old s by (auto simp: auth_logout_def tabs find_None_iff)
      with h r(1) show ?thesis by (simp add: auth_authenticate_def)
    qed
    have cur: "current_session ?ctx db' = Some (ar_session r)"
      using user_found ws_found member_found r by (simp add: current_session_def)
    show ?thesis using auth out cur user by (intro exI [of _ ?ctx]) (simp add: new_user_def)
  qed
qed

section \<open>Witnesses\<close>

text \<open>A runtime whose \<open>lower\<close> keeps the sharp s that \<open>casefold\<close> expands.\<close>

definition demo_auth :: auth_env where
  "demo_auth = \<lparr>ae_casefold = (\<lambda>c. if c = 223 then [115, 115] else ascii_fold c), ae_sql_lower = map ascii_lower,
     ae_kdf = (\<lambda>b s n. Some b), ae_sha256 = (\<lambda>b. b), ae_ttl = 60\<rparr>"

definition demo_auth_fresh :: "nat \<Rightarrow> auth_fresh" where
  "demo_auth_fresh k = \<lparr>af_user = 10 + k, af_workspace = 20 + k, af_session = 30 + k, af_salt = [1], af_slug = [97 + k],
     af_token = [100 + k], af_now = 0\<rparr>"

lemma demo_hash: "ascii_only pw \<Longrightarrow> \<exists>s. hash_password (ae_kdf demo_auth) salt pw = Inr s"
proof -
  assume "ascii_only pw"
  then have "utf8_encode pw = Some pw" by (induction pw) (auto simp: ascii_only_def utf8_char_def)
  then show ?thesis by (simp add: hash_password_def demo_auth_def)
qed

definition demo_registered :: "pystr \<Rightarrow> auth_db" where
  "demo_registered stored = \<lparr>ad_users = [\<lparr>us_id = 10, us_username = [115, 223], us_display_name = [68], us_password_hash = stored, us_created = 0\<rparr>],
      ad_workspaces = [\<lparr>wk_id = default_workspace_id, wk_name = [], wk_slug = [], wk_owner = Some 10, wk_updated = 0\<rparr>],
      ad_members = [\<lparr>mb_workspace = default_workspace_id, mb_user = 10, mb_role = py ''owner'', mb_created = 0\<rparr>],
      ad_sessions = [\<lparr>se_id = 30, se_user = 10, se_workspace = default_workspace_id, se_token_hash = [100], se_expires = 60, se_last_seen = 0\<rparr>]\<rparr>"

lemma demo_register:
  "\<exists>r stored. auth_register demo_auth (demo_auth_fresh 0) [115, 223] [112] [68] (initial_auth [] []) = (Inr r, demo_registered stored)
     \<and> ar_token r = [100]"
proof -
  obtain stored where s: "hash_password (ae_kdf demo_auth) [1] [112] = Inr stored"
    using demo_hash [of "[112]"] by (auto simp: ascii_only_def)
  show ?thesis
    using s by (simp add: auth_register_def find_user_def initial_auth_def register_rows_def new_user_def demo_auth_fresh_def
      strip_def lstrip_def rstrip_def py_space_def adopt_workspace_def new_session_def hash_session_token_def demo_auth_def
      utf8_char_def Let_def demo_registered_def)
qed

theorem workspace_has_one_user_witness:
  "\<exists>db c1 c2. db = run_auth demo_auth [RegisterOp (demo_auth_fresh 0) [115, 223] [112] [68]] (initial_auth [] [])
     \<and> fst (auth_authenticate demo_auth 1 [100] db) = Inr (Some c1) \<and> fst (auth_authenticate demo_auth 2 [100] db) = Inr (Some c2)
     \<and> ac_user_id c1 = ac_user_id c2"
proof -
  let ?db = "run_auth demo_auth [RegisterOp (demo_auth_fresh 0) [115, 223] [112] [68]] (initial_auth [] [])"
  obtain r stored where "auth_register demo_auth (demo_auth_fresh 0) [115, 223] [112] [68] (initial_auth [] [])
      = (Inr r, demo_registered stored)" using demo_register by blast
  then have db: "?db = demo_registered stored" by (simp add: run_auth_def)
  let ?c = "\<lparr>ac_user_id = 10, ac_workspace_id = default_workspace_id, ac_session_id = 30, ac_username = [115, 223], ac_display_name = [68]\<rparr>"
  have auth: "fst (auth_authenticate demo_auth t [100] ?db) = Inr (Some ?c)" if "t < 60" for t
    unfolding db demo_registered_def using that
    by (simp add: auth_authenticate_def hash_session_token_def utf8_char_def demo_auth_def find_member_def)
  have a: "fst (auth_authenticate demo_auth 1 [100] ?db) = Inr (Some ?c)" and b: "fst (auth_authenticate demo_auth 2 [100] ?db) = Inr (Some ?c)"
    by (rule auth, simp)+
  show ?thesis
    by (intro exI conjI) (rule refl, rule a, rule b, rule workspace_has_one_user [OF refl a b refl])
qed

section \<open>Limits of registration\<close>

text \<open>
  A limit: user names are looked up with PostgreSQL's \<open>lower\<close> on one side and \<open>casefold\<close> on the
  other.  Where these differ, as for a name with a sharp s, the registration succeeds and the user
  can then never log in, not even with the exact name and password.
\<close>

theorem casefolded_name_cannot_login:
  assumes "auth_register env fr username pw display db = (Inr r, db')"
    and "ae_sql_lower env (strip username) \<noteq> casefold (ae_casefold env) (strip username)"
  shows "auth_login env fr' username pw db' = (auth_error ''Invalid username or password.'', db')"
  using assms(1)
proof (rule auth_register_Inr)
  fix stored user w db1
  assume none: "find_user env username db = None" and user: "user = new_user fr username stored display"
    and w: "adopt_workspace fr display (us_id user) (db\<lparr>ad_users := ad_users db @ [user]\<rparr>) = (Inr w, db1)"
    and n: "new_session env fr user w (py ''owner'') (db1\<lparr>ad_members := ad_members db1 @ [\<lparr>mb_workspace = wk_id w,
          mb_user = us_id user, mb_role = py ''owner'', mb_created = af_now fr\<rparr>]\<rparr>) = (Inr r, db')"
  have "ad_users db1 = ad_users db @ [user]"
    using w by (auto simp: adopt_workspace_def Let_def too_long_def integrity_error_def split: option.splits if_splits)
  moreover have "ad_users db' = ad_users db1" using n by (rule new_session_Inr) simp
  ultimately have "find_user env username db' = None"
    using none assms(2) user by (auto simp: find_user_def find_None_iff new_user_def)
  then show ?thesis by (simp add: auth_login_def)
qed

theorem casefolded_name_cannot_login_witness:
  "\<exists>r db'. auth_register demo_auth (demo_auth_fresh 0) [115, 223] [112] [68] (initial_auth [] []) = (Inr r, db')
     \<and> auth_login demo_auth (demo_auth_fresh 1) [115, 223] [112] db' = (auth_error ''Invalid username or password.'', db')"
proof -
  obtain r db' where r: "auth_register demo_auth (demo_auth_fresh 0) [115, 223] [112] [68] (initial_auth [] []) = (Inr r, db')"
    using demo_register by blast
  have "ae_sql_lower demo_auth (strip [115, 223]) \<noteq> casefold (ae_casefold demo_auth) (strip [115, 223])"
    by (simp add: demo_auth_def strip_def lstrip_def rstrip_def py_space_def ascii_lower_def casefold_def ascii_fold_def)
  from casefolded_name_cannot_login [OF r this] r show ?thesis by blast
qed

text \<open>
  A limit: a display name of 115 to 120 characters is accepted by the request and by the column
  of the user, but the name of the new workspace is longer than its column: once the default
  workspace has an owner, such a registration fails with the database's error, and changes nothing.
\<close>

theorem long_display_name_fails:
  assumes "find_user env username db = None" and "hash_password (ae_kdf env) (af_salt fr) pw = Inr stored"
    and "length (strip username) \<le> 64" and "af_user fr \<notin> us_id ` set (ad_users db)"
    and "strip username \<notin> us_username ` set (ad_users db)"
    and "\<forall>w \<in> set (ad_workspaces db). wk_id w = default_workspace_id \<longrightarrow> wk_owner w \<noteq> None"
    and "114 < length display" and "length display \<le> 120"
  shows "auth_register env fr username pw display db = (too_long, db)"
proof -
  have "find (\<lambda>w. wk_id w = default_workspace_id \<and> wk_owner w = None) (ad_workspaces db) = None"
    using assms(6) by (auto simp: find_None_iff)
  then have "adopt_workspace fr display u (db\<lparr>ad_users := us\<rparr>) = (too_long, db\<lparr>ad_users := us\<rparr>)" for u us
    using assms(7) by (simp add: adopt_workspace_def workspace_suffix_def Let_def)
  then show ?thesis using assms by (simp add: auth_register_def register_rows_def new_user_def too_long_def Let_def)
qed

theorem long_display_name_fails_witness:
  "auth_register demo_auth (demo_auth_fresh 0) [97] [112] (replicate 115 97) \<lparr>ad_users = [], ad_workspaces = [], ad_members = [],
     ad_sessions = []\<rparr> = (too_long, \<lparr>ad_users = [], ad_workspaces = [], ad_members = [], ad_sessions = []\<rparr>)"
proof -
  obtain stored where s: "hash_password (ae_kdf demo_auth) (af_salt (demo_auth_fresh 0)) [112] = Inr stored"
    using demo_hash [of "[112]"] by (auto simp: ascii_only_def)
  show ?thesis
    by (rule long_display_name_fails [OF _ s])
      (simp_all add: find_user_def strip_def lstrip_def rstrip_def py_space_def)
qed

end
