(* ===== verification/Auth_Http.thy ===== *)
theory Auth_Http
  imports Auth_Properties
begin

text \<open>
  The HTTP side of the accounts: the request schemas of \<open>app/auth/schemas.py\<close>, the middleware of
  \<open>app/auth/middleware.py\<close>, the routes of \<open>app/api/routes/auth.py\<close> and the checks of
  \<open>app/api/dependencies.py\<close>.

  A header is its name and value as Latin-1 code points.  The cookie parser of the standard library
  and Unicode's class of alphanumeric characters are parameters.
\<close>

section \<open>Requests and responses\<close>

record request_auth =
  rq_user :: "uuid option"
  rq_workspace :: uuid
  rq_session :: "uuid option"
  rq_username :: "pystr option"
  rq_display :: "pystr option"
  rq_authenticated :: bool

record http_scope =
  sc_type :: pystr
  sc_path :: pystr
  sc_method :: pystr
  sc_headers :: "(pystr \<times> pystr) list"
  sc_client :: "pystr option"
  sc_auth :: "request_auth option"

record cookie =
  ck_key :: pystr
  ck_value :: pystr
  ck_max_age :: nat
  ck_secure :: bool

record http_response =
  hr_status :: nat
  hr_detail :: pystr
  hr_headers :: "(pystr \<times> pystr) list"
  hr_cookie :: "cookie option"

record auth_settings =
  st_enabled :: bool
  st_cookie_name :: pystr
  st_ttl :: nat
  st_cookie_secure :: bool
  st_limit :: nat
  st_login_limit :: nat
  st_window :: nat

text \<open>What a middleware does with a request: it passes it on, or answers, or raises.\<close>

datatype gate = Forward http_scope | Answer http_response | Raise py_exc

definition json_response :: "nat \<Rightarrow> string \<Rightarrow> http_response" where
  "json_response status detail = \<lparr>hr_status = status, hr_detail = py detail, hr_headers = [], hr_cookie = None\<rparr>"

definition latin1_lower :: "nat \<Rightarrow> nat" where
  "latin1_lower c = (if (65 \<le> c \<and> c \<le> 90) \<or> (192 \<le> c \<and> c \<le> 222 \<and> c \<noteq> 215) then c + 32 else c)"

definition ascii_upper :: "nat \<Rightarrow> nat" where
  "ascii_upper c = (if 97 \<le> c \<and> c \<le> 122 then c - 32 else c)"

abbreviation has_prefix :: "pystr \<Rightarrow> string \<Rightarrow> bool" where
  "has_prefix s p \<equiv> take (length p) s = py p"

section \<open>The schemas\<close>

record register_request =
  rr_username :: pystr
  rr_password :: pystr
  rr_display_name :: pystr

text \<open>\<open>Field(min_length=.., max_length=..)\<close> on a required string of the body.\<close>

definition text_field :: "(pystr \<times> pyval) list \<Rightarrow> string \<Rightarrow> nat \<Rightarrow> nat \<Rightarrow> pystr option" where
  "text_field body key lo hi =
     (case dict_get body (py key) of
        Some (PStr s) \<Rightarrow> (if lo \<le> length s \<and> length s \<le> hi then Some s else None)
      | _ \<Rightarrow> None)"

definition validate_username :: "(nat \<Rightarrow> bool) \<Rightarrow> pystr \<Rightarrow> pystr option" where
  "validate_username alnum value =
     (let normalized = strip value; rest = filter (\<lambda>c. c \<noteq> 95 \<and> c \<noteq> 45 \<and> c \<noteq> 46) normalized
      in if rest \<noteq> [] \<and> list_all alnum rest then Some normalized else None)"

definition trim_display_name :: "pystr \<Rightarrow> pystr option" where
  "trim_display_name value = (if strip value = [] then None else Some (strip value))"

definition parse_register :: "(nat \<Rightarrow> bool) \<Rightarrow> (pystr \<times> pyval) list \<Rightarrow> register_request option" where
  "parse_register alnum body =
     (case (text_field body ''username'' 3 64, text_field body ''password'' 8 128, text_field body ''display_name'' 1 120) of
        (Some u, Some p, Some d) \<Rightarrow>
          (case (validate_username alnum u, trim_display_name d) of
             (Some u', Some d') \<Rightarrow> Some \<lparr>rr_username = u', rr_password = p, rr_display_name = d'\<rparr>
           | _ \<Rightarrow> None)
      | _ \<Rightarrow> None)"

definition parse_login :: "(pystr \<times> pyval) list \<Rightarrow> (pystr \<times> pystr) option" where
  "parse_login body =
     (case (text_field body ''username'' 1 64, text_field body ''password'' 1 128) of
        (Some u, Some p) \<Rightarrow> Some (u, p)
      | _ \<Rightarrow> None)"

section \<open>The middleware\<close>

definition public_paths :: "pystr list" where
  "public_paths = [py ''/api/auth/login'', py ''/api/auth/register'', py ''/api/health/live'', py ''/api/health/ready'']"

definition is_public :: "pystr \<Rightarrow> bool" where
  "is_public path \<longleftrightarrow> path \<in> set public_paths \<or> has_prefix path ''/docs'' \<or> has_prefix path ''/redoc''
     \<or> path = py ''/openapi.json'' \<or> \<not> has_prefix path ''/api/''"

text \<open>The dictionary of headers the loop builds: the last one of a name wins.\<close>

definition header_dict :: "(pystr \<times> pystr) list \<Rightarrow> (pystr \<times> pystr) list" where
  "header_dict hs = fold (\<lambda>(k, v). AList.update (map latin1_lower k) v) hs []"

definition extract_token ::
  "(nat \<Rightarrow> nat list) \<Rightarrow> (pystr \<Rightarrow> (pystr \<times> pystr) list option) \<Rightarrow> http_scope \<Rightarrow> pystr \<Rightarrow> pystr option" where
  "extract_token cf cookies scope cookie_name =
     (let headers = header_dict (sc_headers scope);
          authorization = (case dict_get headers (py ''authorization'') of None \<Rightarrow> [] | Some v \<Rightarrow> v);
          token = strip (drop 7 authorization)
      in if has_prefix (casefold cf authorization) ''bearer '' \<and> token \<noteq> [] then Some token
         else case dict_get headers (py ''cookie'') of
           None \<Rightarrow> None
         | Some text \<Rightarrow>
             (if text = [] then None
              else case cookies text of
                None \<Rightarrow> None
              | Some jar \<Rightarrow> dict_get jar cookie_name))"

definition request_auth_of :: "auth_context \<Rightarrow> request_auth" where
  "request_auth_of ctx = \<lparr>rq_user = Some (ac_user_id ctx), rq_workspace = ac_workspace_id ctx,
     rq_session = Some (ac_session_id ctx), rq_username = Some (ac_username ctx),
     rq_display = Some (ac_display_name ctx), rq_authenticated = True\<rparr>"

definition anonymous_auth :: request_auth where
  "anonymous_auth = \<lparr>rq_user = None, rq_workspace = default_workspace_id, rq_session = None, rq_username = None,
     rq_display = None, rq_authenticated = False\<rparr>"

text \<open>The service is what the application's state holds: \<open>AuthService.authenticate\<close>, or nothing.\<close>

definition auth_middleware ::
  "auth_settings \<Rightarrow> (nat \<Rightarrow> nat list) \<Rightarrow> (pystr \<Rightarrow> (pystr \<times> pystr) list option) \<Rightarrow>
   (pystr \<Rightarrow> 'd \<Rightarrow> auth_context option pyres \<times> 'd) option \<Rightarrow> http_scope \<Rightarrow> 'd \<Rightarrow> gate \<times> 'd" where
  "auth_middleware S cf cookies service scope db =
     (if sc_type scope \<noteq> py ''http'' then (Forward scope, db)
      else if \<not> st_enabled S then (Forward (scope\<lparr>sc_auth := Some anonymous_auth\<rparr>), db)
      else if map ascii_upper (sc_method scope) = py ''OPTIONS'' \<or> is_public (sc_path scope) then (Forward scope, db)
      else
        (let denied = Answer (json_response 401 ''Authentication required.'')
         in case (extract_token cf cookies scope (st_cookie_name S), service) of
              (Some token, Some authenticate) \<Rightarrow>
                (if token = [] then (denied, db)
                 else case authenticate token db of
                   (Inl e, db') \<Rightarrow> (Raise e, db')
                 | (Inr None, db') \<Rightarrow> (denied, db')
                 | (Inr (Some ctx), db') \<Rightarrow> (Forward (scope\<lparr>sc_auth := Some (request_auth_of ctx)\<rparr>), db'))
            | _ \<Rightarrow> (denied, db)))"

section \<open>What a route requires of the request\<close>

definition require_workspace :: "http_scope \<Rightarrow> uuid + http_response" where
  "require_workspace scope =
     (case sc_auth scope of
        None \<Rightarrow> Inr (json_response 401 ''Authentication required.'')
      | Some auth \<Rightarrow> Inl (rq_workspace auth))"

definition require_user :: "http_scope \<Rightarrow> uuid + http_response" where
  "require_user scope =
     (case map_option rq_user (sc_auth scope) of
        Some (Some u) \<Rightarrow> Inl u
      | _ \<Rightarrow> Inr (json_response 401 ''Authentication required.''))"

section \<open>The routes\<close>

datatype route_result = Session http_response auth_session_view | Plain http_response | Failed py_exc

definition session_cookie :: "auth_settings \<Rightarrow> pystr \<Rightarrow> cookie" where
  "session_cookie S token = \<lparr>ck_key = st_cookie_name S, ck_value = token, ck_max_age = st_ttl S, ck_secure = st_cookie_secure S\<rparr>"

text \<open>Only an \<open>AuthError\<close> is answered; any other exception leaves the route.\<close>

definition auth_result_route ::
  "auth_settings \<Rightarrow> nat \<Rightarrow> nat \<Rightarrow> auth_result pyres \<Rightarrow> route_result" where
  "auth_result_route S ok failed r =
     (case r of
        Inl e \<Rightarrow> (if exc_type e = py ''AuthError''
                  then Plain \<lparr>hr_status = failed, hr_detail = exc_text e, hr_headers = [], hr_cookie = None\<rparr> else Failed e)
      | Inr result \<Rightarrow> Session \<lparr>hr_status = ok, hr_detail = [], hr_headers = [],
                                hr_cookie = Some (session_cookie S (ar_token result))\<rparr> (ar_session result))"

definition route_register ::
  "auth_settings \<Rightarrow> auth_env \<Rightarrow> (nat \<Rightarrow> bool) \<Rightarrow> auth_fresh \<Rightarrow> (pystr \<times> pyval) list \<Rightarrow> auth_db \<Rightarrow> route_result \<times> auth_db" where
  "route_register S env alnum fr body db =
     (case parse_register alnum body of
        None \<Rightarrow> (Plain (json_response 422 ''''), db)
      | Some q \<Rightarrow>
          (case auth_register env fr (rr_username q) (rr_password q) (rr_display_name q) db of
             (r, db') \<Rightarrow> (auth_result_route S 201 409 r, db')))"

definition route_login ::
  "auth_settings \<Rightarrow> auth_env \<Rightarrow> auth_fresh \<Rightarrow> (pystr \<times> pyval) list \<Rightarrow> auth_db \<Rightarrow> route_result \<times> auth_db" where
  "route_login S env fr body db =
     (case parse_login body of
        None \<Rightarrow> (Plain (json_response 422 ''''), db)
      | Some (username, password) \<Rightarrow>
          (case auth_login env fr username password db of
             (r, db') \<Rightarrow> (auth_result_route S 200 401 r, db')))"

text \<open>The cookie is deleted by one that has already expired.\<close>

definition route_logout :: "auth_settings \<Rightarrow> http_scope \<Rightarrow> auth_db \<Rightarrow> route_result \<times> auth_db" where
  "route_logout S scope db =
     (Plain \<lparr>hr_status = 204, hr_detail = [], hr_headers = [],
        hr_cookie = Some \<lparr>ck_key = st_cookie_name S, ck_value = [], ck_max_age = 0, ck_secure = st_cookie_secure S\<rparr>\<rparr>,
      case map_option rq_session (sc_auth scope) of
        Some (Some i) \<Rightarrow> auth_logout i db
      | _ \<Rightarrow> db)"

definition context_from_request :: "request_auth \<Rightarrow> uuid \<Rightarrow> uuid \<Rightarrow> auth_context" where
  "context_from_request auth user session = \<lparr>ac_user_id = user, ac_workspace_id = rq_workspace auth, ac_session_id = session,
     ac_username = (case rq_username auth of None \<Rightarrow> [] | Some s \<Rightarrow> s),
     ac_display_name = (case rq_display auth of None \<Rightarrow> [] | Some s \<Rightarrow> s)\<rparr>"

definition route_me :: "http_scope \<Rightarrow> auth_db \<Rightarrow> route_result" where
  "route_me scope db =
     (let denied = Plain (json_response 401 ''Authentication required.'')
      in case sc_auth scope of
           None \<Rightarrow> denied
         | Some auth \<Rightarrow>
             (if \<not> rq_authenticated auth then denied
              else case (rq_user auth, rq_session auth) of
                (Some user, Some session) \<Rightarrow>
                  (case current_session (context_from_request auth user session) db of
                     None \<Rightarrow> Plain (json_response 401 ''Session is no longer valid.'')
                   | Some view \<Rightarrow> Session \<lparr>hr_status = 200, hr_detail = [], hr_headers = [], hr_cookie = None\<rparr> view)
              | _ \<Rightarrow> denied))"

section \<open>Lemmas\<close>

lemma header_dict_single: "header_dict [(k, v)] = [(map latin1_lower k, v)]"
  by (simp add: header_dict_def)

text \<open>A request with the one header \<open>Authorization: Bearer token\<close> carries that token.\<close>

definition bearer_scope :: "string \<Rightarrow> string \<Rightarrow> pystr \<Rightarrow> http_scope" where
  "bearer_scope verb path token = \<lparr>sc_type = py ''http'', sc_path = py path, sc_method = py verb,
     sc_headers = [(py ''authorization'', py ''Bearer '' @ token)], sc_client = None, sc_auth = None\<rparr>"

lemma casefold_ascii:
  assumes "fold_table cf" and "ascii_only s"
  shows "casefold cf s = map ascii_lower s"
  using assms(2) by (induction s) (use assms(1) in \<open>auto simp: fold_table_def ascii_only_def casefold_def\<close>)

lemma extract_bearer:
  assumes "fold_table cf" and "token \<noteq> []" and "\<forall>c \<in> set token. \<not> py_space c"
  shows "extract_token cf cookies (bearer_scope verb path token) name = Some token"
proof -
  have h: "map latin1_lower (py ''authorization'') = py ''authorization''" by (simp add: py_def latin1_lower_def)
  have "ascii_only (py ''Bearer '')" by (simp add: ascii_only_def py_def)
  then have "casefold cf (py ''Bearer '') = map ascii_lower (py ''Bearer '')" by (rule casefold_ascii [OF assms(1)])
  also have "\<dots> = py ''bearer ''" by (simp add: py_def ascii_lower_def)
  finally have f: "casefold cf (py ''Bearer '' @ token) = py ''bearer '' @ casefold cf token" by simp
  have s: "strip token = token" using assms(3) by (rule strip_no_space)
  show ?thesis using assms(2) f s
    by (simp add: extract_token_def bearer_scope_def header_dict_single h)
qed

lemma forward_needs_session:
  assumes "auth_middleware S cf cookies service scope db = (Forward scope', db')"
    and "sc_type scope = py ''http''" and "st_enabled S" and "map ascii_upper (sc_method scope) \<noteq> py ''OPTIONS''"
    and "\<not> is_public (sc_path scope)"
  obtains token authenticate ctx where "extract_token cf cookies scope (st_cookie_name S) = Some token" "service = Some authenticate"
    "token \<noteq> []" "authenticate token db = (Inr (Some ctx), db')" "scope' = scope\<lparr>sc_auth := Some (request_auth_of ctx)\<rparr>"
  using assms by (auto simp: auth_middleware_def Let_def split: option.splits if_splits prod.splits sum.splits)

lemma is_publicD:
  assumes "has_prefix path ''/api/''" and "path \<notin> set public_paths"
  shows "\<not> is_public path"
proof -
  have "path = take 5 path @ drop 5 path" by simp
  also have "take 5 path = py ''/api/''" using assms(1) by (simp add: numeral_eq_Suc)
  finally have "path = py ''/api/'' @ drop 5 path" .
  then obtain rest where "path = 47 # 97 # 112 # 105 # 47 # rest" by (auto simp: py_def)
  then show ?thesis using assms(2) by (simp add: is_public_def py_def)
qed

end
