(* ===== verification/Rate_Limit.thy ===== *)
theory Rate_Limit
  imports Auth_Http
begin

text \<open>
  \<open>app/auth/rate_limit.py\<close>: a counter per identity and window in Redis, and the middleware that
  answers 429 once the counter is above the limit.  Redis is a parameter: the three commands, each
  of which may raise, and what is stored for a key.
\<close>

section \<open>The limiter\<close>

record rate_result =
  rl_allowed :: bool
  rl_limit :: nat
  rl_remaining :: nat
  rl_reset :: nat

record 's rate_store =
  rs_incr :: "nat \<Rightarrow> pystr \<Rightarrow> 's \<Rightarrow> nat pyres \<times> 's"
  rs_expire :: "nat \<Rightarrow> pystr \<Rightarrow> nat \<Rightarrow> 's \<Rightarrow> bool pyres \<times> 's"
  rs_ttl :: "nat \<Rightarrow> pystr \<Rightarrow> 's \<Rightarrow> int pyres \<times> 's"

definition rate_key :: "pystr \<Rightarrow> nat \<Rightarrow> pystr" where
  "rate_key key bucket = py ''datapilot:rate:'' @ key @ py '':'' @ str_nat bucket"

definition rate_result_of :: "nat \<Rightarrow> nat \<Rightarrow> nat \<Rightarrow> int \<Rightarrow> rate_result" where
  "rate_result_of limit window count ttl =
     \<lparr>rl_allowed = count \<le> limit, rl_limit = limit, rl_remaining = limit - count,
      rl_reset = max 1 (if 0 < ttl then nat ttl else window)\<rparr>"

definition rate_check :: "'s rate_store \<Rightarrow> nat \<Rightarrow> pystr \<Rightarrow> nat \<Rightarrow> nat \<Rightarrow> 's \<Rightarrow> rate_result pyres \<times> 's" where
  "rate_check R now key limit window s =
     (let k = rate_key key (now div window)
      in case rs_incr R now k s of
           (Inl e, s1) \<Rightarrow> (Inl e, s1)
         | (Inr count, s1) \<Rightarrow>
             (case (if count = 1 then rs_expire R now k window s1 else (Inr True, s1)) of
                (Inl e, s2) \<Rightarrow> (Inl e, s2)
              | (Inr b, s2) \<Rightarrow>
                  (case rs_ttl R now k s2 of
                     (Inl e, s3) \<Rightarrow> (Inl e, s3)
                   | (Inr ttl, s3) \<Rightarrow> (Inr (rate_result_of limit window count ttl), s3))))"

section \<open>The middleware\<close>

definition should_limit :: "http_scope \<Rightarrow> bool" where
  "should_limit scope \<longleftrightarrow> map ascii_upper (sc_method scope) \<noteq> py ''OPTIONS'' \<and> has_prefix (sc_path scope) ''/api/''
     \<and> \<not> (has_prefix (sc_path scope) ''/api/health/'' \<or> has_prefix (sc_path scope) ''/docs''
          \<or> has_prefix (sc_path scope) ''/redoc'' \<or> has_prefix (sc_path scope) ''/openapi.json'')"

definition identity :: "http_scope \<Rightarrow> pystr" where
  "identity scope =
     (case sc_auth scope of
        Some auth \<Rightarrow> py ''workspace:'' @ str_uuid (rq_workspace auth)
      | None \<Rightarrow> py ''ip:'' @ (case sc_client scope of Some host \<Rightarrow> host | None \<Rightarrow> py ''unknown''))"

definition limit_of :: "auth_settings \<Rightarrow> http_scope \<Rightarrow> nat" where
  "limit_of S scope =
     (if sc_path scope = py ''/api/auth/login'' \<or> sc_path scope = py ''/api/auth/register'' then st_login_limit S else st_limit S)"

definition too_many_requests :: "rate_result \<Rightarrow> http_response" where
  "too_many_requests r = \<lparr>hr_status = 429, hr_detail = py ''Rate limit exceeded.'',
     hr_headers = [(py ''Retry-After'', str_nat (rl_reset r)), (py ''X-RateLimit-Limit'', str_nat (rl_limit r)),
       (py ''X-RateLimit-Remaining'', py ''0''), (py ''X-RateLimit-Reset'', str_nat (rl_reset r))], hr_cookie = None\<rparr>"

definition limit_headers :: "rate_result \<Rightarrow> (pystr \<times> pystr) list" where
  "limit_headers r = [(py ''x-ratelimit-limit'', str_nat (rl_limit r)), (py ''x-ratelimit-remaining'', str_nat (rl_remaining r)),
     (py ''x-ratelimit-reset'', str_nat (rl_reset r))]"

text \<open>The result is the gate and the headers that will be added to the application's response.\<close>

definition rate_middleware ::
  "auth_settings \<Rightarrow> 's rate_store option \<Rightarrow> nat \<Rightarrow> http_scope \<Rightarrow> 's \<Rightarrow> (gate \<times> (pystr \<times> pystr) list) \<times> 's" where
  "rate_middleware S limiter now scope s =
     (if sc_type scope \<noteq> py ''http'' \<or> \<not> should_limit scope then ((Forward scope, []), s)
      else case limiter of
        None \<Rightarrow> ((Forward scope, []), s)
      | Some R \<Rightarrow>
          (case rate_check R now (identity scope) (limit_of S scope) (st_window S) s of
             (Inl e, s') \<Rightarrow> ((Forward scope, []), s')
           | (Inr r, s') \<Rightarrow>
               ((if rl_allowed r then (Forward scope, limit_headers r) else (Answer (too_many_requests r), [])), s')))"

text \<open>The middlewares in the order \<open>main.py\<close> installs them: authentication first.\<close>

definition admit ::
  "auth_settings \<Rightarrow> (nat \<Rightarrow> nat list) \<Rightarrow> (pystr \<Rightarrow> (pystr \<times> pystr) list option) \<Rightarrow>
   (pystr \<Rightarrow> 'd \<Rightarrow> auth_context option pyres \<times> 'd) option \<Rightarrow> 's rate_store option \<Rightarrow> nat \<Rightarrow> http_scope \<Rightarrow> 'd \<times> 's \<Rightarrow>
   (gate \<times> (pystr \<times> pystr) list) \<times> ('d \<times> 's)" where
  "admit S cf cookies service limiter now scope w =
     (case auth_middleware S cf cookies service scope (fst w) of
        (Forward scope', db) \<Rightarrow> (case rate_middleware S limiter now scope' (snd w) of (out, s) \<Rightarrow> (out, (db, s)))
      | (g, db) \<Rightarrow> ((g, []), (db, snd w)))"

section \<open>What Redis promises\<close>

text \<open>A key holds a count and, perhaps, the time at which it disappears.\<close>

type_synonym counter = "(nat \<times> nat option) option"

definition live :: "nat \<Rightarrow> counter \<Rightarrow> counter" where
  "live now c = (case c of Some (n, Some d) \<Rightarrow> (if d \<le> now then None else c) | _ \<Rightarrow> c)"

definition counted_up :: "nat \<Rightarrow> counter \<Rightarrow> nat \<times> nat option" where
  "counted_up now c = (case live now c of None \<Rightarrow> (1, None) | Some (n, d) \<Rightarrow> (Suc n, d))"

definition expiring :: "nat \<Rightarrow> nat \<Rightarrow> counter \<Rightarrow> counter" where
  "expiring now seconds c = (case live now c of None \<Rightarrow> c | Some (n, d) \<Rightarrow> Some (n, Some (now + seconds)))"

text \<open>
  The documented \<open>INCR\<close>, \<open>EXPIRE\<close> and \<open>TTL\<close>.  A command that raises may or may not have been
  carried out.
\<close>

locale rate_redis =
  fixes R :: "'s rate_store" and stored :: "'s \<Rightarrow> pystr \<Rightarrow> counter"
  assumes incr_other: "k' \<noteq> k \<Longrightarrow> stored (snd (rs_incr R now k s)) k' = stored s k'"
    and incr_ok: "rs_incr R now k s = (Inr n, s') \<Longrightarrow> stored s' k = Some (counted_up now (stored s k)) \<and> n = fst (counted_up now (stored s k))"
    and incr_raise: "rs_incr R now k s = (Inl e, s') \<Longrightarrow> stored s' k = stored s k \<or> stored s' k = Some (counted_up now (stored s k))"
    and expire_other: "k' \<noteq> k \<Longrightarrow> stored (snd (rs_expire R now k sec s)) k' = stored s k'"
    and expire_same: "stored (snd (rs_expire R now k sec s)) k = stored s k
      \<or> stored (snd (rs_expire R now k sec s)) k = expiring now sec (stored s k)"
    and ttl_same: "stored (snd (rs_ttl R now k s)) = stored s"
begin

text \<open>Until \<open>stop\<close> the counter of the key is at least \<open>c\<close>.\<close>

definition holds :: "nat \<Rightarrow> pystr \<Rightarrow> nat \<Rightarrow> 's \<Rightarrow> bool" where
  "holds stop k c s \<longleftrightarrow> (case stored s k of None \<Rightarrow> c = 0 | Some (n, d) \<Rightarrow> c \<le> n \<and> (case d of None \<Rightarrow> True | Some d \<Rightarrow> stop \<le> d))"

lemma holds_other: "k \<noteq> k' \<Longrightarrow> holds stop k c (snd (rs_incr R now k' s)) = holds stop k c s"
  "k \<noteq> k' \<Longrightarrow> holds stop k c (snd (rs_expire R now k' sec s)) = holds stop k c s"
  "holds stop k c (snd (rs_ttl R now k' s)) = holds stop k c s"
  by (simp_all add: holds_def incr_other expire_other ttl_same)

lemma holds_expire:
  assumes "holds stop k c s" and "now < stop" and "stop \<le> now + sec"
  shows "holds stop k c (snd (rs_expire R now k sec s))"
  using assms expire_same [of now k sec s]
  by (auto simp: holds_def expiring_def live_def split: option.splits if_splits)

lemma holds_incr:
  assumes "holds stop k c s" and "now < stop" and "rs_incr R now k s = (r, s')"
  shows "case r of Inl e \<Rightarrow> holds stop k c s' | Inr n \<Rightarrow> c < n \<and> holds stop k n s'"
proof (cases r)
  case (Inl e)
  with assms incr_raise [of now k s e s'] show ?thesis
    by (auto simp: holds_def counted_up_def live_def split: option.splits if_splits)
next
  case (Inr n)
  with assms incr_ok [of now k s n s'] show ?thesis
    by (auto simp: holds_def counted_up_def live_def split: option.splits if_splits)
qed

text \<open>A check of another key, or of another window, leaves the counter alone.\<close>

lemma holds_check_other:
  assumes "holds stop k c s" and "k \<noteq> rate_key key (now div window)"
  shows "holds stop k c (snd (rate_check R now key limit window s))"
proof -
  let ?k = "rate_key key (now div window)"
  obtain r1 s1 where i: "rs_incr R now ?k s = (r1, s1)" by fastforce
  have h1: "holds stop k c s1" using holds_other(1) [OF assms(2), of stop c now s] assms(1) i by simp
  obtain r2 s2 where e: "(if r1 = Inr 1 then rs_expire R now ?k window s1 else (Inr True, s1)) = (r2, s2)" by fastforce
  have h2: "holds stop k c s2" using holds_other(2) [OF assms(2), of stop c now window s1] h1 e by (auto split: if_splits)
  obtain r3 s3 where t: "rs_ttl R now ?k s2 = (r3, s3)" by fastforce
  have h3: "holds stop k c s3" using holds_other(3) [of stop k c now ?k s2] h2 t by simp
  show ?thesis using h1 h2 h3 i e t by (auto simp: rate_check_def Let_def split: sum.splits prod.splits)
qed

text \<open>A check of this key inside the window counts up; it allows the request only below the limit.\<close>

lemma holds_check_same:
  assumes "holds stop k c s" and k: "k = rate_key key (now div window)" and "now < stop" and "stop \<le> now + window"
    and run: "rate_check R now key limit window s = (r, s')"
  shows "case r of Inl e \<Rightarrow> holds stop k c s' | Inr q \<Rightarrow> \<exists>n. c < n \<and> holds stop k n s' \<and> (rl_allowed q \<longleftrightarrow> n \<le> limit)"
proof -
  obtain r1 s1 where i: "rs_incr R now k s = (r1, s1)" by fastforce
  from holds_incr [OF assms(1) assms(3) i]
  have step: "case r1 of Inl e \<Rightarrow> holds stop k c s1 | Inr n \<Rightarrow> c < n \<and> holds stop k n s1" .
  show ?thesis
  proof (cases r1)
    case (Inl e)
    with i run step k show ?thesis by (auto simp: rate_check_def)
  next
    case (Inr n)
    with step have n: "c < n" "holds stop k n s1" by simp_all
    obtain r2 s2 where e: "(if n = 1 then rs_expire R now k window s1 else (Inr True, s1)) = (r2, s2)" by fastforce
    have h2: "holds stop k n s2"
      using holds_expire [OF n(2) assms(3,4)] n(2) e by (auto split: if_splits)
    then have weaker: "holds stop k c s2" using n(1) by (auto simp: holds_def split: option.splits)
    obtain r3 s3 where t: "rs_ttl R now k s2 = (r3, s3)" by fastforce
    have h3: "holds stop k n s3" "holds stop k c s3" using holds_other(3) [of stop k _ now k s2] h2 weaker t by simp_all
    show ?thesis using run h2 h3 weaker n(1) i Inr e t
      by (auto simp: rate_check_def Let_def k [symmetric] rate_result_of_def split: sum.splits)
  qed
qed

end

section \<open>Redis as the hypothesis sees it, with commands that never fail\<close>

definition memory_redis :: "(pystr \<Rightarrow> counter) rate_store" where
  "memory_redis =
     \<lparr>rs_incr = (\<lambda>now k s. (Inr (fst (counted_up now (s k))), s(k := Some (counted_up now (s k))))),
      rs_expire = (\<lambda>now k sec s. (Inr (live now (s k) \<noteq> None), s(k := expiring now sec (s k)))),
      rs_ttl = (\<lambda>now k s. (Inr (case live now (s k) of None \<Rightarrow> - 2 | Some (n, None) \<Rightarrow> - 1 | Some (n, Some d) \<Rightarrow> int d - int now), s))\<rparr>"

interpretation memory: rate_redis memory_redis "\<lambda>s. s"
  by unfold_locales (auto simp: memory_redis_def)

section \<open>Keys\<close>

lemma rate_key_inject: "rate_key key m = rate_key key' n \<longleftrightarrow> key = key' \<and> m = n"
proof -
  have "key = key' \<and> m = n" if eq: "key @ 58 # str_nat m = key' @ 58 # str_nat n"
  proof -
    have no: "58 \<notin> set (str_nat k)" for k using str_nat_digits [of 58 k] by auto
    then have cut: "takeWhile (\<lambda>c. c \<noteq> 58) (rev (str_nat k) @ 58 # r) = rev (str_nat k)"
      "dropWhile (\<lambda>c. c \<noteq> 58) (rev (str_nat k) @ 58 # r) = 58 # r" for k r
      by (subst takeWhile_append2 dropWhile_append2, auto)+
    have e: "rev (str_nat m) @ 58 # rev key = rev (str_nat n) @ 58 # rev key'" using arg_cong [OF eq, of rev] by simp
    show ?thesis using arg_cong [OF e, of "takeWhile (\<lambda>c. c \<noteq> 58)"] arg_cong [OF e, of "dropWhile (\<lambda>c. c \<noteq> 58)"]
      by (simp add: cut)
  qed
  then show ?thesis by (auto simp: rate_key_def py_def)
qed

end
