(* ===== verification/Auth_Gate.thy ===== *)
theory Auth_Gate
  imports Rate_Limit
begin

text \<open>
  What the two middlewares and the account routes guarantee together: which requests reach the
  application, how many of them, and that a session works over HTTP from its registration to its
  logout.
\<close>

text \<open>The answers to a sequence of requests, each with its time of arrival.\<close>

fun admit_all ::
  "auth_settings \<Rightarrow> (nat \<Rightarrow> nat list) \<Rightarrow> (pystr \<Rightarrow> (pystr \<times> pystr) list option) \<Rightarrow>
   (nat \<Rightarrow> pystr \<Rightarrow> 'd \<Rightarrow> auth_context option pyres \<times> 'd) \<Rightarrow> 's rate_store \<Rightarrow> (nat \<times> http_scope) list \<Rightarrow> 'd \<times> 's \<Rightarrow>
   (gate \<times> (pystr \<times> pystr) list) list" where
  "admit_all S cf cookies service R [] w = []"
| "admit_all S cf cookies service R ((now, scope) # rest) w =
     (case admit S cf cookies (Some (service now)) (Some R) now scope w of
        (out, w') \<Rightarrow> out # admit_all S cf cookies service R rest w')"

text \<open>The request was counted for the identity in the window and passed on.\<close>

definition passed_for :: "auth_settings \<Rightarrow> pystr \<Rightarrow> nat \<Rightarrow> nat \<Rightarrow> nat \<times> http_scope \<Rightarrow> gate \<times> (pystr \<times> pystr) list \<Rightarrow> bool" where
  "passed_for S i bucket L q out \<longleftrightarrow> fst q div st_window S = bucket \<and> snd out \<noteq> []
     \<and> (case fst out of Forward scope \<Rightarrow> identity scope = i \<and> limit_of S scope \<le> L | _ \<Rightarrow> False)"

lemma passed_for_simps [simp]:
  "\<not> passed_for S i b L q (Answer a, hs)" "\<not> passed_for S i b L q (Raise e, hs)" "\<not> passed_for S i b L q (g, [])"
  by (simp_all add: passed_for_def)

context rate_redis
begin

lemma rate_middleware_step:
  assumes h: "holds ((b + 1) * st_window S) (rate_key i b) c s" and w: "0 < st_window S"
    and run: "rate_middleware S (Some R) now scope s = (out, s')"
  shows "if passed_for S i b L (now, scope0) out then \<exists>n. c < n \<and> n \<le> L \<and> holds ((b + 1) * st_window S) (rate_key i b) n s'
    else holds ((b + 1) * st_window S) (rate_key i b) c s'"
proof -
  let ?stop = "(b + 1) * st_window S" and ?k = "rate_key i b" and ?check = "rate_check R now (identity scope) (limit_of S scope) (st_window S) s"
  show ?thesis
  proof (cases "sc_type scope = py ''http'' \<and> should_limit scope")
    case False
    with run have "out = (Forward scope, [])" "s' = s" by (auto simp: rate_middleware_def)
    with h show ?thesis by simp
  next
    case True
    obtain r where r: "?check = (r, s')" using run True by (auto simp: rate_middleware_def split: prod.splits sum.splits if_splits)
    show ?thesis
    proof (cases "?k = rate_key (identity scope) (now div st_window S)")
      case False
      then have "holds ?stop ?k c s'" using holds_check_other [OF h, of "identity scope" now "st_window S" "limit_of S scope"] r by simp
      moreover have "\<not> passed_for S i b L (now, scope0) out"
        using False run True r by (auto simp: rate_middleware_def passed_for_def rate_key_inject split: sum.splits if_splits)
      ultimately show ?thesis by simp
    next
      case same: True
      then have b: "b = now div st_window S" "i = identity scope" by (simp_all add: rate_key_inject)
      have "now < ?stop" using w b(1) by (simp add: dividend_less_div_times [of "st_window S" now] add.commute)
      moreover have "?stop \<le> now + st_window S" using b(1) by simp
      ultimately have out: "case r of Inl e \<Rightarrow> holds ?stop ?k c s'
          | Inr q \<Rightarrow> \<exists>n. c < n \<and> holds ?stop ?k n s' \<and> (rl_allowed q \<longleftrightarrow> n \<le> limit_of S scope)"
        using holds_check_same [OF h same _ _ r] by blast
      have weaker: "holds ?stop ?k n s' \<Longrightarrow> c < n \<Longrightarrow> holds ?stop ?k c s'" for n
        by (auto simp: holds_def split: option.splits)
      show ?thesis
      proof (cases r)
        case (Inl e)
        with out run True r show ?thesis by (auto simp: rate_middleware_def)
      next
        case (Inr q)
        with out obtain n where n: "c < n" "holds ?stop ?k n s'" "rl_allowed q \<longleftrightarrow> n \<le> limit_of S scope" by auto
        have "out = (if rl_allowed q then (Forward scope, limit_headers q) else (Answer (too_many_requests q), []))"
          using run True r Inr by (simp add: rate_middleware_def)
        with n weaker [OF n(2,1)] show ?thesis by (auto simp: passed_for_def intro!: exI [of _ n])
      qed
    qed
  qed
qed

lemma admit_step:
  assumes "holds ((b + 1) * st_window S) (rate_key i b) c (snd w)" and "0 < st_window S"
    and "admit S cf cookies service (Some R) now scope w = (out, w')"
  shows "if passed_for S i b L (now, scope) out then \<exists>n. c < n \<and> n \<le> L \<and> holds ((b + 1) * st_window S) (rate_key i b) n (snd w')
    else holds ((b + 1) * st_window S) (rate_key i b) c (snd w')"
proof -
  obtain g db where a: "auth_middleware S cf cookies service scope (fst w) = (g, db)" by fastforce
  show ?thesis
  proof (cases g)
    case (Forward scope')
    obtain out' s where m: "rate_middleware S (Some R) now scope' (snd w) = (out', s)" by fastforce
    with a Forward assms(3) have "out = out'" "w' = (db, s)" by (auto simp: admit_def)
    then show ?thesis using rate_middleware_step [OF assms(1,2) m, of L scope] by (simp only: snd_conv)
  qed (use a assms in \<open>auto simp: admit_def\<close>)
qed

lemma admit_all_limited:
  assumes "0 < st_window S"
  shows "holds ((b + 1) * st_window S) (rate_key i b) c (snd w) \<Longrightarrow>
    length (filter (\<lambda>(q, out). passed_for S i b L q out) (zip reqs (admit_all S cf cookies service R reqs w))) \<le> L - c"
proof (induction reqs arbitrary: w c)
  case (Cons q reqs)
  obtain now scope where q: "q = (now, scope)" by fastforce
  obtain out w' where run: "admit S cf cookies (Some (service now)) (Some R) now scope w = (out, w')"
    by (meson surj_pair)
  note step = admit_step [OF Cons.prems assms run, of L]
  show ?case
  proof (cases "passed_for S i b L q out")
    case True
    with step q obtain n where n: "c < n" "n \<le> L" "holds ((b + 1) * st_window S) (rate_key i b) n (snd w')" by auto
    from Cons.IH [OF n(3)] True run q n(1,2) show ?thesis by simp
  next
    case False
    with step q have "holds ((b + 1) * st_window S) (rate_key i b) c (snd w')" by simp
    from Cons.IH [OF this] False run q show ?thesis by simp
  qed
qed simp

lemma holds_fresh: "stored s k = None \<Longrightarrow> holds stop k 0 s"
  by (simp add: holds_def)

end

section \<open>Limits\<close>

text \<open>
  C28.  The rate limit: of all requests of one window, in whatever order and with whatever other
  requests and failing Redis commands between them, at most the configured limit is counted for
  one identity and passed to the application.
\<close>

theorem requests_are_limited:
  assumes "rate_redis R stored" and "0 < st_window S" and "stored (snd w) (rate_key i b) = None"
  shows "length (filter (\<lambda>(q, out). passed_for S i b L q out) (zip reqs (admit_all S cf cookies service R reqs w))) \<le> L"
  using rate_redis.admit_all_limited [OF assms(1,2) rate_redis.holds_fresh [OF assms(1,3)], where reqs = reqs and L = L] by simp

section \<open>Who reaches the application\<close>

text \<open>
  C7.  No anonymous request: while authentication is on, a request under \<open>/api/\<close> whose path is not
  one of the four public ones reaches the application only with a token the account service
  accepts, and then as the user and in the workspace of that session, which its rate is also
  counted for.
\<close>

theorem protected_needs_session:
  assumes "admit S cf cookies (Some (auth_authenticate env t)) limiter now scope w = ((Forward scope', hs), w')"
    and "st_enabled S" and "sc_type scope = py ''http''" and "map ascii_upper (sc_method scope) \<noteq> py ''OPTIONS''"
    and "has_prefix (sc_path scope) ''/api/''" and "sc_path scope \<notin> set public_paths"
  shows "\<exists>token ctx. extract_token cf cookies scope (st_cookie_name S) = Some token
     \<and> fst (auth_authenticate env t token (fst w)) = Inr (Some ctx)
     \<and> scope' = scope\<lparr>sc_auth := Some (request_auth_of ctx)\<rparr>
     \<and> require_workspace scope' = Inl (ac_workspace_id ctx) \<and> require_user scope' = Inl (ac_user_id ctx)
     \<and> identity scope' = py ''workspace:'' @ str_uuid (ac_workspace_id ctx)"
proof -
  have closed: "\<not> is_public (sc_path scope)" by (rule is_publicD [OF assms(5,6)])
  obtain scope1 db where a: "auth_middleware S cf cookies (Some (auth_authenticate env t)) scope (fst w) = (Forward scope1, db)"
    and m: "scope' = scope1"
    using assms(1) by (auto simp: admit_def rate_middleware_def split: prod.splits gate.splits sum.splits option.splits if_splits)
  from forward_needs_session [OF a assms(3,2,4) closed] obtain token ctx where
    t: "extract_token cf cookies scope (st_cookie_name S) = Some token" "auth_authenticate env t token (fst w) = (Inr (Some ctx), db)"
      "scope1 = scope\<lparr>sc_auth := Some (request_auth_of ctx)\<rparr>" by (metis option.inject)
  then show ?thesis using m
    by (intro exI [of _ token] exI [of _ ctx]) (simp add: require_workspace_def require_user_def identity_def request_auth_of_def)
qed

section \<open>A session over HTTP\<close>

lemma context_round_trip: "context_from_request (request_auth_of ctx) (ac_user_id ctx) (ac_session_id ctx) = ctx"
  by (simp add: context_from_request_def request_auth_of_def)

lemma request_auth_of_sel: "rq_authenticated (request_auth_of ctx)" "rq_user (request_auth_of ctx) = Some (ac_user_id ctx)"
  "rq_session (request_auth_of ctx) = Some (ac_session_id ctx)" "rq_workspace (request_auth_of ctx) = ac_workspace_id ctx"
  by (simp_all add: request_auth_of_def)

lemma bearer_protected:
  assumes "take 5 path = ''/api/''" and "py path \<notin> set public_paths" and "verb \<noteq> ''OPTIONS''" and "map ascii_upper (py verb) = py verb"
    and "fold_table cf" and "token \<noteq> []" and "\<forall>c \<in> set token. \<not> py_space c" and "st_enabled S"
  shows "auth_middleware S cf cookies (Some authenticate) (bearer_scope verb path token) db
    = (case authenticate token db of
         (Inl e, db') \<Rightarrow> (Raise e, db')
       | (Inr None, db') \<Rightarrow> (Answer (json_response 401 ''Authentication required.''), db')
       | (Inr (Some ctx), db') \<Rightarrow> (Forward ((bearer_scope verb path token)\<lparr>sc_auth := Some (request_auth_of ctx)\<rparr>), db'))"
proof -
  have "has_prefix (py path) ''/api/''" using assms(1) by (simp add: py_def take_map numeral_eq_Suc)
  then have "\<not> is_public (py path)" using assms(2) by (rule is_publicD)
  moreover have "sc_path (bearer_scope verb path token) = py path" "sc_type (bearer_scope verb path token) = py ''http''"
    "sc_method (bearer_scope verb path token) = py verb" by (simp_all add: bearer_scope_def)
  ultimately show ?thesis using assms(3,4,6,8) extract_bearer [OF assms(5-7), of cookies verb path "st_cookie_name S"]
    by (simp add: auth_middleware_def Let_def)
qed

lemma authenticate_rows:
  assumes "auth_authenticate env t token db = (r, db')"
  shows "ad_users db' = ad_users db \<and> ad_workspaces db' = ad_workspaces db \<and> ad_members db' = ad_members db"
  using assms by (auto simp: auth_authenticate_def split: sum.splits option.splits)

lemma current_session_cong:
  "ad_users db' = ad_users db \<Longrightarrow> ad_workspaces db' = ad_workspaces db \<Longrightarrow> ad_members db' = ad_members db \<Longrightarrow>
   current_session ctx db' = current_session ctx db"
  by (simp add: current_session_def find_workspace_def find_member_def)

lemma logout_authenticate:
  assumes "fst (auth_authenticate env t token (auth_logout i db)) = Inr None" and "auth_authenticate env t' token' db = (r, db')"
  shows "fst (auth_authenticate env t token (auth_logout i db')) = Inr None"
proof -
  define g where "g = (\<lambda>j (x :: session_row). if se_id x = j then x\<lparr>se_last_seen := t'\<rparr> else x)"
  have rows: "ad_users db' = ad_users db" "ad_members db' = ad_members db" using authenticate_rows [OF assms(2)] by simp_all
  have "\<exists>j. ad_sessions db' = map (g j) (ad_sessions db) \<or> ad_sessions db' = ad_sessions db"
    using assms(2) unfolding g_def by (auto simp: auth_authenticate_def split: sum.splits option.splits)
  then obtain j where "ad_sessions db' = map (g j) (ad_sessions db) \<or> ad_sessions db' = ad_sessions db" by blast
  then show ?thesis
  proof
    assume s: "ad_sessions db' = map (g j) (ad_sessions db)"
    have keep: "se_id (g j x) = se_id x" "se_token_hash (g j x) = se_token_hash x" "se_expires (g j x) = se_expires x"
      "se_user (g j x) = se_user x" "se_workspace (g j x) = se_workspace x" for x by (simp_all add: g_def)
    have "find P (map (g j) (filter (\<lambda>x. se_id x \<noteq> i) xs)) = map_option (g j) (find P (filter (\<lambda>x. se_id x \<noteq> i) xs))"
      if "\<And>x. P (g j x) = P x" for P xs
      using that by (induction xs) auto
    moreover have "filter (\<lambda>x. se_id x \<noteq> i) (map (g j) xs) = map (g j) (filter (\<lambda>x. se_id x \<noteq> i) xs)" for xs
      by (induction xs) (simp_all add: keep)
    ultimately have "find (\<lambda>x. se_token_hash x = h \<and> se_expires x > t) (ad_sessions (auth_logout i db'))
      = map_option (g j) (find (\<lambda>x. se_token_hash x = h \<and> se_expires x > t) (ad_sessions (auth_logout i db)))" for h
      by (simp add: auth_logout_def s keep)
    then show ?thesis using assms(1) rows
      by (auto simp: auth_authenticate_def auth_logout_def find_member_def keep split: sum.splits option.splits)
  next
    assume "ad_sessions db' = ad_sessions db"
    then show ?thesis using assms(1) rows
      by (auto simp: auth_authenticate_def auth_logout_def find_member_def split: sum.splits option.splits)
  qed
qed


section \<open>Witnesses\<close>

definition demo_settings :: auth_settings where
  "demo_settings = \<lparr>st_enabled = True, st_cookie_name = py ''datapilot_session'', st_ttl = 60, st_cookie_secure = False,
     st_limit = 2, st_login_limit = 1, st_window = 60\<rparr>"

definition demo_login_request :: http_scope where
  "demo_login_request = \<lparr>sc_type = py ''http'', sc_path = py ''/api/auth/login'', sc_method = py ''POST'', sc_headers = [],
     sc_client = Some (py ''10.0.0.1''), sc_auth = None\<rparr>"

theorem requests_are_limited_witness:
  "length (filter (\<lambda>(q, out). passed_for demo_settings (py ''ip:10.0.0.1'') 0 1 q out)
     (zip [(3, demo_login_request), (7, demo_login_request)]
       (admit_all demo_settings ascii_fold (\<lambda>s. Some []) (\<lambda>t token db. (Inr None, db)) memory_redis
          [(3, demo_login_request), (7, demo_login_request)] ((), \<lambda>k. None)))) \<le> 1"
  by (rule requests_are_limited [where stored = "\<lambda>s. s", OF memory.rate_redis_axioms]) (simp_all add: demo_settings_def)

lemma demo_session:
  "fst (auth_authenticate demo_auth 1 [100] (demo_registered stored)) = Inr (Some
     \<lparr>ac_user_id = 10, ac_workspace_id = default_workspace_id, ac_session_id = 30, ac_username = [115, 223], ac_display_name = [68]\<rparr>)"
  by (simp add: demo_registered_def auth_authenticate_def hash_session_token_def utf8_char_def demo_auth_def find_member_def)

theorem protected_needs_session_witness:
  "\<exists>scope' hs w' token ctx. admit demo_settings ascii_fold (\<lambda>s. Some []) (Some (auth_authenticate demo_auth 1)) (None :: unit rate_store option) 1
       (bearer_scope ''GET'' ''/api/auth/me'' [100]) (demo_registered [], ()) = ((Forward scope', hs), w')
     \<and> extract_token ascii_fold (\<lambda>s. Some []) (bearer_scope ''GET'' ''/api/auth/me'' [100]) (st_cookie_name demo_settings) = Some token
     \<and> fst (auth_authenticate demo_auth 1 token (demo_registered [])) = Inr (Some ctx)"
proof -
  let ?q = "bearer_scope ''GET'' ''/api/auth/me'' [100]"
  obtain ctx db1 where a: "auth_authenticate demo_auth 1 [100] (demo_registered []) = (Inr (Some ctx), db1)"
    using demo_session [of "[]"] by (metis prod.collapse)
  have path: "take 5 ''/api/auth/me'' = ''/api/''" "py ''/api/auth/me'' \<notin> set public_paths" "map ascii_upper (py ''GET'') = py ''GET''"
    by (simp_all add: public_paths_def) (simp add: py_def ascii_upper_def)
  have m: "auth_middleware demo_settings ascii_fold (\<lambda>s. Some []) (Some (auth_authenticate demo_auth 1)) ?q (demo_registered [])
      = (Forward (?q\<lparr>sc_auth := Some (request_auth_of ctx)\<rparr>), db1)"
    by (subst bearer_protected [OF path(1,2) _ path(3)]) (simp_all add: a demo_settings_def py_space_def)
  then have run: "admit demo_settings ascii_fold (\<lambda>s. Some []) (Some (auth_authenticate demo_auth 1)) (None :: unit rate_store option) 1
      ?q (demo_registered [], ()) = ((Forward (?q\<lparr>sc_auth := Some (request_auth_of ctx)\<rparr>), []), (db1, ()))"
    by (simp add: admit_def rate_middleware_def)
  have "\<exists>token ctx'. extract_token ascii_fold (\<lambda>s. Some []) ?q (st_cookie_name demo_settings) = Some token
      \<and> fst (auth_authenticate demo_auth 1 token (fst (demo_registered [], ()))) = Inr (Some ctx')"
    using protected_needs_session [OF run] path by (auto simp: demo_settings_def bearer_scope_def take_map py_def)
  with run show ?thesis by auto
qed


end
