(* ===== verification/Mcp_Client.thy ===== *)
theory Mcp_Client
  imports Complex_Main Tool_Registry
begin

text \<open>
  \<open>app/mcp/client.py\<close>: one owner task holds the connection to the MCP server and serves a queue of
  requests; it reconnects, retries calls whose transport failed, and keeps the registry's
  \<open>mcp__\<close> tools those of the server.

  The server behind the \<open>mcp\<close> package is a parameter: a record of effects on a world, each of which
  may raise.  Entering the transport and the session, initialising it and listing its tools is one
  effect, as the code does them under one timeout.  The owner runs over a list of turns: what
  \<open>wait_for(queue.get())\<close> gave it each time.
\<close>

section \<open>Data\<close>

record mcp_tool =
  mt_name :: pystr
  mt_title :: "pystr option"
  mt_description :: "pystr option"
  mt_schema :: arguments

datatype mcp_content =
    TextContent pystr
  | ImageContent pystr pystr \<comment> \<open>MIME type, data\<close>
  | OtherContent pyval \<comment> \<open>its JSON dump\<close>

record mcp_result =
  mr_content :: "mcp_content list"
  mr_error :: bool
  mr_structured :: "pyval option"

record mcp_hello =
  mh_server :: pystr
  mh_protocol :: pystr
  mh_tools :: "mcp_tool list"

record 'w mcp_world =
  mw_open :: "'w \<Rightarrow> mcp_hello pyres \<times> 'w"
  mw_list :: "'w \<Rightarrow> mcp_tool list pyres \<times> 'w"
  mw_ping :: "'w \<Rightarrow> unit pyres \<times> 'w"
  mw_call :: "pystr \<Rightarrow> arguments \<Rightarrow> 'w \<Rightarrow> mcp_result pyres \<times> 'w"
  mw_close :: "'w \<Rightarrow> unit pyres \<times> 'w"
  mw_sleep :: "rat \<Rightarrow> 'w \<Rightarrow> 'w"
  mw_now :: "'w \<Rightarrow> rat"

record mcp_settings =
  ms_attempts :: int
  ms_base_delay :: rat
  ms_max_delay :: rat
  ms_refresh_interval :: rat
  ms_call_retries :: nat

text \<open>The client's fields; \<open>mc_session\<close> and \<open>mc_stack\<close> are whether they are set.\<close>

record 'r mcp_client =
  mc_stack :: bool
  mc_session :: bool
  mc_tools :: "mcp_tool list"
  mc_registry :: "'r registry option"
  mc_server :: "pystr option"
  mc_protocol :: "pystr option"
  mc_error :: "pystr option"
  mc_connected_at :: "rat option"
  mc_ping_at :: "rat option"
  mc_refreshed_at :: rat
  mc_reconnects :: nat
  mc_refreshes :: nat
  mc_ever :: bool

definition new_client :: "'r mcp_client" where
  "new_client = \<lparr>mc_stack = False, mc_session = False, mc_tools = [], mc_registry = None, mc_server = None, mc_protocol = None,
     mc_error = None, mc_connected_at = None, mc_ping_at = None, mc_refreshed_at = 0, mc_reconnects = 0, mc_refreshes = 0,
     mc_ever = False\<rparr>"

record mcp_status =
  mx_connected :: bool
  mx_server :: "pystr option"
  mx_protocol :: "pystr option"
  mx_tool_count :: nat
  mx_reconnects :: nat
  mx_refreshes :: nat
  mx_error :: "pystr option"
  mx_connected_at :: "rat option"
  mx_ping_at :: "rat option"

definition client_status :: "'r mcp_client \<Rightarrow> mcp_status" where
  "client_status c = \<lparr>mx_connected = mc_session c, mx_server = mc_server c, mx_protocol = mc_protocol c,
     mx_tool_count = length (mc_tools c), mx_reconnects = mc_reconnects c, mx_refreshes = mc_refreshes c,
     mx_error = mc_error c, mx_connected_at = mc_connected_at c, mx_ping_at = mc_ping_at c\<rparr>"

abbreviation mcp_connection_error :: "pystr \<Rightarrow> py_exc" where
  "mcp_connection_error text \<equiv> Exc (py ''MCPConnectionError'') text"

definition set_error :: "py_exc \<Rightarrow> 'r mcp_client \<Rightarrow> 'r mcp_client" where
  "set_error e c = c\<lparr>mc_error := Some (render_exc e)\<rparr>"

section \<open>What a call returned\<close>

definition parse_text :: "pystr \<Rightarrow> pyval" where
  "parse_text s = (case loads s of None \<Rightarrow> PStr s | Some v \<Rightarrow> v)"

fun content_value :: "mcp_content \<Rightarrow> pyval" where
  "content_value (TextContent s) = parse_text s"
| "content_value (ImageContent mime data) = pdict [(''type'', pstr ''image''), (''mime_type'', PStr mime), (''data'', PStr data)]"
| "content_value (OtherContent v) = v"

definition parse_content :: "mcp_result \<Rightarrow> pyval" where
  "parse_content r = (case map content_value (mr_content r) of [v] \<Rightarrow> v | vs \<Rightarrow> PList vs)"

definition result_text :: "mcp_result \<Rightarrow> pystr" where
  "result_text r = join [10] (concat (map (\<lambda>c. case c of TextContent s \<Rightarrow> [s] | _ \<Rightarrow> []) (mr_content r)))"

section \<open>The registry\<close>

definition mcp_prefix :: pystr where
  "mcp_prefix = py ''mcp__''"

abbreviation or_empty :: "pystr option \<Rightarrow> pystr" where
  "or_empty s \<equiv> (case s of None \<Rightarrow> [] | Some s \<Rightarrow> s)"

text \<open>The handler of a tool is \<open>call_tool\<close>, which puts the call on the queue and waits.\<close>

definition to_registered_tool :: "(pystr \<Rightarrow> arguments \<Rightarrow> 'r \<Rightarrow> pyval pyres \<times> 'r) \<Rightarrow> mcp_tool \<Rightarrow> 'r registered_tool" where
  "to_registered_tool call_tool t =
     \<lparr>rt_name = mcp_prefix @ mt_name t,
      rt_description = py ''[MCP] '' @ (if or_empty (mt_description t) \<noteq> [] then or_empty (mt_description t)
                                        else if or_empty (mt_title t) \<noteq> [] then or_empty (mt_title t) else mt_name t),
      rt_input_model = None,
      rt_handler = (\<lambda>args w. call_tool (mt_name t) args w),
      rt_parallel_safe = False,
      rt_input_schema = Some (if mt_schema t = [] then [(py ''type'', pstr ''object''), (py ''properties'', PDict [])]
                              else mt_schema t)\<rparr>"

definition no_diff :: registration_diff where
  "no_diff = \<lparr>rd_added = [], rd_removed = [], rd_updated = [], rd_unchanged = []\<rparr>"

definition sync_registry ::
  "(pystr \<Rightarrow> arguments \<Rightarrow> 'r \<Rightarrow> pyval pyres \<times> 'r) \<Rightarrow> 'r mcp_client \<Rightarrow> registration_diff \<times> 'r mcp_client" where
  "sync_registry call_tool c =
     (case mc_registry c of
        None \<Rightarrow> (no_diff, c)
      | Some reg \<Rightarrow>
          (case replace_prefix mcp_prefix (map (to_registered_tool call_tool) (mc_tools c)) reg of
             (Inl e, reg') \<Rightarrow> (no_diff, set_error e (c\<lparr>mc_registry := Some reg'\<rparr>))
           | (Inr d, reg') \<Rightarrow> (d, c\<lparr>mc_registry := Some reg'\<rparr>)))"

definition register_tools ::
  "(pystr \<Rightarrow> arguments \<Rightarrow> 'r \<Rightarrow> pyval pyres \<times> 'r) \<Rightarrow> 'r registry \<Rightarrow> 'r mcp_client \<Rightarrow> registration_diff \<times> 'r mcp_client" where
  "register_tools call_tool reg c = sync_registry call_tool (c\<lparr>mc_registry := Some reg\<rparr>)"

section \<open>Connecting\<close>

type_synonym ('w, 'r) mcp_state = "'r mcp_client \<times> 'w"

definition disconnect :: "'w mcp_world \<Rightarrow> ('w, 'r) mcp_state \<Rightarrow> ('w, 'r) mcp_state" where
  "disconnect W s =
     (let (c, w) = s; c1 = c\<lparr>mc_stack := False, mc_session := False\<rparr>
      in if mc_stack c then (case mw_close W w of (Inl e, w') \<Rightarrow> (set_error e c1, w') | (Inr u, w') \<Rightarrow> (c1, w'))
         else (c1, w))"

definition connected :: "mcp_hello \<Rightarrow> rat \<Rightarrow> 'r mcp_client \<Rightarrow> 'r mcp_client" where
  "connected h now c = c\<lparr>mc_stack := True, mc_session := True, mc_tools := mh_tools h, mc_server := Some (mh_server h),
     mc_protocol := Some (mh_protocol h), mc_connected_at := Some now, mc_ping_at := Some now, mc_refreshed_at := now,
     mc_error := None, mc_reconnects := (if mc_ever c then Suc (mc_reconnects c) else mc_reconnects c), mc_ever := True\<rparr>"

text \<open>A connection that fails half-way is closed again; only the log hears when that fails too.\<close>

definition connect_once ::
  "'w mcp_world \<Rightarrow> (pystr \<Rightarrow> arguments \<Rightarrow> 'r \<Rightarrow> pyval pyres \<times> 'r) \<Rightarrow> ('w, 'r) mcp_state \<Rightarrow> unit pyres \<times> ('w, 'r) mcp_state" where
  "connect_once W call_tool s =
     (let (c, w) = disconnect W s
      in case mw_open W w of
           (Inl e, w1) \<Rightarrow> (Inl e, (c\<lparr>mc_stack := False, mc_session := False\<rparr>, snd (mw_close W w1)))
         | (Inr h, w1) \<Rightarrow> (Inr (), (snd (sync_registry call_tool (connected h (mw_now W w1) c)), w1)))"

fun connect_attempts ::
  "'w mcp_world \<Rightarrow> mcp_settings \<Rightarrow> (pystr \<Rightarrow> arguments \<Rightarrow> 'r \<Rightarrow> pyval pyres \<times> 'r) \<Rightarrow> int \<Rightarrow> nat \<Rightarrow> nat \<Rightarrow> ('w, 'r) mcp_state \<Rightarrow>
   unit pyres \<times> ('w, 'r) mcp_state" where
  "connect_attempts W S call_tool attempts k 0 s =
     (Inl (mcp_connection_error (py ''Unable to connect to MCP server after '' @ str_int (max 1 attempts) @ py '' attempts.'')), s)"
| "connect_attempts W S call_tool attempts k (Suc rest) s =
     (case connect_once W call_tool s of
        (Inr u, s1) \<Rightarrow> (Inr (), s1)
      | (Inl e, (c, w)) \<Rightarrow>
          (let w' = (if int k + 1 < attempts then mw_sleep W (min (ms_base_delay S * 2 ^ k) (ms_max_delay S)) w else w)
           in connect_attempts W S call_tool attempts (Suc k) rest (set_error e c, w')))"

definition connect_with_retries ::
  "'w mcp_world \<Rightarrow> mcp_settings \<Rightarrow> (pystr \<Rightarrow> arguments \<Rightarrow> 'r \<Rightarrow> pyval pyres \<times> 'r) \<Rightarrow> int \<Rightarrow> ('w, 'r) mcp_state \<Rightarrow>
   unit pyres \<times> ('w, 'r) mcp_state" where
  "connect_with_retries W S call_tool attempts s = connect_attempts W S call_tool attempts 0 (nat (max 1 attempts)) s"

section \<open>Requests\<close>

text \<open>\<open>CallFault True\<close> is an \<open>MCPConnectionError\<close>, \<open>CallFault False\<close> an error of the tool.\<close>

definition call_once :: "'w mcp_world \<Rightarrow> pystr \<Rightarrow> arguments \<Rightarrow> ('w, 'r) mcp_state \<Rightarrow> pyval pyres \<times> ('w, 'r) mcp_state" where
  "call_once W name args s =
     (let (c, w) = s
      in if \<not> mc_session c then (Inl (mcp_connection_error (py ''MCP client is not connected.'')), s)
         else case mw_call W name args w of
           (Inl e, w') \<Rightarrow> (Inl (mcp_connection_error (py ''MCP transport failed while calling '' @ [39] @ name @ [39] @ py '': '' @ exc_text e)), (c, w'))
         | (Inr r, w') \<Rightarrow>
             ((if mr_error r then raise_exc ''MCPToolCallError'' (if result_text r \<noteq> [] then result_text r else py ''MCP tool failed: '' @ name)
               else case mr_structured r of Some v \<Rightarrow> Inr v | None \<Rightarrow> Inr (parse_content r)), (c, w')))"

definition is_tool_error :: "py_exc \<Rightarrow> bool" where
  "is_tool_error e \<longleftrightarrow> exc_type e = py ''MCPToolCallError''"

fun call_retries ::
  "'w mcp_world \<Rightarrow> mcp_settings \<Rightarrow> (pystr \<Rightarrow> arguments \<Rightarrow> 'r \<Rightarrow> pyval pyres \<times> 'r) \<Rightarrow> pystr \<Rightarrow> arguments \<Rightarrow> nat \<Rightarrow> ('w, 'r) mcp_state \<Rightarrow>
   pyval pyres \<times> ('w, 'r) mcp_state" where
  "call_retries W S call_tool name args 0 s =
     (Inl (mcp_connection_error (py ''MCP tool '' @ [39] @ name @ [39] @ py '' failed after reconnect.'')), s)"
| "call_retries W S call_tool name args (Suc rest) s =
     (case (case connect_with_retries W S call_tool 1 s of
              (Inl e, s1) \<Rightarrow> (Inl e, s1)
            | (Inr u, s1) \<Rightarrow> call_once W name args s1) of
        (Inr v, s2) \<Rightarrow> (Inr v, s2)
      | (Inl e, (c, w)) \<Rightarrow>
          (if is_tool_error e then (Inl e, (c, w))
           else call_retries W S call_tool name args rest (disconnect W (set_error e c, w))))"

definition handle_call ::
  "'w mcp_world \<Rightarrow> mcp_settings \<Rightarrow> (pystr \<Rightarrow> arguments \<Rightarrow> 'r \<Rightarrow> pyval pyres \<times> 'r) \<Rightarrow> pystr option \<Rightarrow> arguments option \<Rightarrow>
   ('w, 'r) mcp_state \<Rightarrow> pyval pyres \<times> ('w, 'r) mcp_state" where
  "handle_call W S call_tool name arguments s =
     (case name of
        None \<Rightarrow> (Inl (mcp_connection_error (py ''MCP tool name is missing.'')), s)
      | Some name \<Rightarrow>
          (let args = (case arguments of None \<Rightarrow> [] | Some a \<Rightarrow> a)
           in case (if mc_session (fst s) then (Inr (), s) else connect_with_retries W S call_tool (ms_attempts S) s) of
                (Inl e, s1) \<Rightarrow> (Inl e, s1)
              | (Inr u, s1) \<Rightarrow>
                  (case call_once W name args s1 of
                     (Inr v, s2) \<Rightarrow> (Inr v, s2)
                   | (Inl e, (c, w)) \<Rightarrow>
                       (if is_tool_error e then (Inl e, (c, w))
                        else call_retries W S call_tool name args (ms_call_retries S) (disconnect W (set_error e c, w))))))"

definition refresh_tools ::
  "'w mcp_world \<Rightarrow> (pystr \<Rightarrow> arguments \<Rightarrow> 'r \<Rightarrow> pyval pyres \<times> 'r) \<Rightarrow> ('w, 'r) mcp_state \<Rightarrow> registration_diff pyres \<times> ('w, 'r) mcp_state" where
  "refresh_tools W call_tool s =
     (let (c, w) = s
      in if \<not> mc_session c then (Inl (mcp_connection_error (py ''MCP client is not connected.'')), s)
         else case mw_list W w of
           (Inl e, w') \<Rightarrow> (Inl e, (c, w'))
         | (Inr ts, w') \<Rightarrow>
             (case sync_registry call_tool (c\<lparr>mc_tools := ts, mc_refreshed_at := mw_now W w', mc_refreshes := Suc (mc_refreshes c)\<rparr>) of
                (d, c') \<Rightarrow> (Inr d, (c', w'))))"

definition handle_refresh ::
  "'w mcp_world \<Rightarrow> mcp_settings \<Rightarrow> (pystr \<Rightarrow> arguments \<Rightarrow> 'r \<Rightarrow> pyval pyres \<times> 'r) \<Rightarrow> ('w, 'r) mcp_state \<Rightarrow>
   registration_diff pyres \<times> ('w, 'r) mcp_state" where
  "handle_refresh W S call_tool s =
     (case (if mc_session (fst s) then (Inr (), s) else connect_with_retries W S call_tool (ms_attempts S) s) of
        (Inl e, s1) \<Rightarrow> (Inl e, s1)
      | (Inr u, s1) \<Rightarrow> refresh_tools W call_tool s1)"

definition handle_ping :: "'w mcp_world \<Rightarrow> ('w, 'r) mcp_state \<Rightarrow> bool \<times> ('w, 'r) mcp_state" where
  "handle_ping W s =
     (let (c, w) = s
      in if \<not> mc_session c then (False, s)
         else case mw_ping W w of
           (Inl e, w') \<Rightarrow> (False, disconnect W (set_error e c, w'))
         | (Inr u, w') \<Rightarrow> (True, (c\<lparr>mc_ping_at := Some (mw_now W w')\<rparr>, w')))"

text \<open>The refresh that maintenance ends with, when it is due.\<close>

definition refresh_when_due ::
  "'w mcp_world \<Rightarrow> mcp_settings \<Rightarrow> (pystr \<Rightarrow> arguments \<Rightarrow> 'r \<Rightarrow> pyval pyres \<times> 'r) \<Rightarrow> ('w, 'r) mcp_state \<Rightarrow> ('w, 'r) mcp_state" where
  "refresh_when_due W S call_tool s =
     (let (c, w) = s
      in if mc_session c \<and> 0 < ms_refresh_interval S \<and> ms_refresh_interval S \<le> mw_now W w - mc_refreshed_at c
         then (case refresh_tools W call_tool s of
                 (Inr d, s') \<Rightarrow> s'
               | (Inl e, (c', w')) \<Rightarrow> disconnect W (set_error e c', w'))
         else s)"

definition maintenance ::
  "'w mcp_world \<Rightarrow> mcp_settings \<Rightarrow> (pystr \<Rightarrow> arguments \<Rightarrow> 'r \<Rightarrow> pyval pyres \<times> 'r) \<Rightarrow> ('w, 'r) mcp_state \<Rightarrow> ('w, 'r) mcp_state" where
  "maintenance W S call_tool s =
     (if \<not> mc_session (fst s) then
        (case connect_with_retries W S call_tool 1 s of
           (Inl e, (c, w)) \<Rightarrow> disconnect W (set_error e c, w)
         | (Inr u, s1) \<Rightarrow> refresh_when_due W S call_tool s1)
      else case handle_ping W s of
        (False, s1) \<Rightarrow> s1
      | (True, s1) \<Rightarrow> refresh_when_due W S call_tool s1)"

section \<open>The owner task\<close>

datatype mcp_request =
    CallRequest "pystr option" "arguments option"
  | RefreshRequest
  | PingRequest
  | ShutdownRequest

datatype mcp_reply =
    CallReply "pyval pyres"
  | RefreshReply "registration_diff pyres"
  | PingReply bool
  | ShutdownReply

datatype mcp_turn = Arrived nat mcp_request | Quiet | Cancelled

fun serve_request ::
  "'w mcp_world \<Rightarrow> mcp_settings \<Rightarrow> (pystr \<Rightarrow> arguments \<Rightarrow> 'r \<Rightarrow> pyval pyres \<times> 'r) \<Rightarrow> mcp_request \<Rightarrow> ('w, 'r) mcp_state \<Rightarrow>
   mcp_reply \<times> ('w, 'r) mcp_state" where
  "serve_request W S call_tool (CallRequest name args) s = (case handle_call W S call_tool name args s of (r, s') \<Rightarrow> (CallReply r, s'))"
| "serve_request W S call_tool RefreshRequest s = (case handle_refresh W S call_tool s of (r, s') \<Rightarrow> (RefreshReply r, s'))"
| "serve_request W S call_tool PingRequest s = (case handle_ping W s of (b, s') \<Rightarrow> (PingReply b, s'))"
| "serve_request W S call_tool ShutdownRequest s = (ShutdownReply, disconnect W s)"

text \<open>
  The loop over the turns: the futures it resolved, by the number of the request, and the state;
  \<open>True\<close> when the task has ended.
\<close>

fun owner_loop ::
  "'w mcp_world \<Rightarrow> mcp_settings \<Rightarrow> (pystr \<Rightarrow> arguments \<Rightarrow> 'r \<Rightarrow> pyval pyres \<times> 'r) \<Rightarrow> mcp_turn list \<Rightarrow> ('w, 'r) mcp_state \<Rightarrow>
   (nat \<times> mcp_reply) list \<times> bool \<times> ('w, 'r) mcp_state" where
  "owner_loop W S call_tool [] s = ([], False, s)"
| "owner_loop W S call_tool (Quiet # turns) s = owner_loop W S call_tool turns (maintenance W S call_tool s)"
| "owner_loop W S call_tool (Cancelled # turns) s = ([], True, disconnect W s)"
| "owner_loop W S call_tool (Arrived i q # turns) s =
     (case serve_request W S call_tool q s of
        (r, s1) \<Rightarrow>
          (if q = ShutdownRequest then ([(i, r)], True, disconnect W s1)
           else case owner_loop W S call_tool turns s1 of (rs, ended, s2) \<Rightarrow> ((i, r) # rs, ended, s2)))"

text \<open>The whole task: the first connection, whose failure \<open>start\<close> reports, then the loop.\<close>

definition owner_task ::
  "'w mcp_world \<Rightarrow> mcp_settings \<Rightarrow> (pystr \<Rightarrow> arguments \<Rightarrow> 'r \<Rightarrow> pyval pyres \<times> 'r) \<Rightarrow> mcp_turn list \<Rightarrow> ('w, 'r) mcp_state \<Rightarrow>
   py_exc option \<times> (nat \<times> mcp_reply) list \<times> bool \<times> ('w, 'r) mcp_state" where
  "owner_task W S call_tool turns s =
     (case connect_with_retries W S call_tool (ms_attempts S) s of
        (Inl e, (c, w)) \<Rightarrow> (Some e, owner_loop W S call_tool turns (set_error e c, w))
      | (Inr u, s1) \<Rightarrow> (None, owner_loop W S call_tool turns s1))"

section \<open>The callers' side\<close>

datatype owner_phase = NotStarted | Running | Ended

record mcp_handle =
  mp_closed :: bool
  mp_owner :: owner_phase
  mp_startup_error :: "py_exc option"
  mp_queue :: "(nat \<times> mcp_request) list"

text \<open>What \<open>start\<close> does before and after it waits for the owner's first connection.\<close>

definition start_client :: "py_exc option \<Rightarrow> mcp_handle \<Rightarrow> unit pyres \<times> mcp_handle" where
  "start_client first h =
     (if mp_closed h then (Inl (mcp_connection_error (py ''MCP client is closed.'')), h)
      else if mp_owner h = Running then (Inr (), h)
      else (let err = (case first of None \<Rightarrow> mp_startup_error h | Some e \<Rightarrow> Some e);
                h' = h\<lparr>mp_owner := Running, mp_startup_error := err, mp_queue := []\<rparr>
            in (case err of None \<Rightarrow> Inr () | Some e \<Rightarrow> Inl (mcp_connection_error (exc_text e)), h')))"

text \<open>\<open>submit\<close> raises, or leaves a request on the queue that the caller then waits for.\<close>

definition submit :: "nat \<Rightarrow> mcp_request \<Rightarrow> mcp_handle \<Rightarrow> unit pyres \<times> mcp_handle" where
  "submit i q h =
     (if mp_closed h \<or> mp_owner h = NotStarted then (Inl (mcp_connection_error (py ''MCP client is not started.'')), h)
      else (Inr (), h\<lparr>mp_queue := mp_queue h @ [(i, q)]\<rparr>))"

text \<open>\<open>close\<close> puts the last request on the queue of a running owner and waits for its end.\<close>

definition close_begin :: "nat \<Rightarrow> mcp_handle \<Rightarrow> mcp_handle" where
  "close_begin i h = (if \<not> mp_closed h \<and> mp_owner h = Running then h\<lparr>mp_queue := mp_queue h @ [(i, ShutdownRequest)]\<rparr> else h)"

definition close_end :: "mcp_handle \<Rightarrow> mcp_handle" where
  "close_end h = h\<lparr>mp_closed := True\<rparr>"

end
