(* ===== verification/Mcp_Properties.thy ===== *)
theory Mcp_Properties
  imports Mcp_Client
begin

text \<open>
  What the MCP client guarantees over any behaviour of the server: one connection at a time, a
  bounded number of attempts per call, a registry that mirrors the server, and the one thing it
  does not guarantee, an answer to a request that arrives while it shuts down.
\<close>

section \<open>What the server sees\<close>

datatype mcp_event = OpenEvent bool | CloseEvent | UseEvent | CallEvent pystr arguments bool

text \<open>The same world, writing down what is asked of it and whether it answered.\<close>

definition logged :: "'w mcp_world \<Rightarrow> ('w \<times> mcp_event list) mcp_world" where
  "logged W =
     \<lparr>mw_open = (\<lambda>(w, t). case mw_open W w of (r, w') \<Rightarrow> (r, (w', t @ [OpenEvent (is_ok r)]))),
      mw_list = (\<lambda>(w, t). case mw_list W w of (r, w') \<Rightarrow> (r, (w', t @ [UseEvent]))),
      mw_ping = (\<lambda>(w, t). case mw_ping W w of (r, w') \<Rightarrow> (r, (w', t @ [UseEvent]))),
      mw_call = (\<lambda>name args (w, t). case mw_call W name args w of (r, w') \<Rightarrow> (r, (w', t @ [CallEvent name args (is_ok r)]))),
      mw_close = (\<lambda>(w, t). case mw_close W w of (r, w') \<Rightarrow> (r, (w', t @ [CloseEvent]))),
      mw_sleep = (\<lambda>d (w, t). (mw_sleep W d w, t)),
      mw_now = (\<lambda>(w, t). mw_now W w)\<rparr>"

text \<open>Whether a connection is open after the events; \<open>None\<close> when a rule was broken on the way.\<close>

fun open_step :: "mcp_event \<Rightarrow> bool option \<Rightarrow> bool option" where
  "open_step (OpenEvent ok) (Some False) = Some True"
| "open_step CloseEvent (Some True) = Some False"
| "open_step UseEvent (Some True) = Some True"
| "open_step (CallEvent name args ok) (Some True) = Some True"
| "open_step e s = None"

definition open_after :: "mcp_event list \<Rightarrow> bool option" where
  "open_after t = fold open_step t (Some False)"

lemma open_after_Nil [simp]: "open_after [] = Some False"
  by (simp add: open_after_def)

lemma open_after_append [simp]: "open_after (t @ u) = fold open_step u (open_after t)"
  by (simp add: open_after_def)

section \<open>One connection at a time\<close>

definition one_connection :: "('w \<times> mcp_event list, 'r) mcp_state \<Rightarrow> bool" where
  "one_connection s \<longleftrightarrow> mc_session (fst s) = mc_stack (fst s) \<and> open_after (snd (snd s)) = Some (mc_stack (fst s))"

lemma one_connectionI: "mc_session c = mc_stack c \<Longrightarrow> open_after t = Some (mc_stack c) \<Longrightarrow> one_connection (c, (w, t))"
  by (simp add: one_connection_def)

lemma set_error_sel [simp]: "mc_session (set_error e c) = mc_session c" "mc_stack (set_error e c) = mc_stack c"
  "mc_registry (set_error e c) = mc_registry c" "mc_tools (set_error e c) = mc_tools c"
  by (simp_all add: set_error_def)

lemma one_connection_set_error [simp]: "one_connection (set_error e c, w) = one_connection (c, w)"
  by (simp add: one_connection_def)

lemma sync_registry_sel [simp]:
  "mc_session (snd (sync_registry f c)) = mc_session c" "mc_stack (snd (sync_registry f c)) = mc_stack c"
  by (auto simp: sync_registry_def split: option.split prod.split sum.split)

lemma disconnect_closed:
  assumes "one_connection s"
  shows "one_connection (disconnect (logged W) s)" and "\<not> mc_stack (fst (disconnect (logged W) s))"
  using assms by (auto simp: disconnect_def one_connection_def logged_def Let_def split: prod.splits sum.splits)

lemma one_connection_connect_once:
  assumes "one_connection s" and "connect_once (logged W) f s = (r, s')"
  shows "one_connection s' \<and> (is_ok r \<longleftrightarrow> mc_stack (fst s'))"
proof -
  obtain c w t where d: "disconnect (logged W) s = (c, (w, t))" by (metis prod_cases3)
  with disconnect_closed [OF assms(1), of W] have "\<not> mc_stack c" "open_after t = Some False"
    by (auto simp: one_connection_def)
  with assms(2) d show ?thesis
    by (auto simp: connect_once_def logged_def connected_def one_connection_def split: prod.splits sum.splits)
qed

lemma logged_sleep [simp]: "mw_sleep (logged W) d (w, t) = (mw_sleep W d w, t)"
  by (simp add: logged_def)

lemma one_connection_connect_attempts:
  "one_connection s \<Longrightarrow> connect_attempts (logged W) S f n k m s = (r, s') \<Longrightarrow> one_connection s' \<and> (is_ok r \<longrightarrow> mc_stack (fst s'))"
proof (induction m arbitrary: k s)
  case (Suc m)
  obtain r1 c w t where c: "connect_once (logged W) f s = (r1, (c, (w, t)))" by (metis prod_cases4)
  note one = one_connection_connect_once [OF Suc.prems(1) c]
  show ?case
  proof (cases r1)
    case (Inr u)
    with Suc.prems(2) c one show ?thesis by auto
  next
    case (Inl e)
    let ?w = "if int k + 1 < n then mw_sleep (logged W) (min (ms_base_delay S * 2 ^ k) (ms_max_delay S)) (w, t) else (w, t)"
    have "one_connection (set_error e c, ?w)" using one by (simp add: one_connection_def)
    from Suc.IH [OF this] Suc.prems(2) c Inl show ?thesis by (simp add: Let_def)
  qed
qed auto

lemma one_connection_connect:
  "one_connection s \<Longrightarrow> connect_with_retries (logged W) S f n s = (r, s') \<Longrightarrow> one_connection s' \<and> (is_ok r \<longrightarrow> mc_stack (fst s'))"
  unfolding connect_with_retries_def by (rule one_connection_connect_attempts)

lemma one_connection_call_once:
  "one_connection s \<Longrightarrow> call_once (logged W) name args s = (r, s') \<Longrightarrow> one_connection s'"
  by (auto simp: call_once_def logged_def one_connection_def Let_def split: prod.splits sum.splits if_splits)

lemma one_connection_call_retries:
  "one_connection s \<Longrightarrow> call_retries (logged W) S f name args m s = (r, s') \<Longrightarrow> one_connection s'"
proof (induction m arbitrary: s)
  case (Suc m)
  obtain r1 s1 where c: "connect_with_retries (logged W) S f 1 s = (r1, s1)"
    by (meson surj_pair)
  obtain r2 c2 w2 where o: "(case r1 of Inl e \<Rightarrow> (Inl e, s1) | Inr u \<Rightarrow> call_once (logged W) name args s1) = (r2, (c2, w2))"
    by (metis surj_pair)
  have "one_connection s1" using one_connection_connect [OF Suc.prems(1) c] by simp
  then have s2: "one_connection (c2, w2)" using o one_connection_call_once by (fastforce split: sum.splits)
  show ?case
  proof (cases r2)
    case (Inr v)
    with Suc.prems(2) c o s2 show ?thesis by (auto split: sum.splits)
  next
    case (Inl e)
    have d: "one_connection (disconnect (logged W) (set_error e c2, w2))" by (rule disconnect_closed) (use s2 in simp)
    show ?thesis
    proof (cases "is_tool_error e")
      case True
      with Suc.prems(2) c o s2 Inl show ?thesis by (auto split: sum.splits)
    next
      case False
      with Suc.prems(2) c o Inl have "call_retries (logged W) S f name args m (disconnect (logged W) (set_error e c2, w2)) = (r, s')"
        by (auto split: sum.splits)
      with Suc.IH [OF d] show ?thesis by simp
    qed
  qed
qed simp

lemma one_connection_ensure:
  assumes "one_connection s" and "(if mc_session (fst s) then (Inr (), s) else connect_with_retries (logged W) S f n s) = (r, s1)"
  shows "one_connection s1"
  using assms one_connection_connect [of s W S f n r s1] by (auto split: if_splits)

lemma one_connection_handle_call:
  assumes "one_connection s" and "handle_call (logged W) S f name args s = (r, s')"
  shows "one_connection s'"
proof (cases name)
  case (Some n)
  let ?args = "case args of None \<Rightarrow> [] | Some a \<Rightarrow> a"
  obtain r1 s1 where e: "(if mc_session (fst s) then (Inr (), s) else connect_with_retries (logged W) S f (ms_attempts S) s) = (r1, s1)"
    by (meson surj_pair)
  have s1: "one_connection s1" by (rule one_connection_ensure [OF assms(1) e])
  show ?thesis
  proof (cases r1)
    case (Inl x)
    with assms(2) Some e s1 show ?thesis by (simp add: handle_call_def)
  next
    case (Inr u)
    obtain r2 c2 w2 where o: "call_once (logged W) n ?args s1 = (r2, (c2, w2))" by (metis surj_pair)
    have s2: "one_connection (c2, w2)" by (rule one_connection_call_once [OF s1 o])
    then have d: "one_connection (disconnect (logged W) (set_error x c2, w2))" for x
      by (intro disconnect_closed) simp
    show ?thesis using assms(2) Some e Inr o s2 one_connection_call_retries [OF d]
      by (auto simp: handle_call_def Let_def split: sum.splits if_splits)
  qed
qed (use assms in \<open>simp add: handle_call_def\<close>)

lemma one_connection_refresh_tools:
  "one_connection s \<Longrightarrow> refresh_tools (logged W) f s = (r, s') \<Longrightarrow> one_connection s'"
proof -
  assume s: "one_connection s" and r: "refresh_tools (logged W) f s = (r, s')"
  obtain c w t where e: "s = (c, (w, t))" by (metis prod_cases3)
  show "one_connection s'"
  proof (cases "mc_session c")
    case False
    with r s e show ?thesis by (auto simp: refresh_tools_def)
  next
    case True
    obtain x w' where l: "mw_list W w = (x, w')"
    by (meson surj_pair)
    show ?thesis
    proof (cases x)
      case (Inl y)
      with True r s e l show ?thesis by (auto simp: refresh_tools_def logged_def one_connection_def)
    next
      case (Inr ts)
      let ?c = "c\<lparr>mc_tools := ts, mc_refreshed_at := mw_now W w', mc_refreshes := Suc (mc_refreshes c)\<rparr>"
      have "s' = (snd (sync_registry f ?c), (w', t @ [UseEvent]))"
        using True r e l Inr by (auto simp: refresh_tools_def logged_def split: prod.splits)
      with s e True show ?thesis by (simp add: one_connection_def)
    qed
  qed
qed

lemma one_connection_handle_refresh:
  assumes "one_connection s" and "handle_refresh (logged W) S f s = (r, s')"
  shows "one_connection s'"
proof -
  obtain r1 s1 where e: "(if mc_session (fst s) then (Inr (), s) else connect_with_retries (logged W) S f (ms_attempts S) s) = (r1, s1)"
    by (meson surj_pair)
  have s1: "one_connection s1" by (rule one_connection_ensure [OF assms(1) e])
  then show ?thesis using assms(2) e one_connection_refresh_tools [OF s1] by (auto simp: handle_refresh_def split: sum.splits)
qed

lemma one_connection_handle_ping:
  assumes "one_connection s" and "handle_ping (logged W) s = (b, s')"
  shows "one_connection s'"
proof -
  obtain c w t where e: "s = (c, (w, t))" by (metis prod_cases3)
  show ?thesis
  proof (cases "mc_session c")
    case False
    with assms e show ?thesis by (simp add: handle_ping_def)
  next
    case True
    obtain x w' where p: "mw_ping W w = (x, w')"
    by (meson surj_pair)
    have "one_connection (set_error y c, (w', t @ [UseEvent]))" for y using assms(1) e True by (simp add: one_connection_def)
    then have "one_connection (disconnect (logged W) (set_error y c, (w', t @ [UseEvent])))" for y by (rule disconnect_closed)
    then show ?thesis using assms e True p
      by (auto simp: handle_ping_def logged_def one_connection_def split: sum.splits prod.splits)
  qed
qed

lemma one_connection_refresh_when_due:
  assumes "one_connection s"
  shows "one_connection (refresh_when_due (logged W) S f s)"
proof -
  obtain c w where e: "s = (c, w)"
    by (meson surj_pair)
  obtain r c' w' where r: "refresh_tools (logged W) f s = (r, (c', w'))" by (metis surj_pair)
  have s': "one_connection (c', w')" by (rule one_connection_refresh_tools [OF assms r])
  then have "one_connection (disconnect (logged W) (set_error y c', w'))" for y by (intro disconnect_closed) simp
  with s' r e assms show ?thesis by (auto simp: refresh_when_due_def Let_def split: sum.splits)
qed

lemma one_connection_maintenance:
  assumes "one_connection s"
  shows "one_connection (maintenance (logged W) S f s)"
proof (cases "mc_session (fst s)")
  case False
  obtain r c w where c: "connect_with_retries (logged W) S f 1 s = (r, (c, w))" by (metis surj_pair)
  have s1: "one_connection (c, w)" using one_connection_connect [OF assms c] by simp
  then have "one_connection (disconnect (logged W) (set_error y c, w))" for y by (intro disconnect_closed) simp
  with False c one_connection_refresh_when_due [OF s1, of W S f] show ?thesis by (auto simp: maintenance_def split: sum.splits)
next
  case True
  obtain b s1 where p: "handle_ping (logged W) s = (b, s1)"
    by (meson surj_pair)
  have "one_connection s1" by (rule one_connection_handle_ping [OF assms p])
  with True p one_connection_refresh_when_due [OF this, of W S f] show ?thesis by (auto simp: maintenance_def split: bool.splits)
qed

lemma one_connection_serve_request:
  "one_connection s \<Longrightarrow> serve_request (logged W) S f q s = (r, s') \<Longrightarrow> one_connection s'"
proof (cases q)
  case ShutdownRequest
  assume "one_connection s" and "serve_request (logged W) S f q s = (r, s')"
  with ShutdownRequest disconnect_closed(1) [of s W] show ?thesis by auto
qed (auto split: prod.splits dest: one_connection_handle_call one_connection_handle_refresh one_connection_handle_ping)

lemma one_connection_owner_loop:
  "one_connection s \<Longrightarrow> owner_loop (logged W) S f turns s = (rs, ended, s') \<Longrightarrow> one_connection s' \<and> (ended \<longrightarrow> \<not> mc_stack (fst s'))"
proof (induction turns arbitrary: s rs ended s')
  case (Cons turn turns)
  show ?case
  proof (cases turn)
    case Quiet
    with Cons.IH [OF one_connection_maintenance [OF Cons.prems(1), of W S f]] Cons.prems(2) show ?thesis by simp
  next
    case Cancelled
    with disconnect_closed [OF Cons.prems(1), of W] Cons.prems(2) show ?thesis by auto
  next
    case (Arrived i q)
    obtain r s1 where q: "serve_request (logged W) S f q s = (r, s1)"
    by (meson surj_pair)
    have s1: "one_connection s1" by (rule one_connection_serve_request [OF Cons.prems(1) q])
    obtain rs2 e2 s2 where l: "owner_loop (logged W) S f turns s1 = (rs2, e2, s2)" by (metis prod_cases3)
    show ?thesis using Arrived q l Cons.prems(2) Cons.IH [OF s1 l] disconnect_closed [OF s1, of W] by (auto split: if_splits)
  qed
qed simp

text \<open>
  One connection at a time: whatever the server does and whatever requests arrive, the client
  opens a connection only when none is open, uses none that is closed, closes also those that
  failed half-way, and has closed the last one when its task ends.
\<close>

theorem mcp_one_connection:
  assumes "owner_task (logged W) S f turns (new_client\<lparr>mc_registry := reg\<rparr>, (w, [])) = (err, rs, ended, (c, (w', trace)))"
  shows "open_after trace = Some (mc_stack c) \<and> mc_session c = mc_stack c \<and> (ended \<longrightarrow> open_after trace = Some False)"
proof -
  have start: "one_connection (new_client\<lparr>mc_registry := reg\<rparr>, (w, []))" by (simp add: one_connection_def new_client_def)
  obtain r c1 w1 where k: "connect_with_retries (logged W) S f (ms_attempts S) (new_client\<lparr>mc_registry := reg\<rparr>, (w, [])) = (r, (c1, w1))"
    by (metis surj_pair)
  have s1: "one_connection (c1, w1)" using one_connection_connect [OF start k] by simp
  have "\<exists>s. one_connection s \<and> owner_loop (logged W) S f turns s = (rs, ended, (c, (w', trace)))"
  proof (cases r)
    case (Inl x)
    with assms k s1 show ?thesis by (intro exI [of _ "(set_error x c1, w1)"]) (simp add: owner_task_def)
  next
    case (Inr u)
    with assms k s1 show ?thesis by (intro exI [of _ "(c1, w1)"]) (simp add: owner_task_def)
  qed
  then obtain s where s: "one_connection s" and l: "owner_loop (logged W) S f turns s = (rs, ended, (c, (w', trace)))" by blast
  show ?thesis using one_connection_owner_loop [OF s l] by (auto simp: one_connection_def)
qed

section \<open>How often a call is made\<close>

definition calls :: "mcp_event list \<Rightarrow> mcp_event list" where
  "calls t = filter (\<lambda>e. case e of CallEvent n a ok \<Rightarrow> True | _ \<Rightarrow> False) t"

lemma calls_simps [simp]: "calls [] = []" "calls (t @ u) = calls t @ calls u" "calls [OpenEvent b] = []" "calls [CloseEvent] = []"
  "calls [UseEvent] = []" "calls [CallEvent n a b] = [CallEvent n a b]"
  by (simp_all add: calls_def)

abbreviation seen :: "('w \<times> mcp_event list, 'r) mcp_state \<Rightarrow> mcp_event list" where
  "seen s \<equiv> calls (snd (snd s))"

lemma seen_disconnect: "seen (disconnect (logged W) s) = seen s"
  by (auto simp: disconnect_def logged_def Let_def split: prod.splits sum.splits)

lemma seen_connect_once: "connect_once (logged W) f s = (r, s') \<Longrightarrow> seen s' = seen s"
proof -
  assume run: "connect_once (logged W) f s = (r, s')"
  obtain c w t where d: "disconnect (logged W) s = (c, (w, t))" by (metis prod_cases3)
  then have "calls t = seen s" using seen_disconnect [of W s] by simp
  with run d show "seen s' = seen s"
    by (auto simp: connect_once_def logged_def calls_def split: prod.splits sum.splits)
qed

lemma seen_connect_attempts: "connect_attempts (logged W) S f n k m s = (r, s') \<Longrightarrow> seen s' = seen s"
proof (induction m arbitrary: k s)
  case (Suc m)
  obtain r1 c w t where c: "connect_once (logged W) f s = (r1, (c, (w, t)))" by (metis prod_cases4)
  have t: "calls t = seen s" using seen_connect_once [OF c] by simp
  show ?case
  proof (cases r1)
    case (Inr u)
    with Suc.prems c t show ?thesis by auto
  next
    case (Inl e)
    with Suc.prems c have "connect_attempts (logged W) S f n (Suc k) m (set_error e c,
        if int k + 1 < n then mw_sleep (logged W) (min (ms_base_delay S * 2 ^ k) (ms_max_delay S)) (w, t) else (w, t)) = (r, s')"
      by (simp add: Let_def)
    from Suc.IH [OF this] t show ?thesis by simp
  qed
qed auto

lemma connect_attempts_fault: "connect_attempts W S f n k m s = (Inl e, s') \<Longrightarrow> exc_type e = py ''MCPConnectionError''"
proof (induction m arbitrary: k s)
  case (Suc m)
  then show ?case by (auto simp: Let_def split: sum.splits prod.splits)
qed auto

lemma connect_fault:
  "connect_with_retries W S f n s = (Inl e, s') \<Longrightarrow> exc_type e = py ''MCPConnectionError'' \<and> \<not> is_tool_error e"
  unfolding connect_with_retries_def by (drule connect_attempts_fault) (simp add: is_tool_error_def)

lemma seen_connect: "connect_with_retries (logged W) S f n s = (r, s') \<Longrightarrow> seen s' = seen s"
  unfolding connect_with_retries_def by (rule seen_connect_attempts)

text \<open>
  A block of calls: some that the transport lost, then perhaps one that the server answered; what the
  caller gets is that answer, or a connection error when there was none.
\<close>

definition call_block :: "pystr \<Rightarrow> arguments \<Rightarrow> nat \<Rightarrow> pyval pyres \<Rightarrow> mcp_event list \<Rightarrow> bool" where
  "call_block name args limit r es \<longleftrightarrow> (\<exists>k. k \<le> limit
     \<and> (case r of
          Inr v \<Rightarrow> Suc k \<le> limit \<and> es = replicate k (CallEvent name args False) @ [CallEvent name args True]
        | Inl e \<Rightarrow> (if is_tool_error e then Suc k \<le> limit \<and> es = replicate k (CallEvent name args False) @ [CallEvent name args True]
                    else exc_type e = py ''MCPConnectionError'' \<and> es = replicate k (CallEvent name args False))))"

lemma call_once_block:
  assumes "call_once (logged W) name args s = (r, s')"
  shows "\<exists>es. seen s' = seen s @ es \<and> call_block name args 1 r es"
proof -
  obtain c w t where e: "s = (c, (w, t))" by (metis prod_cases3)
  show ?thesis
  proof (cases "mc_session c")
    case False
    with assms e have "seen s' = seen s @ []" "call_block name args 1 r []"
      by (auto simp: call_once_def call_block_def is_tool_error_def)
    then show ?thesis by blast
  next
    case True
    obtain x w' where m: "mw_call W name args w = (x, w')" by fastforce
    with True assms e have "seen s' = seen s @ [CallEvent name args (is_ok x)]" "call_block name args 1 r [CallEvent name args (is_ok x)]"
      by (auto simp: call_once_def logged_def call_block_def is_tool_error_def split: sum.splits if_splits option.splits
          intro: exI [of _ "0 :: nat"] exI [of _ "1 :: nat"])
    then show ?thesis by blast
  qed
qed

lemma call_block_failed: "call_block name args n (Inl e) es \<Longrightarrow> \<not> is_tool_error e \<Longrightarrow> \<exists>k \<le> n. es = replicate k (CallEvent name args False)"
  by (auto simp: call_block_def)

lemma call_block_more:
  "k \<le> m \<Longrightarrow> call_block name args n r es \<Longrightarrow> call_block name args (m + n) r (replicate k (CallEvent name args False) @ es)"
  unfolding call_block_def
  by (elim exE, rule_tac x = "k + ka" in exI) (auto simp: replicate_add split: sum.splits if_splits)

lemma call_retries_block:
  "call_retries (logged W) S f name args m s = (r, s') \<Longrightarrow> \<exists>es. seen s' = seen s @ es \<and> call_block name args m r es"
proof (induction m arbitrary: s)
  case 0
  then show ?case by (auto simp: call_block_def is_tool_error_def)
next
  case (Suc m)
  obtain r1 s1 where c: "connect_with_retries (logged W) S f 1 s = (r1, s1)"
    by (meson surj_pair)
  obtain r2 c2 w2 where o: "(case r1 of Inl e \<Rightarrow> (Inl e, s1) | Inr u \<Rightarrow> call_once (logged W) name args s1) = (r2, (c2, w2))"
    by (metis surj_pair)
  have fault: "\<not> is_tool_error e \<and> exc_type e = py ''MCPConnectionError''" if "r1 = Inl e" for e
    using connect_fault c that by blast
  have "\<exists>es. seen (c2, w2) = seen s @ es \<and> call_block name args 1 r2 es"
  proof (cases r1)
    case (Inl e)
    with o fault have "r2 = Inl e" "seen (c2, w2) = seen s" using seen_connect [OF c] by auto
    with fault [OF Inl] show ?thesis by (intro exI [of _ "[]"]) (auto simp: call_block_def)
  next
    case (Inr u)
    with o call_once_block [of W name args s1 r2 "(c2, w2)"] seen_connect [OF c] show ?thesis by simp
  qed
  then obtain es where es: "seen (c2, w2) = seen s @ es" "call_block name args 1 r2 es" by blast
  show ?case
  proof (cases "\<exists>e. r2 = Inl e \<and> \<not> is_tool_error e")
    case True
    then obtain e where e: "r2 = Inl e" "\<not> is_tool_error e" by blast
    with Suc.prems c o have "call_retries (logged W) S f name args m (disconnect (logged W) (set_error e c2, w2)) = (r, s')"
      by (auto split: sum.splits)
    from Suc.IH [OF this] obtain es' where es': "seen s' = seen (c2, w2) @ es'" "call_block name args m r es'"
      by (auto simp: seen_disconnect)
    obtain k where k: "k \<le> 1" "es = replicate k (CallEvent name args False)"
      using call_block_failed [of name args 1 e es] es(2) e by auto
    show ?thesis
      by (rule exI [of _ "es @ es'"]) (use es(1) es' k call_block_more [OF k(1) es'(2)] in simp)
  next
    case False
    then have "r = r2" "s' = (c2, w2)" using Suc.prems c o by (auto split: sum.splits if_splits)
    moreover have "call_block name args (Suc m) r2 es"
      using es(2) False unfolding call_block_def
      by (elim exE, rule_tac x = k in exI) (auto split: sum.splits if_splits)
    ultimately show ?thesis using es(1) by blast
  qed
qed


section \<open>The registry mirrors the server\<close>

text \<open>The names the server lists are distinct, as the protocol demands.\<close>

definition names_distinct :: "'w mcp_world \<Rightarrow> bool" where
  "names_distinct W \<longleftrightarrow> (\<forall>w h w'. mw_open W w = (Inr h, w') \<longrightarrow> distinct (map mt_name (mh_tools h)))
     \<and> (\<forall>w ts w'. mw_list W w = (Inr ts, w') \<longrightarrow> distinct (map mt_name ts))"

text \<open>\<open>reg0\<close> is the registry before the client was given it.\<close>

definition mirrors :: "(pystr \<Rightarrow> arguments \<Rightarrow> 'r \<Rightarrow> pyval pyres \<times> 'r) \<Rightarrow> 'r registry \<Rightarrow> 'r mcp_client \<Rightarrow> bool" where
  "mirrors f reg0 c \<longleftrightarrow> distinct (map mt_name (mc_tools c)) \<and> (\<exists>reg. mc_registry c = Some reg \<and> registry_ok reg
     \<and> replaced mcp_prefix (map (to_registered_tool f) (mc_tools c)) reg0 reg)"

lemma collect_incoming_ok:
  "\<forall>t \<in> set ts. starts_with p (rt_name t) \<Longrightarrow> distinct (map rt_name ts) \<Longrightarrow> set (map rt_name ts) \<inter> set (dict_keys inc) = {} \<Longrightarrow>
   \<exists>inc'. collect_incoming p reg ts inc = Inr inc'"
  by (induction ts arbitrary: inc) (auto simp: keys_update_new)

lemma replace_prefix_installs:
  assumes reg: "registry_ok reg" and sch: "\<forall>t \<in> set ts. has_schema t" and "p \<noteq> []"
    and "\<forall>t \<in> set ts. starts_with p (rt_name t)" and dist: "distinct (map rt_name ts)"
  obtains d reg' where "replace_prefix p ts reg = (Inr d, reg')" "registry_ok reg'" "replaced p ts reg reg'"
proof -
  obtain inc where inc: "collect_incoming p reg ts [] = Inr inc" using collect_incoming_ok [OF assms(4) dist, of "[]"] by auto
  let ?rem = "filter (\<lambda>n. n \<notin> rt_name ` set ts) (filter (starts_with p) (dict_keys reg))"
  have rp: "replace_prefix p ts reg = install_incoming (named ts) (fold AList.delete ?rem reg)
      \<lparr>rd_added = [], rd_removed = ?rem, rd_updated = [], rd_unchanged = []\<rparr>"
    using inc collect_incoming_Inr [OF inc] assms(3) by (simp add: replace_prefix_def comp_def image_image)
  have ok: "registry_ok (fold AList.delete ?rem reg)" using reg by (rule registry_ok_fold_delete)
  have no: "replace_prefix p ts reg \<noteq> (Inl e, reg)" for e
    using install_incoming_registry [OF ok sch dist, of "\<lparr>rd_added = [], rd_removed = ?rem, rd_updated = [], rd_unchanged = []\<rparr>"] rp by auto
  show thesis
    by (rule replace_prefix_cases [OF reg sch, of p]) (use no that in blast)+
qed

lemma replaced_trans: "replaced p ts reg0 reg1 \<Longrightarrow> replaced p us reg1 reg2 \<Longrightarrow> replaced p us reg0 reg2"
  by (auto simp: replaced_def)

lemma mirrors_set_error [simp]: "mirrors f reg0 (set_error e c) = mirrors f reg0 c"
  by (simp add: mirrors_def set_error_def)

lemma mirrors_cong: "mc_tools c' = mc_tools c \<Longrightarrow> mc_registry c' = mc_registry c \<Longrightarrow> mirrors f reg0 c' = mirrors f reg0 c"
  by (simp add: mirrors_def)

lemma sync_registry_installs:
  assumes "mc_registry c = Some reg" and "registry_ok reg" and "distinct (map mt_name (mc_tools c))"
  obtains d reg' where "sync_registry f c = (d, c\<lparr>mc_registry := Some reg'\<rparr>)" "registry_ok reg'"
    "replaced mcp_prefix (map (to_registered_tool f) (mc_tools c)) reg reg'"
proof -
  let ?ts = "map (to_registered_tool f) (mc_tools c)"
  have names: "map rt_name ?ts = map (\<lambda>t. mcp_prefix @ mt_name t) (mc_tools c)" by (simp add: to_registered_tool_def)
  have "\<forall>t \<in> set ?ts. has_schema t" by (simp add: has_schema_def to_registered_tool_def)
  moreover have "mcp_prefix \<noteq> []" by (simp add: mcp_prefix_def)
  moreover have "\<forall>t \<in> set ?ts. starts_with mcp_prefix (rt_name t)" by (simp add: starts_with_def to_registered_tool_def)
  moreover have "distinct (map rt_name ?ts)" unfolding names using assms(3) by (simp add: distinct_map inj_on_def)
  ultimately obtain d reg' where r: "replace_prefix mcp_prefix ?ts reg = (Inr d, reg')" "registry_ok reg'" "replaced mcp_prefix ?ts reg reg'"
    by (rule replace_prefix_installs [OF assms(2)])
  show thesis by (rule that [OF _ r(2,3)]) (use r(1) assms(1) in \<open>simp add: sync_registry_def\<close>)
qed

lemma mirrors_sync:
  assumes "mirrors f reg0 c0" and "mc_registry c = mc_registry c0" and "distinct (map mt_name (mc_tools c))"
  shows "mirrors f reg0 (snd (sync_registry f c))"
proof -
  from assms(1) obtain reg where reg: "mc_registry c0 = Some reg" "registry_ok reg"
    "replaced mcp_prefix (map (to_registered_tool f) (mc_tools c0)) reg0 reg" by (auto simp: mirrors_def)
  obtain d reg' where s: "sync_registry f c = (d, c\<lparr>mc_registry := Some reg'\<rparr>)" "registry_ok reg'"
    "replaced mcp_prefix (map (to_registered_tool f) (mc_tools c)) reg reg'"
    by (rule sync_registry_installs [of c reg f]) (use assms(2,3) reg(1,2) in auto)
  then show ?thesis using replaced_trans [OF reg(3) s(3)] assms(3) by (simp add: mirrors_def)
qed

lemma mirrors_disconnect [simp]: "mirrors f reg0 (fst (disconnect W s)) = mirrors f reg0 (fst s)"
  by (auto simp: disconnect_def Let_def mirrors_def set_error_def split: prod.split sum.split)

lemma mirrors_connect_once:
  assumes "names_distinct W" and "mirrors f reg0 (fst s)" and "connect_once W f s = (r, s')"
  shows "mirrors f reg0 (fst s')"
proof -
  obtain c w where d: "disconnect W s = (c, w)" by (meson surj_pair)
  then have c: "mirrors f reg0 c" using mirrors_disconnect [of f reg0 W s] assms(2) by simp
  obtain x w1 where o: "mw_open W w = (x, w1)" by (meson surj_pair)
  show ?thesis
  proof (cases x)
    case (Inl e)
    with assms(3) d o c show ?thesis by (auto simp: connect_once_def mirrors_def)
  next
    case (Inr h)
    then have "distinct (map mt_name (mh_tools h))" using assms(1) o by (auto simp: names_distinct_def)
    then have "mirrors f reg0 (snd (sync_registry f (connected h (mw_now W w1) c)))"
      by (intro mirrors_sync [OF c]) (simp_all add: connected_def)
    with assms(3) d o Inr show ?thesis by (auto simp: connect_once_def)
  qed
qed

lemma mirrors_connect_attempts:
  assumes "names_distinct W"
  shows "mirrors f reg0 (fst s) \<Longrightarrow> connect_attempts W S f n k m s = (r, s') \<Longrightarrow> mirrors f reg0 (fst s')"
proof (induction m arbitrary: k s)
  case (Suc m)
  obtain r1 c w where c: "connect_once W f s = (r1, (c, w))" by (metis surj_pair)
  have m: "mirrors f reg0 c" using mirrors_connect_once [OF assms Suc.prems(1) c] by simp
  show ?case
  proof (cases r1)
    case (Inr u)
    with Suc.prems c m show ?thesis by auto
  next
    case (Inl e)
    with Suc.prems c have "connect_attempts W S f n (Suc k) m (set_error e c,
        if int k + 1 < n then mw_sleep W (min (ms_base_delay S * 2 ^ k) (ms_max_delay S)) w else w) = (r, s')"
      by (simp add: Let_def)
    from Suc.IH [OF _ this] m show ?thesis by simp
  qed
qed auto

lemma mirrors_connect:
  "names_distinct W \<Longrightarrow> mirrors f reg0 (fst s) \<Longrightarrow> connect_with_retries W S f n s = (r, s') \<Longrightarrow> mirrors f reg0 (fst s')"
  unfolding connect_with_retries_def by (rule mirrors_connect_attempts)

lemma call_once_client: "call_once W name args s = (r, s') \<Longrightarrow> fst s' = fst s"
  by (auto simp: call_once_def Let_def split: prod.splits sum.splits if_splits)

lemma mirrors_call_retries:
  assumes "names_distinct W"
  shows "mirrors f reg0 (fst s) \<Longrightarrow> call_retries W S f name args m s = (r, s') \<Longrightarrow> mirrors f reg0 (fst s')"
proof (induction m arbitrary: s)
  case (Suc m)
  obtain r1 s1 where c: "connect_with_retries W S f 1 s = (r1, s1)"
    by (meson surj_pair)
  obtain r2 c2 w2 where o: "(case r1 of Inl e \<Rightarrow> (Inl e, s1) | Inr u \<Rightarrow> call_once W name args s1) = (r2, (c2, w2))"
    by (metis surj_pair)
  have "mirrors f reg0 (fst s1)" using mirrors_connect [OF assms Suc.prems(1) c] .
  then have m: "mirrors f reg0 c2" using o call_once_client [of W name args s1 r2 "(c2, w2)"] by (auto split: sum.splits)
  show ?case
  proof (cases "\<exists>e. r2 = Inl e \<and> \<not> is_tool_error e")
    case True
    then obtain e where e: "r2 = Inl e" "\<not> is_tool_error e" by blast
    with Suc.prems c o have "call_retries W S f name args m (disconnect W (set_error e c2, w2)) = (r, s')"
      by (auto split: sum.splits)
    from Suc.IH [OF _ this] m show ?thesis by simp
  next
    case False
    then have "s' = (c2, w2)" using Suc.prems c o by (auto split: sum.splits if_splits)
    with m show ?thesis by simp
  qed
qed auto

lemma mirrors_ensure:
  assumes "names_distinct W" and "mirrors f reg0 (fst s)"
    and "(if mc_session (fst s) then (Inr (), s) else connect_with_retries W S f n s) = (r, s1)"
  shows "mirrors f reg0 (fst s1)"
  using assms mirrors_connect [OF assms(1,2), of S n r s1] by (auto split: if_splits)

lemma mirrors_handle_call:
  assumes W: "names_distinct W" and "mirrors f reg0 (fst s)" and "handle_call W S f name args s = (r, s')"
  shows "mirrors f reg0 (fst s')"
proof (cases name)
  case (Some n)
  let ?args = "case args of None \<Rightarrow> [] | Some a \<Rightarrow> a"
  obtain r1 s1 where e: "(if mc_session (fst s) then (Inr (), s) else connect_with_retries W S f (ms_attempts S) s) = (r1, s1)"
    by (meson surj_pair)
  have s1: "mirrors f reg0 (fst s1)" by (rule mirrors_ensure [OF assms(1,2) e])
  obtain r2 c2 w2 where o: "call_once W n ?args s1 = (r2, (c2, w2))" by (metis surj_pair)
  have m: "mirrors f reg0 c2" using call_once_client [OF o] s1 by auto
  then have "mirrors f reg0 (fst (disconnect W (set_error x c2, w2)))" for x by simp
  then have retry: "call_retries W S f n ?args k (disconnect W (set_error x c2, w2)) = (r, s') \<Longrightarrow> mirrors f reg0 (fst s')" for k x
    by (rule mirrors_call_retries [OF W])
  show ?thesis using assms(3) Some e s1 o m retry
    by (auto simp: handle_call_def Let_def split: sum.splits if_splits)
qed (use assms in \<open>simp add: handle_call_def\<close>)

lemma mirrors_refresh_tools:
  assumes "names_distinct W" and "mirrors f reg0 (fst s)" and "refresh_tools W f s = (r, s')"
  shows "mirrors f reg0 (fst s')"
proof -
  obtain c w where e: "s = (c, w)" by (meson surj_pair)
  obtain x w' where l: "mw_list W w = (x, w')" by (meson surj_pair)
  show ?thesis
  proof (cases "mc_session c \<and> (\<exists>ts. x = Inr ts)")
    case True
    then obtain ts where ts: "mc_session c" "x = Inr ts" by blast
    let ?c = "c\<lparr>mc_tools := ts, mc_refreshed_at := mw_now W w', mc_refreshes := Suc (mc_refreshes c)\<rparr>"
    have "distinct (map mt_name ts)" using assms(1) l ts(2) unfolding names_distinct_def by blast
    then have "mirrors f reg0 (snd (sync_registry f ?c))" by (intro mirrors_sync [OF assms(2)]) (simp_all add: e)
    moreover have "fst s' = snd (sync_registry f ?c)" using assms(3) e l ts by (auto simp: refresh_tools_def split: prod.splits)
    ultimately show ?thesis by simp
  next
    case False
    then have "fst s' = c" using assms(3) e l by (cases x) (auto simp: refresh_tools_def split: if_splits)
    with assms(2) e show ?thesis by simp
  qed
qed

lemma mirrors_handle_ping:
  "mirrors f reg0 (fst s) \<Longrightarrow> handle_ping W s = (b, s') \<Longrightarrow> mirrors f reg0 (fst s')"
proof -
  assume m: "mirrors f reg0 (fst s)" and p: "handle_ping W s = (b, s')"
  obtain c w where e: "s = (c, w)" by (meson surj_pair)
  with m have d: "mirrors f reg0 (fst (disconnect W (set_error y c, w')))" "mirrors f reg0 (c\<lparr>mc_ping_at := z\<rparr>)" for y w' z
    using mirrors_cong [of "c\<lparr>mc_ping_at := z\<rparr>" c] by simp_all
  have "s' = s \<or> (\<exists>y w'. s' = disconnect W (set_error y c, w')) \<or> (\<exists>z w'. s' = (c\<lparr>mc_ping_at := z\<rparr>, w'))"
    using p e by (auto simp: handle_ping_def split: if_splits prod.splits sum.splits)
  then show "mirrors f reg0 (fst s')" using d m by auto
qed

lemma mirrors_refresh_when_due:
  assumes W: "names_distinct W" and s: "mirrors f reg0 (fst s)"
  shows "mirrors f reg0 (fst (refresh_when_due W S f s))"
proof -
  obtain c w where e: "s = (c, w)" by (meson surj_pair)
  obtain r c' w' where r: "refresh_tools W f s = (r, (c', w'))" by (metis surj_pair)
  have m: "mirrors f reg0 c'" using mirrors_refresh_tools [OF W s r] by simp
  then have "mirrors f reg0 (fst (disconnect W (set_error y c', w')))" for y by simp
  with m r e s show ?thesis by (auto simp: refresh_when_due_def Let_def split: sum.splits)
qed

lemma mirrors_maintenance:
  assumes W: "names_distinct W" and s: "mirrors f reg0 (fst s)"
  shows "mirrors f reg0 (fst (maintenance W S f s))"
proof (cases "mc_session (fst s)")
  case False
  obtain r c w where c: "connect_with_retries W S f 1 s = (r, (c, w))" by (metis surj_pair)
  have m: "mirrors f reg0 (fst (c, w))" using mirrors_connect [OF W s c] .
  then have "mirrors f reg0 (fst (disconnect W (set_error y c, w)))" for y by simp
  with False c mirrors_refresh_when_due [OF W m, of S] show ?thesis by (auto simp: maintenance_def split: sum.splits)
next
  case True
  obtain b s1 where p: "handle_ping W s = (b, s1)"
    by (meson surj_pair)
  have m: "mirrors f reg0 (fst s1)" by (rule mirrors_handle_ping [OF s p])
  with True p mirrors_refresh_when_due [OF W m, of S] show ?thesis by (auto simp: maintenance_def split: bool.splits)
qed

lemma mirrors_serve_request:
  assumes W: "names_distinct W" and s: "mirrors f reg0 (fst s)" and "serve_request W S f q s = (r, s')"
  shows "mirrors f reg0 (fst s')"
proof (cases q)
  case (CallRequest name args)
  with assms mirrors_handle_call [OF W s] show ?thesis by (auto split: prod.splits)
next
  case RefreshRequest
  obtain r1 s1 where e: "(if mc_session (fst s) then (Inr (), s) else connect_with_retries W S f (ms_attempts S) s) = (r1, s1)"
    by (meson surj_pair)
  have s1: "mirrors f reg0 (fst s1)" by (rule mirrors_ensure [OF W s e])
  then show ?thesis using RefreshRequest e assms(3) mirrors_refresh_tools [OF W s1]
    by (auto simp: handle_refresh_def split: prod.splits sum.splits)
next
  case PingRequest
  with assms mirrors_handle_ping [OF s] show ?thesis by (auto split: prod.splits)
next
  case ShutdownRequest
  with assms show ?thesis by auto
qed

lemma mirrors_owner_loop:
  assumes W: "names_distinct W"
  shows "mirrors f reg0 (fst s) \<Longrightarrow> owner_loop W S f turns s = (rs, ended, s') \<Longrightarrow> mirrors f reg0 (fst s')"
proof (induction turns arbitrary: s rs ended s')
  case (Cons turn turns)
  show ?case
  proof (cases turn)
    case Quiet
    with Cons.IH [OF mirrors_maintenance [OF W Cons.prems(1)]] Cons.prems(2) show ?thesis by simp
  next
    case Cancelled
    with Cons.prems show ?thesis by auto
  next
    case (Arrived i q)
    obtain r s1 where q: "serve_request W S f q s = (r, s1)"
      by (meson surj_pair)
    have m: "mirrors f reg0 (fst s1)" by (rule mirrors_serve_request [OF W Cons.prems(1) q])
    obtain rs2 e2 s2 where l: "owner_loop W S f turns s1 = (rs2, e2, s2)" by (metis prod_cases3)
    show ?thesis using Arrived q l Cons.prems(2) Cons.IH [OF m l] m by (auto split: if_splits)
  qed
qed simp

text \<open>The whole life of the owner task keeps the registry in step with the server.\<close>

lemma owner_task_mirrors:
  assumes "names_distinct W" and "registry_ok reg0"
    and "owner_task W S f turns (snd (register_tools f reg0 new_client), w) = (err, rs, ended, (c, w'))"
  shows "\<exists>reg. mc_registry c = Some reg \<and> registry_ok reg
     \<and> replaced mcp_prefix (map (to_registered_tool f) (mc_tools c)) reg0 reg"
proof -
  let ?c0 = "new_client\<lparr>mc_registry := Some reg0\<rparr>"
  obtain d reg' where s: "sync_registry f ?c0 = (d, ?c0\<lparr>mc_registry := Some reg'\<rparr>)" "registry_ok reg'"
    "replaced mcp_prefix (map (to_registered_tool f) (mc_tools ?c0)) reg0 reg'"
    by (rule sync_registry_installs [of ?c0 reg0 f]) (use assms(2) in \<open>simp_all add: new_client_def\<close>)
  then have m0: "mirrors f reg0 (fst (snd (register_tools f reg0 new_client), w))"
    by (simp add: register_tools_def mirrors_def new_client_def)
  obtain r c1 w1 where k: "connect_with_retries W S f (ms_attempts S) (snd (register_tools f reg0 new_client), w) = (r, (c1, w1))"
    by (metis surj_pair)
  have m1: "mirrors f reg0 c1" using mirrors_connect [OF assms(1) m0 k] by simp
  have "\<exists>s. mirrors f reg0 (fst s) \<and> owner_loop W S f turns s = (rs, ended, (c, w'))"
  proof (cases r)
    case (Inl x)
    with assms k m1 show ?thesis by (intro exI [of _ "(set_error x c1, w1)"]) (simp add: owner_task_def)
  next
    case (Inr u)
    with assms k m1 show ?thesis by (intro exI [of _ "(c1, w1)"]) (simp add: owner_task_def)
  qed
  then obtain s where "mirrors f reg0 (fst s)" "owner_loop W S f turns s = (rs, ended, (c, w'))" by blast
  from mirrors_owner_loop [OF assms(1) this] show ?thesis by (simp add: mirrors_def)
qed


section \<open>Requests during the shutdown\<close>

text \<open>
  A limit: a request that is submitted while the client closes is accepted and put on the queue
  behind the shutdown, where the owner never sees it: its caller waits for ever.
\<close>

theorem request_after_shutdown_hangs:
  assumes "mp_owner h = Running" and "\<not> mp_closed h" and "mp_queue h = []" and "i \<noteq> j"
  shows "\<exists>h'. submit j q (close_begin i h) = (Inr (), h')
     \<and> mp_queue h' = [(i, ShutdownRequest), (j, q)]
     \<and> (\<exists>s'. owner_loop W S f (map (\<lambda>(n, q). Arrived n q) (mp_queue h')) s = ([(i, ShutdownReply)], True, s'))"
  using assms by (simp add: submit_def close_begin_def)

section \<open>Witnesses\<close>

text \<open>A server that cannot be reached at first, and loses the first call.\<close>

definition demo_tool :: mcp_tool where
  "demo_tool = \<lparr>mt_name = [97], mt_title = None, mt_description = None, mt_schema = []\<rparr>"

definition demo_answer :: mcp_result where
  "demo_answer = \<lparr>mr_content = [ImageContent [1] [2]], mr_error = False, mr_structured = None\<rparr>"

definition demo_server :: "nat mcp_world" where
  "demo_server =
     \<lparr>mw_open = (\<lambda>w. (if w = 0 then Inl (Exc [] []) else Inr \<lparr>mh_server = [], mh_protocol = [], mh_tools = [demo_tool]\<rparr>, Suc w)),
      mw_list = (\<lambda>w. (Inr [demo_tool], Suc w)), mw_ping = (\<lambda>w. (Inr (), Suc w)),
      mw_call = (\<lambda>name args w. (if w = 2 then Inl (Exc [] []) else Inr demo_answer, Suc w)),
      mw_close = (\<lambda>w. (Inr (), w)), mw_sleep = (\<lambda>d w. w), mw_now = (\<lambda>w. 0)\<rparr>"

definition demo_mcp :: mcp_settings where
  "demo_mcp = \<lparr>ms_attempts = 2, ms_base_delay = 0, ms_max_delay = 0, ms_refresh_interval = 0, ms_call_retries = 1\<rparr>"

definition demo_turns :: "mcp_turn list" where
  "demo_turns = [Arrived 7 (CallRequest (Some [97]) None), Arrived 8 ShutdownRequest]"

abbreviation demo_call :: "pystr \<Rightarrow> arguments \<Rightarrow> unit \<Rightarrow> pyval pyres \<times> unit" where
  "demo_call \<equiv> \<lambda>name args w. (Inr PNone, w)"

lemmas demo_server_simps = owner_task_def connect_with_retries_def connect_once_def disconnect_def logged_def demo_server_def demo_mcp_def
  new_client_def connected_def sync_registry_def set_error_def demo_turns_def handle_call_def call_once_def Let_def is_tool_error_def
  demo_answer_def parse_content_def numeral_2_eq_2 max_def

lemma demo_owner:
  "\<exists>rs c w. owner_task (logged demo_server) demo_mcp demo_call demo_turns (new_client\<lparr>mc_registry := None\<rparr>, (0, [])) = (None, rs, True,
     (c, (w, [OpenEvent False, CloseEvent, OpenEvent True, CallEvent [97] [] False, CloseEvent, OpenEvent True, CallEvent [97] [] True, CloseEvent])))"
  by (simp add: demo_server_simps)

theorem mcp_one_connection_witness:
  "open_after [OpenEvent False, CloseEvent, OpenEvent True, CallEvent [97] [] False, CloseEvent, OpenEvent True, CallEvent [97] [] True, CloseEvent]
     = Some False"
proof -
  from demo_owner obtain rs c w where run: "owner_task (logged demo_server) demo_mcp demo_call demo_turns (new_client\<lparr>mc_registry := None\<rparr>, (0, []))
    = (None, rs, True, (c, (w, [OpenEvent False, CloseEvent, OpenEvent True, CallEvent [97] [] False, CloseEvent, OpenEvent True,
         CallEvent [97] [] True, CloseEvent])))" by blast
  from mcp_one_connection [OF run] show ?thesis by blast
qed



theorem request_after_shutdown_hangs_witness:
  "\<exists>h'. submit 2 PingRequest (close_begin 1 \<lparr>mp_closed = False, mp_owner = Running, mp_startup_error = None, mp_queue = []\<rparr>) = (Inr (), h')
     \<and> mp_queue h' = [(1, ShutdownRequest), (2, PingRequest)]"
proof -
  let ?h = "\<lparr>mp_closed = False, mp_owner = Running, mp_startup_error = None, mp_queue = []\<rparr>"
  have "mp_owner ?h = Running" "\<not> mp_closed ?h" "mp_queue ?h = []" "(1 :: nat) \<noteq> 2" by simp_all
  from request_after_shutdown_hangs [OF this, of PingRequest demo_server demo_mcp demo_call] show ?thesis by blast
qed

end
