(* ===== verification/Llm_Provider.thy ===== *)
theory Llm_Provider
  imports Agent_Models Event_Broker
begin

text \<open>
  \<open>app/llm/openai_compat.py\<close>: the provider that speaks the OpenAI protocol: what it sends, how it
  retries, and how it reads a whole response or a stream of chunks.

  The HTTP client is a parameter: a reply is a transport fault or a status with its text, and for a
  stream its lines and the fault that may cut them off.  The truncation of a float is a parameter
  too.  The texts of pydantic's validation errors are not modelled.
\<close>

section \<open>Python's accessors on what JSON gives\<close>

definition and_then :: "'a pyres \<Rightarrow> ('a \<Rightarrow> 'b pyres) \<Rightarrow> 'b pyres" where
  "and_then r f = (case r of Inl e \<Rightarrow> Inl e | Inr x \<Rightarrow> f x)"

lemma and_then_simps [simp, result_simps]: "and_then (Inl e) f = Inl e" "and_then (Inr x) f = f x"
  by (simp_all add: and_then_def)

lemma and_then_Inr: "and_then r f = Inr y \<longleftrightarrow> (\<exists>x. r = Inr x \<and> f x = Inr y)"
  by (cases r) simp_all

fun type_name :: "pyval \<Rightarrow> pystr" where
  "type_name PNone = py ''NoneType''"
| "type_name (PBool b) = py ''bool''"
| "type_name (PInt i) = py ''int''"
| "type_name (PFloat t) = py ''float''"
| "type_name (PStr s) = py ''str''"
| "type_name (PList xs) = py ''list''"
| "type_name (PTuple xs) = py ''tuple''"
| "type_name (PSet xs) = py ''set''"
| "type_name (PDict kvs) = py ''dict''"
| "type_name (PModel c d s) = c"
| "type_name (PTime c i r) = c"
| "type_name (PExact c s r) = c"
| "type_name (PBytes n r) = py ''bytes''"
| "type_name (PObj c s r) = c"

text \<open>\<open>v.get(key)\<close>; only a dictionary has \<open>get\<close>.\<close>

definition get_key :: "pyval \<Rightarrow> string \<Rightarrow> pyval pyres" where
  "get_key v k =
     (case v of
        PDict d \<Rightarrow> Inr (dget d k)
      | _ \<Rightarrow> raise_exc ''AttributeError'' ([39] @ type_name v @ [39] @ py '' object has no attribute '' @ [39] @ py ''get'' @ [39]))"

text \<open>\<open>v[key]\<close> with a string.\<close>

definition at_key :: "pyval \<Rightarrow> string \<Rightarrow> pyval pyres" where
  "at_key v k =
     (case v of
        PDict d \<Rightarrow> (case dict_get d (py k) of None \<Rightarrow> Inl (key_error (py k)) | Some x \<Rightarrow> Inr x)
      | _ \<Rightarrow> raise_exc ''TypeError'' [])"

text \<open>\<open>v[0]\<close>.\<close>

definition at_first :: "pyval \<Rightarrow> pyval pyres" where
  "at_first v =
     (case v of
        PList (x # xs) \<Rightarrow> Inr x
      | PStr (c # s) \<Rightarrow> Inr (PStr [c])
      | PList [] \<Rightarrow> raise_exc ''IndexError'' []
      | PStr [] \<Rightarrow> raise_exc ''IndexError'' []
      | PDict d \<Rightarrow> raise_exc ''KeyError'' (py ''0'')
      | _ \<Rightarrow> raise_exc ''TypeError'' [])"

text \<open>\<open>v or default\<close>.\<close>

definition or_else :: "pyval \<Rightarrow> pyval \<Rightarrow> pyval" where
  "or_else v d = (if truthy v then v else d)"

definition iterate :: "pyval \<Rightarrow> pyval list pyres" where
  "iterate v =
     (case v of
        PList xs \<Rightarrow> Inr xs
      | PDict d \<Rightarrow> Inr (map (\<lambda>(k, x). PStr k) d)
      | PStr s \<Rightarrow> Inr (map (\<lambda>c. PStr [c]) s)
      | _ \<Rightarrow> raise_exc ''TypeError'' ([39] @ type_name v @ [39] @ py '' object is not iterable''))"

fun py_int :: "(pystr \<Rightarrow> int pyres) \<Rightarrow> pyval \<Rightarrow> int pyres" where
  "py_int trunc (PInt i) = Inr i"
| "py_int trunc (PBool b) = Inr (if b then 1 else 0)"
| "py_int trunc (PFloat t) = trunc t"
| "py_int trunc (PStr s) = int_literal s"
| "py_int trunc v = raise_exc ''TypeError'' (py ''int() argument must be a string, a bytes-like object or a real number, not ''
     @ [39] @ type_name v @ [39])"

definition dict_has :: "pyval \<Rightarrow> string \<Rightarrow> bool" where
  "dict_has v k = (case v of PDict d \<Rightarrow> py k \<in> set (dict_keys d) | _ \<Rightarrow> False)"

definition validation_error :: "'a pyres" where
  "validation_error = raise_exc ''ValidationError'' []"

definition non_negative :: "int \<Rightarrow> nat pyres" where
  "non_negative i = (if 0 \<le> i then Inr (nat i) else validation_error)"

definition optional_text :: "pyval \<Rightarrow> pystr option pyres" where
  "optional_text v = (case v of PNone \<Rightarrow> Inr None | PStr s \<Rightarrow> Inr (Some s) | _ \<Rightarrow> validation_error)"

definition caught :: "string list \<Rightarrow> 'a pyres \<Rightarrow> 'a pyres \<Rightarrow> 'a pyres" where
  "caught classes handler r = (case r of Inl e \<Rightarrow> (if exc_type e \<in> set (map py classes) then handler else r) | Inr x \<Rightarrow> r)"

definition response_error :: "string \<Rightarrow> 'a pyres" where
  "response_error text = raise_exc ''LLMResponseError'' (py text)"

section \<open>The provider\<close>

record provider =
  pv_base_url :: pystr
  pv_api_key :: pystr
  pv_default_model :: pystr
  pv_max_retries :: nat
  pv_base_delay :: rat
  pv_include_usage :: bool

definition rstrip_slash :: "pystr \<Rightarrow> pystr" where
  "rstrip_slash s = rev (dropWhile (\<lambda>c. c = 47) (rev s))"

definition new_provider :: "pystr \<Rightarrow> pystr \<Rightarrow> pystr \<Rightarrow> int \<Rightarrow> rat \<Rightarrow> bool \<Rightarrow> provider pyres" where
  "new_provider base_url api_key model retries delay usage =
     (if strip base_url = [] then raise_exc ''ValueError'' (py ''base_url must not be empty.'')
      else if strip api_key = [] then raise_exc ''ValueError'' (py ''api_key must not be empty.'')
      else if strip model = [] then raise_exc ''ValueError'' (py ''default_model must not be empty.'')
      else if retries < 0 then raise_exc ''ValueError'' (py ''max_retries must not be negative.'')
      else Inr \<lparr>pv_base_url = rstrip_slash base_url, pv_api_key = api_key, pv_default_model = model,
                pv_max_retries = nat retries, pv_base_delay = delay, pv_include_usage = usage\<rparr>)"

definition provider_url :: "provider \<Rightarrow> string \<Rightarrow> pystr" where
  "provider_url P path = pv_base_url P @ py path"

definition provider_headers :: "provider \<Rightarrow> (pystr \<times> pystr) list" where
  "provider_headers P = [(py ''Authorization'', py ''Bearer '' @ pv_api_key P), (py ''Content-Type'', py ''application/json'')]"

definition backoff :: "provider \<Rightarrow> nat \<Rightarrow> rat" where
  "backoff P attempt = pv_base_delay P * 2 ^ attempt"

definition retryable :: "nat \<Rightarrow> bool" where
  "retryable status \<longleftrightarrow> status \<in> {429, 500, 502, 503, 504}"

section \<open>What is sent\<close>

fun role_name :: "chat_role \<Rightarrow> pystr" where
  "role_name RoleSystem = py ''system''"
| "role_name RoleUser = py ''user''"
| "role_name RoleAssistant = py ''assistant''"
| "role_name RoleTool = py ''tool''"

definition optional_field :: "string \<Rightarrow> pystr option \<Rightarrow> (pystr \<times> pyval) list" where
  "optional_field k v = (case v of None \<Rightarrow> [] | Some s \<Rightarrow> (if s = [] then [] else [(py k, PStr s)]))"

definition serialize_call :: "tool_call \<Rightarrow> pyval pyres" where
  "serialize_call c =
     and_then (json_dumps compact_json (PDict (tc_arguments c)))
       (\<lambda>text. Inr (pdict [(''id'', PStr (tc_id c)), (''type'', pstr ''function''),
          (''function'', pdict [(''name'', PStr (tc_name c)), (''arguments'', PStr text)])]))"

definition serialize_message :: "chat_message \<Rightarrow> pyval pyres" where
  "serialize_message m =
     and_then (map_res serialize_call (cm_tool_calls m))
       (\<lambda>calls. Inr (PDict ([(py ''role'', PStr (role_name (cm_role m))),
           (py ''content'', case cm_content m of None \<Rightarrow> PNone | Some s \<Rightarrow> PStr s)]
         @ optional_field ''name'' (cm_name m) @ optional_field ''tool_call_id'' (cm_tool_call_id m)
         @ (if cm_tool_calls m = [] then [] else [(py ''tool_calls'', PList calls)]))))"

definition serialize_messages :: "chat_message list \<Rightarrow> pyval list pyres" where
  "serialize_messages ms = map_res serialize_message ms"

definition tool_payload :: "tool_definition \<Rightarrow> pyval" where
  "tool_payload t = pdict [(''type'', pstr ''function''), (''function'', pdict [(''name'', PStr (fd_name t)),
     (''description'', PStr (fd_description t)), (''parameters'', PDict (fd_parameters t))])]"

definition chat_payload :: "provider \<Rightarrow> bool \<Rightarrow> chat_message list \<Rightarrow> tool_definition list \<Rightarrow> pystr option \<Rightarrow> pyval pyres" where
  "chat_payload P streaming ms tools model =
     and_then (serialize_messages ms)
       (\<lambda>messages. Inr (PDict ([(py ''model'', PStr (case model of None \<Rightarrow> pv_default_model P
             | Some m \<Rightarrow> if m = [] then pv_default_model P else m)),
           (py ''messages'', PList messages), (py ''stream'', PBool streaming)]
         @ (if streaming \<and> pv_include_usage P then [(py ''stream_options'', pdict [(''include_usage'', PBool True)])] else [])
         @ (if tools = [] then [] else [(py ''tools'', PList (map tool_payload tools))]))))"

section \<open>Requests and retries\<close>

datatype http_reply = TransportFault py_exc | Reply nat pystr

datatype stream_reply =
    StreamFault py_exc
  | StreamReply nat "pystr list" "py_exc option" \<comment> \<open>status, lines, the fault that cut the body off\<close>

record 'w http_client =
  hc_post :: "pystr \<Rightarrow> (pystr \<times> pystr) list \<Rightarrow> pyval \<Rightarrow> 'w \<Rightarrow> http_reply \<times> 'w"
  hc_stream :: "pystr \<Rightarrow> (pystr \<times> pystr) list \<Rightarrow> pyval \<Rightarrow> 'w \<Rightarrow> stream_reply \<times> 'w"
  hc_sleep :: "rat \<Rightarrow> 'w \<Rightarrow> 'w"

definition read_body :: "nat \<Rightarrow> pystr \<Rightarrow> (pystr \<times> pyval) list pyres" where
  "read_body status text =
     (if 400 \<le> status \<and> status < 600 then
        raise_exc ''LLMResponseError'' (py ''Model provider returned HTTP '' @ str_nat status @ py '': '' @ take 2000 text)
      else case loads text of
        None \<Rightarrow> response_error ''Model provider returned invalid JSON.''
      | Some (PDict d) \<Rightarrow> Inr d
      | Some v \<Rightarrow> response_error ''Model provider returned an invalid response body.'')"

fun post_attempts ::
  "'w http_client \<Rightarrow> provider \<Rightarrow> string \<Rightarrow> pyval \<Rightarrow> nat \<Rightarrow> nat \<Rightarrow> 'w \<Rightarrow> (pystr \<times> pyval) list pyres \<times> 'w" where
  "post_attempts C P path payload attempt 0 w = (raise_exc ''AssertionError'' (py ''LLM retry loop exited unexpectedly.''), w)"
| "post_attempts C P path payload attempt (Suc left) w =
     (case hc_post C (provider_url P path) (provider_headers P) payload w of
        (TransportFault e, w1) \<Rightarrow>
          (if pv_max_retries P \<le> attempt then (Inl e, w1)
           else post_attempts C P path payload (Suc attempt) left (hc_sleep C (backoff P attempt) w1))
      | (Reply status text, w1) \<Rightarrow>
          (if retryable status \<and> attempt < pv_max_retries P
           then post_attempts C P path payload (Suc attempt) left (hc_sleep C (backoff P attempt) w1)
           else (read_body status text, w1)))"

definition request_json :: "'w http_client \<Rightarrow> provider \<Rightarrow> string \<Rightarrow> pyval \<Rightarrow> 'w \<Rightarrow> (pystr \<times> pyval) list pyres \<times> 'w" where
  "request_json C P path payload w = post_attempts C P path payload 0 (Suc (pv_max_retries P)) w"

section \<open>A whole response\<close>

definition parse_tool_call :: "pyval \<Rightarrow> tool_call pyres" where
  "parse_tool_call raw =
     caught [''KeyError'', ''TypeError'', ''JSONDecodeError''] (response_error ''Invalid tool call response.'')
       (and_then (at_key raw ''function'') (\<lambda>function.
        and_then (get_key function ''arguments'') (\<lambda>raw_arguments.
        and_then (case or_else raw_arguments (pstr ''{}'') of
                    PStr s \<Rightarrow> (case loads s of None \<Rightarrow> raise_exc ''JSONDecodeError'' [] | Some v \<Rightarrow> Inr v)
                  | _ \<Rightarrow> raise_exc ''TypeError'' []) (\<lambda>arguments.
        (case arguments of
           PDict d \<Rightarrow>
             and_then (at_key raw ''id'') (\<lambda>i.
             and_then (at_key function ''name'') (\<lambda>name.
               Inr \<lparr>tc_id = py_str i, tc_name = py_str name, tc_arguments = d\<rparr>))
         | _ \<Rightarrow> response_error ''Tool call arguments must be a JSON object.'')))))"

definition parse_tool_calls :: "pyval \<Rightarrow> tool_call list pyres" where
  "parse_tool_calls raw = and_then (iterate raw) (map_res parse_tool_call)"

definition parse_usage :: "(pystr \<Rightarrow> int pyres) \<Rightarrow> pyval \<Rightarrow> token_usage pyres" where
  "parse_usage trunc usage =
     and_then (get_key usage ''prompt_tokens'') (\<lambda>p.
     and_then (py_int trunc (if dict_has usage ''prompt_tokens'' then p else PInt 0)) (\<lambda>i.
     and_then (get_key usage ''completion_tokens'') (\<lambda>q.
     and_then (py_int trunc (if dict_has usage ''completion_tokens'' then q else PInt 0)) (\<lambda>j.
     and_then (non_negative i) (\<lambda>i.
     and_then (non_negative j) (\<lambda>j. Inr \<lparr>input_tokens = i, output_tokens = j\<rparr>))))))"

definition parse_response :: "(pystr \<Rightarrow> int pyres) \<Rightarrow> (pystr \<times> pyval) list \<Rightarrow> llm_response pyres" where
  "parse_response trunc data =
     and_then (caught [''KeyError'', ''IndexError'', ''TypeError''] (response_error ''Invalid chat completion response.'')
       (and_then (at_key (PDict data) ''choices'') (\<lambda>choices.
        and_then (at_first choices) (\<lambda>choice.
        and_then (at_key choice ''message'') (\<lambda>message. Inr (choice, message))))))
     (\<lambda>(choice, message).
       and_then (get_key message ''content'') (\<lambda>content.
       and_then (get_key message ''tool_calls'') (\<lambda>raw.
       and_then (parse_tool_calls (or_else raw (PList []))) (\<lambda>calls.
       and_then (parse_usage trunc (or_else (dget data ''usage'') (PDict []))) (\<lambda>usage.
       and_then (get_key choice ''finish_reason'') (\<lambda>finish.
       and_then (optional_text content) (\<lambda>content.
       and_then (optional_text finish) (\<lambda>finish.
         Inr \<lparr>lr_content = content, lr_tool_calls = calls, lr_usage = usage, lr_finish_reason = finish\<rparr>))))))))"

definition provider_chat ::
  "(pystr \<Rightarrow> int pyres) \<Rightarrow> 'w http_client \<Rightarrow> provider \<Rightarrow> chat_message list \<Rightarrow> tool_definition list \<Rightarrow> pystr option \<Rightarrow> 'w \<Rightarrow>
   llm_response pyres \<times> 'w" where
  "provider_chat trunc C P ms tools model w =
     (case chat_payload P False ms tools model of
        Inl e \<Rightarrow> (Inl e, w)
      | Inr payload \<Rightarrow>
          (case request_json C P ''/chat/completions'' payload w of
             (Inl e, w1) \<Rightarrow> (Inl e, w1)
           | (Inr data, w1) \<Rightarrow> (parse_response trunc data, w1)))"

section \<open>A stream of chunks\<close>

definition text_event :: "pystr \<Rightarrow> stream_event" where
  "text_event s = (stream_event TextDeltaT)\<lparr>se_content_delta := Some s\<rparr>"

definition usage_event :: "token_usage \<Rightarrow> stream_event" where
  "usage_event u = (stream_event UsageT)\<lparr>se_usage := Some u\<rparr>"

definition call_event :: "tool_call_delta \<Rightarrow> stream_event" where
  "call_event d = (stream_event ToolCallDeltaT)\<lparr>se_tool_call_delta := Some d\<rparr>"

definition finish_event :: "pystr \<Rightarrow> stream_event" where
  "finish_event s = (stream_event FinishT)\<lparr>se_finish_reason := Some s\<rparr>"

definition parse_call_delta :: "(pystr \<Rightarrow> int pyres) \<Rightarrow> pyval \<Rightarrow> stream_event pyres" where
  "parse_call_delta trunc call =
     and_then (get_key call ''function'') (\<lambda>function.
     and_then (get_key call ''index'') (\<lambda>index.
     and_then (py_int trunc (if dict_has call ''index'' then index else PInt 0)) (\<lambda>i.
     and_then (get_key call ''id'') (\<lambda>ident.
     and_then (get_key (or_else function (PDict [])) ''name'') (\<lambda>name.
     and_then (get_key (or_else function (PDict [])) ''arguments'') (\<lambda>arguments.
     and_then (non_negative i) (\<lambda>i.
     and_then (optional_text ident) (\<lambda>ident.
     and_then (optional_text name) (\<lambda>name.
     and_then (optional_text arguments) (\<lambda>arguments.
       Inr (call_event \<lparr>td_index = i, td_id = ident, td_name = name, td_arguments_delta = arguments\<rparr>)))))))))))"

definition parse_delta :: "(pystr \<Rightarrow> int pyres) \<Rightarrow> pyval \<Rightarrow> pyval \<Rightarrow> stream_event option pyres" where
  "parse_delta trunc choice delta =
     and_then (get_key delta ''content'') (\<lambda>content.
     if truthy content then Inr (Some (text_event (py_str content)))
     else and_then (get_key delta ''tool_calls'') (\<lambda>raw.
       if truthy raw then and_then (at_first raw) (\<lambda>call. and_then (parse_call_delta trunc call) (\<lambda>e. Inr (Some e)))
       else and_then (get_key choice ''finish_reason'') (\<lambda>finish.
         Inr (if truthy finish then Some (finish_event (py_str finish)) else None))))"

text \<open>One chunk gives at most one event: usage first, then content, the first call, the end.\<close>

definition parse_chunk :: "(pystr \<Rightarrow> int pyres) \<Rightarrow> pyval \<Rightarrow> stream_event option pyres" where
  "parse_chunk trunc payload =
     and_then (get_key payload ''usage'') (\<lambda>usage.
     if truthy usage then and_then (parse_usage trunc usage) (\<lambda>u. Inr (Some (usage_event u)))
     else
       (case and_then (at_key payload ''choices'') at_first of
          Inl e \<Rightarrow> Inr None
        | Inr choice \<Rightarrow>
            and_then (get_key choice ''delta'') (\<lambda>raw. parse_delta trunc choice (or_else raw (PDict [])))))"

definition parse_stream_chunk :: "(pystr \<Rightarrow> int pyres) \<Rightarrow> pystr \<Rightarrow> stream_event option pyres" where
  "parse_stream_chunk trunc data = (case loads data of None \<Rightarrow> Inr None | Some payload \<Rightarrow> parse_chunk trunc payload)"

datatype line_end = SawDone | Exhausted | Broke py_exc

text \<open>Whether a chunk was seen, the events, and why reading stopped.\<close>

fun read_lines :: "(pystr \<Rightarrow> int pyres) \<Rightarrow> pystr list \<Rightarrow> bool \<times> stream_event list \<times> line_end" where
  "read_lines trunc [] = (False, [], Exhausted)"
| "read_lines trunc (line # rest) =
     (let data = strip (drop 5 line)
      in if take 5 line \<noteq> py ''data:'' \<or> data = [] then read_lines trunc rest
         else if data = py ''[DONE]'' then (False, [], SawDone)
         else case parse_stream_chunk trunc data of
           Inl e \<Rightarrow> (True, [], Broke e)
         | Inr event \<Rightarrow>
             (case read_lines trunc rest of
                (emitted, es, ending) \<Rightarrow> (True, (case event of None \<Rightarrow> [] | Some e \<Rightarrow> [e]) @ es, ending)))"

definition status_error :: "nat \<Rightarrow> py_exc" where
  "status_error status = Exc (py ''HTTPStatusError'') (str_nat status)"

text \<open>The events an attempt yields; then it is over, or it failed and may be tried again.\<close>

datatype attempt_end = Finished | Failed py_exc | Again py_exc

definition read_attempt :: "(pystr \<Rightarrow> int pyres) \<Rightarrow> bool \<Rightarrow> stream_reply \<Rightarrow> bool \<times> stream_event list \<times> attempt_end" where
  "read_attempt trunc final reply =
     (case reply of
        StreamFault e \<Rightarrow> (False, [], Again e)
      | StreamReply status lines fault \<Rightarrow>
          (if retryable status \<and> \<not> final then
             (False, [], Again (case fault of Some e \<Rightarrow> e | None \<Rightarrow> status_error status))
           else if retryable status \<and> fault \<noteq> None then (False, [], Again (the fault))
           else if \<not> (200 \<le> status \<and> status < 300) then (False, [], Failed (status_error status))
           else case read_lines trunc lines of
             (emitted, es, ending) \<Rightarrow>
               (emitted, es, (case ending of
                  SawDone \<Rightarrow> Finished
                | Broke e \<Rightarrow> Failed e
                | Exhausted \<Rightarrow> (case fault of None \<Rightarrow> Finished | Some e \<Rightarrow> Again e)))))"

fun stream_attempts ::
  "(pystr \<Rightarrow> int pyres) \<Rightarrow> 'w http_client \<Rightarrow> provider \<Rightarrow> pyval \<Rightarrow> bool \<Rightarrow> nat \<Rightarrow> nat \<Rightarrow> 'w \<Rightarrow> stream_event list \<times> py_exc option \<times> 'w" where
  "stream_attempts trunc C P payload emitted attempt 0 w = ([], None, w)"
| "stream_attempts trunc C P payload emitted attempt (Suc left) w =
     (case hc_stream C (provider_url P ''/chat/completions'') (provider_headers P) payload w of
        (reply, w1) \<Rightarrow>
          (case read_attempt trunc (pv_max_retries P \<le> attempt) reply of
             (read, es, Finished) \<Rightarrow> (es, None, w1)
           | (read, es, Failed e) \<Rightarrow> (es, Some e, w1)
           | (read, es, Again e) \<Rightarrow>
               (if emitted \<or> read \<or> pv_max_retries P \<le> attempt then (es, Some e, w1)
                else (case stream_attempts trunc C P payload (emitted \<or> read) (Suc attempt) left (hc_sleep C (backoff P attempt) w1) of
                        (es', err, w2) \<Rightarrow> (es @ es', err, w2)))))"

definition provider_stream ::
  "(pystr \<Rightarrow> int pyres) \<Rightarrow> 'w http_client \<Rightarrow> provider \<Rightarrow> chat_message list \<Rightarrow> tool_definition list \<Rightarrow> pystr option \<Rightarrow> 'w \<Rightarrow>
   stream_event list \<times> py_exc option \<times> 'w" where
  "provider_stream trunc C P ms tools model w =
     (case chat_payload P True ms tools model of
        Inl e \<Rightarrow> ([], Some e, w)
      | Inr payload \<Rightarrow> stream_attempts trunc C P payload False 0 (Suc (pv_max_retries P)) w)"

section \<open>Embeddings\<close>

record embedding_result =
  er_model :: pystr
  er_embeddings :: "pystr list list"
  er_usage :: token_usage

text \<open>\<open>float(value)\<close> is a parameter; the result is its \<open>repr\<close>.\<close>

definition parse_embeddings :: "(pyval \<Rightarrow> pystr pyres) \<Rightarrow> (pystr \<times> pyval) list \<Rightarrow> pystr list list pyres" where
  "parse_embeddings to_float data =
     caught [''KeyError'', ''TypeError'', ''ValueError''] (response_error ''Invalid embedding response.'')
       (and_then (at_key (PDict data) ''data'') (\<lambda>items.
        and_then (iterate items) (map_res (\<lambda>item.
          and_then (at_key item ''embedding'') (\<lambda>values. and_then (iterate values) (map_res to_float))))))"

definition provider_embed ::
  "(pystr \<Rightarrow> int pyres) \<Rightarrow> (pyval \<Rightarrow> pystr pyres) \<Rightarrow> 'w http_client \<Rightarrow> provider \<Rightarrow> pystr list \<Rightarrow> pystr option \<Rightarrow> 'w \<Rightarrow>
   embedding_result pyres \<times> 'w" where
  "provider_embed trunc to_float C P texts model w =
     (let name = (case model of None \<Rightarrow> pv_default_model P | Some m \<Rightarrow> if m = [] then pv_default_model P else m)
      in if texts = [] then (Inr \<lparr>er_model = name, er_embeddings = [], er_usage = usage_zero\<rparr>, w)
         else case request_json C P ''/embeddings'' (pdict [(''model'', PStr name), (''input'', PList (map PStr texts))]) w of
           (Inl e, w1) \<Rightarrow> (Inl e, w1)
         | (Inr data, w1) \<Rightarrow>
             (and_then (parse_embeddings to_float data) (\<lambda>vectors.
                let usage = or_else (dget data ''usage'') (PDict [])
                in and_then (get_key usage ''prompt_tokens'') (\<lambda>p.
                   and_then (py_int trunc (if dict_has usage ''prompt_tokens'' then p else PInt 0)) (\<lambda>i.
                   and_then (non_negative i) (\<lambda>i.
                     Inr \<lparr>er_model = py_str (or_else (dget data ''model'') (PStr name)), er_embeddings = vectors,
                          er_usage = \<lparr>input_tokens = i, output_tokens = 0\<rparr>\<rparr>)))), w1))"

end
