(* ===== verification/Llm_Properties.thy ===== *)
theory Llm_Properties
  imports Llm_Provider Agent_Loop
begin

text \<open>
  What the provider guarantees: tool calls survive being sent and read back, the number of requests
  is bounded, a stream is never replayed, and a streamed response is the response a whole body
  would have given; and where it loses data.
\<close>

section \<open>Tool calls round trip\<close>

lemma dget_pdict [simp]: "dget [] k = PNone"
  "dget ((py k', v) # d) k = (if k' = k then v else dget d k)"
  by (simp_all add: dget_def)

lemma json_dumps_ok: "json_ok v \<Longrightarrow> json_dumps compact_json v = Inr (dumps compact_json v)"
  by (simp add: json_dumps_def not_json_ok)

lemma parse_serialized_call:
  assumes "json_ok (PDict (tc_arguments c))"
  shows "\<exists>raw. serialize_call c = Inr raw \<and> parse_tool_call raw = Inr c"
proof -
  let ?text = "dumps compact_json (PDict (tc_arguments c))"
  have ne: "?text \<noteq> []" using length_dumps_pos [OF assms, of compact_json] by auto
  have l: "loads ?text = Some (PDict (tc_arguments c))" by (rule loads_dumps [OF _ assms]) simp
  let ?raw = "pdict [(''id'', PStr (tc_id c)), (''type'', pstr ''function''),
      (''function'', pdict [(''name'', PStr (tc_name c)), (''arguments'', PStr ?text)])]"
  have "serialize_call c = Inr ?raw" using json_dumps_ok [OF assms] by (simp add: serialize_call_def)
  moreover have "parse_tool_call ?raw = Inr c"
    using ne l by (simp add: parse_tool_call_def caught_def at_key_def get_key_def or_else_def)
  ultimately show ?thesis by blast
qed

lemma parse_serialized_calls:
  "\<forall>c \<in> set calls. json_ok (PDict (tc_arguments c)) \<Longrightarrow>
   \<exists>raws. map_res serialize_call calls = Inr raws \<and> map_res parse_tool_call raws = Inr calls"
proof (induction calls)
  case (Cons c calls)
  then obtain raws where "map_res serialize_call calls = Inr raws" "map_res parse_tool_call raws = Inr calls" by auto
  moreover obtain raw where "serialize_call c = Inr raw" "parse_tool_call raw = Inr c"
    using parse_serialized_call Cons.prems by auto
  ultimately show ?case by simp
qed simp

text \<open>
  Tool calls round trip: the calls of an assistant's message, as it is sent back to the
  provider, read back as the same calls, for all arguments JSON can carry.
\<close>

theorem tool_calls_round_trip:
  assumes "\<forall>c \<in> set (cm_tool_calls m). json_ok (PDict (tc_arguments c))" and "cm_tool_calls m \<noteq> []"
  shows "\<exists>d raw. serialize_message m = Inr (PDict d) \<and> dict_get d (py ''tool_calls'') = Some raw
     \<and> parse_tool_calls raw = Inr (cm_tool_calls m)"
proof -
  obtain raws where r: "map_res serialize_call (cm_tool_calls m) = Inr raws" "map_res parse_tool_call raws = Inr (cm_tool_calls m)"
    using parse_serialized_calls [OF assms(1)] by blast
  show ?thesis using r assms(2)
    by (auto simp: serialize_message_def optional_field_def parse_tool_calls_def iterate_def split: option.split)
qed

section \<open>Requests\<close>

text \<open>The same client, writing down the replies it gave.\<close>

definition logged_client :: "'w http_client \<Rightarrow> ('w \<times> http_reply list \<times> stream_reply list) http_client" where
  "logged_client C =
     \<lparr>hc_post = (\<lambda>url headers body (w, ps, ss). case hc_post C url headers body w of (r, w') \<Rightarrow> (r, (w', ps @ [r], ss))),
      hc_stream = (\<lambda>url headers body (w, ps, ss). case hc_stream C url headers body w of (r, w') \<Rightarrow> (r, (w', ps, ss @ [r]))),
      hc_sleep = (\<lambda>d (w, ps, ss). (hc_sleep C d w, ps, ss))\<rparr>"

definition reply_result :: "http_reply \<Rightarrow> (pystr \<times> pyval) list pyres" where
  "reply_result r = (case r of TransportFault e \<Rightarrow> Inl e | Reply status text \<Rightarrow> read_body status text)"

definition worth_retrying :: "http_reply \<Rightarrow> bool" where
  "worth_retrying r \<longleftrightarrow> (case r of TransportFault e \<Rightarrow> True | Reply status text \<Rightarrow> retryable status)"

lemma post_attempts_replies:
  "attempt + left = Suc (pv_max_retries P) \<Longrightarrow> 0 < left \<Longrightarrow>
   post_attempts (logged_client C) P path payload attempt left (w, ps, ss) = (r, (w', ps', ss')) \<Longrightarrow>
   \<exists>failed last. ps' = ps @ failed @ [last] \<and> ss' = ss \<and> length failed < left \<and> list_all worth_retrying failed \<and> r = reply_result last
     \<and> (worth_retrying last \<longrightarrow> length failed = left - 1)"
proof (induction left arbitrary: attempt w ps r w' ps' ss')
  case (Suc left)
  obtain reply w1 where p: "hc_post C (provider_url P path) (provider_headers P) payload w = (reply, w1)"
    by (meson surj_pair)
  let ?retry = "worth_retrying reply \<and> attempt < pv_max_retries P"
  show ?case
  proof (cases ?retry)
    case True
    with Suc.prems p have run: "post_attempts (logged_client C) P path payload (Suc attempt) left (hc_sleep C (backoff P attempt) w1, ps @ [reply], ss)
        = (r, (w', ps', ss'))"
      by (auto simp: logged_client_def worth_retrying_def split: http_reply.splits)
    have "Suc attempt + left = Suc (pv_max_retries P)" "0 < left" using Suc.prems(1) True by simp_all
    from Suc.IH [OF this run] obtain failed last where l: "ps' = (ps @ [reply]) @ failed @ [last]" "ss' = ss" "length failed < left"
      "list_all worth_retrying failed" "r = reply_result last" "worth_retrying last \<longrightarrow> length failed = left - 1" by blast
    show ?thesis by (rule exI [of _ "reply # failed"], rule exI [of _ last]) (use l True \<open>0 < left\<close> in auto)
  next
    case False
    have out: "r = reply_result reply \<and> ps' = ps @ [reply] \<and> ss' = ss"
    proof (cases reply)
      case (TransportFault e)
      with False have "pv_max_retries P \<le> attempt" by (simp add: worth_retrying_def)
      with TransportFault Suc.prems(3) p show ?thesis by (auto simp: logged_client_def reply_result_def)
    next
      case (Reply status body)
      with False have "\<not> (retryable status \<and> attempt < pv_max_retries P)" by (simp add: worth_retrying_def)
      with Reply Suc.prems(3) p show ?thesis by (auto simp: logged_client_def reply_result_def)
    qed
    have "worth_retrying reply \<longrightarrow> left = 0" using False Suc.prems(1) by auto
    then show ?thesis by (intro exI [of _ "[]"] exI [of _ reply]) (use out in simp)
  qed
qed simp

text \<open>
  Requests: a request is sent again only after a transport fault or a retryable status, at most
  the configured number of times; the result is that of the last reply, and an attempt that is left
  is never wasted on a final reply.
\<close>

theorem requests_bounded:
  assumes "request_json (logged_client C) P path payload (w, [], []) = (r, (w', replies, streams))"
  shows "\<exists>failed last. replies = failed @ [last] \<and> length failed \<le> pv_max_retries P \<and> list_all worth_retrying failed
     \<and> r = reply_result last \<and> (worth_retrying last \<longrightarrow> length failed = pv_max_retries P)"
  using post_attempts_replies [OF _ _ assms [unfolded request_json_def]] by fastforce

section \<open>Streams\<close>

definition reply_events :: "(pystr \<Rightarrow> int pyres) \<Rightarrow> stream_reply \<Rightarrow> stream_event list" where
  "reply_events trunc r =
     (case r of
        StreamFault e \<Rightarrow> []
      | StreamReply status lines fault \<Rightarrow> (if 200 \<le> status \<and> status < 300 then fst (snd (read_lines trunc lines)) else []))"

definition reply_emitted :: "(pystr \<Rightarrow> int pyres) \<Rightarrow> stream_reply \<Rightarrow> bool" where
  "reply_emitted trunc r =
     (case r of
        StreamFault e \<Rightarrow> False
      | StreamReply status lines fault \<Rightarrow> 200 \<le> status \<and> status < 300 \<and> fst (read_lines trunc lines))"

lemma retryable_not_ok: "retryable status \<Longrightarrow> \<not> (200 \<le> status \<and> status < 300)"
  by (auto simp: retryable_def)

lemma read_attempt_events:
  "read_attempt trunc final reply = (seen, es, ending) \<Longrightarrow> es = reply_events trunc reply \<and> (seen \<longleftrightarrow> reply_emitted trunc reply)"
  using retryable_not_ok
  by (auto simp: read_attempt_def reply_events_def reply_emitted_def split: stream_reply.splits if_splits prod.splits)

lemma read_lines_emitted: "\<not> fst (read_lines trunc ls) \<Longrightarrow> fst (snd (read_lines trunc ls)) = []"
  by (induction trunc ls rule: read_lines.induct) (auto simp: Let_def split: if_splits sum.splits prod.splits)

lemma not_emitted: "\<not> reply_emitted trunc r \<Longrightarrow> reply_events trunc r = []"
  using read_lines_emitted by (auto simp: reply_emitted_def reply_events_def split: stream_reply.splits)

lemma stream_attempts_replies:
  "attempt + left = Suc (pv_max_retries P) \<Longrightarrow> 0 < left \<Longrightarrow>
   stream_attempts trunc (logged_client C) P payload False attempt left (w, ps, ss) = (es, err, (w', ps', ss')) \<Longrightarrow>
   \<exists>failed last. ss' = ss @ failed @ [last] \<and> length failed < left \<and> (\<forall>r \<in> set failed. \<not> reply_emitted trunc r)
     \<and> es = reply_events trunc last"
proof (induction left arbitrary: attempt w ss es err w' ps' ss')
  case (Suc left)
  obtain reply w1 where p: "hc_stream C (provider_url P ''/chat/completions'') (provider_headers P) payload w = (reply, w1)"
    by (meson surj_pair)
  obtain seen es1 ending where a: "read_attempt trunc (pv_max_retries P \<le> attempt) reply = (seen, es1, ending)" by (metis prod_cases3)
  note ev = read_attempt_events [OF a]
  show ?case
  proof (cases "(\<exists>e. ending = Again e) \<and> \<not> seen \<and> attempt < pv_max_retries P")
    case True
    then obtain e where e: "ending = Again e" "\<not> seen" "attempt < pv_max_retries P" by blast
    then have none: "es1 = []" "\<not> reply_emitted trunc reply" using ev not_emitted by auto
    obtain es2 err2 w2 ps2 ss2 where run: "stream_attempts trunc (logged_client C) P payload False (Suc attempt) left
        (hc_sleep C (backoff P attempt) w1, ps, ss @ [reply]) = (es2, err2, (w2, ps2, ss2))" by (metis prod_cases5)
    have eq: "es = es2" "(w', ps', ss') = (w2, ps2, ss2)"
      using Suc.prems(3) p a e none run by (auto simp: logged_client_def)
    have "Suc attempt + left = Suc (pv_max_retries P)" "0 < left" using Suc.prems(1) e by simp_all
    from Suc.IH [OF this run [folded eq(1)]] eq obtain failed last where l: "ss' = (ss @ [reply]) @ failed @ [last]" "length failed < left"
      "\<forall>r \<in> set failed. \<not> reply_emitted trunc r" "es = reply_events trunc last" by auto
    show ?thesis by (rule exI [of _ "reply # failed"], rule exI [of _ last]) (use l none in auto)
  next
    case False
    have "es = es1 \<and> ss' = ss @ [reply]"
      using Suc.prems(3) p a False by (auto simp: logged_client_def split: attempt_end.splits if_splits)
    with ev show ?thesis by (intro exI [of _ "[]"] exI [of _ reply]) simp
  qed
qed simp

text \<open>
  A stream is never replayed: whatever faults happen, the events a caller sees are those of one
  single reply, in order; the replies before it had not given a chunk yet, and there are at most the
  configured number of them.
\<close>

theorem stream_is_one_reply:
  assumes "provider_stream trunc (logged_client C) P ms tools model (w, [], []) = (es, err, (w', ps, replies))"
    and "replies \<noteq> []"
  shows "\<exists>failed last. replies = failed @ [last] \<and> length failed \<le> pv_max_retries P
     \<and> (\<forall>r \<in> set failed. \<not> reply_emitted trunc r) \<and> es = reply_events trunc last"
proof -
  from assms obtain payload where
    run: "stream_attempts trunc (logged_client C) P payload False 0 (Suc (pv_max_retries P)) (w, [], []) = (es, err, (w', ps, replies))"
    by (auto simp: provider_stream_def split: sum.splits)
  from stream_attempts_replies [OF _ _ run] show ?thesis by fastforce
qed

section \<open>A streamed response is the whole response\<close>

text \<open>The chunks a server sends, and the body it would have sent instead.\<close>

definition delta_chunk :: "pyval \<Rightarrow> pyval" where
  "delta_chunk delta = pdict [(''choices'', PList [pdict [(''delta'', delta)]])]"

definition content_chunk :: "pystr \<Rightarrow> pyval" where
  "content_chunk s = delta_chunk (pdict [(''content'', PStr s)])"

definition optional_value :: "pystr option \<Rightarrow> pyval" where
  "optional_value v = (case v of None \<Rightarrow> PNone | Some s \<Rightarrow> PStr s)"

definition call_chunk :: "tool_call_delta \<Rightarrow> pyval" where
  "call_chunk d = delta_chunk (pdict [(''tool_calls'', PList [pdict [(''index'', PInt (int (td_index d))), (''id'', optional_value (td_id d)),
     (''function'', pdict [(''name'', optional_value (td_name d)), (''arguments'', optional_value (td_arguments_delta d))])]])])"

definition finish_chunk :: "pystr \<Rightarrow> pyval" where
  "finish_chunk f = pdict [(''choices'', PList [pdict [(''delta'', PDict []), (''finish_reason'', PStr f)]])]"

definition usage_value :: "token_usage \<Rightarrow> pyval" where
  "usage_value u = pdict [(''prompt_tokens'', PInt (int (input_tokens u))), (''completion_tokens'', PInt (int (output_tokens u)))]"

definition usage_chunk :: "token_usage \<Rightarrow> pyval" where
  "usage_chunk u = pdict [(''choices'', PList []), (''usage'', usage_value u)]"

text \<open>A call announced with its identifier and name, its arguments' text cut into pieces.\<close>

definition call_deltas :: "nat \<times> tool_call \<times> pystr list \<Rightarrow> tool_call_delta list" where
  "call_deltas = (\<lambda>(i, c, pieces). \<lparr>td_index = i, td_id = Some (tc_id c), td_name = Some (tc_name c), td_arguments_delta = None\<rparr>
     # map (\<lambda>p. \<lparr>td_index = i, td_id = None, td_name = None, td_arguments_delta = Some p\<rparr>) pieces)"

definition response_chunks :: "pystr list \<Rightarrow> (tool_call \<times> pystr list) list \<Rightarrow> pystr \<Rightarrow> token_usage \<Rightarrow> pyval list" where
  "response_chunks ts calls f u = map content_chunk ts @ map call_chunk (concat (map call_deltas (enumerate 0 calls))) @ [finish_chunk f, usage_chunk u]"

definition response_body :: "pystr option \<Rightarrow> pyval list \<Rightarrow> pystr \<Rightarrow> token_usage \<Rightarrow> (pystr \<times> pyval) list" where
  "response_body content raws f u =
     [(py ''choices'', PList [pdict [(''message'', pdict [(''content'', optional_value content), (''tool_calls'', PList raws)]), (''finish_reason'', PStr f)]]),
      (py ''usage'', usage_value u)]"

lemmas chunk_simps = parse_chunk_def parse_delta_def get_key_def at_key_def at_first_def or_else_def dict_has_def

lemma parse_usage_value: "parse_usage trunc (usage_value u) = Inr u"
  by (simp add: parse_usage_def usage_value_def get_key_def dict_has_def non_negative_def)

lemma optional_text_value [simp]: "optional_text (optional_value v) = Inr v"
  by (simp add: optional_text_def optional_value_def split: option.split)

lemma parse_content_chunk: "s \<noteq> [] \<Longrightarrow> parse_chunk trunc (content_chunk s) = Inr (Some (text_event s))"
  by (simp add: chunk_simps content_chunk_def delta_chunk_def)

lemma parse_call_chunk: "parse_chunk trunc (call_chunk d) = Inr (Some (call_event d))"
  by (cases d) (simp add: chunk_simps call_chunk_def delta_chunk_def parse_call_delta_def non_negative_def)

lemma parse_finish_chunk: "f \<noteq> [] \<Longrightarrow> parse_chunk trunc (finish_chunk f) = Inr (Some (finish_event f))"
  by (simp add: chunk_simps finish_chunk_def)

lemma parse_usage_chunk: "parse_chunk trunc (usage_chunk u) = Inr (Some (usage_event u))"
proof -
  have "truthy (usage_value u)" by (simp add: usage_value_def)
  then show ?thesis by (simp add: parse_chunk_def usage_chunk_def get_key_def parse_usage_value)
qed

definition response_events :: "pystr list \<Rightarrow> (tool_call \<times> pystr list) list \<Rightarrow> pystr \<Rightarrow> token_usage \<Rightarrow> stream_event list" where
  "response_events ts calls f u = map text_event ts @ map call_event (concat (map call_deltas (enumerate 0 calls))) @ [finish_event f, usage_event u]"

lemma parse_response_chunks:
  assumes "\<forall>t \<in> set ts. t \<noteq> []" and "f \<noteq> []"
  shows "list_all2 (\<lambda>c e. parse_chunk trunc c = Inr (Some e)) (response_chunks ts calls f u) (response_events ts calls f u)"
  using assms unfolding response_chunks_def response_events_def
  by (auto intro!: list_all2_appendI simp: list_all2_map1 list_all2_map2 list_all2_same parse_content_chunk parse_call_chunk
      parse_finish_chunk parse_usage_chunk)

text \<open>Lines that carry chunks are read as the events of the chunks.\<close>

definition carries :: "pystr \<Rightarrow> pyval \<Rightarrow> bool" where
  "carries line chunk \<longleftrightarrow> take 5 line = py ''data:'' \<and> loads (strip (drop 5 line)) = Some chunk"

lemma loads_special: "loads [] = None" "loads (py ''[DONE]'') = None"
  by (code_simp, code_simp)

lemma read_carried_lines:
  assumes "list_all2 carries lines chunks" and "list_all2 (\<lambda>c e. parse_chunk trunc c = Inr (Some e)) chunks es"
  shows "snd (read_lines trunc (lines @ [py ''data: [DONE]''])) = (es, SawDone)"
  using assms
proof (induction lines arbitrary: chunks es)
  case Nil
  have "strip (drop 5 (py ''data: [DONE]'')) = py ''[DONE]''" "take 5 (py ''data: [DONE]'') = py ''data:''" by code_simp+
  with Nil show ?case by simp
next
  case (Cons line lines)
  from Cons.prems obtain c cs e es' where eq: "chunks = c # cs" "es = e # es'" and c: "carries line c" "parse_chunk trunc c = Inr (Some e)"
    and rest: "list_all2 carries lines cs" "list_all2 (\<lambda>c e. parse_chunk trunc c = Inr (Some e)) cs es'"
    by (auto simp: list_all2_Cons1)
  from c(1) have "strip (drop 5 line) \<noteq> []" "strip (drop 5 line) \<noteq> py ''[DONE]''" "take 5 line = py ''data:''"
    using loads_special by (auto simp: carries_def)
  moreover have "parse_stream_chunk trunc (strip (drop 5 line)) = Inr (Some e)" using c by (simp add: parse_stream_chunk_def carries_def)
  ultimately show ?case using Cons.IH [OF rest] eq by (auto simp: Let_def split: prod.split)
qed

lemma stream_steps_append:
  "stream_steps (es @ fs) a = (fst (stream_steps es a) @ fst (stream_steps fs (snd (stream_steps es a))), snd (stream_steps fs (snd (stream_steps es a))))"
  by (induction es arbitrary: a) (auto simp: Let_def case_prod_unfold)

lemma stream_texts: "\<forall>t \<in> set ts. t \<noteq> [] \<Longrightarrow> snd (stream_steps (map text_event ts) a) = a\<lparr>sa_text := sa_text a @ ts\<rparr>"
  by (induction ts arbitrary: a) (auto simp: stream_step_def text_event_def stream_event_def Let_def case_prod_unfold)

lemma stream_calls: "snd (stream_steps (map call_event ds) a) = a\<lparr>sa_parts := fold part_delta ds (sa_parts a)\<rparr>"
  by (induction ds arbitrary: a) (auto simp: stream_step_def call_event_def stream_event_def Let_def case_prod_unfold)

definition part_of :: "tool_call \<Rightarrow> pystr \<Rightarrow> call_part" where
  "part_of c args = \<lparr>cp_id = tc_id c, cp_name = tc_name c, cp_arguments = args\<rparr>"

lemma fold_pieces:
  assumes "tc_id c \<noteq> []" and "tc_name c \<noteq> []" and "i \<notin> set (dict_keys parts)"
  shows "fold part_delta (map (\<lambda>p. \<lparr>td_index = i, td_id = None, td_name = None, td_arguments_delta = Some p\<rparr>) pieces) (parts @ [(i, part_of c a)])
    = parts @ [(i, part_of c (a @ concat pieces))]"
proof (induction pieces arbitrary: a)
  case (Cons p pieces)
  have none: "map_of parts i = None" using assms(3) by (simp add: map_of_eq_None_iff)
  have upd: "AList.update i v (parts @ [(i, w)]) = parts @ [(i, v)]" for v w using assms(3) by (induction parts) auto
  have "part_delta \<lparr>td_index = i, td_id = None, td_name = None, td_arguments_delta = Some p\<rparr> (parts @ [(i, part_of c a)])
      = parts @ [(i, part_of c (a @ p))]"
    using none by (simp add: part_delta_def part_of_def Let_def upd content_or_def map_add_def)
  with Cons.IH [of "a @ p"] show ?case by simp
qed simp

lemma fold_call:
  assumes "tc_id c \<noteq> []" and "tc_name c \<noteq> []" and "i \<notin> set (dict_keys parts)"
  shows "fold part_delta (call_deltas (i, c, pieces)) parts = parts @ [(i, part_of c (concat pieces))]"
proof -
  have "map_of parts i = None" using assms(3) by (simp add: map_of_eq_None_iff)
  then have "part_delta \<lparr>td_index = i, td_id = Some (tc_id c), td_name = Some (tc_name c), td_arguments_delta = None\<rparr> parts
      = parts @ [(i, part_of c [])]"
    using assms by (simp add: part_delta_def part_of_def Let_def keys_update_new content_or_def)
  then show ?thesis using fold_pieces [OF assms, of pieces "[]"] by (simp add: call_deltas_def)
qed

lemma fold_calls:
  assumes "\<forall>(c, pieces) \<in> set calls. tc_id c \<noteq> [] \<and> tc_name c \<noteq> []" and "\<forall>i \<in> set (dict_keys parts). i < n"
  shows "fold part_delta (concat (map call_deltas (enumerate n calls))) parts
    = parts @ map (\<lambda>(i, c, pieces). (i, part_of c (concat pieces))) (enumerate n calls)"
  using assms
proof (induction calls arbitrary: n parts)
  case (Cons x calls)
  obtain c pieces where x: "x = (c, pieces)" by fastforce
  have "fold part_delta (call_deltas (n, c, pieces)) parts = parts @ [(n, part_of c (concat pieces))]"
    by (rule fold_call) (use Cons.prems x in auto)
  moreover have "\<forall>i \<in> set (dict_keys (parts @ [(n, part_of c (concat pieces))])). i < Suc n" using Cons.prems(2) by auto
  ultimately show ?case using Cons.IH [of "parts @ [(n, part_of c (concat pieces))]" "Suc n"] Cons.prems(1) x by simp
qed simp

lemma sorted_enumerate: "sorted (map fst (enumerate n xs))"
  by simp

lemma assemble_parts:
  assumes "\<forall>(c, pieces) \<in> set calls. tc_id c \<noteq> [] \<and> tc_name c \<noteq> [] \<and> json_ok (PDict (tc_arguments c))
      \<and> concat pieces = dumps compact_json (PDict (tc_arguments c))"
  shows "assemble_tool_calls env (map (\<lambda>(i, c, pieces). (i, part_of c (concat pieces))) (enumerate n calls)) = Inr (map fst calls)"
proof -
  let ?parts = "map (\<lambda>(i, c, pieces). (i, part_of c (concat pieces))) (enumerate n calls)"
  have "map fst ?parts = map fst (enumerate n calls)" by (simp add: case_prod_unfold comp_def)
  then have "sorted (map fst ?parts)" by simp
  then have sort: "sort_key fst ?parts = ?parts" by (simp add: sort_key_id_if_sorted)
  have names: "filter (\<lambda>ip. cp_name (snd ip) \<noteq> []) ?parts = ?parts"
  proof (rule filter_True)
    have "cp_name (part_of c (concat pieces)) \<noteq> []" if "(i, c, pieces) \<in> set (enumerate n calls)" for i c pieces
    proof -
      have "(c, pieces) \<in> set calls" using that by (auto simp: enumerate_eq_zip dest: set_zip_rightD)
      with assms show ?thesis by (auto simp: part_of_def)
    qed
    then show "\<forall>ip \<in> set ?parts. cp_name (snd ip) \<noteq> []" by auto
  qed
  have one: "assemble_one env (i, part_of c (concat pieces)) = Inr c" if "(c, pieces) \<in> set calls" for i c pieces
  proof -
    have c: "tc_id c \<noteq> []" "json_ok (PDict (tc_arguments c))" "concat pieces = dumps compact_json (PDict (tc_arguments c))"
      using assms that by auto
    have "concat pieces \<noteq> []" using length_dumps_pos [OF c(2), of compact_json] c(3) by auto
    moreover have "loads (concat pieces) = Some (PDict (tc_arguments c))" unfolding c(3) by (rule loads_dumps [OF _ c(2)]) simp
    ultimately show ?thesis using c(1) by (auto simp: assemble_one_def part_of_def Let_def)
  qed
  have "map_res (assemble_one env) (map (\<lambda>(i, c, pieces). (i, part_of c (concat pieces))) (enumerate n cs)) = Inr (map fst cs)"
    if "set cs \<subseteq> set calls" for cs n
    using that by (induction cs arbitrary: n) (auto simp: one)
  then show ?thesis by (simp add: assemble_tool_calls_def sort names)
qed


section \<open>What a chunk loses\<close>

text \<open>
  A limit: a chunk that reports its usage loses everything else it carries.  From a provider that
  adds the usage so far to every chunk, the agent receives an empty answer.
\<close>

theorem usage_chunk_loses_content:
  assumes "list_all2 carries lines (map (\<lambda>u. pdict [(''choices'', PList [pdict [(''delta'', delta)]]), (''usage'', usage_value u)]) us)"
  shows "\<exists>es. snd (read_lines trunc (lines @ [py ''data: [DONE]''])) = (es, SawDone)
     \<and> snd (streamed_response env es None) = Inr \<lparr>lr_content = Some [], lr_tool_calls = [], lr_usage = last (usage_zero # us), lr_finish_reason = None\<rparr>"
proof -
  have chunks: "list_all2 (\<lambda>c e. parse_chunk trunc c = Inr (Some e))
      (map (\<lambda>u. pdict [(''choices'', PList [pdict [(''delta'', delta)]]), (''usage'', usage_value u)]) us) (map usage_event us)"
    by (simp add: list_all2_map1 list_all2_map2 list_all2_same parse_chunk_def get_key_def parse_usage_value) (simp add: usage_value_def)
  have acc: "snd (stream_steps (map usage_event us) a) = a\<lparr>sa_usage := last (sa_usage a # us)\<rparr>" for a
    by (induction us arbitrary: a) (auto simp: stream_step_def usage_event_def stream_event_def Let_def case_prod_unfold)
  have "snd (streamed_response env (map usage_event us) None)
      = Inr \<lparr>lr_content = Some [], lr_tool_calls = [], lr_usage = last (usage_zero # us), lr_finish_reason = None\<rparr>"
    using acc [of empty_acc]
    by (cases "stream_steps (map usage_event us) empty_acc") (auto simp: streamed_response_def assemble_tool_calls_def empty_acc_def)
  with read_carried_lines [OF assms chunks] show ?thesis by blast
qed

section \<open>Witnesses\<close>

definition demo_call :: tool_call where
  "demo_call = \<lparr>tc_id = [49], tc_name = [97], tc_arguments = [([107], PInt 7)]\<rparr>"

lemma demo_call_ok: "json_ok (PDict (tc_arguments demo_call))"
  by (simp add: demo_call_def text_ok_def)

theorem tool_calls_round_trip_witness:
  "\<exists>d raw. serialize_message ((message RoleAssistant None)\<lparr>cm_tool_calls := [demo_call]\<rparr>) = Inr (PDict d)
     \<and> dict_get d (py ''tool_calls'') = Some raw \<and> parse_tool_calls raw = Inr [demo_call]"
  using tool_calls_round_trip [of "(message RoleAssistant None)\<lparr>cm_tool_calls := [demo_call]\<rparr>"] demo_call_ok by simp

definition demo_provider :: provider where
  "demo_provider = \<lparr>pv_base_url = [], pv_api_key = [], pv_default_model = [], pv_max_retries = 1, pv_base_delay = 0, pv_include_usage = True\<rparr>"

text \<open>A client whose first reply is a fault.\<close>

definition demo_client :: "nat http_client" where
  "demo_client = \<lparr>hc_post = (\<lambda>url headers body w. (if w = 0 then TransportFault (Exc [] []) else Reply 200 (py ''{}''), Suc w)),
     hc_stream = (\<lambda>url headers body w. (if w = 0 then StreamFault (Exc [] []) else StreamReply 200 [py ''data: [DONE]''] None, Suc w)),
     hc_sleep = (\<lambda>d w. w)\<rparr>"

theorem requests_bounded_witness:
  "\<exists>r w' replies streams failed last. request_json (logged_client demo_client) demo_provider ''/x'' PNone (0, [], []) = (r, (w', replies, streams))
     \<and> replies = failed @ [last] \<and> r = reply_result last"
proof -
  obtain r w' replies streams where run: "request_json (logged_client demo_client) demo_provider ''/x'' PNone (0, [], []) = (r, (w', replies, streams))"
    by (metis prod_cases4)
  from requests_bounded [OF run] obtain failed last where l: "replies = failed @ [last]" "r = reply_result last" by blast
  show ?thesis by (intro exI conjI) (rule run, rule l(1), rule l(2))
qed

theorem stream_is_one_reply_witness:
  "\<exists>es err w' ps replies failed last. provider_stream (\<lambda>t. Inr 0) (logged_client demo_client) demo_provider [] [] None (0, [], [])
       = (es, err, (w', ps, replies)) \<and> replies = failed @ [last] \<and> es = reply_events (\<lambda>t. Inr 0) last"
proof -
  have run: "\<exists>es err w' ps r1 r2. provider_stream (\<lambda>t. Inr 0) (logged_client demo_client) demo_provider [] [] None (0, [], [])
      = (es, err, (w', ps, [r1, r2]))"
    by (simp add: provider_stream_def chat_payload_def serialize_messages_def logged_client_def demo_client_def demo_provider_def
        read_attempt_def retryable_def numeral_2_eq_2 py_def Let_def strip_def lstrip_def rstrip_def py_space_def)
  then obtain es err w' ps r1 r2 where run: "provider_stream (\<lambda>t. Inr 0) (logged_client demo_client) demo_provider [] [] None (0, [], [])
      = (es, err, (w', ps, [r1, r2]))" by blast
  from stream_is_one_reply [OF run] obtain failed last where l: "[r1, r2] = failed @ [last]" "es = reply_events (\<lambda>t. Inr 0) last" by blast
  show ?thesis by (intro exI conjI) (rule run, rule l(1), rule l(2))
qed

definition demo_usage :: token_usage where
  "demo_usage = \<lparr>input_tokens = 1, output_tokens = 2\<rparr>"

definition demo_lines :: "pyval list \<Rightarrow> pystr list" where
  "demo_lines chunks = map (\<lambda>c. py ''data: '' @ dumps compact_json c) chunks"

lemma carries_dumps:
  assumes "json_ok (PDict d)"
  shows "carries (py ''data: '' @ dumps compact_json (PDict d)) (PDict d)"
proof -
  have "strip (32 # 123 # t @ [125]) = 123 # t @ [125]" for t
    by (simp add: strip_def lstrip_def rstrip_def py_space_def)
  moreover have "take 5 (py ''data: '' @ s) = py ''data:''" "drop 5 (py ''data: '' @ s) = 32 # s" for s by (simp_all add: py_def)
  moreover have "loads (dumps compact_json (PDict d)) = Some (PDict d)" by (rule loads_dumps [OF _ assms]) simp
  ultimately show ?thesis by (simp add: carries_def)
qed

lemma carries_demo_lines:
  "list_all (\<lambda>c. is_dict c \<and> json_ok c) chunks \<Longrightarrow> list_all2 carries (demo_lines chunks) chunks"
proof (induction chunks)
  case (Cons c chunks)
  then obtain d where "c = PDict d" by (cases c) simp_all
  with Cons carries_dumps [of d] show ?case by (simp add: demo_lines_def)
qed (simp add: demo_lines_def)

lemma demo_carries: "list_all2 carries (demo_lines (response_chunks [[104]] [] [115] demo_usage)) (response_chunks [[104]] [] [115] demo_usage)"
  by (rule carries_demo_lines)
    (simp add: response_chunks_def content_chunk_def delta_chunk_def finish_chunk_def usage_chunk_def usage_value_def text_ok_def py_def)


lemma demo_usage_carries:
  "list_all2 carries (demo_lines [pdict [(''choices'', PList [pdict [(''delta'', pdict [(''content'', pstr ''hi'')])]]), (''usage'', usage_value demo_usage)]])
     (map (\<lambda>u. pdict [(''choices'', PList [pdict [(''delta'', pdict [(''content'', pstr ''hi'')])]]), (''usage'', usage_value u)]) [demo_usage])"
  unfolding list.map
  by (rule carries_demo_lines) (simp add: usage_value_def text_ok_def py_def)

theorem usage_chunk_loses_content_witness:
  "\<exists>es. snd (read_lines (\<lambda>t. Inr 0) (demo_lines [pdict [(''choices'', PList [pdict [(''delta'', pdict [(''content'', pstr ''hi'')])]]),
     (''usage'', usage_value demo_usage)]] @ [py ''data: [DONE]''])) = (es, SawDone)"
  using usage_chunk_loses_content [OF demo_usage_carries, of "\<lambda>t. Inr 0"] by blast

end
