(* ===== verification/Llm_Router.thy ===== *)
theory Llm_Router
  imports Llm_Properties
begin

text \<open>
  \<open>app/llm/cost.py\<close>, \<open>app/llm/router.py\<close> and \<open>app/llm/factory.py\<close>: the provider that records the usage of
  every call, the router that picks a model for a task, and how they are put together.  A provider
  is a record of its three operations; a stream is consumed to its end or closed after some events.
\<close>

record 'w llm_provider =
  lp_chat :: "chat_message list \<Rightarrow> tool_definition list \<Rightarrow> pystr option \<Rightarrow> 'w \<Rightarrow> llm_response pyres \<times> 'w"
  lp_stream :: "chat_message list \<Rightarrow> tool_definition list \<Rightarrow> pystr option \<Rightarrow> 'w \<Rightarrow> stream_event list \<times> py_exc option \<times> 'w"
  lp_embed :: "pystr list \<Rightarrow> pystr option \<Rightarrow> 'w \<Rightarrow> embedding_result pyres \<times> 'w"

definition openai_provider ::
  "(pystr \<Rightarrow> int pyres) \<Rightarrow> (pyval \<Rightarrow> pystr pyres) \<Rightarrow> 'w http_client \<Rightarrow> provider \<Rightarrow> 'w llm_provider" where
  "openai_provider trunc to_float C P =
     \<lparr>lp_chat = provider_chat trunc C P, lp_stream = provider_stream trunc C P, lp_embed = provider_embed trunc to_float C P\<rparr>"

section \<open>Usage tracking\<close>

record usage_record =
  ur_request_id :: pystr
  ur_trace :: "uuid option"
  ur_task :: pystr
  ur_provider :: pystr
  ur_model :: pystr
  ur_input_tokens :: nat
  ur_output_tokens :: nat
  ur_cost :: rat
  ur_latency :: rat
  ur_success :: bool
  ur_error_type :: "pystr option"

record 'w tracker =
  tk_name :: pystr
  tk_record :: "usage_record \<Rightarrow> 'w \<Rightarrow> unit pyres \<times> 'w"
  tk_input_price :: rat
  tk_output_price :: rat
  tk_clock :: "'w \<Rightarrow> rat"
  tk_fresh :: "'w \<Rightarrow> uuid \<times> 'w"

definition estimate_cost :: "'w tracker \<Rightarrow> token_usage \<Rightarrow> rat" where
  "estimate_cost T u = (of_nat (input_tokens u) * tk_input_price T + of_nat (output_tokens u) * tk_output_price T) / 1000000"

text \<open>A record whose cost or latency is negative is rejected; a recorder that fails is only logged.\<close>

definition record_usage ::
  "'w tracker \<Rightarrow> pystr \<Rightarrow> pystr option \<Rightarrow> uuid option \<Rightarrow> token_usage \<Rightarrow> rat \<Rightarrow> pystr option \<Rightarrow> 'w \<Rightarrow> unit pyres \<times> 'w" where
  "record_usage T task model trace usage started error w =
     (case tk_fresh T w of
        (i, w1) \<Rightarrow>
          (let cost = estimate_cost T usage; latency = (tk_clock T w1 - started) * 1000
           in if cost < 0 \<or> latency < 0 then (validation_error, w1)
              else (Inr (), snd (tk_record T \<lparr>ur_request_id = uuid_hex i, ur_trace = trace, ur_task = task, ur_provider = tk_name T,
                     ur_model = content_or (py ''default'') model, ur_input_tokens = input_tokens usage,
                     ur_output_tokens = output_tokens usage, ur_cost = cost, ur_latency = latency,
                     ur_success = (error = None), ur_error_type = error\<rparr> w1))))"

text \<open>\<open>chat\<close> and \<open>embed\<close>: a call whose result may be an exception, and the usage it reports.\<close>

definition tracked ::
  "'w tracker \<Rightarrow> pystr \<Rightarrow> pystr option \<Rightarrow> uuid option \<Rightarrow> ('a \<Rightarrow> token_usage) \<Rightarrow> ('w \<Rightarrow> 'a pyres \<times> 'w) \<Rightarrow> 'w \<Rightarrow> 'a pyres \<times> 'w" where
  "tracked T task model trace usage_of call w =
     (case call w of
        (r, w1) \<Rightarrow>
          (case record_usage T task model trace (case r of Inl e \<Rightarrow> usage_zero | Inr x \<Rightarrow> usage_of x) (tk_clock T w)
                  (case r of Inl e \<Rightarrow> Some (exc_type e) | Inr x \<Rightarrow> None) w1 of
             (Inl e, w2) \<Rightarrow> (Inl e, w2)
           | (Inr u, w2) \<Rightarrow> (r, w2)))"

definition tracked_chat ::
  "'w tracker \<Rightarrow> 'w llm_provider \<Rightarrow> pystr \<Rightarrow> uuid option \<Rightarrow> chat_message list \<Rightarrow> tool_definition list \<Rightarrow> pystr option \<Rightarrow> 'w \<Rightarrow>
   llm_response pyres \<times> 'w" where
  "tracked_chat T L task trace ms tools model w = tracked T task model trace lr_usage (lp_chat L ms tools model) w"

definition tracked_embed ::
  "'w tracker \<Rightarrow> 'w llm_provider \<Rightarrow> pystr \<Rightarrow> uuid option \<Rightarrow> pystr list \<Rightarrow> pystr option \<Rightarrow> 'w \<Rightarrow> embedding_result pyres \<times> 'w" where
  "tracked_embed T L task trace texts model w = tracked T task model trace er_usage (lp_embed L texts model) w"

text \<open>The usage reported last.\<close>

definition stream_usage :: "stream_event list \<Rightarrow> token_usage" where
  "stream_usage es = foldl (\<lambda>u e. case se_usage e of None \<Rightarrow> u | Some v \<Rightarrow> v) usage_zero es"

text \<open>\<open>Some k\<close>: the consumer closes the generator at its \<open>k\<close>-th event, if there is one.\<close>

definition tracked_stream ::
  "'w tracker \<Rightarrow> 'w llm_provider \<Rightarrow> pystr \<Rightarrow> uuid option \<Rightarrow> chat_message list \<Rightarrow> tool_definition list \<Rightarrow> pystr option \<Rightarrow> nat option \<Rightarrow> 'w \<Rightarrow>
   stream_event list \<times> py_exc option \<times> 'w" where
  "tracked_stream T L task trace ms tools model taken w =
     (case lp_stream L ms tools model w of
        (es, failure, w1) \<Rightarrow>
          (let closed = (case taken of None \<Rightarrow> False | Some k \<Rightarrow> k \<le> length es);
               seen = (case taken of None \<Rightarrow> es | Some k \<Rightarrow> take k es);
               error = (if closed then Some (py ''GeneratorExit'') else map_option exc_type failure)
           in case record_usage T task model trace (stream_usage seen) (tk_clock T w) error w1 of
                (Inl e, w2) \<Rightarrow> (seen, Some e, w2)
              | (Inr u, w2) \<Rightarrow> (seen, (if closed then None else failure), w2)))"

section \<open>The router\<close>

record router_config =
  rc_default :: pystr
  rc_models :: "(pystr \<times> pystr) list"

definition model_for_task :: "router_config \<Rightarrow> pystr \<Rightarrow> pystr" where
  "model_for_task c task = (case dict_get (rc_models c) task of None \<Rightarrow> rc_default c | Some m \<Rightarrow> m)"

definition router_chat ::
  "router_config \<Rightarrow> 'w tracker \<Rightarrow> 'w llm_provider \<Rightarrow> pystr \<Rightarrow> uuid option \<Rightarrow> chat_message list \<Rightarrow> tool_definition list \<Rightarrow> 'w \<Rightarrow>
   llm_response pyres \<times> 'w" where
  "router_chat c T L task trace ms tools w = tracked_chat T L task trace ms tools (Some (model_for_task c task)) w"

definition router_stream ::
  "router_config \<Rightarrow> 'w tracker \<Rightarrow> 'w llm_provider \<Rightarrow> pystr \<Rightarrow> uuid option \<Rightarrow> chat_message list \<Rightarrow> tool_definition list \<Rightarrow> nat option \<Rightarrow> 'w \<Rightarrow>
   stream_event list \<times> py_exc option \<times> 'w" where
  "router_stream c T L task trace ms tools taken w = tracked_stream T L task trace ms tools (Some (model_for_task c task)) taken w"

definition router_embed ::
  "router_config \<Rightarrow> 'w tracker \<Rightarrow> 'w llm_provider \<Rightarrow> pystr \<Rightarrow> uuid option \<Rightarrow> pystr list \<Rightarrow> 'w \<Rightarrow> embedding_result pyres \<times> 'w" where
  "router_embed c T L task trace texts w = tracked_embed T L task trace texts (Some (model_for_task c task)) w"

record llm_settings =
  ls_base_url :: pystr
  ls_api_key :: "pystr option"
  ls_default_model :: pystr
  ls_task_models :: "(pystr \<times> pystr) list"
  ls_max_retries :: int
  ls_retry_delay :: rat
  ls_include_usage :: bool
  ls_input_price :: rat
  ls_output_price :: rat
  ls_provider_name :: pystr

text \<open>The recorder, clock and source of identifiers come from the application.\<close>

definition build_model_router ::
  "(pystr \<Rightarrow> int pyres) \<Rightarrow> (pyval \<Rightarrow> pystr pyres) \<Rightarrow> 'w http_client \<Rightarrow> 'w tracker \<Rightarrow> llm_settings \<Rightarrow>
   (router_config \<times> 'w tracker \<times> 'w llm_provider) option pyres" where
  "build_model_router trunc to_float C T S =
     (case ls_api_key S of
        None \<Rightarrow> Inr None
      | Some key \<Rightarrow>
          (if key = [] then Inr None
           else and_then (new_provider (ls_base_url S) key (ls_default_model S) (ls_max_retries S) (ls_retry_delay S) (ls_include_usage S))
             (\<lambda>P. Inr (Some (\<lparr>rc_default = ls_default_model S, rc_models = ls_task_models S\<rparr>,
                T\<lparr>tk_name := ls_provider_name S, tk_input_price := ls_input_price S, tk_output_price := ls_output_price S\<rparr>,
                openai_provider trunc to_float C P)))))"

text \<open>The router as the agent loop uses it.\<close>

definition router_model :: "router_config \<Rightarrow> 'w tracker \<Rightarrow> 'w llm_provider \<Rightarrow> 'w chat_model" where
  "router_model c T L =
     \<lparr>chat = (\<lambda>w ms tools trace. router_chat c T L (py ''default'') trace ms tools w),
      chat_stream = Some (\<lambda>w ms tools trace. router_stream c T L (py ''default'') trace ms tools None w)\<rparr>"

section \<open>Usage is recorded\<close>

text \<open>The clock does not run backwards over a call and its bookkeeping.\<close>

definition forward_clock :: "'w tracker \<Rightarrow> ('w \<Rightarrow> 'w) \<Rightarrow> bool" where
  "forward_clock T step \<longleftrightarrow> (\<forall>w. tk_clock T w \<le> tk_clock T (snd (tk_fresh T (step w))))"

lemma estimate_cost_nonneg: "0 \<le> tk_input_price T \<Longrightarrow> 0 \<le> tk_output_price T \<Longrightarrow> 0 \<le> estimate_cost T u"
  by (simp add: estimate_cost_def)

text \<open>What the recorder must be given about a call.\<close>

definition recorded :: "'w tracker \<Rightarrow> pystr \<Rightarrow> pystr \<Rightarrow> uuid option \<Rightarrow> token_usage \<Rightarrow> pystr option \<Rightarrow> usage_record \<Rightarrow> bool" where
  "recorded T task model trace usage error r \<longleftrightarrow> ur_task r = task \<and> ur_model r = model \<and> ur_trace r = trace \<and> ur_provider r = tk_name T
     \<and> ur_input_tokens r = input_tokens usage \<and> ur_output_tokens r = output_tokens usage \<and> ur_cost r = estimate_cost T usage
     \<and> ur_error_type r = error \<and> (ur_success r \<longleftrightarrow> error = None) \<and> 0 \<le> ur_latency r"

lemma record_usage_ok:
  assumes "0 \<le> tk_input_price T" and "0 \<le> tk_output_price T" and "tk_clock T w0 \<le> tk_clock T (snd (tk_fresh T w))" and "model \<noteq> []"
  shows "\<exists>r. recorded T task model trace usage error r
    \<and> record_usage T task (Some model) trace usage (tk_clock T w0) error w = (Inr (), snd (tk_record T r (snd (tk_fresh T w))))"
  using assms(3,4) estimate_cost_nonneg [OF assms(1,2), of usage]
  by (cases "tk_fresh T w") (auto simp: record_usage_def recorded_def Let_def not_less content_or_def
      intro!: exI [where P = "\<lambda>r. _ r \<and> _ r"])

text \<open>
  C23.  Tracking is transparent: a chat or a stream through the router gives exactly what the provider
  gave, and hands the recorder, whose failure changes nothing, one record with the task, the model
  chosen for it, the tokens the provider reported and the exception it ended with, if any.
\<close>

theorem usage_is_recorded:
  assumes "0 \<le> tk_input_price T" and "0 \<le> tk_output_price T" and "model_for_task c task \<noteq> []"
    and "forward_clock T (\<lambda>w. snd (lp_chat L ms tools (Some (model_for_task c task)) w))"
    and "forward_clock T (\<lambda>w. snd (snd (lp_stream L ms tools (Some (model_for_task c task)) w)))"
  shows "(\<exists>x. let (r, w1) = lp_chat L ms tools (Some (model_for_task c task)) w
      in router_chat c T L task trace ms tools w = (r, snd (tk_record T x (snd (tk_fresh T w1))))
       \<and> recorded T task (model_for_task c task) trace (case r of Inl e \<Rightarrow> usage_zero | Inr v \<Rightarrow> lr_usage v)
           (case r of Inl e \<Rightarrow> Some (exc_type e) | Inr v \<Rightarrow> None) x)
    \<and> (\<exists>x. let (es, failure, w1) = lp_stream L ms tools (Some (model_for_task c task)) w
      in router_stream c T L task trace ms tools None w = (es, failure, snd (tk_record T x (snd (tk_fresh T w1))))
       \<and> recorded T task (model_for_task c task) trace (stream_usage es) (map_option exc_type failure) x)"
proof
  obtain r w1 where c: "lp_chat L ms tools (Some (model_for_task c task)) w = (r, w1)" by (meson surj_pair)
  have "tk_clock T w \<le> tk_clock T (snd (tk_fresh T w1))" using assms(4) c unfolding forward_clock_def by (metis snd_conv)
  from record_usage_ok [OF assms(1,2) this assms(3), of task trace "case r of Inl e \<Rightarrow> usage_zero | Inr v \<Rightarrow> lr_usage v"
      "case r of Inl e \<Rightarrow> Some (exc_type e) | Inr v \<Rightarrow> None"]
  show "\<exists>x. let (r, w1) = lp_chat L ms tools (Some (model_for_task c task)) w
      in router_chat c T L task trace ms tools w = (r, snd (tk_record T x (snd (tk_fresh T w1))))
       \<and> recorded T task (model_for_task c task) trace (case r of Inl e \<Rightarrow> usage_zero | Inr v \<Rightarrow> lr_usage v)
           (case r of Inl e \<Rightarrow> Some (exc_type e) | Inr v \<Rightarrow> None) x"
    using c by (auto simp: router_chat_def tracked_chat_def tracked_def)
next
  obtain es failure w1 where s: "lp_stream L ms tools (Some (model_for_task c task)) w = (es, failure, w1)" by (metis prod_cases3)
  have "tk_clock T w \<le> tk_clock T (snd (tk_fresh T w1))" using assms(5) s unfolding forward_clock_def by (metis snd_conv)
  from record_usage_ok [OF assms(1,2) this assms(3), of task trace "stream_usage es" "map_option exc_type failure"]
  show "\<exists>x. let (es, failure, w1) = lp_stream L ms tools (Some (model_for_task c task)) w
      in router_stream c T L task trace ms tools None w = (es, failure, snd (tk_record T x (snd (tk_fresh T w1))))
       \<and> recorded T task (model_for_task c task) trace (stream_usage es) (map_option exc_type failure) x"
    using s by (auto simp: router_stream_def tracked_stream_def)
qed

definition demo_tracker :: "usage_record list tracker" where
  "demo_tracker = \<lparr>tk_name = [1], tk_record = (\<lambda>r w. (Inr (), w @ [r])), tk_input_price = 1, tk_output_price = 2,
     tk_clock = (\<lambda>w. 0), tk_fresh = (\<lambda>w. (length w, w))\<rparr>"

definition demo_llm :: "usage_record list llm_provider" where
  "demo_llm = \<lparr>lp_chat = (\<lambda>ms tools model w. (Inl (Exc [2] []), w)), lp_stream = (\<lambda>ms tools model w. ([usage_event demo_usage], None, w)),
     lp_embed = (\<lambda>texts model w. (Inl (Exc [] []), w))\<rparr>"

theorem usage_is_recorded_witness:
  "\<exists>x y. router_chat \<lparr>rc_default = [7], rc_models = []\<rparr> demo_tracker demo_llm [8] None [] [] [] = (Inl (Exc [2] []), [x])
     \<and> ur_error_type x = Some [2]
     \<and> router_stream \<lparr>rc_default = [7], rc_models = []\<rparr> demo_tracker demo_llm [8] None [] [] None [] = ([usage_event demo_usage], None, [y])
     \<and> ur_output_tokens y = output_tokens demo_usage"
proof -
  have "0 \<le> tk_input_price demo_tracker" "0 \<le> tk_output_price demo_tracker" "model_for_task \<lparr>rc_default = [7], rc_models = []\<rparr> [8] \<noteq> []"
    "forward_clock demo_tracker f" for f
    by (simp_all add: demo_tracker_def model_for_task_def forward_clock_def)
  from usage_is_recorded [OF this(1-3) this(4) this(4), of demo_llm "[]" "[]" "[]" None]
  show ?thesis
    by (auto simp: demo_llm_def demo_tracker_def recorded_def stream_usage_def usage_event_def stream_event_def)
qed

end
