(* ===== verification/Analytics_Engine.thy ===== *)
theory Analytics_Engine
  imports Nl2sql
begin

text \<open>
  \<open>app/tools/duckdb_engine.py\<close> and \<open>app/core/serialization.py\<close>: the analytics engine over DuckDB, and
  what of a database value it lets through as JSON.  DuckDB is a parameter: executing a statement
  gives the column names and all rows of its result, or raises.  \<open>alnum\<close> and \<open>digit\<close> are Unicode's
  classes behind \<open>isalnum\<close> and \<open>isdigit\<close>.
\<close>

section \<open>Values as JSON\<close>

text \<open>\<open>PObj\<close> is any class the code does not name; its \<open>str\<close> is what it becomes.\<close>

fun json_safe :: "pyval \<Rightarrow> pyval" where
  "json_safe PNone = PNone"
| "json_safe (PStr s) = PStr s"
| "json_safe (PInt i) = PInt i"
| "json_safe (PFloat t) = PFloat t"
| "json_safe (PBool b) = PBool b"
| "json_safe (PTime c i r) = PStr i"
| "json_safe (PExact c s r) = PStr s"
| "json_safe (PBytes n r) = PStr (py ''<'' @ str_nat n @ py '' bytes>'')"
| "json_safe (PDict kvs) = (if not_json (PDict kvs) = None then PDict kvs else PStr (py_str (PDict kvs)))"
| "json_safe (PList xs) = (if not_json (PList xs) = None then PList xs else PStr (py_str (PList xs)))"
| "json_safe (PTuple xs) = (if not_json (PTuple xs) = None then PTuple xs else PStr (py_str (PTuple xs)))"
| "json_safe v = PStr (py_str v)"

lemma json_safe_is_json: "not_json (json_safe v) = None"
  by (cases v) auto

section \<open>The engine\<close>

record table_info =
  ti_name :: pystr
  ti_type :: pystr

record column_info =
  ci_name :: pystr
  ci_type :: pystr
  ci_nullable :: bool

record table_schema =
  tsc_name :: pystr
  tsc_columns :: "column_info list"
  tsc_samples :: "arguments list"

text \<open>What the engine asks of DuckDB, of the file system and of the clock.\<close>

record 'e duckdb =
  dk_execute :: "pystr \<Rightarrow> 'e \<Rightarrow> (pystr list \<times> pyval list list) pyres \<times> 'e"
  dk_insert :: "pystr \<Rightarrow> pyval list list \<Rightarrow> 'e \<Rightarrow> unit pyres \<times> 'e"
  dk_view :: "pystr \<Rightarrow> pystr \<Rightarrow> bool \<Rightarrow> 'e \<Rightarrow> unit pyres \<times> 'e" \<comment> \<open>name, path, whether Parquet\<close>
  dk_is_file :: "pystr \<Rightarrow> 'e \<Rightarrow> bool"
  dk_suffix :: "pystr \<Rightarrow> pystr"
  dk_alnum :: "nat \<Rightarrow> bool"
  dk_digit :: "nat \<Rightarrow> bool"
  dk_fold :: "nat \<Rightarrow> nat list"
  dk_clock :: "'e \<Rightarrow> rat"
  dk_max_rows :: nat
  dk_sample_rows :: nat

definition quote_identifier :: "pystr \<Rightarrow> pystr" where
  "quote_identifier s = [34] @ concat (map (\<lambda>c. if c = 34 then [34, 34] else [c]) s) @ [34]"

definition identifier_ok :: "'e duckdb \<Rightarrow> pystr \<Rightarrow> bool" where
  "identifier_ok D s \<longleftrightarrow> s \<noteq> [] \<and> filter (\<lambda>c. c \<noteq> 95) s \<noteq> [] \<and> list_all (dk_alnum D) (filter (\<lambda>c. c \<noteq> 95) s)
     \<and> \<not> dk_digit D (hd s)"

definition bad_identifier :: "'a pyres" where
  "bad_identifier = raise_exc ''ValueError'' (py ''Invalid DuckDB identifier.'')"

definition new_engine_ok :: "int \<Rightarrow> int \<Rightarrow> unit pyres" where
  "new_engine_ok max_rows samples =
     (if max_rows < 1 then raise_exc ''ValueError'' (py ''max_query_rows must be positive.'')
      else if samples < 0 then raise_exc ''ValueError'' (py ''sample_rows must not be negative.'')
      else Inr ())"

definition register_file :: "'e duckdb \<Rightarrow> pystr \<Rightarrow> pystr \<Rightarrow> 'e \<Rightarrow> unit pyres \<times> 'e" where
  "register_file D name path e =
     (if \<not> identifier_ok D name then (bad_identifier, e)
      else if \<not> dk_is_file D path e then (raise_exc ''FileNotFoundError'' path, e)
      else (let suffix = casefold (dk_fold D) (dk_suffix D path)
            in if suffix \<notin> set (map py [''.csv'', ''.tsv'', ''.parquet'', ''.pq'']) then
                 (raise_exc ''ValueError'' (py ''Unsupported data file type: '' @ suffix), e)
               else dk_view D name path (suffix \<in> set (map py [''.parquet'', ''.pq''])) e))"

definition column_type_ok :: "'e duckdb \<Rightarrow> pystr \<Rightarrow> bool" where
  "column_type_ok D t \<longleftrightarrow> (let s = filter (\<lambda>c. c \<notin> {32, 40, 41, 44}) t in s \<noteq> [] \<and> list_all (dk_alnum D) s)"

fun check_columns :: "'e duckdb \<Rightarrow> (pystr \<times> pystr) list \<Rightarrow> unit pyres" where
  "check_columns D [] = Inr ()"
| "check_columns D ((name, t) # cols) =
     (if \<not> identifier_ok D name then bad_identifier
      else if \<not> column_type_ok D t then raise_exc ''ValueError'' (py ''Invalid column type: '' @ t)
      else check_columns D cols)"

definition create_sql :: "pystr \<Rightarrow> (pystr \<times> pystr) list \<Rightarrow> pystr" where
  "create_sql name cols = py ''CREATE OR REPLACE TABLE '' @ quote_identifier name @ py '' (''
     @ join (py '', '') (map (\<lambda>(c, t). quote_identifier c @ py '' '' @ t) cols) @ py '')''"

definition insert_sql :: "pystr \<Rightarrow> (pystr \<times> pystr) list \<Rightarrow> pystr" where
  "insert_sql name cols = py ''INSERT INTO '' @ quote_identifier name @ py '' VALUES ('' @ join (py '', '') (map (\<lambda>c. py ''?'') cols) @ py '')''"

definition register_rows ::
  "'e duckdb \<Rightarrow> pystr \<Rightarrow> (pystr \<times> pystr) list \<Rightarrow> pyval list list \<Rightarrow> 'e \<Rightarrow> unit pyres \<times> 'e" where
  "register_rows D name cols rows e =
     (if \<not> identifier_ok D name then (bad_identifier, e)
      else if cols = [] then (raise_exc ''ValueError'' (py ''At least one column is required.''), e)
      else case check_columns D cols of
        Inl x \<Rightarrow> (Inl x, e)
      | Inr u \<Rightarrow>
          (case dk_execute D (create_sql name cols) e of
             (Inl x, e1) \<Rightarrow> (Inl x, e1)
           | (Inr r, e1) \<Rightarrow> (if rows = [] then (Inr (), e1) else dk_insert D (insert_sql name cols) rows e1)))"

definition drop_sql :: "pystr \<Rightarrow> pystr" where
  "drop_sql name = py ''DROP VIEW IF EXISTS '' @ quote_identifier name"

definition drop_table :: "'e duckdb \<Rightarrow> pystr \<Rightarrow> 'e \<Rightarrow> unit pyres \<times> 'e" where
  "drop_table D name e =
     (if \<not> identifier_ok D name then (bad_identifier, e)
      else case dk_execute D (drop_sql name) e of (Inl x, e1) \<Rightarrow> (Inl x, e1) | (Inr r, e1) \<Rightarrow> (Inr (), e1))"

definition sql_line :: "string \<Rightarrow> pystr" where
  "sql_line line = replicate 16 32 @ py line @ [10]"

definition catalog_sql :: pystr where
  "catalog_sql = [10] @ sql_line ''SELECT table_name, table_type'' @ sql_line ''FROM information_schema.tables''
     @ sql_line (''WHERE table_schema = '' @ [CHR 39] @ ''main'' @ [CHR 39]) @ sql_line ''ORDER BY table_name'' @ replicate 16 32"

definition cell :: "pyval list \<Rightarrow> nat \<Rightarrow> pystr" where
  "cell row i = (if i < length row then py_str (row ! i) else [])"

definition list_tables :: "'e duckdb \<Rightarrow> 'e \<Rightarrow> table_info list pyres \<times> 'e" where
  "list_tables D e =
     (case dk_execute D catalog_sql e of
        (Inl x, e1) \<Rightarrow> (Inl x, e1)
      | (Inr (cols, rows), e1) \<Rightarrow> (Inr (map (\<lambda>row. \<lparr>ti_name = cell row 0, ti_type = cell row 1\<rparr>) rows), e1))"

definition list_table_names :: "'e duckdb \<Rightarrow> 'e \<Rightarrow> pystr list pyres \<times> 'e" where
  "list_table_names D e =
     (case list_tables D e of (Inl x, e1) \<Rightarrow> (Inl x, e1) | (Inr ts, e1) \<Rightarrow> (Inr (map ti_name ts), e1))"

text \<open>A row as a dictionary: \<open>zip(..., strict=True)\<close> and a comprehension that keeps the last value of a name.\<close>

definition row_dict :: "pystr list \<Rightarrow> pyval list \<Rightarrow> arguments pyres" where
  "row_dict names row =
     (if length names = length row then Inr (fold (\<lambda>(k, v). AList.update k (json_safe v)) (zip names row) [])
      else raise_exc ''ValueError'' (py ''zip() arguments have different lengths''))"

definition get_schema :: "'e duckdb \<Rightarrow> pystr \<Rightarrow> 'e \<Rightarrow> table_schema pyres \<times> 'e" where
  "get_schema D name e =
     (if \<not> identifier_ok D name then (bad_identifier, e)
      else case list_table_names D e of
        (Inl x, e1) \<Rightarrow> (Inl x, e1)
      | (Inr names, e1) \<Rightarrow>
          (if casefold (dk_fold D) name \<notin> set (map (casefold (dk_fold D)) names) then
             (Inl (key_error (py ''Unknown table: '' @ name)), e1)
           else case dk_execute D (py ''DESCRIBE SELECT * FROM '' @ quote_identifier name) e1 of
             (Inl x, e2) \<Rightarrow> (Inl x, e2)
           | (Inr (c1, description), e2) \<Rightarrow>
               (case dk_execute D (py ''SELECT * FROM '' @ quote_identifier name @ py '' LIMIT '' @ str_nat (dk_sample_rows D)) e2 of
                  (Inl x, e3) \<Rightarrow> (Inl x, e3)
                | (Inr (cols, rows), e3) \<Rightarrow>
                    (case map_res (row_dict cols) rows of
                       Inl x \<Rightarrow> (Inl x, e3)
                     | Inr samples \<Rightarrow>
                         (Inr \<lparr>tsc_name = name,
                            tsc_columns = map (\<lambda>row. \<lparr>ci_name = cell row 0, ci_type = cell row 1,
                              ci_nullable = (map (\<lambda>c. if 97 \<le> c \<and> c \<le> 122 then c - 32 else c) (cell row 2) = py ''YES'')\<rparr>) description,
                            tsc_samples = samples\<rparr>, e3)))))"

text \<open>\<open>fetchmany(limit + 1)\<close> tells whether there were more rows than the limit.\<close>

definition execute_select :: "'e duckdb \<Rightarrow> pystr \<Rightarrow> int option \<Rightarrow> 'e \<Rightarrow> query_result pyres \<times> 'e" where
  "execute_select D sql max_rows e =
     (let limit = (case max_rows of None \<Rightarrow> int (dk_max_rows D) | Some m \<Rightarrow> min m (int (dk_max_rows D)))
      in if limit < 1 then (raise_exc ''ValueError'' (py ''max_rows must be positive.''), e)
         else case dk_execute D sql e of
           (Inl x, e1) \<Rightarrow> (Inl x, e1)
         | (Inr (cols, rows), e1) \<Rightarrow>
             (let raw = take (nat limit + 1) rows
              in case map_res (row_dict cols) (take (nat limit) raw) of
                   Inl x \<Rightarrow> (Inl x, e1)
                 | Inr dicts \<Rightarrow>
                     (Inr \<lparr>qr_columns = cols, qr_rows = dicts, qr_row_count = length dicts,
                           qr_truncated = (nat limit < length raw), qr_elapsed_ms = (dk_clock D e1 - dk_clock D e) * 1000\<rparr>, e1)))"

definition preview_sql :: "pystr \<Rightarrow> int \<Rightarrow> pystr" where
  "preview_sql name limit = py ''SELECT * FROM '' @ quote_identifier name @ py '' LIMIT '' @ str_int limit"

definition preview_table :: "'e duckdb \<Rightarrow> pystr \<Rightarrow> int \<Rightarrow> 'e \<Rightarrow> query_result pyres \<times> 'e" where
  "preview_table D name limit e =
     (if \<not> identifier_ok D name then (bad_identifier, e)
      else if limit < 1 \<or> int (dk_max_rows D) < limit then
        (raise_exc ''ValueError'' (py ''Preview limit must be between 1 and '' @ str_nat (dk_max_rows D) @ py ''.''), e)
      else execute_select D (preview_sql name limit) None e)"

section \<open>Quoting\<close>

text \<open>How SQL reads a quoted identifier: up to the first quote that is not doubled.\<close>

fun read_quoted :: "pystr \<Rightarrow> (pystr \<times> pystr) option" where
  "read_quoted [] = None"
| "read_quoted (c # s) =
     (if c \<noteq> 34 then map_option (\<lambda>(i, r). (c # i, r)) (read_quoted s)
      else case s of
        [] \<Rightarrow> Some ([], [])
      | d # s' \<Rightarrow> (if d = 34 then map_option (\<lambda>(i, r). (34 # i, r)) (read_quoted s') else Some ([], s)))"

lemma read_quoted_body:
  "rest = [] \<or> hd rest \<noteq> 34 \<Longrightarrow> read_quoted (concat (map (\<lambda>c. if c = 34 then [34, 34] else [c]) s) @ 34 # rest) = Some (s, rest)"
  by (induction s) (auto split: list.split)

section \<open>Result sets\<close>

lemma row_dict_keys: "row_dict names row = Inr d \<Longrightarrow> set (dict_keys d) = set names \<and> dict_ok d"
proof -
  assume "row_dict names row = Inr d"
  then have len: "length names = length row" and d: "d = fold (\<lambda>(k, v). AList.update k (json_safe v)) (zip names row) []"
    by (auto simp: row_dict_def split: if_splits)
  have "set (dict_keys (fold (\<lambda>(k, v). AList.update k (json_safe v)) kvs a)) = set (dict_keys a) \<union> set (map fst kvs)
    \<and> (dict_ok a \<longrightarrow> dict_ok (fold (\<lambda>(k, v). AList.update k (json_safe v)) kvs a))" for kvs a
    by (induction kvs arbitrary: a) (simp_all add: set_keys_update case_prod_unfold del: set_map)
  from this [of "zip names row" "[]"] d len show ?thesis by (auto simp: map_fst_zip_take)
qed

text \<open>Of the columns that share a name only the last one's value is kept.\<close>

lemma row_dict_length: "row_dict names row = Inr d \<Longrightarrow> length d = card (set names)"
  using row_dict_keys [of names row d] distinct_card [of "dict_keys d"] by (simp add: dict_ok_def)

lemma map_res_take: "map_res f xs = Inr ys \<Longrightarrow> map_res f (take n xs) = Inr (take n ys)"
  unfolding map_res_Inr by (rule list_all2_takeI)

text \<open>
  Query results: a result holds the first rows DuckDB gave, in order and at most the limit of
  them, says truncated exactly when there were more, and every value in it can be written as JSON;
  but a row has one entry per distinct column name, so columns that share a name are lost.
\<close>

theorem query_result_is_prefix:
  assumes "execute_select D sql max_rows e = (Inr q, e')" and "dk_execute D sql e = (Inr (cols, rows), e1)"
  shows "map_res (row_dict cols) (take (qr_row_count q) rows) = Inr (qr_rows q)
     \<and> qr_row_count q \<le> dk_max_rows D \<and> (\<forall>m. max_rows = Some m \<longrightarrow> int (qr_row_count q) \<le> m)
     \<and> (qr_truncated q \<longleftrightarrow> qr_row_count q < length rows)
     \<and> (\<forall>d \<in> set (qr_rows q). length d = card (set cols) \<and> (\<forall>(k, v) \<in> set d. not_json v = None))"
proof -
  let ?limit = "case max_rows of None \<Rightarrow> int (dk_max_rows D) | Some m \<Rightarrow> min m (int (dk_max_rows D))"
  have pos: "1 \<le> ?limit" using assms(1) by (auto simp: execute_select_def Let_def split: if_splits)
  obtain dicts where d: "map_res (row_dict cols) (take (nat ?limit) rows) = Inr dicts" and q: "qr_rows q = dicts"
    "qr_row_count q = length dicts" "qr_truncated q \<longleftrightarrow> nat ?limit < length rows"
    using assms pos by (auto simp: execute_select_def Let_def not_less min_def split: sum.splits if_splits)
  have len: "length dicts = min (nat ?limit) (length rows)" using map_res_length [OF d] by simp
  have row: "length d = card (set cols) \<and> (\<forall>(k, v) \<in> set d. not_json v = None)" if d_in: "d \<in> set dicts" for d
  proof -
    obtain i where "i < length dicts" "d = dicts ! i" using d_in by (auto simp: in_set_conv_nth)
    with d obtain row where row: "row_dict cols row = Inr d" using list_all2_nthD2 [of _ _ dicts i] by (auto simp: map_res_Inr)
    have json: "\<forall>(k, v) \<in> set (fold (\<lambda>(k, v). AList.update k (json_safe v)) kvs a). not_json v = None"
      if "\<forall>(k, v) \<in> set a. not_json v = None" for kvs a
      using that
    proof (induction kvs arbitrary: a)
      case (Cons kv kvs)
      obtain k v where kv: "kv = (k, v)" by fastforce
      have "set (AList.update k w a) \<subseteq> insert (k, w) (set a)" for w by (induction a) auto
      then have "\<forall>(k', v') \<in> set (AList.update k (json_safe v) a). not_json v' = None"
        using Cons.prems json_safe_is_json by blast
      from Cons.IH [OF this] kv show ?case by simp
    qed simp
    have "d = fold (\<lambda>(k, v). AList.update k (json_safe v)) (zip cols row) []"
      using row by (auto simp: row_dict_def split: if_splits)
    with json [of "[]" "zip cols row"] have "\<forall>(k, v) \<in> set d. not_json v = None" by simp
    with row_dict_length [OF row] show ?thesis by simp
  qed
  have "min (nat ?limit) (length rows) = length rows \<or> min (nat ?limit) (length rows) = nat ?limit" by linarith
  then have "take (length dicts) rows = take (nat ?limit) rows" using len by auto
  moreover have "length dicts \<le> dk_max_rows D" "\<forall>m. max_rows = Some m \<longrightarrow> int (length dicts) \<le> m"
    using len pos by (auto split: option.splits)
  ultimately show ?thesis using d q len row by auto
qed

text \<open>
  Quoting: whatever a name holds, quotes included, SQL reads the quoted identifier back as exactly
  that name and goes on right after it, so no table name can end the identifier early.
\<close>

theorem quoting_round_trip:
  assumes "rest = [] \<or> hd rest \<noteq> 34"
  shows "hd (quote_identifier s) = 34 \<and> read_quoted (tl (quote_identifier s) @ rest) = Some (s, rest)"
  using read_quoted_body [OF assms, of s] by (simp add: quote_identifier_def)

section \<open>Witnesses\<close>

definition demo_duckdb :: "unit duckdb" where
  "demo_duckdb = \<lparr>dk_execute = (\<lambda>sql e. (Inr ([[97], [97]], [[PInt 1, PInt 2], [PInt 3, PInt 4]]), e)), dk_insert = (\<lambda>sql rows e. (Inr (), e)),
     dk_view = (\<lambda>name path parquet e. (Inr (), e)), dk_is_file = (\<lambda>path e. True), dk_suffix = (\<lambda>path. py ''.csv''), dk_alnum = (\<lambda>c. True),
     dk_digit = (\<lambda>c. False), dk_fold = ascii_fold, dk_clock = (\<lambda>e. 0), dk_max_rows = 1, dk_sample_rows = 3\<rparr>"

theorem query_result_is_prefix_witness:
  "\<exists>q. execute_select demo_duckdb [] None () = (Inr q, ()) \<and> qr_truncated q \<and> qr_rows q = [[([97], PInt 2)]]
     \<and> (\<forall>d \<in> set (qr_rows q). length d = 1)"
proof -
  have run: "\<exists>q. execute_select demo_duckdb [] None () = (Inr q, ()) \<and> qr_rows q = [[([97], PInt 2)]] \<and> qr_row_count q = 1"
    by (simp add: execute_select_def demo_duckdb_def row_dict_def numeral_2_eq_2)
  then obtain q where q: "execute_select demo_duckdb [] None () = (Inr q, ())" "qr_rows q = [[([97], PInt 2)]]" "qr_row_count q = 1" by blast
  have "dk_execute demo_duckdb [] () = (Inr ([[97], [97]], [[PInt 1, PInt 2], [PInt 3, PInt 4]]), ())" by (simp add: demo_duckdb_def)
  from query_result_is_prefix [OF q(1) this] q show ?thesis by simp
qed

theorem quoting_round_trip_witness:
  "read_quoted (tl (quote_identifier [97, 34, 98]) @ [32]) = Some ([97, 34, 98], [32])"
  using quoting_round_trip [of "[32]" "[97, 34, 98]"] by simp

end
