(* ===== verification/Py_Path.thy ===== *)
theory Py_Path
  imports Prelude
begin

text \<open>
  \<open>pathlib.PurePosixPath\<close> as far as the program uses it: the parts of a path, its name, suffix and
  stem.
\<close>

fun split_slash :: "pystr \<Rightarrow> pystr \<Rightarrow> pystr list" where
  "split_slash acc [] = [rev acc]"
| "split_slash acc (c # s) = (if c = 47 then rev acc # split_slash [] s else split_slash (c # acc) s)"

definition path_absolute :: "pystr \<Rightarrow> bool" where
  "path_absolute s \<longleftrightarrow> take 1 s = [47]"

text \<open>The components: empty ones and single dots disappear, the root does not count.\<close>

definition path_components :: "pystr \<Rightarrow> pystr list" where
  "path_components s = filter (\<lambda>p. p \<noteq> [] \<and> p \<noteq> [46]) (split_slash [] s)"

definition path_name :: "pystr \<Rightarrow> pystr" where
  "path_name s = (case path_components s of [] \<Rightarrow> [] | p # ps \<Rightarrow> last (p # ps))"

text \<open>The last dot, unless it is the first or the last character.\<close>

definition last_dot :: "pystr \<Rightarrow> nat option" where
  "last_dot name =
     (let tail = takeWhile (\<lambda>c. c \<noteq> 46) (rev name); i = length name - length tail - 1
      in if length tail < length name \<and> 0 < i \<and> i < length name - 1 then Some i else None)"

definition path_suffix :: "pystr \<Rightarrow> pystr" where
  "path_suffix s = (case last_dot (path_name s) of None \<Rightarrow> [] | Some i \<Rightarrow> drop i (path_name s))"

definition path_stem :: "pystr \<Rightarrow> pystr" where
  "path_stem s = (case last_dot (path_name s) of None \<Rightarrow> path_name s | Some i \<Rightarrow> take i (path_name s))"

lemma split_slash_no_slash: "47 \<notin> set acc \<Longrightarrow> p \<in> set (split_slash acc s) \<Longrightarrow> 47 \<notin> set p"
  by (induction acc s arbitrary: p rule: split_slash.induct) (auto split: if_splits)

lemma path_components_no_slash: "p \<in> set (path_components s) \<Longrightarrow> 47 \<notin> set p"
  using split_slash_no_slash [of "[]"] by (auto simp: path_components_def)

lemma path_components_nonempty: "p \<in> set (path_components s) \<Longrightarrow> p \<noteq> [] \<and> p \<noteq> [46]"
  by (simp add: path_components_def)

text \<open>A name never holds a separator, so a stored name stays inside its directory.\<close>

lemma path_name_no_slash: "47 \<notin> set (path_name s)"
proof (cases "path_components s")
  case (Cons p ps)
  then have "path_name s \<in> set (path_components s)" by (simp add: path_name_def)
  then show ?thesis by (rule path_components_no_slash)
qed (simp add: path_name_def)

section \<open>Splitting and joining\<close>

lemma split_slash_not_Nil [simp]: "split_slash acc s \<noteq> []"
  by (induction acc s rule: split_slash.induct) auto

lemma split_slash_hd: "hd (split_slash acc s) = rev acc @ takeWhile (\<lambda>c. c \<noteq> 47) s"
  by (induction acc s rule: split_slash.induct) auto

lemma split_slash_tl: "tl (split_slash acc s) = tl (split_slash acc' s)"
proof (induction s arbitrary: acc acc')
  case (Cons c s)
  show ?case using Cons.IH [of "c # acc" "c # acc'"] by (cases "c = 47") simp_all
qed simp

lemma join_split: "join [47] (split_slash acc s) = rev acc @ s"
proof (induction acc s rule: split_slash.induct)
  case (2 acc c s)
  obtain x xs where x: "split_slash [] s = x # xs" by (meson neq_Nil_conv split_slash_not_Nil)
  with 2 show ?case by (cases "c = 47") simp_all
qed simp

lemma split_plain: "47 \<notin> set p \<Longrightarrow> split_slash acc (p @ r) = (case r of [] \<Rightarrow> [rev acc @ p] | c # s \<Rightarrow> (if c = 47 then (rev acc @ p) # split_slash [] s else split_slash (rev p @ acc) r))"
  by (induction p arbitrary: acc) (auto split: list.split)

lemma split_join: "ps \<noteq> [] \<Longrightarrow> \<forall>p \<in> set ps. 47 \<notin> set p \<Longrightarrow> split_slash [] (join [47] ps) = ps"
proof (induction ps)
  case (Cons p ps)
  note IH = Cons.IH and prems = Cons.prems
  show ?case
  proof (cases ps)
    case Nil
    then show ?thesis using split_plain [of p "[]" "[]"] prems by simp
  next
    case (Cons q qs)
    then have ih: "split_slash [] (join [47] ps) = ps" "47 \<notin> set p" using IH prems by simp_all
    from Cons have "join [47] (p # ps) = p @ 47 # join [47] ps" by simp
    then show ?thesis using split_plain [of p "[]" "47 # join [47] ps"] ih Cons by simp
  qed
qed simp

text \<open>Joining components and splitting again gives the components.\<close>

lemma components_join:
  assumes "\<forall>p \<in> set ps. 47 \<notin> set p \<and> p \<noteq> [] \<and> p \<noteq> [46]"
  shows "path_components (join [47] ps) = ps"
proof (cases "ps = []")
  case False
  then have "split_slash [] (join [47] ps) = ps" using assms by (intro split_join) auto
  then show ?thesis using assms by (simp add: path_components_def)
qed (simp add: path_components_def)

end
