(* ===== verification/Dataset_Processor.thy ===== *)
theory Dataset_Processor
  imports Analytics_Engine Py_Path
begin

text \<open>
  \<open>app/datasets/processor.py\<close>: an uploaded file is written to its own directory, normalised to CSV if
  it is a workbook, converted to Parquet by DuckDB and registered as a view of the analytics engine;
  whatever fails on the way, the directory and the view are removed again.

  The directories of the upload root and the engine's views are explicit state.  What \<open>openpyxl\<close> reads
  of a workbook and what DuckDB makes of a file are parameters; \<open>'t\<close> is the content of a Parquet file.
\<close>

section \<open>Headers and cells\<close>

text \<open>
  The loop that looks for an unused name: \<open>base\<close>, then \<open>base_2\<close>, \<open>base_3\<close>, and so on.  \<open>None\<close> is
  having run out of fuel; one more unit than there are used names is enough.
\<close>

fun free_name :: "(nat \<Rightarrow> nat list) \<Rightarrow> pystr list \<Rightarrow> pystr \<Rightarrow> pystr \<Rightarrow> nat \<Rightarrow> nat \<Rightarrow> pystr option" where
  "free_name cf used base candidate suffix 0 = None"
| "free_name cf used base candidate suffix (Suc fuel) =
     (if casefold cf candidate \<notin> set used then Some candidate
      else free_name cf used base (base @ [95] @ str_nat suffix) (Suc suffix) fuel)"

definition header_base :: "nat \<Rightarrow> pyval \<Rightarrow> pystr" where
  "header_base index value =
     (let base = (if value = PNone then [] else strip (py_str value))
      in if base = [] then py ''column_'' @ str_nat (Suc index) else base)"

fun unique_headers_from :: "(nat \<Rightarrow> nat list) \<Rightarrow> nat \<Rightarrow> pystr list \<Rightarrow> pyval list \<Rightarrow> pystr list option" where
  "unique_headers_from cf index used [] = Some []"
| "unique_headers_from cf index used (value # rest) =
     (let base = header_base index value
      in case free_name cf used base base 2 (Suc (length used)) of
           None \<Rightarrow> None
         | Some candidate \<Rightarrow>
             map_option (Cons candidate) (unique_headers_from cf (Suc index) (casefold cf candidate # used) rest))"

definition unique_headers :: "(nat \<Rightarrow> nat list) \<Rightarrow> pyval list \<Rightarrow> pystr list option" where
  "unique_headers cf values = unique_headers_from cf 0 [] values"

fun normalize_cell :: "pyval \<Rightarrow> pystr" where
  "normalize_cell PNone = []"
| "normalize_cell (PBool b) = (if b then py ''true'' else py ''false'')"
| "normalize_cell (PTime c i r) = i"
| "normalize_cell v = py_str v"

section \<open>Uploads and workbooks\<close>

definition processing_error :: "pystr \<Rightarrow> 'a pyres" where
  "processing_error msg = raise_exc ''DatasetProcessingError'' msg"

text \<open>The bytes of a part that would exceed the limit are not written.\<close>

fun write_upload :: "nat \<Rightarrow> nat list pyres list \<Rightarrow> nat list \<Rightarrow> nat pyres \<times> nat list" where
  "write_upload limit [] out =
     (if out = [] then processing_error (py ''Uploaded file is empty.'') else Inr (length out), out)"
| "write_upload limit (Inl e # rest) out = (Inl e, out)"
| "write_upload limit (Inr chunk # rest) out =
     (if chunk = [] then (if out = [] then processing_error (py ''Uploaded file is empty.'') else Inr (length out), out)
      else if limit < length out + length chunk then
        (processing_error (py ''File exceeds '' @ str_nat limit @ py '' bytes.''), out)
      else write_upload limit rest (out @ chunk))"

definition csv_row :: "nat \<Rightarrow> pyval list \<Rightarrow> pystr list" where
  "csv_row width row = (let values = map normalize_cell (take width row) in values @ replicate (width - length values) [])"

fun csv_rows :: "nat \<Rightarrow> nat \<Rightarrow> pyval list list \<Rightarrow> pystr list list \<Rightarrow> nat pyres \<times> pystr list list" where
  "csv_rows limit width [] out = (Inr (length out), out)"
| "csv_rows limit width (row # rows) out =
     (if limit \<le> length out then (processing_error (py ''Dataset exceeds '' @ str_nat limit @ py '' rows.''), out)
      else csv_rows limit width rows (out @ [csv_row width row]))"

datatype 't stored_file = RawFile "nat list" | CsvFile "pystr list list" | ParquetFile 't

record 't dataset_env =
  de_fold :: "nat \<Rightarrow> nat list"
  de_workbook :: "nat list \<Rightarrow> pyval list list option pyres" \<comment> \<open>the rows of the active worksheet\<close>
  de_convert :: "'t stored_file \<Rightarrow> 't pyres"
  de_count :: "'t \<Rightarrow> nat pyres"
  de_view :: "'t \<Rightarrow> unit pyres" \<comment> \<open>\<open>register_parquet\<close> on an existing file\<close>
  de_columns :: "'t \<Rightarrow> column_info list pyres"
  de_max_bytes :: nat
  de_max_rows :: nat
  de_max_columns :: nat

text \<open>What was written of the normalised file, if it was opened, and the result.\<close>

definition xlsx_to_csv :: "'t dataset_env \<Rightarrow> nat list \<Rightarrow> unit pyres \<times> pystr list list option" where
  "xlsx_to_csv E bytes =
     (case de_workbook E bytes of
        Inl e \<Rightarrow> (Inl e, None)
      | Inr None \<Rightarrow> (processing_error (py ''Excel workbook has no active worksheet.''), None)
      | Inr (Some []) \<Rightarrow> (processing_error (py ''Excel worksheet is empty.''), None)
      | Inr (Some (raw # rows)) \<Rightarrow>
          (case unique_headers (de_fold E) raw of
             None \<Rightarrow> (processing_error [], None)
           | Some headers \<Rightarrow>
               (if de_max_columns E < length headers then
                  (processing_error (py ''Dataset exceeds '' @ str_nat (de_max_columns E) @ py '' columns.''), None)
                else case csv_rows (de_max_rows E) (length headers) rows [] of
                  (Inl e, out) \<Rightarrow> (Inl e, Some (headers # out))
                | (Inr n, out) \<Rightarrow>
                    (if n = 0 then processing_error (py ''Excel worksheet has no data rows.'') else Inr (), Some (headers # out)))))"

section \<open>Processing\<close>

record dataset_row =
  ds_id :: uuid
  ds_workspace :: uuid
  ds_name :: pystr
  ds_filename :: pystr
  ds_table :: pystr
  ds_type :: pystr
  ds_size :: nat
  ds_status :: pystr
  ds_rows :: nat
  ds_columns :: "column_info list"
  ds_error :: "pystr option"
  ds_created :: int
  ds_updated :: int

text \<open>A view reads the Parquet file in the directory of a dataset.\<close>

record 't dataset_world =
  dw_workspaces :: "uuid list"
  dw_dirs :: "(uuid \<times> (pystr \<times> 't stored_file) list) list"
  dw_views :: "(pystr \<times> uuid) list"
  dw_rows :: "dataset_row list"

record processed_dataset =
  pd_id :: uuid
  pd_name :: pystr
  pd_filename :: pystr
  pd_table :: pystr
  pd_type :: pystr
  pd_size :: nat
  pd_rows :: nat
  pd_columns :: "column_info list"

definition supported_extensions :: "pystr list" where
  "supported_extensions = map py [''.csv'', ''.tsv'', ''.xlsx'']"

definition table_of :: "uuid \<Rightarrow> pystr" where
  "table_of i = py ''dataset_'' @ take 12 (uuid_hex i)"

definition put_file :: "uuid \<Rightarrow> string \<Rightarrow> 't stored_file \<Rightarrow> 't dataset_world \<Rightarrow> 't dataset_world" where
  "put_file i name f w = w\<lparr>dw_dirs := AList.update i
     (AList.update (py name) f (case dict_get (dw_dirs w) i of None \<Rightarrow> [] | Some files \<Rightarrow> files)) (dw_dirs w)\<rparr>"

definition remove_dataset :: "uuid \<Rightarrow> pystr \<Rightarrow> 't dataset_world \<Rightarrow> 't dataset_world" where
  "remove_dataset i table w = w\<lparr>dw_views := AList.delete table (dw_views w), dw_dirs := AList.delete i (dw_dirs w)\<rparr>"

text \<open>From the file that is read as CSV to the registered view.\<close>

definition register_dataset ::
  "'t dataset_env \<Rightarrow> uuid \<Rightarrow> pystr \<Rightarrow> 't stored_file \<Rightarrow> 't dataset_world \<Rightarrow> (nat \<times> column_info list) pyres \<times> 't dataset_world" where
  "register_dataset E i table source w =
     (case de_convert E source of
        Inl e \<Rightarrow> (Inl e, w)
      | Inr t \<Rightarrow>
          (let w1 = put_file i ''data.parquet'' (ParquetFile t) w
           in case de_count E t of
                Inl e \<Rightarrow> (Inl e, w1)
              | Inr n \<Rightarrow>
                  (if de_max_rows E < n then (processing_error (py ''Dataset exceeds '' @ str_nat (de_max_rows E) @ py '' rows.''), w1)
                   else case de_view E t of
                     Inl e \<Rightarrow> (Inl e, w1)
                   | Inr u \<Rightarrow>
                       (let w2 = w1\<lparr>dw_views := AList.update table i (dw_views w1)\<rparr>
                        in case de_columns E t of
                             Inl e \<Rightarrow> (Inl e, w2)
                           | Inr cols \<Rightarrow>
                               (if de_max_columns E < length cols then
                                  (processing_error (py ''Dataset exceeds '' @ str_nat (de_max_columns E) @ py '' columns.''), w2)
                                else (Inr (n, cols), w2))))))"

text \<open>The file that is read as CSV: the upload itself, or what was normalised of a workbook.\<close>

definition csv_source ::
  "'t dataset_env \<Rightarrow> uuid \<Rightarrow> pystr \<Rightarrow> nat list \<Rightarrow> 't dataset_world \<Rightarrow> 't stored_file pyres \<times> 't dataset_world" where
  "csv_source E i extension bytes w =
     (if extension = py ''.xlsx'' then
        (case xlsx_to_csv E bytes of
           (Inl e, None) \<Rightarrow> (Inl e, w)
         | (Inl e, Some rows) \<Rightarrow> (Inl e, put_file i ''normalized.csv'' (CsvFile rows) w)
         | (Inr u, out) \<Rightarrow>
             (let rows = (case out of None \<Rightarrow> [] | Some rows \<Rightarrow> rows)
              in (Inr (CsvFile rows), put_file i ''normalized.csv'' (CsvFile rows) w)))
      else (Inr (RawFile bytes), w))"

definition process_steps ::
  "'t dataset_env \<Rightarrow> uuid \<Rightarrow> pystr \<Rightarrow> pystr \<Rightarrow> nat list pyres list \<Rightarrow> 't dataset_world \<Rightarrow>
   (nat \<times> nat \<times> column_info list) pyres \<times> 't dataset_world" where
  "process_steps E i extension table chunks w =
     (case write_upload (de_max_bytes E) chunks [] of
        (r, bytes) \<Rightarrow>
          (let w1 = put_file i ''source'' (RawFile bytes) w
           in case r of
                Inl e \<Rightarrow> (Inl e, w1)
              | Inr nbytes \<Rightarrow>
                  (case csv_source E i extension bytes w1 of
                     (Inl e, w2) \<Rightarrow> (Inl e, w2)
                   | (Inr f, w2) \<Rightarrow>
                       (case register_dataset E i table f w2 of
                          (Inl e, w3) \<Rightarrow> (Inl e, w3)
                        | (Inr (n, cols), w3) \<Rightarrow> (Inr (nbytes, n, cols), w3)))))"

definition process ::
  "'t dataset_env \<Rightarrow> uuid \<Rightarrow> pystr \<Rightarrow> nat list pyres list \<Rightarrow> 't dataset_world \<Rightarrow> processed_dataset pyres \<times> 't dataset_world" where
  "process E i filename chunks w =
     (let safe = path_name filename; extension = casefold (de_fold E) (path_suffix safe); table = table_of i
      in if extension \<notin> set supported_extensions then
           (processing_error (py ''Unsupported file type. Allowed: .csv, .tsv, .xlsx.''), w)
         else if dict_get (dw_dirs w) i \<noteq> None then (raise_exc ''FileExistsError'' [], w)
         else case process_steps E i extension table chunks (w\<lparr>dw_dirs := AList.update i [] (dw_dirs w)\<rparr>) of
           (Inl e, w1) \<Rightarrow> (Inl e, remove_dataset i table w1)
         | (Inr (nbytes, n, cols), w1) \<Rightarrow>
             (Inr \<lparr>pd_id = i, pd_name = (let stem = take 160 (path_stem safe) in if stem = [] then py ''dataset'' else stem),
                pd_filename = safe, pd_table = table, pd_type = dropWhile (\<lambda>c. c = 46) extension, pd_size = nbytes,
                pd_rows = n, pd_columns = cols\<rparr>, w1))"

section \<open>Headers are unique\<close>

lemma casefold_digits:
  assumes "fold_table cf" and "\<forall>c \<in> set s. c < 128 \<and> (c < 65 \<or> 90 < c)"
  shows "casefold cf s = s"
  using assms(2) by (induction s) (use assms(1) in \<open>auto simp: fold_table_def casefold_def ascii_lower_def\<close>)

lemma casefold_suffix:
  assumes "fold_table cf"
  shows "casefold cf (base @ [95] @ str_nat n) = casefold cf base @ [95] @ str_nat n"
proof -
  have "casefold cf ([95] @ str_nat n) = [95] @ str_nat n"
    by (rule casefold_digits [OF assms]) (auto dest: str_nat_digits)
  then show ?thesis by simp
qed

text \<open>If all the candidates the fuel allows were taken, there would be more used names than there are.\<close>

lemma free_name_exhausted:
  assumes "fold_table cf"
  shows "free_name cf used base candidate suffix fuel = None \<Longrightarrow> 0 < fuel \<Longrightarrow>
    casefold cf candidate \<in> set used \<and> (\<forall>k < fuel - 1. casefold cf base @ [95] @ str_nat (suffix + k) \<in> set used)"
proof (induction fuel arbitrary: candidate suffix)
  case (Suc fuel)
  then have c: "casefold cf candidate \<in> set used"
    and rest: "free_name cf used base (base @ [95] @ str_nat suffix) (Suc suffix) fuel = None"
    by (auto split: if_splits)
  have "casefold cf base @ [95] @ str_nat (suffix + k) \<in> set used" if "k < fuel" for k
  proof -
    from that have "0 < fuel" by simp
    with Suc.IH [OF rest] have ih: "casefold cf (base @ [95] @ str_nat suffix) \<in> set used"
      "\<forall>k < fuel - 1. casefold cf base @ [95] @ str_nat (Suc suffix + k) \<in> set used" by auto
    show ?thesis
    proof (cases k)
      case 0
      with ih(1) casefold_suffix [OF assms] show ?thesis by simp
    next
      case (Suc j)
      with ih(2) that have "casefold cf base @ [95] @ str_nat (Suc suffix + j) \<in> set used" by auto
      with Suc show ?thesis by simp
    qed
  qed
  with c show ?case by simp
qed simp

lemma free_name_found:
  assumes "fold_table cf"
  shows "\<exists>c. free_name cf used base base 2 (Suc (length used)) = Some c"
proof (rule ccontr)
  assume "\<nexists>c. free_name cf used base base 2 (Suc (length used)) = Some c"
  then have none: "free_name cf used base base 2 (Suc (length used)) = None" by simp
  let ?g = "\<lambda>k. casefold cf base @ [95] @ str_nat (2 + k)"
  from free_name_exhausted [OF assms none] have base: "casefold cf base \<in> set used"
    and all: "\<forall>k < length used. ?g k \<in> set used" by simp_all
  have "inj_on ?g {..<length used}" by (simp add: inj_on_def)
  then have "card (?g ` {..<length used}) = length used" by (simp add: card_image)
  moreover have "casefold cf base \<notin> ?g ` {..<length used}" by auto
  ultimately have "card (insert (casefold cf base) (?g ` {..<length used})) = Suc (length used)" by simp
  moreover have "insert (casefold cf base) (?g ` {..<length used}) \<subseteq> set used" using base all by auto
  then have "card (insert (casefold cf base) (?g ` {..<length used})) \<le> card (set used)" by (intro card_mono) simp_all
  ultimately show False using card_length [of used] by simp
qed

lemma free_name_new: "free_name cf used base candidate suffix fuel = Some c \<Longrightarrow> casefold cf c \<notin> set used"
  by (induction fuel arbitrary: candidate suffix) (auto split: if_splits)

lemma free_name_starts: "free_name cf used base candidate suffix fuel = Some c \<Longrightarrow> take (length base) candidate = base \<Longrightarrow> take (length base) c = base"
  by (induction fuel arbitrary: candidate suffix) (auto split: if_splits)

lemma unique_headers_from_ok:
  assumes "fold_table cf"
  shows "\<exists>hs. unique_headers_from cf index used vs = Some hs \<and> length hs = length vs \<and> distinct (map (casefold cf) hs)
    \<and> set (map (casefold cf) hs) \<inter> set used = {}
    \<and> (\<forall>i < length hs. take (length (header_base (index + i) (vs ! i))) (hs ! i) = header_base (index + i) (vs ! i))"
proof (induction vs arbitrary: index used)
  case (Cons v vs)
  let ?base = "header_base index v"
  obtain c where c: "free_name cf used ?base ?base 2 (Suc (length used)) = Some c" using free_name_found [OF assms] by blast
  have new: "casefold cf c \<notin> set used" by (rule free_name_new [OF c])
  have starts: "take (length ?base) c = ?base" by (rule free_name_starts [OF c]) simp
  from Cons.IH [of "Suc index" "casefold cf c # used"] obtain hs where hs: "unique_headers_from cf (Suc index) (casefold cf c # used) vs = Some hs"
    "length hs = length vs" "distinct (map (casefold cf) hs)" "set (map (casefold cf) hs) \<inter> set (casefold cf c # used) = {}"
    "\<forall>i < length hs. take (length (header_base (Suc index + i) (vs ! i))) (hs ! i) = header_base (Suc index + i) (vs ! i)" by blast
  have each: "take (length (header_base (index + i) ((v # vs) ! i))) ((c # hs) ! i) = header_base (index + i) ((v # vs) ! i)"
    if "i < length (c # hs)" for i
    using that hs(5) starts by (cases i) auto
  have "unique_headers_from cf index used (v # vs) = Some (c # hs)"
    using c hs(1) by (simp del: free_name.simps add: Let_def)
  then show ?case using hs(2-4) new each by (intro exI [of _ "c # hs"]) (auto simp del: free_name.simps unique_headers_from.simps)
qed simp

text \<open>
  Headers: whatever the first row of a worksheet holds, the loop that looks for unused names ends,
  every column gets a header that starts with its own text, or with its position when it has none,
  and no two headers are equal, not even up to case.
\<close>

theorem headers_are_unique:
  assumes "fold_table cf"
  shows "\<exists>hs. unique_headers cf vs = Some hs \<and> length hs = length vs \<and> distinct (map (casefold cf) hs)
    \<and> (\<forall>i < length hs. take (length (header_base i (vs ! i))) (hs ! i) = header_base i (vs ! i))"
  using unique_headers_from_ok [OF assms, of 0 "[]" vs] by (auto simp: unique_headers_def)

theorem headers_are_unique_witness:
  "\<exists>hs. unique_headers ascii_fold [PStr [65], PStr [97], PNone] = Some hs \<and> length hs = 3 \<and> distinct (map (casefold ascii_fold) hs)"
  using headers_are_unique [OF fold_table_ascii, of "[PStr [65], PStr [97], PNone]"] by (auto simp: numeral_3_eq_3)

end
