(* ===== verification/Dataset_Service.thy ===== *)
theory Dataset_Service
  imports Dataset_Processor
begin

text \<open>
  \<open>app/datasets/service.py\<close>: the datasets of the workspaces, kept in three places that have to agree:
  the rows of the table \<open>datasets\<close>, the directories of the upload root and the engine's views.

  What the database itself may raise at a commit, and at the refresh after it, is an argument.  The
  stored path of a Parquet file is always that of \<open>data.parquet\<close> in the dataset's directory.
\<close>

section \<open>Rows and views\<close>

record dataset_view_data =
  dv_id :: uuid
  dv_name :: pystr
  dv_filename :: pystr
  dv_table :: pystr
  dv_type :: pystr
  dv_size :: nat
  dv_status :: pystr
  dv_rows :: nat
  dv_columns :: "column_info list"
  dv_error :: "pystr option"
  dv_created :: int
  dv_updated :: int

record dataset_summary_data =
  dm_id :: uuid
  dm_name :: pystr
  dm_filename :: pystr
  dm_table :: pystr
  dm_type :: pystr
  dm_size :: nat
  dm_status :: pystr
  dm_rows :: nat
  dm_created :: int
  dm_updated :: int

definition dataset_from_processed :: "processed_dataset \<Rightarrow> uuid \<Rightarrow> int \<Rightarrow> dataset_row" where
  "dataset_from_processed p ws now =
     \<lparr>ds_id = pd_id p, ds_workspace = ws, ds_name = pd_name p, ds_filename = pd_filename p, ds_table = pd_table p,
      ds_type = pd_type p, ds_size = pd_size p, ds_status = py ''ready'', ds_rows = pd_rows p, ds_columns = pd_columns p,
      ds_error = None, ds_created = now, ds_updated = now\<rparr>"

definition dataset_view :: "dataset_row \<Rightarrow> dataset_view_data" where
  "dataset_view r =
     \<lparr>dv_id = ds_id r, dv_name = ds_name r, dv_filename = ds_filename r, dv_table = ds_table r, dv_type = ds_type r,
      dv_size = ds_size r, dv_status = ds_status r, dv_rows = ds_rows r, dv_columns = ds_columns r, dv_error = ds_error r,
      dv_created = ds_created r, dv_updated = ds_updated r\<rparr>"

definition dataset_summary :: "dataset_row \<Rightarrow> dataset_summary_data" where
  "dataset_summary r =
     \<lparr>dm_id = ds_id r, dm_name = ds_name r, dm_filename = ds_filename r, dm_table = ds_table r, dm_type = ds_type r,
      dm_size = ds_size r, dm_status = ds_status r, dm_rows = ds_rows r, dm_created = ds_created r, dm_updated = ds_updated r\<rparr>"

definition is_ready :: "dataset_row \<Rightarrow> bool" where
  "is_ready r \<longleftrightarrow> ds_status r = py ''ready''"

section \<open>Operations\<close>

text \<open>The constraints of the table: its keys, the workspace it refers to, and the sizes of its columns.\<close>

definition dataset_fits :: "dataset_row \<Rightarrow> bool" where
  "dataset_fits r \<longleftrightarrow> length (ds_name r) \<le> 160 \<and> length (ds_filename r) \<le> 255 \<and> length (ds_table r) \<le> 80
     \<and> length (ds_type r) \<le> 16 \<and> ds_size r < 2 ^ 31 \<and> ds_rows r < 2 ^ 31"

definition insert_dataset :: "unit pyres \<Rightarrow> dataset_row \<Rightarrow> 't dataset_world \<Rightarrow> unit pyres \<times> 't dataset_world" where
  "insert_dataset commit r w =
     (if ds_id r \<in> set (map ds_id (dw_rows w)) \<or> ds_table r \<in> set (map ds_table (dw_rows w)) \<or> ds_workspace r \<notin> set (dw_workspaces w) then
        (raise_exc ''IntegrityError'' [], w)
      else if \<not> dataset_fits r then (raise_exc ''DBAPIError'' [], w)
      else case commit of Inl e \<Rightarrow> (Inl e, w) | Inr u \<Rightarrow> (Inr (), w\<lparr>dw_rows := dw_rows w @ [r]\<rparr>))"

definition ingest ::
  "'t dataset_env \<Rightarrow> unit pyres \<Rightarrow> unit pyres \<Rightarrow> uuid \<Rightarrow> int \<Rightarrow> uuid \<Rightarrow> pystr \<Rightarrow> nat list pyres list \<Rightarrow>
   't dataset_world \<Rightarrow> dataset_view_data pyres \<times> 't dataset_world" where
  "ingest E commit refresh i now ws filename chunks w =
     (case process E i filename chunks w of
        (Inl e, w1) \<Rightarrow> (Inl e, w1)
      | (Inr p, w1) \<Rightarrow>
          (let r = dataset_from_processed p ws now
           in case insert_dataset commit r w1 of
                (Inl e, w2) \<Rightarrow> (Inl e, remove_dataset i (pd_table p) w2)
              | (Inr u, w2) \<Rightarrow>
                  (case refresh of
                     Inl e \<Rightarrow> (Inl e, remove_dataset i (pd_table p) w2)
                   | Inr u \<Rightarrow> (Inr (dataset_view r), w2))))"

text \<open>Newest first.\<close>

definition list_datasets :: "'t dataset_world \<Rightarrow> uuid \<Rightarrow> dataset_summary_data list" where
  "list_datasets w ws = map dataset_summary (sort_key (\<lambda>r. - ds_created r) (filter (\<lambda>r. ds_workspace r = ws) (dw_rows w)))"

definition find_dataset :: "'t dataset_world \<Rightarrow> uuid \<Rightarrow> uuid \<Rightarrow> dataset_row option" where
  "find_dataset w ws i = find (\<lambda>r. ds_id r = i \<and> ds_workspace r = ws) (dw_rows w)"

definition get_dataset :: "'t dataset_world \<Rightarrow> uuid \<Rightarrow> uuid \<Rightarrow> dataset_view_data option" where
  "get_dataset w ws i = map_option dataset_view (find_dataset w ws i)"

definition by_table :: "dataset_row list \<Rightarrow> pystr \<Rightarrow> dataset_row option" where
  "by_table rows name = find (\<lambda>r. ds_table r = name) (rev rows)"

definition resolve_tables :: "'t dataset_world \<Rightarrow> uuid \<Rightarrow> pystr list \<Rightarrow> dataset_view_data list pyres" where
  "resolve_tables w ws names =
     (if names = [] then Inr []
      else (let rows = filter (\<lambda>r. ds_workspace r = ws \<and> ds_table r \<in> set names) (dw_rows w);
                missing = filter (\<lambda>n. by_table rows n = None) names;
                unavailable = filter (\<lambda>n. case by_table rows n of None \<Rightarrow> False | Some r \<Rightarrow> \<not> is_ready r) names
            in if missing \<noteq> [] \<or> unavailable \<noteq> [] then
                 raise_exc ''ValueError'' (py ''Datasets are not available for sandbox mounting: ''
                   @ join (py '', '') (missing @ unavailable) @ py ''.'')
               else Inr (map dataset_view (List.map_filter (by_table rows) names))))"

definition dataset_table_names :: "'t dataset_world \<Rightarrow> uuid \<Rightarrow> pystr list" where
  "dataset_table_names w ws = map ds_table (filter (\<lambda>r. ds_workspace r = ws \<and> is_ready r) (dw_rows w))"

definition delete_dataset :: "unit pyres \<Rightarrow> 't dataset_world \<Rightarrow> uuid \<Rightarrow> uuid \<Rightarrow> bool pyres \<times> 't dataset_world" where
  "delete_dataset commit w ws i =
     (case find_dataset w ws i of
        None \<Rightarrow> (Inr False, w)
      | Some r \<Rightarrow>
          (case commit of
             Inl e \<Rightarrow> (Inl e, w)
           | Inr u \<Rightarrow>
               (Inr True, remove_dataset i (ds_table r)
                  (w\<lparr>dw_rows := filter (\<lambda>r. \<not> (ds_id r = i \<and> ds_workspace r = ws)) (dw_rows w)\<rparr>))))"

text \<open>The table whose preview the engine is asked for, if there is one.\<close>

definition preview_of :: "'t dataset_world \<Rightarrow> uuid \<Rightarrow> uuid \<Rightarrow> pystr option" where
  "preview_of w ws i = (case find_dataset w ws i of None \<Rightarrow> None | Some r \<Rightarrow> (if is_ready r then Some (ds_table r) else None))"

definition preview_dataset ::
  "'e duckdb \<Rightarrow> 't dataset_world \<Rightarrow> uuid \<Rightarrow> uuid \<Rightarrow> int \<Rightarrow> 'e \<Rightarrow> query_result option pyres \<times> 'e" where
  "preview_dataset D w ws i limit e =
     (case preview_of w ws i of
        None \<Rightarrow> (Inr None, e)
      | Some name \<Rightarrow> (case preview_table D name limit e of (Inl x, e1) \<Rightarrow> (Inl x, e1) | (Inr q, e1) \<Rightarrow> (Inr (Some q), e1)))"

text \<open>What is stored as the Parquet file of a dataset.\<close>

definition parquet_of :: "'t dataset_world \<Rightarrow> uuid \<Rightarrow> 't stored_file option" where
  "parquet_of w i = (case dict_get (dw_dirs w) i of None \<Rightarrow> None | Some files \<Rightarrow> dict_get files (py ''data.parquet''))"

definition failed_row :: "pystr \<Rightarrow> dataset_row \<Rightarrow> dataset_row" where
  "failed_row msg r = r\<lparr>ds_status := py ''failed'', ds_error := Some msg\<rparr>"

definition restore_row :: "'t dataset_env \<Rightarrow> 't dataset_world \<Rightarrow> dataset_row \<Rightarrow> dataset_row \<times> (pystr \<times> uuid) list" where
  "restore_row E w r =
     (case parquet_of w (ds_id r) of
        Some (ParquetFile t) \<Rightarrow>
          (case de_view E t of
             Inl e \<Rightarrow> (failed_row (py ''Unable to restore dataset: '' @ exc_text e) r, [])
           | Inr u \<Rightarrow> (r, [(ds_table r, ds_id r)]))
      | _ \<Rightarrow> (failed_row (py ''Stored Parquet file is missing.'') r, []))"

text \<open>Every ready row in turn; the new statuses are committed if there is one.\<close>

definition restore_engine :: "'t dataset_env \<Rightarrow> unit pyres \<Rightarrow> 't dataset_world \<Rightarrow> unit pyres \<times> 't dataset_world" where
  "restore_engine E commit w =
     (let rows = map (\<lambda>r. if is_ready r then fst (restore_row E w r) else r) (dw_rows w);
          views = concat (map (\<lambda>r. if is_ready r then snd (restore_row E w r) else []) (dw_rows w));
          w1 = w\<lparr>dw_views := fold (\<lambda>(table, i). AList.update table i) views (dw_views w)\<rparr>
      in if rows = dw_rows w then (Inr (), w1)
         else case commit of Inl e \<Rightarrow> (Inl e, w1) | Inr u \<Rightarrow> (Inr (), w1\<lparr>dw_rows := rows\<rparr>))"

text \<open>A restart: the engine's views are in memory, and files may have been lost.\<close>

definition restart :: "(uuid \<Rightarrow> bool) \<Rightarrow> (uuid \<Rightarrow> pystr \<Rightarrow> bool) \<Rightarrow> 't dataset_world \<Rightarrow> 't dataset_world" where
  "restart keep_dir keep_file w =
     w\<lparr>dw_views := [],
       dw_dirs := map (\<lambda>(i, files). (i, filter (\<lambda>(name, f). keep_file i name) files)) (filter (\<lambda>(i, files). keep_dir i) (dw_dirs w))\<rparr>"

end
