(* ===== verification/Dataset_Properties.thy ===== *)
theory Dataset_Properties
  imports Dataset_Service
begin

text \<open>
  The rows, the directories and the views of the datasets stay consistent: an upload that fails leaves
  nothing behind, and in every reachable state a ready dataset has its file and its view, and nothing
  else has one.
\<close>

section \<open>What an upload touches\<close>

text \<open>Two states that differ in one directory and one view only.\<close>

definition touches :: "uuid \<Rightarrow> pystr \<Rightarrow> 't dataset_world \<Rightarrow> 't dataset_world \<Rightarrow> bool" where
  "touches i table w w' \<longleftrightarrow> dw_rows w' = dw_rows w \<and> dw_workspaces w' = dw_workspaces w
     \<and> AList.delete i (dw_dirs w') = AList.delete i (dw_dirs w) \<and> AList.delete table (dw_views w') = AList.delete table (dw_views w)"

lemma touches_refl [simp, intro]: "touches i table w w"
  by (simp add: touches_def)

lemma touches_trans: "touches i table w w' \<Longrightarrow> touches i table w' w'' \<Longrightarrow> touches i table w w''"
  by (simp add: touches_def)

lemma touches_dir: "touches i table w (w\<lparr>dw_dirs := AList.update i files (dw_dirs w)\<rparr>)"
  by (simp add: touches_def delete_update_same)

lemma touches_put [simp]: "touches i table w (put_file i name f w)"
  by (simp add: put_file_def touches_dir)

lemma touches_view: "touches i table w (w\<lparr>dw_views := AList.update table i (dw_views w)\<rparr>)"
  by (simp add: touches_def delete_update_same)

lemma remove_touched:
  assumes "touches i table w w'" and "dict_get (dw_dirs w) i = None" and "dict_get (dw_views w) table = None"
  shows "remove_dataset i table w' = w"
proof -
  have "AList.delete i (dw_dirs w) = dw_dirs w" "AList.delete table (dw_views w) = dw_views w"
    using assms(2,3) by (auto simp: map_of_eq_None_iff intro: delete_id)
  with assms(1) show ?thesis by (simp add: touches_def remove_dataset_def)
qed

lemma register_touches: "touches i table w (snd (register_dataset E i table f w))"
proof (cases "de_convert E f")
  case (Inr t)
  have "touches i table w ((put_file i n x w)\<lparr>dw_views := AList.update table i (dw_views (put_file i n x w))\<rparr>)" for n x
    by (rule touches_trans [OF touches_put touches_view])
  with Inr show ?thesis by (simp add: register_dataset_def Let_def split: sum.split)
qed (simp add: register_dataset_def)

lemma csv_source_touches: "touches i table w (snd (csv_source E i extension bytes w))"
proof (cases "xlsx_to_csv E bytes")
  case (Pair r out)
  then show ?thesis by (cases r; cases out) (simp_all add: csv_source_def Let_def)
qed

lemma process_steps_touches: "touches i table w (snd (process_steps E i extension table chunks w))"
proof -
  obtain r bytes where wu: "write_upload (de_max_bytes E) chunks [] = (r, bytes)" by (meson surj_pair)
  let ?w1 = "put_file i ''source'' (RawFile bytes) w"
  obtain s w2 where s: "csv_source E i extension bytes ?w1 = (s, w2)" by (meson surj_pair)
  have w2: "touches i table w w2"
    using touches_trans [OF touches_put [of i table w "''source''" "RawFile bytes"] csv_source_touches [of i table ?w1 E extension bytes]] s by simp
  show ?thesis
  proof (cases r)
    case (Inl e)
    with wu show ?thesis by (simp add: process_steps_def Let_def)
  next
    case (Inr n)
    show ?thesis
    proof (cases s)
      case (Inl e)
      with Inr wu s w2 show ?thesis by (simp add: process_steps_def Let_def)
    next
      case (Inr f)
      obtain q w3 where q: "register_dataset E i table f w2 = (q, w3)" by (meson surj_pair)
      have "touches i table w w3" using touches_trans [OF w2 register_touches [of i table w2 E f]] q by simp
      with \<open>r = Inr n\<close> Inr wu s q show ?thesis by (cases q) (simp_all add: process_steps_def Let_def split: prod.split)
    qed
  qed
qed

lemma put_file_get [simp]: "parquet_of (put_file i ''data.parquet'' f w) i = Some f"
  by (simp add: parquet_of_def put_file_def get_update)

lemma parquet_of_views [simp]: "parquet_of (w\<lparr>dw_views := v\<rparr>) i = parquet_of w i"
  by (simp add: parquet_of_def)

lemma register_ok:
  assumes "register_dataset E i table f w = (Inr nc, w')"
  shows "(\<exists>t. parquet_of w' i = Some (ParquetFile t) \<and> de_convert E f = Inr t) \<and> dict_get (dw_views w') table = Some i"
proof -
  obtain t where t: "de_convert E f = Inr t" using assms by (cases "de_convert E f") (auto simp: register_dataset_def)
  have "w' = (put_file i ''data.parquet'' (ParquetFile t) w)\<lparr>dw_views := AList.update table i (dw_views (put_file i ''data.parquet'' (ParquetFile t) w))\<rparr>"
    using assms t by (simp add: register_dataset_def processing_error_def Let_def split: sum.splits if_splits)
  with t show ?thesis by (simp add: get_update)
qed

lemma process_steps_ok:
  assumes "process_steps E i extension table chunks w = (Inr x, w')"
  shows "(\<exists>t. parquet_of w' i = Some (ParquetFile t)) \<and> dict_get (dw_views w') table = Some i"
proof -
  from assms obtain f nc w2 where "register_dataset E i table f w2 = (Inr nc, w')"
    by (simp add: process_steps_def Let_def split: prod.splits sum.splits)
  from register_ok [OF this] show ?thesis by blast
qed


section \<open>Uploads\<close>

lemma process_fails:
  assumes "process E i filename chunks w = (Inl e, w')" and "dict_get (dw_views w) (table_of i) = None"
  shows "w' = w"
proof -
  let ?ext = "casefold (de_fold E) (path_suffix (path_name filename))"
  let ?w0 = "w\<lparr>dw_dirs := AList.update i [] (dw_dirs w)\<rparr>"
  show ?thesis
  proof (cases "?ext \<in> set supported_extensions \<and> dict_get (dw_dirs w) i = None")
    case True
    obtain r w1 where r: "process_steps E i ?ext (table_of i) chunks ?w0 = (r, w1)" by (meson surj_pair)
    have "touches i (table_of i) w w1"
      using touches_trans [OF touches_dir [of i "table_of i" w "[]"] process_steps_touches [of i "table_of i" ?w0 E ?ext chunks]] r by simp
    then have "remove_dataset i (table_of i) w1 = w" using True assms(2) by (intro remove_touched) simp_all
    with True r assms(1) show ?thesis by (cases r) (auto simp: process_def Let_def split: prod.splits)
  next
    case False
    with assms(1) show ?thesis by (auto simp: process_def processing_error_def Let_def split: if_splits)
  qed
qed

lemma process_ok:
  assumes "process E i filename chunks w = (Inr p, w')"
  shows "pd_id p = i \<and> pd_table p = table_of i \<and> touches i (table_of i) w w' \<and> dict_get (dw_dirs w) i = None
    \<and> (\<exists>t. parquet_of w' i = Some (ParquetFile t)) \<and> dict_get (dw_views w') (table_of i) = Some i"
proof -
  let ?ext = "casefold (de_fold E) (path_suffix (path_name filename))"
  let ?w0 = "w\<lparr>dw_dirs := AList.update i [] (dw_dirs w)\<rparr>"
  have new: "?ext \<in> set supported_extensions" "dict_get (dw_dirs w) i = None"
    using assms by (auto simp: process_def processing_error_def Let_def split: if_splits)
  obtain r where r: "process_steps E i ?ext (table_of i) chunks ?w0 = (Inr r, w')" and p: "pd_id p = i" "pd_table p = table_of i"
    using assms new by (auto simp: process_def Let_def split: prod.splits sum.splits)
  have "touches i (table_of i) w w'"
    using touches_trans [OF touches_dir [of i "table_of i" w "[]"] process_steps_touches [of i "table_of i" ?w0 E ?ext chunks]] r by simp
  with p new(2) process_steps_ok [OF r] show ?thesis by simp
qed

lemma insert_cases:
  "insert_dataset commit r w = (Inl e, w') \<Longrightarrow> w' = w"
  "insert_dataset commit r w = (Inr u, w') \<Longrightarrow> w' = w\<lparr>dw_rows := dw_rows w @ [r]\<rparr>
     \<and> ds_id r \<notin> set (map ds_id (dw_rows w)) \<and> ds_table r \<notin> set (map ds_table (dw_rows w)) \<and> ds_workspace r \<in> set (dw_workspaces w)"
  by (simp_all add: insert_dataset_def split: if_splits sum.splits)

lemma ingest_cases:
  assumes "ingest E commit (Inr ()) i now ws filename chunks w = (r, w')" and "dict_get (dw_views w) (table_of i) = None"
  obtains (fails) e where "r = Inl e" "w' = w"
  | (uploaded) p w1 where "r = Inr (dataset_view (dataset_from_processed p ws now))" "process E i filename chunks w = (Inr p, w1)"
      "w' = w1\<lparr>dw_rows := dw_rows w @ [dataset_from_processed p ws now]\<rparr>"
      "ds_id (dataset_from_processed p ws now) \<notin> set (map ds_id (dw_rows w))"
      "ds_table (dataset_from_processed p ws now) \<notin> set (map ds_table (dw_rows w))" "ws \<in> set (dw_workspaces w)"
proof -
  obtain q w1 where q: "process E i filename chunks w = (q, w1)" by (meson surj_pair)
  show thesis
  proof (cases q)
    case (Inl e)
    with assms q process_fails [of E i filename chunks w e w1] show thesis by (intro fails [of e]) (simp_all add: ingest_def)
  next
    case (Inr p)
    let ?row = "dataset_from_processed p ws now"
    have p: "pd_table p = table_of i" "touches i (table_of i) w w1" "dict_get (dw_dirs w) i = None"
      using process_ok [of E i filename chunks w p w1] q Inr by simp_all
    obtain s w2 where s: "insert_dataset commit ?row w1 = (s, w2)" by (meson surj_pair)
    show thesis
    proof (cases s)
      case (Inl e)
      then have "w2 = w1" using insert_cases(1) s by blast
      with remove_touched [OF p(2,3) assms(2)] have "remove_dataset i (pd_table p) w2 = w" using p(1) by simp
      with assms(1) q Inr s Inl show thesis by (intro fails [of e]) (simp_all add: ingest_def Let_def)
    next
      case (Inr u)
      have rows: "dw_rows w1 = dw_rows w" "dw_workspaces w1 = dw_workspaces w" using p(2) by (simp_all add: touches_def)
      have "w2 = w1\<lparr>dw_rows := dw_rows w @ [?row]\<rparr>" "ds_id ?row \<notin> set (map ds_id (dw_rows w))"
        "ds_table ?row \<notin> set (map ds_table (dw_rows w))" "ws \<in> set (dw_workspaces w)"
        using insert_cases(2) [of commit ?row w1 u w2] s Inr rows by (simp_all add: dataset_from_processed_def)
      with assms(1) q \<open>q = Inr p\<close> s Inr show thesis by (intro uploaded [of p w1]) (simp_all add: ingest_def Let_def)
    qed
  qed
qed


section \<open>Consistency\<close>

definition datasets_ok :: "'t dataset_world \<Rightarrow> bool" where
  "datasets_ok w \<longleftrightarrow> distinct (map ds_id (dw_rows w)) \<and> distinct (map ds_table (dw_rows w))
     \<and> (\<forall>r \<in> set (dw_rows w). ds_table r = table_of (ds_id r))
     \<and> set (dict_keys (dw_dirs w)) \<subseteq> set (map ds_id (dw_rows w))
     \<and> (\<forall>table i. dict_get (dw_views w) table = Some i \<longrightarrow> (\<exists>r \<in> set (dw_rows w). is_ready r \<and> ds_id r = i \<and> ds_table r = table))
     \<and> (\<forall>r \<in> set (dw_rows w). is_ready r \<longrightarrow>
          (\<exists>t. parquet_of w (ds_id r) = Some (ParquetFile t)) \<and> dict_get (dw_views w) (ds_table r) = Some (ds_id r))"

text \<open>
  What happens to the datasets: uploads whose twelve digits no dataset has, whatever becomes of them,
  deletions, and restarts that lose files.
\<close>

inductive dataset_step :: "'t dataset_world \<Rightarrow> 't dataset_world \<Rightarrow> bool" where
  upload: "ingest E commit (Inr ()) i now ws filename chunks w = (r, w') \<Longrightarrow> table_of i \<notin> set (map ds_table (dw_rows w)) \<Longrightarrow> dataset_step w w'"
| removal: "delete_dataset commit w ws i = (r, w') \<Longrightarrow> dataset_step w w'"
| restarted: "restore_engine E commit (restart keep_dir keep_file w) = (Inr u, w') \<Longrightarrow> dataset_step w w'"

lemma touches_get:
  assumes "touches i table w w'"
  shows "j \<noteq> i \<Longrightarrow> dict_get (dw_dirs w') j = dict_get (dw_dirs w) j" and "j \<noteq> i \<Longrightarrow> parquet_of w' j = parquet_of w j"
    and "n \<noteq> table \<Longrightarrow> dict_get (dw_views w') n = dict_get (dw_views w) n"
proof -
  show dir: "j \<noteq> i \<Longrightarrow> dict_get (dw_dirs w') j = dict_get (dw_dirs w) j"
    using assms get_delete [of i "dw_dirs w'" j] get_delete [of i "dw_dirs w" j] by (simp add: touches_def)
  then show "j \<noteq> i \<Longrightarrow> parquet_of w' j = parquet_of w j" by (simp add: parquet_of_def)
  show "n \<noteq> table \<Longrightarrow> dict_get (dw_views w') n = dict_get (dw_views w) n"
    using assms get_delete [of table "dw_views w'" n] get_delete [of table "dw_views w" n] by (simp add: touches_def)
qed

lemma touches_keys: "touches i table w w' \<Longrightarrow> set (dict_keys (dw_dirs w')) \<subseteq> insert i (set (dict_keys (dw_dirs w)))"
  using set_keys_delete [of i "dw_dirs w'"] set_keys_delete [of i "dw_dirs w"] by (auto simp: touches_def simp del: set_map)

lemma datasets_okD:
  assumes "datasets_ok w"
  shows "distinct (map ds_id (dw_rows w))" and "distinct (map ds_table (dw_rows w))"
    and "r \<in> set (dw_rows w) \<Longrightarrow> ds_table r = table_of (ds_id r)"
    and "set (dict_keys (dw_dirs w)) \<subseteq> set (map ds_id (dw_rows w))"
    and "dict_get (dw_views w) table = Some i \<Longrightarrow> \<exists>r \<in> set (dw_rows w). is_ready r \<and> ds_id r = i \<and> ds_table r = table"
    and "r \<in> set (dw_rows w) \<Longrightarrow> is_ready r \<Longrightarrow>
          (\<exists>t. parquet_of w (ds_id r) = Some (ParquetFile t)) \<and> dict_get (dw_views w) (ds_table r) = Some (ds_id r)"
  using assms unfolding datasets_ok_def by blast+

lemma fresh_view: "datasets_ok w \<Longrightarrow> table \<notin> set (map ds_table (dw_rows w)) \<Longrightarrow> dict_get (dw_views w) table = None"
  using datasets_okD(5) [of w table] by (cases "dict_get (dw_views w) table") force+

lemma upload_ok:
  assumes ok: "datasets_ok w" and up: "ingest E commit (Inr ()) i now ws filename chunks w = (r, w')"
    and fresh: "table_of i \<notin> set (map ds_table (dw_rows w))"
  shows "datasets_ok w'"
  using up fresh_view [OF ok fresh]
proof (cases rule: ingest_cases)
  case (fails e)
  with ok show ?thesis by simp
next
  case (uploaded p w1)
  let ?row = "dataset_from_processed p ws now"
  have p: "pd_id p = i" "pd_table p = table_of i" and t: "touches i (table_of i) w w1"
    and new: "\<exists>t. parquet_of w1 i = Some (ParquetFile t)" "dict_get (dw_views w1) (table_of i) = Some i"
    using process_ok [OF uploaded(2)] by simp_all
  have row: "ds_id ?row = i" "ds_table ?row = table_of i" "is_ready ?row" using p by (simp_all add: dataset_from_processed_def is_ready_def)
  have rows: "dw_rows w' = dw_rows w @ [?row]" and same: "dw_dirs w' = dw_dirs w1" "dw_views w' = dw_views w1" "\<And>j. parquet_of w' j = parquet_of w1 j"
    using uploaded(3) by (simp_all add: parquet_of_def)
  have "distinct (map ds_id (dw_rows w'))" "distinct (map ds_table (dw_rows w'))"
    using datasets_okD(1,2) [OF ok] rows row uploaded(4,5) by simp_all
  moreover have "\<forall>r \<in> set (dw_rows w'). ds_table r = table_of (ds_id r)" using datasets_okD(3) [OF ok] rows row by simp
  moreover have "set (dict_keys (dw_dirs w')) \<subseteq> set (map ds_id (dw_rows w'))"
  proof
    fix j assume "j \<in> set (dict_keys (dw_dirs w'))"
    then have "j = i \<or> j \<in> set (map ds_id (dw_rows w))" using subsetD [OF touches_keys [OF t]] subsetD [OF datasets_okD(4) [OF ok]] unfolding same(1) by blast
    then show "j \<in> set (map ds_id (dw_rows w'))" using rows row by auto
  qed
  moreover have "\<exists>r \<in> set (dw_rows w'). is_ready r \<and> ds_id r = j \<and> ds_table r = n" if "dict_get (dw_views w') n = Some j" for n j
  proof (cases "n = table_of i")
    case True
    with that new(2) same row rows show ?thesis by auto
  next
    case False
    with touches_get(3) [OF t] that same have "dict_get (dw_views w) n = Some j" by simp
    then obtain r where "r \<in> set (dw_rows w)" "is_ready r" "ds_id r = j" "ds_table r = n" using datasets_okD(5) [OF ok] by blast
    then show ?thesis unfolding rows by (intro bexI [of _ r]) simp_all
  qed
  moreover have "(\<exists>t. parquet_of w' (ds_id r) = Some (ParquetFile t)) \<and> dict_get (dw_views w') (ds_table r) = Some (ds_id r)"
    if "r \<in> set (dw_rows w')" "is_ready r" for r
  proof (cases "r = ?row")
    case True
    with new row same show ?thesis by simp
  next
    case False
    with that rows have old: "r \<in> set (dw_rows w)" by simp
    then have "ds_id r \<in> set (map ds_id (dw_rows w))" "ds_table r \<in> set (map ds_table (dw_rows w))" by simp_all
    then have "ds_id r \<noteq> i" "ds_table r \<noteq> table_of i" using uploaded(4,5) unfolding row by metis+
    with old that datasets_okD(6) [OF ok, of r] touches_get(2,3) [OF t] same show ?thesis by simp
  qed
  ultimately show ?thesis unfolding datasets_ok_def by blast
qed

lemma find_dataset_row: "find_dataset w ws i = Some r \<Longrightarrow> r \<in> set (dw_rows w) \<and> ds_id r = i \<and> ds_workspace r = ws"
  by (auto simp: find_dataset_def find_Some_iff)

lemma removal_ok:
  assumes ok: "datasets_ok w" and del: "delete_dataset commit w ws i = (res, w')"
  shows "datasets_ok w'"
proof (cases "find_dataset w ws i")
  case None
  with del ok show ?thesis by (simp add: delete_dataset_def)
next
  case (Some r)
  have r: "r \<in> set (dw_rows w)" "ds_id r = i" "ds_workspace r = ws" using find_dataset_row [OF Some] by simp_all
  show ?thesis
  proof (cases commit)
    case (Inl e)
    with del ok Some show ?thesis by (simp add: delete_dataset_def)
  next
    case (Inr u)
    let ?keep = "\<lambda>r. \<not> (ds_id r = i \<and> ds_workspace r = ws)"
    have w': "dw_rows w' = filter ?keep (dw_rows w)" "dw_dirs w' = AList.delete i (dw_dirs w)" "dw_views w' = AList.delete (ds_table r) (dw_views w)"
      using del Some Inr by (auto simp: delete_dataset_def remove_dataset_def)
    have inj: "inj_on ds_id (set (dw_rows w))" "inj_on ds_table (set (dw_rows w))"
      using datasets_okD(1,2) [OF ok] unfolding distinct_map by blast+
    have only: "r' = r" if "r' \<in> set (dw_rows w)" "ds_id r' = i" for r'
      by (rule inj_onD [OF inj(1) _ that(1) r(1)]) (simp only: that r)
    have kept: "r' \<in> set (dw_rows w') \<longleftrightarrow> r' \<in> set (dw_rows w) \<and> ds_id r' \<noteq> i" for r'
      unfolding w'(1) set_filter using only [of r'] r(3) by blast
    have tables: "ds_table r' \<noteq> ds_table r" if "r' \<in> set (dw_rows w)" "ds_id r' \<noteq> i" for r'
    proof
      assume "ds_table r' = ds_table r"
      then have "r' = r" by (rule inj_onD [OF inj(2) _ that(1) r(1)])
      with that r show False by simp
    qed
    have parquet: "parquet_of w' j = parquet_of w j" if "j \<noteq> i" for j
      using w'(2) that by (simp add: parquet_of_def get_delete)
    have "distinct (map ds_id (dw_rows w'))" "distinct (map ds_table (dw_rows w'))"
      using datasets_okD(1,2) [OF ok] w'(1) by (simp_all add: distinct_map_filter)
    moreover have "\<forall>r \<in> set (dw_rows w'). ds_table r = table_of (ds_id r)" using datasets_okD(3) [OF ok] kept by blast
    moreover have "set (dict_keys (dw_dirs w')) \<subseteq> set (map ds_id (dw_rows w'))"
    proof
      fix j assume "j \<in> set (dict_keys (dw_dirs w'))"
      then have j: "j \<in> set (dict_keys (dw_dirs w))" "j \<noteq> i" using w'(2) by (simp_all add: set_keys_delete del: set_map)
      then obtain r' where "r' \<in> set (dw_rows w)" "ds_id r' = j" using datasets_okD(4) [OF ok] by auto
      with j kept show "j \<in> set (map ds_id (dw_rows w'))" by auto
    qed
    moreover have "\<exists>r \<in> set (dw_rows w'). is_ready r \<and> ds_id r = j \<and> ds_table r = n" if "dict_get (dw_views w') n = Some j" for n j
    proof -
      have n: "n \<noteq> ds_table r" "dict_get (dw_views w) n = Some j" using that w'(3) by (auto simp: get_delete split: if_splits)
      then obtain r' where r': "r' \<in> set (dw_rows w)" "is_ready r'" "ds_id r' = j" "ds_table r' = n" using datasets_okD(5) [OF ok] by blast
      have "ds_id r' \<noteq> i" using only [OF r'(1)] r'(4) n(1) by blast
      with r' kept show ?thesis by blast
    qed
    moreover have "(\<exists>t. parquet_of w' (ds_id r') = Some (ParquetFile t)) \<and> dict_get (dw_views w') (ds_table r') = Some (ds_id r')"
      if "r' \<in> set (dw_rows w')" "is_ready r'" for r'
      using that datasets_okD(6) [OF ok, of r'] kept tables [of r'] parquet w'(3) by (simp add: get_delete)
    ultimately show ?thesis unfolding datasets_ok_def by blast
  qed
qed

abbreviation restored_row :: "'t dataset_env \<Rightarrow> 't dataset_world \<Rightarrow> dataset_row \<Rightarrow> dataset_row" where
  "restored_row E w r \<equiv> (if is_ready r then fst (restore_row E w r) else r)"

abbreviation restored_views :: "'t dataset_env \<Rightarrow> 't dataset_world \<Rightarrow> dataset_row \<Rightarrow> (pystr \<times> uuid) list" where
  "restored_views E w r \<equiv> (if is_ready r then snd (restore_row E w r) else [])"

lemma restore_row_cases:
  obtains (lost) msg where "restore_row E w r = (failed_row msg r, [])"
  | (kept) t where "restore_row E w r = (r, [(ds_table r, ds_id r)])" "parquet_of w (ds_id r) = Some (ParquetFile t)"
proof (cases "parquet_of w (ds_id r)")
  case None
  then show thesis by (intro lost) (simp add: restore_row_def)
next
  case (Some f)
  show thesis
  proof (cases f)
    case (ParquetFile t)
    with Some show thesis by (cases "de_view E t") (auto simp: restore_row_def intro: lost kept)
  qed (use Some in \<open>auto simp: restore_row_def intro: lost\<close>)
qed

lemma failed_row_simps [simp]: "ds_id (failed_row msg r) = ds_id r" "ds_table (failed_row msg r) = ds_table r" "\<not> is_ready (failed_row msg r)"
  by (simp_all add: failed_row_def is_ready_def)

lemma restored_row_keys [simp]: "ds_id (restored_row E w r) = ds_id r" "ds_table (restored_row E w r) = ds_table r"
  by (rule restore_row_cases [where E = E and w = w and r = r]; simp)+

lemma restored_row_ready:
  "is_ready (restored_row E w r) \<Longrightarrow> restored_views E w r = [(ds_table r, ds_id r)] \<and> (\<exists>t. parquet_of w (ds_id r) = Some (ParquetFile t))"
  by (rule restore_row_cases [where E = E and w = w and r = r]) (auto split: if_splits)

lemma restored_view_of: "(n, i) \<in> set (restored_views E w r) \<Longrightarrow> is_ready (restored_row E w r) \<and> n = ds_table r \<and> i = ds_id r"
  by (rule restore_row_cases [where E = E and w = w and r = r]) (auto split: if_splits)

lemma restored_views_keys: "set (map fst (restored_views E w r)) \<subseteq> {ds_table r} \<and> distinct (map fst (restored_views E w r))"
  by (rule restore_row_cases [where E = E and w = w and r = r]) auto

lemma all_restored_views_distinct:
  "distinct (map ds_table rows) \<Longrightarrow> distinct (map fst (concat (map (restored_views E w) rows)))
     \<and> set (map fst (concat (map (restored_views E w) rows))) \<subseteq> set (map ds_table rows)"
proof (induction rows)
  case (Cons r rows)
  then have "distinct (map fst (concat (map (restored_views E w) rows)))"
    "set (map fst (concat (map (restored_views E w) rows))) \<subseteq> set (map ds_table rows)" "ds_table r \<notin> set (map ds_table rows)" by simp_all
  then show ?case using restored_views_keys [where E = E and w = w and r = r]
    by (simp only: list.map concat.simps map_append distinct_append set_append list.set) blast
qed simp

lemma get_fold_update: "dict_get (fold (\<lambda>(k, v). AList.update k v) kvs d) n = (case map_of (rev kvs) n of None \<Rightarrow> dict_get d n | Some v \<Rightarrow> Some v)"
  by (induction kvs arbitrary: d) (auto simp: get_update map_add_def split: option.split)

lemma restore_engine_result:
  assumes "restore_engine E commit w = (Inr u, w')"
  shows "dw_rows w' = map (restored_row E w) (dw_rows w)" and "dw_dirs w' = dw_dirs w"
    and "dw_views w' = fold (\<lambda>(k, v). AList.update k v) (concat (map (restored_views E w) (dw_rows w))) (dw_views w)"
proof -
  let ?rows = "map (restored_row E w) (dw_rows w)"
  let ?w1 = "w\<lparr>dw_views := fold (\<lambda>(k, v). AList.update k v) (concat (map (restored_views E w) (dw_rows w))) (dw_views w)\<rparr>"
  have "w' = ?w1\<lparr>dw_rows := ?rows\<rparr>"
  proof (cases "?rows = dw_rows w")
    case True
    then have "restore_engine E commit w = (Inr (), ?w1)" unfolding restore_engine_def Let_def by (simp only: simp_thms if_True)
    then have "w' = ?w1" using assms by simp
    moreover have "?w1\<lparr>dw_rows := ?rows\<rparr> = ?w1" unfolding True by (cases w) simp
    ultimately show ?thesis by simp
  next
    case False
    with assms show ?thesis unfolding restore_engine_def Let_def by (simp only: if_False) (cases commit; simp)
  qed
  then show "dw_rows w' = ?rows" and "dw_dirs w' = dw_dirs w" 
    and "dw_views w' = fold (\<lambda>(k, v). AList.update k v) (concat (map (restored_views E w) (dw_rows w))) (dw_views w)" by simp_all
qed

lemma restore_ok:
  assumes ok: "datasets_ok w" and re: "restore_engine E commit (restart keep_dir keep_file w) = (Inr u, w')"
  shows "datasets_ok w'"
proof -
  let ?w = "restart keep_dir keep_file w"
  let ?f = "restored_row E ?w" and ?vs = "concat (map (restored_views E ?w) (dw_rows w))"
  have start: "dw_rows ?w = dw_rows w" "dw_views ?w = []" "set (dict_keys (dw_dirs ?w)) \<subseteq> set (dict_keys (dw_dirs w))"
    by (simp_all add: restart_def) force
  have rows: "dw_rows w' = map ?f (dw_rows w)" and dirs: "dw_dirs w' = dw_dirs ?w"
    and views: "dw_views w' = fold (\<lambda>(k, v). AList.update k v) ?vs []"
    using restore_engine_result [OF re] start(1,2) by simp_all
  have parquet: "parquet_of w' i = parquet_of ?w i" for i by (simp add: parquet_of_def dirs)
  have dist: "distinct (map fst ?vs)" using all_restored_views_distinct [OF datasets_okD(2) [OF ok]] by blast
  have get: "dict_get (dw_views w') n = Some i \<longleftrightarrow> (n, i) \<in> set ?vs" for n i
  proof -
    have "dict_get (dw_views w') n = map_of (rev ?vs) n" unfolding views get_fold_update by (simp split: option.split)
    also have "\<dots> = Some i \<longleftrightarrow> (n, i) \<in> set (rev ?vs)" using dist by (intro map_of_eq_Some_iff) (simp only: rev_map [symmetric] distinct_rev)
    finally show ?thesis by (simp only: set_rev)
  qed
  have ids: "map ds_id (map ?f (dw_rows w)) = map ds_id (dw_rows w)" "map ds_table (map ?f (dw_rows w)) = map ds_table (dw_rows w)"
    unfolding map_map by (rule map_cong [OF refl], simp only: comp_apply restored_row_keys)+
  show ?thesis
    unfolding datasets_ok_def rows ids
  proof (intro conjI ballI allI impI)
    show "distinct (map ds_id (dw_rows w))" "distinct (map ds_table (dw_rows w))" using datasets_okD(1,2) [OF ok] .
    show "ds_table r = table_of (ds_id r)" if r_in: "r \<in> set (map ?f (dw_rows w))" for r
    proof -
      obtain r' where r': "r' \<in> set (dw_rows w)" "r = ?f r'" using r_in unfolding set_map by blast
      show ?thesis unfolding r'(2) restored_row_keys by (rule datasets_okD(3) [OF ok r'(1)])
    qed
    show "set (dict_keys (dw_dirs w')) \<subseteq> set (map ds_id (dw_rows w))"
      unfolding dirs by (rule subset_trans [OF start(3) datasets_okD(4) [OF ok]])
    show "\<exists>r \<in> set (map ?f (dw_rows w)). is_ready r \<and> ds_id r = i \<and> ds_table r = n" if view: "dict_get (dw_views w') n = Some i" for n i
    proof -
      obtain r where r: "r \<in> set (dw_rows w)" "(n, i) \<in> set (restored_views E ?w r)" using view unfolding get by auto
      show ?thesis using restored_view_of [OF r(2)] r(1) by (intro bexI [of _ "?f r"]) (simp_all only: restored_row_keys simp_thms set_map image_eqI)
    qed
    show "\<exists>t. parquet_of w' (ds_id r) = Some (ParquetFile t)" if r_in: "r \<in> set (map ?f (dw_rows w))" and ready: "is_ready r" for r
    proof -
      obtain r' where r': "r' \<in> set (dw_rows w)" "r = ?f r'" using r_in unfolding set_map by blast
      show ?thesis using restored_row_ready [where E = E and w = ?w and r = r'] ready unfolding r'(2) parquet restored_row_keys by blast
    qed
    show "dict_get (dw_views w') (ds_table r) = Some (ds_id r)" if r_in: "r \<in> set (map ?f (dw_rows w))" and ready: "is_ready r" for r
    proof -
      obtain r' where r': "r' \<in> set (dw_rows w)" "r = ?f r'" using r_in unfolding set_map by blast
      have view: "restored_views E ?w r' = [(ds_table r', ds_id r')]" using restored_row_ready [where E = E and w = ?w and r = r'] ready unfolding r'(2) by blast
      have "(ds_table r', ds_id r') \<in> set (restored_views E ?w r')" unfolding view by (simp only: list.set insert_iff simp_thms)
      then have "(ds_table r', ds_id r') \<in> set ?vs" unfolding set_concat set_map by (rule UN_I [OF imageI [OF r'(1)]])
      then show ?thesis unfolding get r'(2) restored_row_keys .
    qed
  qed
qed

lemma step_ok:
  assumes "dataset_step w w'"
  shows "datasets_ok w \<Longrightarrow> datasets_ok w'"
  using assms
proof (cases rule: dataset_step.cases)
  case upload
  then show "datasets_ok w \<Longrightarrow> datasets_ok w'" by (blast intro: upload_ok)
next
  case removal
  then show "datasets_ok w \<Longrightarrow> datasets_ok w'" by (blast intro: removal_ok)
next
  case restarted
  then show "datasets_ok w \<Longrightarrow> datasets_ok w'" by (blast intro: restore_ok)
qed

lemma reachable_ok: "dataset_step\<^sup>*\<^sup>* w w' \<Longrightarrow> datasets_ok w \<Longrightarrow> datasets_ok w'"
  by (induction rule: rtranclp_induct) (blast intro: step_ok)+

definition no_datasets :: "uuid list \<Rightarrow> 't dataset_world" where
  "no_datasets workspaces = \<lparr>dw_workspaces = workspaces, dw_dirs = [], dw_views = [], dw_rows = []\<rparr>"

lemma no_datasets_ok: "datasets_ok (no_datasets workspaces)"
  by (simp add: datasets_ok_def no_datasets_def)


section \<open>Mounting\<close>

lemma by_table_Some:
  assumes "distinct (map ds_table rows)"
  shows "by_table rows n = Some r \<longleftrightarrow> r \<in> set rows \<and> ds_table r = n"
proof
  assume "by_table rows n = Some r"
  then show "r \<in> set rows \<and> ds_table r = n" unfolding by_table_def find_Some_iff by (metis nth_mem set_rev)
next
  assume r: "r \<in> set rows \<and> ds_table r = n"
  then have "by_table rows n \<noteq> None" by (auto simp: by_table_def find_None_iff)
  then obtain r' where r': "by_table rows n = Some r'" by blast
  then have "r' \<in> set rows" "ds_table r' = n" unfolding by_table_def find_Some_iff by (metis nth_mem set_rev)+
  moreover have "inj_on ds_table (set rows)" using assms unfolding distinct_map by blast
  ultimately have "r' = r" using r by (metis inj_onD)
  with r' show "by_table rows n = Some r" by simp
qed

lemma resolve_tables_cases:
  assumes "distinct (map ds_table (dw_rows w))"
  shows "(\<exists>rows. resolve_tables w ws names = Inr (map dataset_view rows) \<and> map ds_table rows = names
        \<and> (\<forall>r \<in> set rows. r \<in> set (dw_rows w) \<and> ds_workspace r = ws \<and> is_ready r))
     \<or> (\<not> set names \<subseteq> set (dataset_table_names w ws) \<and> (\<exists>msg. resolve_tables w ws names = raise_exc ''ValueError'' msg))"
proof (cases "set names \<subseteq> set (dataset_table_names w ws)")
  case True
  let ?rows = "filter (\<lambda>r. ds_workspace r = ws \<and> ds_table r \<in> set names) (dw_rows w)"
  have dist: "distinct (map ds_table ?rows)" using assms by (rule distinct_map_filter)
  have each: "\<exists>r. by_table ?rows n = Some r \<and> r \<in> set (dw_rows w) \<and> ds_table r = n \<and> ds_workspace r = ws \<and> is_ready r" if n_in: "n \<in> set names" for n
  proof -
    obtain r where r: "r \<in> set (dw_rows w)" "ds_workspace r = ws" "is_ready r" "ds_table r = n"
      using subsetD [OF True n_in] by (auto simp: dataset_table_names_def)
    then have "r \<in> set ?rows" using n_in by simp
    then have "by_table ?rows n = Some r" using by_table_Some [OF dist] r(4) by blast
    with r show ?thesis by blast
  qed
  have none: "filter (\<lambda>n. by_table ?rows n = None) names = []"
    "filter (\<lambda>n. case by_table ?rows n of None \<Rightarrow> False | Some r \<Rightarrow> \<not> is_ready r) names = []"
    using each by (force simp: filter_empty_conv)+
  let ?found = "List.map_filter (by_table ?rows) names"
  have "map ds_table (List.map_filter (by_table ?rows) ns) = ns" if "set ns \<subseteq> set names" for ns
    using that
  proof (induction ns)
    case (Cons n ns)
    obtain r where "by_table ?rows n = Some r" "ds_table r = n" using each [of n] Cons.prems by auto
    with Cons show ?case by (simp add: List.map_filter_simps)
  qed (simp add: List.map_filter_simps)
  then have tables: "map ds_table ?found = names" by blast
  have own: "r \<in> set (dw_rows w) \<and> ds_workspace r = ws \<and> is_ready r" if r_in: "r \<in> set ?found" for r
  proof -
    obtain n where n: "n \<in> set names" "by_table ?rows n = Some r" using r_in by (auto simp: List.map_filter_def)
    with each [OF n(1)] show ?thesis by auto
  qed
  have "resolve_tables w ws names = Inr (map dataset_view ?found)"
    by (cases "names = []") (simp_all add: resolve_tables_def none List.map_filter_simps Let_def)
  with tables own show ?thesis by blast
next
  case False
  then obtain n where n: "n \<in> set names" "n \<notin> set (dataset_table_names w ws)" by blast
  let ?rows = "filter (\<lambda>r. ds_workspace r = ws \<and> ds_table r \<in> set names) (dw_rows w)"
  have "n \<in> set (filter (\<lambda>n. by_table ?rows n = None) names) \<or> n \<in> set (filter (\<lambda>n. case by_table ?rows n of None \<Rightarrow> False | Some r \<Rightarrow> \<not> is_ready r) names)"
  proof (cases "by_table ?rows n")
    case (Some r)
    have "distinct (map ds_table ?rows)" using assms by (rule distinct_map_filter)
    from by_table_Some [OF this] Some have "r \<in> set (dw_rows w)" "ds_workspace r = ws" "ds_table r = n" by auto
    then have "\<not> is_ready r" using n(2) by (auto simp: dataset_table_names_def)
    with Some n(1) show ?thesis by simp
  qed (use n(1) in simp)
  then have some: "filter (\<lambda>n. by_table ?rows n = None) names \<noteq> [] \<or> filter (\<lambda>n. case by_table ?rows n of None \<Rightarrow> False | Some r \<Rightarrow> \<not> is_ready r) names \<noteq> []"
    by (metis empty_iff list.set(1))
  have "names \<noteq> []" using n(1) by auto
  with some have "\<exists>msg. resolve_tables w ws names = raise_exc ''ValueError'' msg" unfolding resolve_tables_def Let_def by (simp only: if_True if_False simp_thms) blast
  with False show ?thesis by blast
qed

text \<open>
  Mounting: the tables a tool asks for are resolved all or not at all: the answer has one dataset
  per requested name, in the order of the request, every one of them ready and of the caller's
  workspace, and the only other outcome is the error that names them.
\<close>

theorem resolve_all_or_nothing:
  assumes "distinct (map ds_table (dw_rows w))"
  shows "(\<exists>rows. resolve_tables w ws names = Inr (map dataset_view rows) \<and> map ds_table rows = names
        \<and> (\<forall>r \<in> set rows. r \<in> set (dw_rows w) \<and> ds_workspace r = ws \<and> is_ready r))
     \<or> (\<not> set names \<subseteq> set (dataset_table_names w ws) \<and> (\<exists>msg. resolve_tables w ws names = raise_exc ''ValueError'' msg))"
  using assms by (rule resolve_tables_cases)

section \<open>What goes wrong\<close>

lemma remove_gone [simp]:
  "dict_get (dw_views (remove_dataset i table w)) table = None" "dict_get (dw_dirs (remove_dataset i table w)) i = None"
  "dw_rows (remove_dataset i table w) = dw_rows w"
  by (simp_all add: remove_dataset_def get_delete)

text \<open>
  Refresh: when the row has been committed and only reading it back fails, the files and the view are
  removed but the row stays, so the workspace lists a ready dataset whose table does not exist.
\<close>

theorem failed_refresh_orphans_row:
  assumes "process E i filename chunks w = (Inr p, w1)" and "insert_dataset (Inr ()) (dataset_from_processed p ws now) w1 = (Inr (), w2)"
  shows "\<exists>w'. ingest E (Inr ()) (Inl e) i now ws filename chunks w = (Inl e, w') \<and> table_of i \<in> set (dataset_table_names w' ws)
     \<and> dict_get (dw_views w') (table_of i) = None \<and> parquet_of w' i = None"
proof -
  let ?row = "dataset_from_processed p ws now"
  have p: "pd_table p = table_of i" using process_ok [OF assms(1)] by simp
  have "?row \<in> set (dw_rows w2)" using insert_cases(2) [OF assms(2)] by simp
  then have "?row \<in> set (dw_rows (remove_dataset i (table_of i) w2))" by simp
  moreover have "ds_table ?row = table_of i" "ds_workspace ?row = ws" "is_ready ?row"
    using p by (simp_all add: dataset_from_processed_def is_ready_def)
  ultimately have "table_of i \<in> set (dataset_table_names (remove_dataset i (table_of i) w2) ws)"
    unfolding dataset_table_names_def by (simp only: set_map set_filter) (metis (mono_tags, lifting) imageI mem_Collect_eq)
  moreover have "ingest E (Inr ()) (Inl e) i now ws filename chunks w = (Inl e, remove_dataset i (table_of i) w2)"
    using assms p by (simp add: ingest_def Let_def)
  ultimately show ?thesis by (auto simp: parquet_of_def)
qed

text \<open>
  Table names: a name keeps 48 of the 128 bits of the identifier, and an upload whose identifier
  shares them with a stored dataset fails and takes the stored dataset's view with it.
\<close>

theorem colliding_upload_drops_view:
  assumes "table_of i \<in> set (map ds_table (dw_rows w))" and "dict_get (dw_dirs w) i = None"
    and "casefold (de_fold E) (path_suffix (path_name filename)) \<in> set supported_extensions"
  shows "\<exists>e w'. ingest E commit refresh i now ws filename chunks w = (Inl e, w') \<and> dw_rows w' = dw_rows w
     \<and> dict_get (dw_views w') (table_of i) = None"
proof -
  let ?ext = "casefold (de_fold E) (path_suffix (path_name filename))" and ?w0 = "w\<lparr>dw_dirs := AList.update i [] (dw_dirs w)\<rparr>"
  obtain q w1 where q: "process E i filename chunks w = (q, w1)" by (meson surj_pair)
  show ?thesis
  proof (cases q)
    case (Inl e)
    obtain r w2 where r: "process_steps E i ?ext (table_of i) chunks ?w0 = (r, w2)" by (meson surj_pair)
    have "touches i (table_of i) ?w0 w2" using process_steps_touches [of i "table_of i" ?w0 E ?ext chunks] r by simp
    then have rows: "dw_rows w2 = dw_rows w" by (simp add: touches_def)
    have "w1 = remove_dataset i (table_of i) w2"
      using q Inl r assms(2,3) by (cases r) (auto simp: process_def Let_def split: prod.splits)
    with q Inl rows show ?thesis by (simp add: ingest_def)
  next
    case (Inr p)
    let ?row = "dataset_from_processed p ws now"
    have p: "pd_table p = table_of i" "dw_rows w1 = dw_rows w" using process_ok [of E i filename chunks w p w1] q Inr by (simp_all add: touches_def)
    then have "insert_dataset commit ?row w1 = (raise_exc ''IntegrityError'' [], w1)"
      using assms(1) by (simp add: insert_dataset_def dataset_from_processed_def)
    with q Inr p show ?thesis by (simp add: ingest_def Let_def)
  qed
qed

section \<open>Witnesses\<close>

definition demo_env :: "unit pyres \<Rightarrow> unit dataset_env" where
  "demo_env convert = \<lparr>de_fold = ascii_fold, de_workbook = (\<lambda>b. Inr None), de_convert = (\<lambda>f. convert), de_count = (\<lambda>t. Inr 2),
     de_view = (\<lambda>t. Inr ()), de_columns = (\<lambda>t. Inr []), de_max_bytes = 100, de_max_rows = 10, de_max_columns = 5\<rparr>"

definition demo_csv :: pystr where "demo_csv = py ''a.csv''"

definition demo_processed :: processed_dataset where
  "demo_processed = \<lparr>pd_id = 5, pd_name = py ''a'', pd_filename = py ''a.csv'', pd_table = table_of 5, pd_type = py ''csv'',
     pd_size = 1, pd_rows = 2, pd_columns = []\<rparr>"

definition demo_files :: "unit dataset_world" where
  "demo_files = \<lparr>dw_workspaces = [9], dw_dirs = [(5, [(py ''source'', RawFile [65]), (py ''data.parquet'', ParquetFile ())])],
     dw_views = [(table_of 5, 5)], dw_rows = []\<rparr>"

lemma demo_name: "path_name demo_csv = py ''a.csv''" "path_suffix (py ''a.csv'') = py ''.csv''" "path_stem (py ''a.csv'') = py ''a''"
  by code_simp+

lemma demo_ext: "casefold ascii_fold (py ''.csv'') = py ''.csv''" "py ''.csv'' \<in> set supported_extensions" "py ''.csv'' \<noteq> py ''.xlsx''"
  "dropWhile (\<lambda>c. c = 46) (py ''.csv'') = py ''csv''" "take 160 (py ''a'') = py ''a''" "py ''a'' \<noteq> []"
  by (code_simp | simp)+

lemma demo_files_differ: "py ''source'' \<noteq> py ''data.parquet''" by code_simp

lemma demo_process: "process (demo_env (Inr ())) 5 demo_csv [Inr [65]] (no_datasets [9]) = (Inr demo_processed, demo_files)"
  unfolding process_def Let_def demo_name
  by (simp add: demo_ext demo_files_differ demo_env_def no_datasets_def process_steps_def csv_source_def register_dataset_def put_file_def
        demo_processed_def demo_files_def Let_def del: py_def supported_extensions_def)

lemma table_of_length: "length (table_of i) = 20"
  by (simp add: table_of_def uuid_hex_def)

abbreviation demo_stored :: "unit dataset_world" where
  "demo_stored \<equiv> demo_files\<lparr>dw_rows := [dataset_from_processed demo_processed 9 7]\<rparr>"

lemma demo_insert: "insert_dataset (Inr ()) (dataset_from_processed demo_processed 9 7) demo_files = (Inr (), demo_stored)"
proof -
  have "dataset_fits (dataset_from_processed demo_processed 9 7)"
    by (simp add: dataset_fits_def dataset_from_processed_def demo_processed_def table_of_length)
  then show ?thesis by (simp add: insert_dataset_def demo_files_def dataset_from_processed_def)
qed

lemma demo_ingest: "ingest (demo_env (Inr ())) (Inr ()) (Inr ()) 5 7 9 demo_csv [Inr [65]] (no_datasets [9])
    = (Inr (dataset_view (dataset_from_processed demo_processed 9 7)), demo_files\<lparr>dw_rows := [dataset_from_processed demo_processed 9 7]\<rparr>)"
  by (simp add: ingest_def demo_process demo_insert Let_def)


lemma demo_reach: "dataset_step\<^sup>*\<^sup>* (no_datasets [9]) demo_stored"
proof -
  have "dataset_step (no_datasets [9]) demo_stored" by (rule upload [OF demo_ingest]) (simp add: no_datasets_def)
  then show ?thesis by (rule r_into_rtranclp)
qed


theorem resolve_all_or_nothing_witness:
  "\<exists>rows. resolve_tables demo_stored 9 [table_of 5] = Inr (map dataset_view rows) \<and> map ds_table rows = [table_of 5]"
proof -
  have d: "distinct (map ds_table (dw_rows demo_stored))" by simp
  have "table_of 5 \<in> set (dataset_table_names demo_stored 9)"
    by (simp add: dataset_table_names_def is_ready_def dataset_from_processed_def demo_processed_def)
  with resolve_all_or_nothing [OF d, of 9 "[table_of 5]"] show ?thesis by auto
qed

theorem failed_refresh_orphans_row_witness:
  "\<exists>w'. ingest (demo_env (Inr ())) (Inr ()) (Inl (Exc [] [])) 5 7 9 demo_csv [Inr [65]] (no_datasets [9]) = (Inl (Exc [] []), w')
     \<and> table_of 5 \<in> set (dataset_table_names w' 9) \<and> parquet_of w' 5 = None"
  using failed_refresh_orphans_row [OF demo_process demo_insert, of "Exc [] []"] by blast

theorem colliding_upload_drops_view_witness:
  "dict_get (dw_views demo_stored) (table_of 5) = Some 5
     \<and> (\<exists>e w'. ingest (demo_env (Inr ())) (Inr ()) (Inr ()) 6 8 9 demo_csv [Inr [65]] demo_stored = (Inl e, w') \<and> dict_get (dw_views w') (table_of 5) = None)"
proof -
  have same: "table_of 6 = table_of 5" by code_simp
  have "table_of 6 \<in> set (map ds_table (dw_rows demo_stored))" by (simp add: same dataset_from_processed_def demo_processed_def)
  moreover have "dict_get (dw_dirs demo_stored) 6 = None" by (simp add: demo_files_def)
  moreover have "casefold (de_fold (demo_env (Inr ()))) (path_suffix (path_name demo_csv)) \<in> set supported_extensions"
    unfolding demo_name by (simp add: demo_env_def demo_ext)
  ultimately have "\<exists>e w'. ingest (demo_env (Inr ())) (Inr ()) (Inr ()) 6 8 9 demo_csv [Inr [65]] demo_stored = (Inl e, w')
      \<and> dw_rows w' = dw_rows demo_stored \<and> dict_get (dw_views w') (table_of 6) = None"
    by (rule colliding_upload_drops_view)
  moreover have "dict_get (dw_views demo_stored) (table_of 5) = Some 5" by (simp add: demo_files_def)
  ultimately show ?thesis unfolding same by blast
qed

end
