(* ===== verification/Dataset_Routes.thy ===== *)
theory Dataset_Routes
  imports Chat_Routes Dataset_Service
begin

text \<open>
  \<open>app/api/routes/datasets.py\<close>: the HTTP operations on datasets.  An error the processor raises on
  purpose is the client's, every other one the server's.
\<close>

definition route_upload ::
  "'t dataset_env \<Rightarrow> unit pyres \<Rightarrow> unit pyres \<Rightarrow> uuid \<Rightarrow> int \<Rightarrow> pystr option \<Rightarrow> nat list pyres list \<Rightarrow> uuid \<Rightarrow>
   't dataset_world \<Rightarrow> dataset_view_data route \<times> 't dataset_world" where
  "route_upload E commit refresh i now filename chunks ws w =
     (case ingest E commit refresh i now ws (content_or [] filename) chunks w of
        (Inl e, w1) \<Rightarrow> (Inl (if exc_type e = py ''DatasetProcessingError'' then HttpError 400 (exc_text e) else Crash e), w1)
      | (Inr v, w1) \<Rightarrow> (Inr v, w1))"

definition route_list_datasets :: "uuid \<Rightarrow> 't dataset_world \<Rightarrow> dataset_summary_data list route" where
  "route_list_datasets ws w = Inr (list_datasets w ws)"

definition route_get_dataset :: "uuid \<Rightarrow> uuid \<Rightarrow> 't dataset_world \<Rightarrow> dataset_view_data route" where
  "route_get_dataset i ws w =
     (case get_dataset w ws i of None \<Rightarrow> Inl (HttpError 404 (py ''Dataset not found.'')) | Some v \<Rightarrow> Inr v)"

definition route_delete_dataset :: "unit pyres \<Rightarrow> uuid \<Rightarrow> uuid \<Rightarrow> 't dataset_world \<Rightarrow> unit route \<times> 't dataset_world" where
  "route_delete_dataset commit i ws w =
     (case delete_dataset commit w ws i of
        (Inl e, w1) \<Rightarrow> (Inl (Crash e), w1)
      | (Inr deleted, w1) \<Rightarrow> (if deleted then Inr () else Inl (HttpError 404 (py ''Dataset not found.'')), w1))"

definition route_preview ::
  "'e duckdb \<Rightarrow> uuid \<Rightarrow> uuid \<Rightarrow> int \<Rightarrow> 't dataset_world \<Rightarrow> 'e \<Rightarrow> query_result route \<times> 'e" where
  "route_preview D i ws limit w e =
     (if limit < 1 \<or> 100 < limit then (Inl (HttpError 422 (py ''Preview limit must be between 1 and 100.'')), e)
      else case preview_dataset D w ws i limit e of
        (Inl x, e1) \<Rightarrow> (Inl (Crash x), e1)
      | (Inr None, e1) \<Rightarrow> (Inl (HttpError 404 (py ''Ready dataset not found.'')), e1)
      | (Inr (Some q), e1) \<Rightarrow> (Inr q, e1))"

section \<open>Isolation\<close>

lemma find_dataset_own: "find_dataset w ws i = Some r \<Longrightarrow> r \<in> set (dw_rows w) \<and> ds_id r = i \<and> ds_workspace r = ws"
  by (auto simp: find_dataset_def find_Some_iff)

text \<open>
  Datasets of others: a workspace's list holds its own datasets only; a dataset of another workspace
  answers reading, previewing and deleting with the same 404 as one that does not exist, the
  engine is not asked and nothing is deleted.
\<close>

theorem datasets_of_others_hidden:
  assumes "\<forall>r \<in> set (dw_rows w). ds_id r = i \<longrightarrow> ds_workspace r \<noteq> ws"
  shows "route_get_dataset i ws w = Inl (HttpError 404 (py ''Dataset not found.''))
     \<and> route_delete_dataset commit i ws w = (Inl (HttpError 404 (py ''Dataset not found.'')), w)
     \<and> snd (route_preview D i ws limit w e) = e \<and> (\<forall>q. fst (route_preview D i ws limit w e) \<noteq> Inr q)
     \<and> (\<exists>ms. route_list_datasets ws w = Inr ms \<and> set (map dm_id ms) = ds_id ` {r \<in> set (dw_rows w). ds_workspace r = ws} \<and> i \<notin> set (map dm_id ms))"
proof -
  have none: "find_dataset w ws i = None"
    using assms find_dataset_own [of w ws i] by (cases "find_dataset w ws i") auto
  have ids: "set (map dm_id (list_datasets w ws)) = ds_id ` {r \<in> set (dw_rows w). ds_workspace r = ws}"
    by (simp add: list_datasets_def dataset_summary_def comp_def image_image)
  with assms have "i \<notin> set (map dm_id (list_datasets w ws))" by auto
  with none ids show ?thesis
    by (simp add: route_get_dataset_def get_dataset_def route_delete_dataset_def delete_dataset_def route_preview_def preview_dataset_def
          preview_of_def route_list_datasets_def)
qed

definition demo_other :: "unit dataset_world" where
  "demo_other = \<lparr>dw_workspaces = [1, 2], dw_dirs = [], dw_views = [], dw_rows = [\<lparr>ds_id = 5, ds_workspace = 2, ds_name = [], ds_filename = [],
     ds_table = table_of 5, ds_type = [], ds_size = 1, ds_status = py ''ready'', ds_rows = 1, ds_columns = [], ds_error = None,
     ds_created = 0, ds_updated = 0\<rparr>]\<rparr>"

theorem datasets_of_others_hidden_witness:
  "route_get_dataset 5 1 demo_other = Inl (HttpError 404 (py ''Dataset not found.'')) \<and> (\<exists>v. route_get_dataset 5 2 demo_other = Inr v)
     \<and> route_delete_dataset (Inr ()) 5 1 demo_other = (Inl (HttpError 404 (py ''Dataset not found.'')), demo_other)"
proof -
  have "\<forall>r \<in> set (dw_rows demo_other). ds_id r = 5 \<longrightarrow> ds_workspace r \<noteq> 1" by (simp add: demo_other_def)
  from datasets_of_others_hidden [OF this, of "Inr ()" demo_duckdb 1 "()"]
  show ?thesis by (simp add: route_get_dataset_def get_dataset_def find_dataset_def demo_other_def)
qed

end
