(* ===== verification/Initial_Tools.thy ===== *)
theory Initial_Tools
  imports Dataset_Properties Sql_Guard Tool_Registry
begin

text \<open>
  \<open>app/tools/initial.py\<close>, \<open>app/tools/chart.py\<close> and \<open>app/core/context.py\<close>: the tools every agent has,
  over the guard, the engine and the datasets of the active workspace.

  A handler gets the arguments pydantic has validated; the model pydantic builds from a handler's
  signature is a parameter, as it is in \<open>Tool_Registry\<close>.
\<close>

section \<open>The active workspace\<close>

text \<open>The context variable holds a workspace or none; setting it returns what it held before.\<close>

definition set_workspace_id :: "uuid \<Rightarrow> uuid option \<Rightarrow> uuid option \<times> uuid option" where
  "set_workspace_id ws current = (current, Some ws)"

definition reset_workspace_id :: "uuid option \<Rightarrow> uuid option \<Rightarrow> uuid option" where
  "reset_workspace_id token current = token"

definition require_workspace_id :: "uuid option \<Rightarrow> uuid pyres" where
  "require_workspace_id current =
     (case current of
        None \<Rightarrow> raise_exc ''RuntimeError'' (py ''No workspace is active for the current operation.'')
      | Some ws \<Rightarrow> Inr ws)"

section \<open>The tools\<close>

record ('t, 'w) tools_env =
  te_engine :: "'w duckdb"
  te_policy :: sql_policy
  te_datasets :: "('w \<Rightarrow> 't dataset_world) option"
  te_workspace :: "'w \<Rightarrow> uuid option"
  te_float :: "rat \<Rightarrow> pystr"

definition workspace_tables :: "('t, 'w) tools_env \<Rightarrow> ('w \<Rightarrow> 't dataset_world) \<Rightarrow> 'w \<Rightarrow> pystr list pyres" where
  "workspace_tables E d w =
     (case require_workspace_id (te_workspace E w) of
        Inl e \<Rightarrow> Inl e
      | Inr ws \<Rightarrow> Inr (dataset_table_names (d w) ws))"

definition dump_column :: "column_info \<Rightarrow> pyval" where
  "dump_column c = PDict [(py ''name'', PStr (ci_name c)), (py ''data_type'', PStr (ci_type c)), (py ''nullable'', PBool (ci_nullable c))]"

definition dump_schema :: "table_schema \<Rightarrow> pyval" where
  "dump_schema s = PDict [(py ''table_name'', PStr (tsc_name s)), (py ''columns'', PList (map dump_column (tsc_columns s))),
     (py ''sample_rows'', PList (map PDict (tsc_samples s)))]"

definition dump_result :: "(rat \<Rightarrow> pystr) \<Rightarrow> query_result \<Rightarrow> pyval" where
  "dump_result fl q = PDict [(py ''columns'', PList (map PStr (qr_columns q))), (py ''rows'', PList (map PDict (qr_rows q))),
     (py ''row_count'', PInt (int (qr_row_count q))), (py ''truncated'', PBool (qr_truncated q)), (py ''elapsed_ms'', PFloat (fl (qr_elapsed_ms q)))]"

definition dump_table :: "pystr \<Rightarrow> pystr \<Rightarrow> pyval" where
  "dump_table name kind = PDict [(py ''name'', PStr name), (py ''table_type'', PStr kind)]"

definition tables_payload :: "pyval list \<Rightarrow> pyval" where
  "tables_payload ts = PDict [(py ''tables'', PList ts), (py ''count'', PInt (int (length ts)))]"

definition list_tables_tool :: "('t, 'w) tools_env \<Rightarrow> 'w \<Rightarrow> pyval pyres \<times> 'w" where
  "list_tables_tool E w =
     (case te_datasets E of
        None \<Rightarrow>
          (case list_tables (te_engine E) w of
             (Inl e, w1) \<Rightarrow> (Inl e, w1)
           | (Inr ts, w1) \<Rightarrow> (Inr (tables_payload (map (\<lambda>t. dump_table (ti_name t) (ti_type t)) ts)), w1))
      | Some d \<Rightarrow>
          (case workspace_tables E d w of
             Inl e \<Rightarrow> (Inl e, w)
           | Inr names \<Rightarrow> (Inr (tables_payload (map (\<lambda>n. dump_table n (py ''VIEW'')) names)), w)))"

definition get_schema_tool :: "('t, 'w) tools_env \<Rightarrow> pystr \<Rightarrow> 'w \<Rightarrow> pyval pyres \<times> 'w" where
  "get_schema_tool E name w =
     (case (case te_datasets E of
              None \<Rightarrow> Inr ()
            | Some d \<Rightarrow>
                (case workspace_tables E d w of
                   Inl e \<Rightarrow> Inl e
                 | Inr allowed \<Rightarrow> (if name \<notin> set allowed then Inl (key_error (py ''Unknown table: '' @ name)) else Inr ()))) of
        Inl e \<Rightarrow> (Inl e, w)
      | Inr u \<Rightarrow>
          (case get_schema (te_engine E) name w of
             (Inl e, w1) \<Rightarrow> (Inl e, w1)
           | (Inr s, w1) \<Rightarrow> (Inr (dump_schema s), w1)))"

definition allowed_tables :: "('t, 'w) tools_env \<Rightarrow> 'w \<Rightarrow> pystr list pyres \<times> 'w" where
  "allowed_tables E w =
     (case te_datasets E of
        None \<Rightarrow> list_table_names (te_engine E) w
      | Some d \<Rightarrow> (workspace_tables E d w, w))"

definition run_sql_tool :: "('t, 'w) tools_env \<Rightarrow> pystr \<Rightarrow> 'w \<Rightarrow> pyval pyres \<times> 'w" where
  "run_sql_tool E sql w =
     (case allowed_tables E w of
        (Inl e, w1) \<Rightarrow> (Inl e, w1)
      | (Inr allowed, w1) \<Rightarrow>
          (case validate (te_policy E) sql allowed of
             Inl e \<Rightarrow> (Inl e, w1)
           | Inr safe \<Rightarrow>
               (case execute_select (te_engine E) safe None w1 of
                  (Inl e, w2) \<Rightarrow> (Inl e, w2)
                | (Inr q, w2) \<Rightarrow> (Inr (dump_result (te_float E) q), w2))))"

section \<open>Charts\<close>

record chart_spec =
  ct_type :: pystr
  ct_title :: pystr
  ct_x :: pystr
  ct_ys :: "pystr list"
  ct_data :: "arguments list"

definition chart_types :: "pystr list" where
  "chart_types = map py [''line'', ''bar'', ''area'', ''pie'', ''scatter'']"

text \<open>The constraints of the fields, which pydantic checks first.\<close>

definition chart_fields_ok :: "chart_spec \<Rightarrow> bool" where
  "chart_fields_ok c \<longleftrightarrow> ct_type c \<in> set chart_types \<and> ct_title c \<noteq> [] \<and> length (ct_title c) \<le> 120
     \<and> ct_x c \<noteq> [] \<and> length (ct_x c) \<le> 128 \<and> ct_ys c \<noteq> [] \<and> length (ct_ys c) \<le> 5 \<and> ct_data c \<noteq> [] \<and> length (ct_data c) \<le> 1000"

text \<open>\<open>isinstance\<close> knows that \<open>True\<close> is an \<open>int\<close>; the code does not take it for a number.\<close>

definition chart_number :: "pyval \<Rightarrow> bool" where
  "chart_number v = (case v of PInt i \<Rightarrow> True | PFloat t \<Rightarrow> True | _ \<Rightarrow> False)"

fun check_values :: "arguments \<Rightarrow> pystr list \<Rightarrow> unit pyres" where
  "check_values row [] = Inr ()"
| "check_values row (f # fs) =
     (case dict_get row f of
        None \<Rightarrow> Inl (key_error f)
      | Some v \<Rightarrow> (if chart_number v then check_values row fs
                  else raise_exc ''ValueError'' (py ''Chart field '' @ quoted f @ py '' must contain numeric values.'')))"

definition missing_fields :: "chart_spec \<Rightarrow> arguments \<Rightarrow> pystr list" where
  "missing_fields c row = sort (remdups (filter (\<lambda>f. f \<notin> set (dict_keys row)) (ct_x c # ct_ys c)))"

fun check_chart_rows :: "chart_spec \<Rightarrow> nat \<Rightarrow> arguments list \<Rightarrow> unit pyres" where
  "check_chart_rows c i [] = Inr ()"
| "check_chart_rows c i (row # rows) =
     (if missing_fields c row \<noteq> [] then
        raise_exc ''ValueError'' (py ''Chart data row '' @ str_nat i @ py '' is missing fields: '' @ py_str (PList (map PStr (missing_fields c row))))
      else case check_values row (ct_ys c) of Inl e \<Rightarrow> Inl e | Inr u \<Rightarrow> check_chart_rows c (Suc i) rows)"

definition validate_chart_shape :: "chart_spec \<Rightarrow> chart_spec pyres" where
  "validate_chart_shape c =
     (if \<not> distinct (ct_ys c) then raise_exc ''ValueError'' (py ''y_fields must be unique.'')
      else if ct_type c = py ''pie'' \<and> length (ct_ys c) \<noteq> 1 then raise_exc ''ValueError'' (py ''Pie charts require exactly one y field.'')
      else if ct_type c = py ''scatter'' \<and> length (ct_ys c) \<noteq> 1 then
        raise_exc ''ValueError'' (py ''Scatter charts require exactly one y field.'')
      else case check_chart_rows c 0 (ct_data c) of Inl e \<Rightarrow> Inl e | Inr u \<Rightarrow> Inr c)"

definition dump_chart :: "chart_spec \<Rightarrow> pyval" where
  "dump_chart c = PDict [(py ''kind'', pstr ''chart''), (py ''spec'', PDict [(py ''type'', PStr (ct_type c)), (py ''title'', PStr (ct_title c)),
     (py ''x_field'', PStr (ct_x c)), (py ''y_fields'', PList (map PStr (ct_ys c))), (py ''data'', PList (map PDict (ct_data c)))])]"

text \<open>Whatever a validator finds, pydantic reports as its own error; the text is pydantic's.\<close>

definition plot_chart :: "(chart_spec \<Rightarrow> py_exc option \<Rightarrow> pystr) \<Rightarrow> chart_spec \<Rightarrow> pyval pyres" where
  "plot_chart report c =
     (if \<not> chart_fields_ok c then raise_exc ''ValidationError'' (report c None)
      else case validate_chart_shape c of
        Inl e \<Rightarrow> raise_exc ''ValidationError'' (report c (Some e))
      | Inr c \<Rightarrow> Inr (dump_chart c))"

section \<open>Registration\<close>

text \<open>A handler takes its arguments by name.\<close>

definition with_text :: "string \<Rightarrow> (pystr \<Rightarrow> 'w \<Rightarrow> pyval pyres \<times> 'w) \<Rightarrow> arguments \<Rightarrow> 'w \<Rightarrow> pyval pyres \<times> 'w" where
  "with_text name f args w =
     (case dict_get args (py name) of Some (PStr s) \<Rightarrow> f s w | _ \<Rightarrow> (raise_exc ''TypeError'' (py name), w))"

definition initial_tool ::
  "(pystr \<Rightarrow> pystr) \<Rightarrow> (pystr \<Rightarrow> input_model) \<Rightarrow> string \<Rightarrow> (arguments \<Rightarrow> 'w \<Rightarrow> pyval pyres \<times> 'w) \<Rightarrow> 'w registered_tool" where
  "initial_tool describe model name handler =
     \<lparr>rt_name = py name, rt_description = describe (py name), rt_input_model = Some (model (py name)), rt_handler = handler,
      rt_parallel_safe = True, rt_input_schema = None\<rparr>"

text \<open>\<open>chart\<close> reads the spec pydantic has validated out of the arguments.\<close>

definition build_initial_tools ::
  "(pystr \<Rightarrow> pystr) \<Rightarrow> (pystr \<Rightarrow> input_model) \<Rightarrow> (arguments \<Rightarrow> pyval pyres) \<Rightarrow> ('t, 'w) tools_env \<Rightarrow> 'w registered_tool list" where
  "build_initial_tools describe model chart E =
     [initial_tool describe model ''list_tables'' (\<lambda>args w. list_tables_tool E w),
      initial_tool describe model ''get_schema'' (with_text ''table_name'' (get_schema_tool E)),
      initial_tool describe model ''run_sql'' (with_text ''sql'' (run_sql_tool E)),
      initial_tool describe model ''plot_chart'' (\<lambda>args w. (chart args, w))]"

fun register_all :: "'w registered_tool list \<Rightarrow> 'w registry \<Rightarrow> 'w registry pyres" where
  "register_all [] reg = Inr reg"
| "register_all (t # ts) reg = (case register t reg of Inl e \<Rightarrow> Inl e | Inr reg' \<Rightarrow> register_all ts reg')"

definition build_initial_registry ::
  "(pystr \<Rightarrow> pystr) \<Rightarrow> (pystr \<Rightarrow> input_model) \<Rightarrow> (arguments \<Rightarrow> pyval pyres) \<Rightarrow> ('t, 'w) tools_env \<Rightarrow> 'w registry pyres" where
  "build_initial_registry describe model chart E = register_all (build_initial_tools describe model chart E) []"

section \<open>What a statement can read\<close>

text \<open>A generated table name is lower case already.\<close>

lemma hex_pad_low: "c \<in> set (hex_pad k n) \<Longrightarrow> c < 128 \<and> (c < 65 \<or> 90 < c)"
proof (induction k arbitrary: n)
  case (Suc k)
  have "n mod 16 < 16" by simp
  then have "hex_digit (n mod 16) < 128 \<and> (hex_digit (n mod 16) < 65 \<or> 90 < hex_digit (n mod 16))" by auto
  with Suc show ?case by (auto simp del: hex_digit.simps)
qed simp

lemma table_of_folded:
  assumes "fold_table cf"
  shows "casefold cf (table_of i) = table_of i"
proof (rule casefold_digits [OF assms], rule ballI)
  fix c assume "c \<in> set (table_of i)"
  then have "c \<in> set (py ''dataset_'') \<or> c \<in> set (uuid_hex i)" unfolding table_of_def set_append by (auto dest: in_set_takeD)
  moreover have "\<forall>c \<in> set (py ''dataset_''). c < 128 \<and> (c < 65 \<or> 90 < c)" by code_simp
  ultimately show "c < 128 \<and> (c < 65 \<or> 90 < c)" unfolding uuid_hex_def using hex_pad_low by blast
qed

text \<open>A view of the engine that reads the file of a ready dataset of the workspace.\<close>

definition own_view :: "'t dataset_world \<Rightarrow> uuid \<Rightarrow> pystr \<Rightarrow> bool" where
  "own_view w ws name \<longleftrightarrow> (\<exists>r \<in> set (dw_rows w). ds_workspace r = ws \<and> is_ready r \<and> ds_table r = name
     \<and> dict_get (dw_views w) name = Some (ds_id r) \<and> (\<exists>t. parquet_of w (ds_id r) = Some (ParquetFile t)))"


lemma check_values_Inr: "check_values row fs = Inr u \<longleftrightarrow> (\<forall>f \<in> set fs. \<exists>v. dict_get row f = Some v \<and> chart_number v)"
  by (induction fs) (auto split: option.splits)

lemma missing_fields_Nil: "missing_fields c row = [] \<longleftrightarrow> insert (ct_x c) (set (ct_ys c)) \<subseteq> set (dict_keys row)"
proof -
  have "missing_fields c row = [] \<longleftrightarrow> set (missing_fields c row) = {}" by (simp only: set_empty)
  also have "\<dots> \<longleftrightarrow> insert (ct_x c) (set (ct_ys c)) \<subseteq> set (dict_keys row)" unfolding missing_fields_def set_sort set_remdups set_filter list.set by blast
  finally show ?thesis .
qed

lemma check_chart_rows_Inr: "check_chart_rows c i rows = Inr u \<longleftrightarrow> (\<forall>row \<in> set rows. ct_x c \<in> set (dict_keys row)
    \<and> (\<forall>f \<in> set (ct_ys c). \<exists>v. dict_get row f = Some v \<and> chart_number v))"
proof (induction rows arbitrary: i)
  case (Cons row rows)
  have present: "insert (ct_x c) (set (ct_ys c)) \<subseteq> set (dict_keys row)"
    if "ct_x c \<in> set (dict_keys row)" "\<forall>f \<in> set (ct_ys c). \<exists>v. dict_get row f = Some v \<and> chart_number v"
  proof -
    have "f \<in> set (dict_keys row)" if "dict_get row f = Some v" for f v
      using that by (metis domI dom_map_of_conv_image_fst set_map)
    with that show ?thesis by blast
  qed
  show ?case
  proof (cases "missing_fields c row = []")
    case True
    then have x: "ct_x c \<in> set (dict_keys row)" using missing_fields_Nil [of c row] by simp
    show ?thesis
    proof (cases "check_values row (ct_ys c)")
      case (Inl e)
      then have "\<not> (\<forall>f \<in> set (ct_ys c). \<exists>v. dict_get row f = Some v \<and> chart_number v)" using check_values_Inr [of row "ct_ys c" "()"] by simp
      with True Inl show ?thesis by simp
    next
      case (Inr u)
      then have "\<forall>f \<in> set (ct_ys c). \<exists>v. dict_get row f = Some v \<and> chart_number v" using check_values_Inr [of row "ct_ys c" u] by simp
      with True Inr x Cons.IH show ?thesis by simp
    qed
  next
    case False
    then have "\<not> (ct_x c \<in> set (dict_keys row) \<and> (\<forall>f \<in> set (ct_ys c). \<exists>v. dict_get row f = Some v \<and> chart_number v))"
      using missing_fields_Nil [of c row] present by blast
    with False show ?thesis by (simp del: set_map)
  qed
qed simp

text \<open>
  C36.  Charts: a chart is drawn exactly when its fields are within their limits, the y fields are
  distinct, a pie or scatter chart has one, and every row has the x field and a number for every y
  field; what is returned is the given spec, so whatever is drawn can be drawn.
\<close>

theorem chart_is_drawable:
  "plot_chart report c = Inr v \<longleftrightarrow> chart_fields_ok c \<and> distinct (ct_ys c) \<and> (ct_type c \<in> {py ''pie'', py ''scatter''} \<longrightarrow> length (ct_ys c) = 1)
     \<and> (\<forall>row \<in> set (ct_data c). ct_x c \<in> set (dict_keys row) \<and> (\<forall>f \<in> set (ct_ys c). \<exists>v. dict_get row f = Some v \<and> chart_number v))
     \<and> v = dump_chart c"
proof -
  have "validate_chart_shape c = Inr c' \<longleftrightarrow> distinct (ct_ys c) \<and> (ct_type c \<in> {py ''pie'', py ''scatter''} \<longrightarrow> length (ct_ys c) = 1)
     \<and> check_chart_rows c 0 (ct_data c) = Inr () \<and> c' = c" for c'
    by (auto simp: validate_chart_shape_def split: sum.splits)
  note shape = this [unfolded check_chart_rows_Inr]
  show ?thesis
  proof (cases "validate_chart_shape c")
    case (Inl e)
    with shape [of c] have no: "\<not> (distinct (ct_ys c) \<and> (ct_type c \<in> {py ''pie'', py ''scatter''} \<longrightarrow> length (ct_ys c) = 1)
      \<and> (\<forall>row \<in> set (ct_data c). ct_x c \<in> set (dict_keys row) \<and> (\<forall>f \<in> set (ct_ys c). \<exists>v. dict_get row f = Some v \<and> chart_number v)))" by simp
    from Inl have "plot_chart report c \<noteq> Inr v" by (simp add: plot_chart_def)
    with no show ?thesis by blast
  next
    case (Inr c')
    with shape [of c'] have c': "c' = c" by blast
    with Inr shape [of c] have yes: "distinct (ct_ys c) \<and> (ct_type c \<in> {py ''pie'', py ''scatter''} \<longrightarrow> length (ct_ys c) = 1)
      \<and> (\<forall>row \<in> set (ct_data c). ct_x c \<in> set (dict_keys row) \<and> (\<forall>f \<in> set (ct_ys c). \<exists>v. dict_get row f = Some v \<and> chart_number v))" by blast
    from Inr c' have "plot_chart report c = Inr v \<longleftrightarrow> chart_fields_ok c \<and> v = dump_chart c" by (auto simp: plot_chart_def)
    with yes show ?thesis by blast
  qed
qed

section \<open>Witnesses\<close>

definition demo_query :: ast where
  "demo_query = Ast (py ''Select'') OtherNode [Ast (py ''Table'') (TableNode True [] [] (table_of 5)) []]"

definition demo_tools :: "(unit, unit) tools_env" where
  "demo_tools = \<lparr>te_engine = demo_duckdb, te_policy = demo_policy (\<lambda>s. Parsed [Some demo_query]), te_datasets = Some (\<lambda>w. demo_stored),
     te_workspace = (\<lambda>w. Some 9), te_float = (\<lambda>r. [])\<rparr>"

lemma demo_tables: "dataset_table_names demo_stored 9 = [table_of 5]"
  by (simp add: dataset_table_names_def is_ready_def dataset_from_processed_def demo_processed_def)

lemma demo_key: "table_key ascii_fold [] (table_of 5) = table_of 5"
  by (simp add: table_key_def table_of_folded [OF fold_table_ascii])

lemma demo_query_safe: "statement_safe (demo_policy parse) [table_of 5] demo_query"
  by (simp add: statement_safe_def demo_query_def node_safe_def table_safe_def defines_cte_def demo_policy_def read_only_roots_def
        forbidden_nodes_def table_of_folded [OF fold_table_ascii] demo_key)

lemma demo_run_sql: "\<exists>v. run_sql_tool demo_tools [120] () = (Inr v, ())"
proof -
  have readable: "strip [120] \<noteq> []" "length (splitlines [120]) \<le> 300" 
    by (simp_all add: strip_def lstrip_def rstrip_def splitlines_def py_space_def)
  have "validate (te_policy demo_tools) [120] [table_of 5] = Inr (py ''Select'')"
    unfolding validate_Inr using demo_query_safe [of "\<lambda>s. Parsed [Some demo_query]"]
    readable
    by (simp add: demo_tools_def demo_policy_def demo_query_def)
  moreover have "allowed_tables demo_tools () = (Inr [table_of 5], ())"
    by (simp add: allowed_tables_def demo_tools_def workspace_tables_def require_workspace_id_def demo_tables)
  moreover have "\<exists>q. execute_select (te_engine demo_tools) (py ''Select'') None () = (Inr q, ())"
    by (simp add: demo_tools_def execute_select_def demo_duckdb_def row_dict_def numeral_2_eq_2)
  ultimately show ?thesis by (auto simp: run_sql_tool_def)
qed


theorem chart_is_drawable_witness:
  "\<exists>v. plot_chart (\<lambda>c e. []) \<lparr>ct_type = py ''pie'', ct_title = [65], ct_x = [97], ct_ys = [[98]], ct_data = [[([97], PStr []), ([98], PInt 1)]]\<rparr> = Inr v"
  unfolding chart_is_drawable by (simp add: chart_fields_ok_def chart_types_def chart_number_def)

end
