(* ===== verification/Base64.thy ===== *)
theory Base64
  imports Auth_Security
begin

text \<open>
  Python's \<open>base64\<close> with the standard alphabet, which the sandbox and the artifact store use.  The
  URL-safe alphabet of \<open>Auth_Security\<close> differs in two characters; \<open>b64decode\<close> skips what is not in
  its alphabet, and with \<open>validate=True\<close> accepts nothing but base64.
\<close>

definition std_char :: "nat \<Rightarrow> nat" where
  "std_char c = (if c = 45 then 43 else if c = 95 then 47 else c)"

definition b64encode :: "nat list \<Rightarrow> pystr" where
  "b64encode bs = map std_char (b64_encode bs)"

definition b64decode :: "pystr \<Rightarrow> nat list option" where
  "b64decode s = b64_decode (filter (\<lambda>c. c \<noteq> 45 \<and> c \<noteq> 95) s)"

definition std_value :: "nat \<Rightarrow> nat option" where
  "std_value c = (if c = 45 \<or> c = 95 then None else b64_value c)"

text \<open>Groups of four; padding only at the very end.\<close>

fun b64_decode_strict :: "pystr \<Rightarrow> nat list option" where
  "b64_decode_strict [] = Some []"
| "b64_decode_strict (w # x # y # z # s) =
     (case (std_value w, std_value x) of
        (Some p, Some q) \<Rightarrow>
          (if y = 61 then (if z = 61 \<and> s = [] then Some [p * 4 + q div 16] else None)
           else case std_value y of
             None \<Rightarrow> None
           | Some r \<Rightarrow>
               (if z = 61 then (if s = [] then Some [p * 4 + q div 16, q mod 16 * 16 + r div 4] else None)
                else case (std_value z, b64_decode_strict s) of
                  (Some t, Some bytes) \<Rightarrow> Some ((p * 4 + q div 16) # (q mod 16 * 16 + r div 4) # (r mod 4 * 64 + t) # bytes)
                | _ \<Rightarrow> None))
      | _ \<Rightarrow> None)"
| "b64_decode_strict s = None"

lemma split_digits: "(x :: nat) < m \<Longrightarrow> (q * m + x) div m = q" "(x :: nat) < m \<Longrightarrow> (q * m + x) mod m = x"
  by simp_all

text \<open>The six-bit digits of three bytes, and the bytes again.\<close>

lemma b64_digits:
  assumes "a < (256 :: nat)" "b < (256 :: nat)" "c < (256 :: nat)"
  shows "a div 4 < 64" "a mod 4 * 16 + b div 16 < 64" "b mod 16 * 4 + c div 64 < 64" "c mod 64 < 64"
proof -
  have "a mod 4 \<le> 3" "b div 16 < 16" "b mod 16 \<le> 15" "c div 64 < 4" using assms by (simp_all add: less_mult_imp_div_less)
  then show "a div 4 < 64" "a mod 4 * 16 + b div 16 < 64" "b mod 16 * 4 + c div 64 < 64" "c mod 64 < 64"
    using assms by (simp_all add: less_mult_imp_div_less)
qed

lemma b64_bytes:
  assumes "a < (256 :: nat)" "b < (256 :: nat)" "c < (256 :: nat)"
  shows "a div 4 * 4 + (a mod 4 * 16 + b div 16) div 16 = a"
    "(a mod 4 * 16 + b div 16) mod 16 * 16 + (b mod 16 * 4 + c div 64) div 4 = b"
    "(b mod 16 * 4 + c div 64) mod 4 * 64 + c mod 64 = c"
proof -
  have "b div 16 < 16" "c div 64 < 4" using assms by (simp_all add: less_mult_imp_div_less)
  then have "(a mod 4 * 16 + b div 16) div 16 = a mod 4" "(a mod 4 * 16 + b div 16) mod 16 = b div 16"
    "(b mod 16 * 4 + c div 64) div 4 = b mod 16" "(b mod 16 * 4 + c div 64) mod 4 = c div 64" by (simp_all only: split_digits)
  then show "a div 4 * 4 + (a mod 4 * 16 + b div 16) div 16 = a"
    "(a mod 4 * 16 + b div 16) mod 16 * 16 + (b mod 16 * 4 + c div 64) div 4 = b"
    "(b mod 16 * 4 + c div 64) mod 4 * 64 + c mod 64 = c" by simp_all
qed

lemma std_value_char [simp]: "v < 64 \<Longrightarrow> std_value (std_char (b64_char v)) = Some v"
  by (auto simp: std_value_def std_char_def b64_value_def b64_char_def)

lemma std_char_pad [simp]: "std_char 61 = 61" "v < 64 \<Longrightarrow> std_char (b64_char v) \<noteq> 61"
  by (auto simp: std_char_def b64_char_def)

text \<open>Whatever bytes are encoded are decoded again, by either decoder.\<close>

lemma b64_strict_round_trip: "bytes_ok bs \<Longrightarrow> b64_decode_strict (b64encode bs) = Some bs"
  unfolding b64encode_def
proof (induction bs rule: b64_encode.induct)
  case (2 a)
  then show ?case using b64_digits [of a 0 0] b64_bytes [where b = 0 and c = 0 and a = a] by (simp add: bytes_ok_def)
next
  case (3 a b)
  then show ?case using b64_digits [of a b 0] b64_bytes [where b = b and c = 0 and a = a] by (simp add: bytes_ok_def)
next
  case (4 a b c bytes)
  then have abc: "a < 256" "b < 256" "c < 256" and rest: "b64_decode_strict (map std_char (b64_encode bytes)) = Some bytes" by (simp_all add: bytes_ok_def)
  show ?case using b64_digits [OF abc] rest
    by (simp only: b64_encode.simps append.simps list.map b64_decode_strict.simps std_value_char std_char_pad prod.case option.case if_False b64_bytes [OF abc])
qed simp

lemma scan_std: "b64_scan q l p (map std_char s) = b64_scan q l p s"
proof (induction q l p s rule: b64_scan.induct)
  case (2 q l p c s)
  have "std_char c = 61 \<longleftrightarrow> c = 61" "b64_value (std_char c) = b64_value c" by (auto simp: std_char_def b64_value_def)
  with 2 show ?case by (auto split: option.split)
qed simp

lemma b64_lenient_round_trip: "bytes_ok bs \<Longrightarrow> b64decode (b64encode bs) = Some bs"
proof -
  have "filter (\<lambda>c. c \<noteq> 45 \<and> c \<noteq> 95) (map std_char s) = map std_char s" for s by (intro filter_True) (auto simp: std_char_def)
  then show "bytes_ok bs \<Longrightarrow> b64decode (b64encode bs) = Some bs"
    using b64_round_trip [of bs] by (simp add: b64decode_def b64encode_def b64_decode_def scan_std)
qed

text \<open>What was encoded is ASCII.\<close>

lemma b64encode_ascii: "bytes_ok bs \<Longrightarrow> c \<in> set (b64encode bs) \<Longrightarrow> c < 128"
  using b64_encode_chars [of bs] by (auto simp: b64encode_def std_char_def list_all_iff b64_text_def)

lemma b64encode_Nil [simp]: "b64encode bs = [] \<longleftrightarrow> bs = []"
  unfolding b64encode_def by (cases bs rule: b64_encode.cases) auto

end
