(* ===== verification/Sandbox.thy ===== *)
theory Sandbox
  imports Base64 Py_Path Context_Compaction
begin

text \<open>
  \<open>app/sandbox/models.py\<close> and \<open>app/sandbox/python_executor.py\<close>: one execution of generated Python in a
  container, from the checks of the request to the collected artifacts and the clean-up.

  Docker, the file system below the artifact directory and the clock are a parameter; every call may
  raise, and the predicates on exceptions are what the handlers of the code distinguish.  The working
  directories and the containers that exist are explicit state.
\<close>

section \<open>Requests and results\<close>

datatype sandbox_kind = KindPython | KindDuckdb | KindPostgres

record dataset_mount =
  mo_dataset :: uuid
  mo_target :: pystr

record sandbox_request =
  sr_kind :: sandbox_kind
  sr_code :: "pystr option"
  sr_sql :: "pystr option"
  sr_files :: "(pystr \<times> pystr) list"
  sr_mounts :: "dataset_mount list"
  sr_timeout :: "rat option"

record sandbox_artifact =
  sa_path :: pystr
  sa_mime :: pystr
  sa_size :: nat
  sa_content :: pystr

record execution_result =
  er_ok :: bool
  er_stdout :: pystr
  er_stderr :: pystr
  er_truncated :: bool
  er_exit_code :: "int option"
  er_timed_out :: bool
  er_duration :: rat
  er_artifacts :: "sandbox_artifact list"

definition letter :: "nat \<Rightarrow> bool" where
  "letter c \<longleftrightarrow> (65 \<le> c \<and> c \<le> 90) \<or> (97 \<le> c \<and> c \<le> 122) \<or> c = 95"

definition target_name_ok :: "pystr \<Rightarrow> bool" where
  "target_name_ok s \<longleftrightarrow> s \<noteq> [] \<and> length s \<le> 80 \<and> letter (hd s) \<and> list_all (\<lambda>c. letter c \<or> is_digit c) (tl s)"

definition request_fields_ok :: "sandbox_request \<Rightarrow> bool" where
  "request_fields_ok r \<longleftrightarrow> list_all (\<lambda>m. target_name_ok (mo_target m)) (sr_mounts r)
     \<and> (case sr_timeout r of None \<Rightarrow> True | Some t \<Rightarrow> 0 < t \<and> t \<le> 60)"

definition absent :: "pystr option \<Rightarrow> bool" where
  "absent s \<longleftrightarrow> (case s of None \<Rightarrow> True | Some t \<Rightarrow> t = [])"

definition validate_request :: "sandbox_request \<Rightarrow> sandbox_request pyres" where
  "validate_request r =
     (if sr_kind r = KindPython \<and> absent (sr_code r) then raise_exc ''ValueError'' (py ''Python execution requires code.'')
      else if sr_kind r \<noteq> KindPython \<and> absent (sr_sql r) then raise_exc ''ValueError'' (py ''SQL execution requires sql.'')
      else if sr_kind r \<noteq> KindPython \<and> sr_files r \<noteq> [] then raise_exc ''ValueError'' (py ''SQL execution does not accept input_files.'')
      else if sr_kind r \<noteq> KindPython \<and> sr_mounts r \<noteq> [] then raise_exc ''ValueError'' (py ''SQL execution does not accept data_mounts.'')
      else Inr r)"

definition artifact_suffixes :: "pystr list" where
  "artifact_suffixes = map py [''.csv'', ''.json'', ''.png'']"

definition dotdot :: pystr where "dotdot = [46, 46]"

definition relative_ok :: "pystr \<Rightarrow> bool" where
  "relative_ok s \<longleftrightarrow> 92 \<notin> set s \<and> 58 \<notin> set s \<and> \<not> path_absolute s \<and> dotdot \<notin> set (path_components s)"

definition validate_artifact_path :: "(nat \<Rightarrow> nat list) \<Rightarrow> pystr \<Rightarrow> pystr pyres" where
  "validate_artifact_path cf s =
     (if \<not> relative_ok s then raise_exc ''ValueError'' (py ''Artifact path must be a safe relative path.'')
      else if casefold cf (path_suffix s) \<notin> set artifact_suffixes then raise_exc ''ValueError'' (py ''Unsupported artifact type.'')
      else Inr (join [47] (path_components s)))"

section \<open>The checks of the executor\<close>

datatype input_content = FileText pystr | FileBytes "nat list"

record sandbox_limits =
  sl_timeout :: rat
  sl_output :: nat
  sl_lines :: nat
  sl_chars :: nat
  sl_input :: nat
  sl_files :: nat
  sl_bytes :: nat

definition encode_text :: "pystr \<Rightarrow> nat list pyres" where
  "encode_text s = (case utf8_encode s of None \<Rightarrow> encode_error | Some bs \<Rightarrow> Inr bs)"

definition content_bytes :: "input_content \<Rightarrow> nat list pyres" where
  "content_bytes c = (case c of FileBytes bs \<Rightarrow> Inr bs | FileText s \<Rightarrow> encode_text s)"

definition main_py :: pystr where "main_py = py ''main.py''"

definition path_parts :: "pystr \<Rightarrow> pystr list" where
  "path_parts s = split_slash [] (map (\<lambda>c. if c = 92 then 47 else c) s)"

definition validate_relative_path :: "pystr \<Rightarrow> unit pyres" where
  "validate_relative_path s =
     (if s = [] \<or> path_absolute s \<or> set (path_parts s) \<inter> {[], [46], dotdot} \<noteq> {} then
        raise_exc ''ValueError'' (py ''Invalid sandbox input path: '' @ s)
      else if hd (path_parts s) = main_py then raise_exc ''ValueError'' (py ''Input files must not overwrite main.py.'')
      else Inr ())"

fun input_size :: "(pystr \<times> input_content) list \<Rightarrow> nat \<Rightarrow> nat pyres" where
  "input_size [] used = Inr used"
| "input_size ((path, content) # files) used =
     (case validate_relative_path path of
        Inl e \<Rightarrow> Inl e
      | Inr u \<Rightarrow> (case content_bytes content of Inl e \<Rightarrow> Inl e | Inr bs \<Rightarrow> input_size files (used + length bs)))"

text \<open>A message when the request is refused; a path that is not allowed raises instead.\<close>

definition validate_payload ::
  "sandbox_limits \<Rightarrow> pystr \<Rightarrow> (pystr \<times> input_content) list \<Rightarrow> dataset_mount list \<Rightarrow> pystr option pyres" where
  "validate_payload L code files mounts =
     (if strip code = [] then Inr (Some (py ''Python code must not be empty.''))
      else if sl_chars L < length code then Inr (Some (py ''Python code exceeds '' @ str_nat (sl_chars L) @ py '' characters.''))
      else if sl_lines L < length (splitlines code) then
        Inr (Some (py ''Python code exceeds '' @ str_nat (sl_lines L) @ py '' lines and requires manual review.''))
      else case input_size files 0 of
        Inl e \<Rightarrow> Inl e
      | Inr used \<Rightarrow>
          (if sl_input L < used then Inr (Some (py ''Sandbox input files exceed '' @ str_nat (sl_input L) @ py '' bytes.''))
           else if 5 < length mounts then Inr (Some (py ''Sandbox supports at most 5 dataset mounts.''))
           else if \<not> distinct (map mo_target mounts) then Inr (Some (py ''Sandbox dataset mount names must be unique.''))
           else if \<not> distinct (map mo_dataset mounts) then Inr (Some (py ''Sandbox dataset mounts must reference unique datasets.''))
           else Inr None))"

section \<open>Artifacts\<close>

definition safe_artifact_path :: "pystr \<Rightarrow> pystr pyres" where
  "safe_artifact_path s =
     (let parts = (case path_components s of [] \<Rightarrow> [] | p # ps \<Rightarrow> (if p = py ''outputs'' then ps else p # ps))
      in if 92 \<in> set s \<or> 58 \<in> set s \<or> path_absolute s \<or> parts = [] \<or> dotdot \<in> set parts then
           raise_exc ''ValueError'' (py ''Invalid sandbox artifact path: '' @ s)
         else Inr (join [47] parts))"

record artifact_file =
  af_path :: pystr \<comment> \<open>relative to the artifact directory\<close>
  af_regular :: bool \<comment> \<open>a file and not a symbolic link\<close>
  af_size :: nat
  af_bytes :: "nat list pyres"

definition limits_error :: "'a pyres" where
  "limits_error = raise_exc ''ValueError'' (py ''Sandbox artifacts exceed configured limits.'')"

text \<open>Building a \<open>SandboxArtifact\<close> validates it; the text of the error is pydantic's.\<close>

definition new_artifact :: "(nat \<Rightarrow> nat list) \<Rightarrow> pystr \<Rightarrow> pystr \<Rightarrow> nat list \<Rightarrow> sandbox_artifact pyres" where
  "new_artifact cf path mime content =
     (if path = [] \<or> 240 < length path \<or> mime = [] \<or> 128 < length mime then raise_exc ''ValidationError'' []
      else case validate_artifact_path cf path of
        Inl e \<Rightarrow> raise_exc ''ValidationError'' (exc_text e)
      | Inr p \<Rightarrow> Inr \<lparr>sa_path = p, sa_mime = mime, sa_size = length content, sa_content = b64encode content\<rparr>)"

fun collect_artifacts ::
  "(nat \<Rightarrow> nat list) \<Rightarrow> (pystr \<Rightarrow> pystr option) \<Rightarrow> sandbox_limits \<Rightarrow> artifact_file list \<Rightarrow> nat \<Rightarrow> sandbox_artifact list \<Rightarrow>
   sandbox_artifact list pyres" where
  "collect_artifacts cf mime L [] used acc = Inr acc"
| "collect_artifacts cf mime L (f # files) used acc =
     (if \<not> af_regular f then collect_artifacts cf mime L files used acc
      else case safe_artifact_path (af_path f) of
        Inl e \<Rightarrow> Inl e
      | Inr path \<Rightarrow>
          (if casefold cf (path_suffix path) \<notin> set artifact_suffixes then collect_artifacts cf mime L files used acc
           else if int (sl_bytes L) - int used < int (af_size f) then limits_error
           else case af_bytes f of
             Inl e \<Rightarrow> Inl e
           | Inr content \<Rightarrow>
               (if sl_files L \<le> length acc \<or> sl_bytes L < used + length content then limits_error
                else case new_artifact cf path (content_or (py ''application/octet-stream'') (mime path)) content of
                  Inl e \<Rightarrow> Inl e
                | Inr a \<Rightarrow> collect_artifacts cf mime L files (used + length content) (acc @ [a]))))"

section \<open>Containers\<close>

record mount_spec =
  mn_target :: pystr
  mn_source :: pystr
  mn_volume :: bool
  mn_read_only :: bool
  mn_subpath :: "pystr option"

record container_spec =
  co_image :: pystr
  co_command :: "pystr list"
  co_name :: pystr
  co_detach :: bool
  co_network_disabled :: bool
  co_memory :: pystr
  co_pids :: nat
  co_nano_cpus :: int
  co_read_only :: bool
  co_tmpfs :: "(pystr \<times> pystr) list"
  co_working_dir :: pystr
  co_user :: pystr
  co_cap_drop :: "pystr list"
  co_security :: "pystr list"
  co_init :: bool
  co_environment :: "(pystr \<times> pystr) list"
  co_labels :: "(pystr \<times> pystr) list"
  co_ulimits :: "(pystr \<times> nat \<times> nat) list" \<comment> \<open>soft and hard\<close>
  co_mounts :: "mount_spec list"

record sandbox_config =
  sc_limits :: sandbox_limits
  sc_image :: pystr
  sc_memory :: pystr
  sc_pids :: nat
  sc_cpus :: rat
  sc_dataset_volume :: pystr
  sc_work_volume :: pystr
  sc_work_root :: pystr

record 'w sandbox_world =
  sx_dirs :: "pystr list"
  sx_containers :: "nat list"
  sx_created :: "container_spec list"
  sx_rest :: 'w

record 'w docker =
  dc_image :: "pystr \<Rightarrow> 'w \<Rightarrow> unit pyres \<times> 'w"
  dc_mkdir :: "pystr \<Rightarrow> 'w \<Rightarrow> unit pyres \<times> 'w"
  dc_create :: "container_spec \<Rightarrow> 'w \<Rightarrow> nat pyres \<times> 'w"
  dc_start :: "nat \<Rightarrow> 'w \<Rightarrow> unit pyres \<times> 'w"
  dc_wait :: "nat \<Rightarrow> rat \<Rightarrow> 'w \<Rightarrow> int pyres \<times> 'w"
  dc_kill :: "nat \<Rightarrow> 'w \<Rightarrow> unit pyres \<times> 'w"
  dc_logs :: "nat \<Rightarrow> bool \<Rightarrow> 'w \<Rightarrow> nat list pyres \<times> 'w"
  dc_files :: "pystr \<Rightarrow> 'w \<Rightarrow> artifact_file list pyres"
  dc_remove :: "nat \<Rightarrow> 'w \<Rightarrow> unit pyres \<times> 'w"
  dc_docker_fault :: "py_exc \<Rightarrow> bool"
  dc_wait_fault :: "py_exc \<Rightarrow> bool" \<comment> \<open>a timeout or connection error of \<open>requests\<close>\<close>
  dc_os_fault :: "py_exc \<Rightarrow> bool"
  dc_value_fault :: "py_exc \<Rightarrow> bool"
  dc_decode :: "nat list \<Rightarrow> pystr"
  dc_mime :: "pystr \<Rightarrow> pystr option"
  dc_fold :: "nat \<Rightarrow> nat list"
  dc_general :: "rat \<Rightarrow> pystr" \<comment> \<open>the format \<open>:g\<close>\<close>
  dc_clock :: "'w \<Rightarrow> rat"
  dc_counter :: "'w \<Rightarrow> nat"

definition lift_call :: "('w \<Rightarrow> 'a pyres \<times> 'w) \<Rightarrow> 'w sandbox_world \<Rightarrow> 'a pyres \<times> 'w sandbox_world" where
  "lift_call f w = (let (r, x) = f (sx_rest w) in (r, w\<lparr>sx_rest := x\<rparr>))"

definition then_do :: "'a pyres \<times> 'w \<Rightarrow> ('a \<Rightarrow> 'w \<Rightarrow> 'b pyres \<times> 'w) \<Rightarrow> 'b pyres \<times> 'w" where
  "then_do p f = (case p of (Inl e, w) \<Rightarrow> (Inl e, w) | (Inr x, w) \<Rightarrow> f x w)"

definition sandbox_json :: json_opts where
  "sandbox_json = \<lparr>ensure_ascii = True, item_sep = py '','', key_sep = py '':''\<rparr>"

definition encode_input_files :: "(pystr \<times> input_content) list \<Rightarrow> pystr pyres" where
  "encode_input_files files =
     (case map_res (\<lambda>(path, content). case content_bytes content of Inl e \<Rightarrow> Inl e | Inr bs \<Rightarrow> Inr (path, PStr (b64encode bs))) files of
        Inl e \<Rightarrow> Inl e
      | Inr kvs \<Rightarrow> (case encode_text (dumps sandbox_json (PDict kvs)) of Inl e \<Rightarrow> Inl e | Inr bs \<Rightarrow> Inr (b64encode bs)))"

definition code_key :: pystr where "code_key = py ''SANDBOX_CODE_B64''"
definition files_key :: pystr where "files_key = py ''SANDBOX_FILES_B64''"

definition sandbox_environment :: "pystr \<Rightarrow> (pystr \<times> input_content) list \<Rightarrow> (pystr \<times> pystr) list pyres" where
  "sandbox_environment code files =
     (case encode_text code of
        Inl e \<Rightarrow> Inl e
      | Inr bs \<Rightarrow>
          (case encode_input_files files of
             Inl e \<Rightarrow> Inl e
           | Inr encoded \<Rightarrow>
               Inr [(code_key, b64encode bs), (files_key, encoded), (py ''PYTHONDONTWRITEBYTECODE'', py ''1''),
                    (py ''PYTHONUNBUFFERED'', py ''1''), (py ''MPLBACKEND'', py ''Agg''), (py ''MPLCONFIGDIR'', py ''/tmp/matplotlib''),
                    (py ''HOME'', py ''/tmp'')]))"

definition data_mount :: "sandbox_config \<Rightarrow> dataset_mount \<Rightarrow> mount_spec" where
  "data_mount C m = \<lparr>mn_target = py ''/data/'' @ mo_target m, mn_source = sc_dataset_volume C, mn_volume = True, mn_read_only = True,
     mn_subpath = Some (str_uuid (mo_dataset m))\<rparr>"

definition output_mount :: "sandbox_config \<Rightarrow> pystr \<Rightarrow> pystr \<Rightarrow> mount_spec" where
  "output_mount C execution_id dir =
     (if sc_work_volume C \<noteq> [] then
        \<lparr>mn_target = py ''/workspace/outputs'', mn_source = sc_work_volume C, mn_volume = True, mn_read_only = False,
         mn_subpath = Some execution_id\<rparr>
      else \<lparr>mn_target = py ''/workspace/outputs'', mn_source = dir, mn_volume = False, mn_read_only = False, mn_subpath = None\<rparr>)"

definition container_of ::
  "sandbox_config \<Rightarrow> (pystr \<times> pystr) list \<Rightarrow> dataset_mount list \<Rightarrow> pystr \<Rightarrow> pystr \<Rightarrow> pystr \<Rightarrow> container_spec" where
  "container_of C env mounts name execution_id dir =
     \<lparr>co_image = sc_image C, co_command = [py ''python'', py ''/opt/sandbox/runner.py''], co_name = name, co_detach = True,
      co_network_disabled = True, co_memory = sc_memory C, co_pids = sc_pids C, co_nano_cpus = \<lfloor>sc_cpus C * 1000000000\<rfloor>,
      co_read_only = True,
      co_tmpfs = [(py ''/workspace'', py ''size=128m,uid=10001,gid=10001,mode=0700,noexec,nosuid,nodev''),
                  (py ''/tmp'', py ''size=64m,uid=10001,gid=10001,mode=0700,noexec,nosuid,nodev'')],
      co_working_dir = py ''/workspace'', co_user = py ''10001:10001'', co_cap_drop = [py ''ALL''],
      co_security = [py ''no-new-privileges:true''], co_init = True, co_environment = env,
      co_labels = [(py ''datapilot.sandbox'', py ''true'')], co_ulimits = [(py ''nofile'', 256, 256)],
      co_mounts = map (data_mount C) mounts @ [output_mount C execution_id dir]\<rparr>"

definition container_name :: "'w docker \<Rightarrow> 'w sandbox_world \<Rightarrow> pystr" where
  "container_name D w = py ''datapilot-sandbox-'' @ str_nat (dc_counter D (sx_rest w))"

section \<open>One execution\<close>

definition failed_execution :: "pystr \<Rightarrow> rat \<Rightarrow> execution_result" where
  "failed_execution msg duration = \<lparr>er_ok = False, er_stdout = [], er_stderr = msg, er_truncated = False, er_exit_code = None,
     er_timed_out = False, er_duration = duration, er_artifacts = []\<rparr>"

definition make_dir :: "'w docker \<Rightarrow> pystr \<Rightarrow> 'w sandbox_world \<Rightarrow> unit pyres \<times> 'w sandbox_world" where
  "make_dir D dir w =
     (if dir \<in> set (sx_dirs w) then (raise_exc ''FileExistsError'' dir, w)
      else then_do (lift_call (dc_mkdir D dir) w) (\<lambda>u w. (Inr (), w\<lparr>sx_dirs := dir # sx_dirs w\<rparr>)))"

definition create_container :: "'w docker \<Rightarrow> container_spec \<Rightarrow> 'w sandbox_world \<Rightarrow> nat pyres \<times> 'w sandbox_world" where
  "create_container D spec w =
     then_do (lift_call (dc_create D spec) w)
       (\<lambda>c w. (Inr c, w\<lparr>sx_containers := c # sx_containers w, sx_created := sx_created w @ [spec]\<rparr>))"

text \<open>Waiting: the exit code, or none when time ran out or Docker failed and the container was killed.\<close>

definition wait_container :: "'w docker \<Rightarrow> nat \<Rightarrow> rat \<Rightarrow> 'w sandbox_world \<Rightarrow> int option pyres \<times> 'w sandbox_world" where
  "wait_container D c timeout w =
     (case lift_call (dc_wait D c timeout) w of
        (Inr code, w1) \<Rightarrow> (Inr (Some code), w1)
      | (Inl e, w1) \<Rightarrow>
          (if dc_wait_fault D e \<or> dc_docker_fault D e then
             (case lift_call (dc_kill D c) w1 of
                (Inr u, w2) \<Rightarrow> (Inr None, w2)
              | (Inl k, w2) \<Rightarrow> (if dc_wait_fault D k \<or> dc_docker_fault D k then Inr None else Inl k, w2))
           else (Inl e, w1)))"

definition read_logs :: "'w docker \<Rightarrow> sandbox_limits \<Rightarrow> nat \<Rightarrow> bool \<Rightarrow> 'w sandbox_world \<Rightarrow> (pystr \<times> bool) pyres \<times> 'w sandbox_world" where
  "read_logs D L c stderr w =
     then_do (lift_call (dc_logs D c stderr) w) (\<lambda>raw w. (Inr (dc_decode D (take (sl_output L) raw), sl_output L < length raw), w))"

definition with_timeout_note :: "'w docker \<Rightarrow> rat \<Rightarrow> pystr \<Rightarrow> pystr" where
  "with_timeout_note D timeout stderr = strip (stderr @ [10] @ py ''Execution timed out after '' @ dc_general D timeout @ py '' seconds.'')"

definition gather_result ::
  "'w docker \<Rightarrow> sandbox_limits \<Rightarrow> rat \<Rightarrow> rat \<Rightarrow> pystr \<Rightarrow> int option \<Rightarrow> pystr \<times> bool \<Rightarrow> pystr \<times> bool \<Rightarrow> 'w sandbox_world \<Rightarrow>
   execution_result pyres" where
  "gather_result D L started timeout dir exit out err w =
     (let duration = (dc_clock D (sx_rest w) - started) * 1000;
          stderr = (if exit = None then with_timeout_note D timeout (fst err) else fst err);
          result = \<lparr>er_ok = (exit = Some 0), er_stdout = fst out, er_stderr = stderr, er_truncated = (snd out \<or> snd err),
                    er_exit_code = exit, er_timed_out = (exit = None), er_duration = duration, er_artifacts = []\<rparr>
      in case (case dc_files D dir (sx_rest w) of
                 Inl e \<Rightarrow> Inl e
               | Inr files \<Rightarrow> collect_artifacts (dc_fold D) (dc_mime D) L files 0 []) of
           Inl e \<Rightarrow> (if dc_value_fault D e then
                       Inr (result\<lparr>er_ok := False, er_stderr := py ''Artifact validation failed: '' @ exc_text e\<rparr>)
                     else Inl e)
         | Inr artifacts \<Rightarrow> Inr (result\<lparr>er_artifacts := artifacts\<rparr>))"

definition run_container ::
  "'w docker \<Rightarrow> sandbox_limits \<Rightarrow> rat \<Rightarrow> rat \<Rightarrow> pystr \<Rightarrow> nat \<Rightarrow> 'w sandbox_world \<Rightarrow> execution_result pyres \<times> 'w sandbox_world" where
  "run_container D L started timeout dir c w =
     then_do (lift_call (dc_start D c) w) (\<lambda>u w.
     then_do (wait_container D c timeout w) (\<lambda>exit w.
     then_do (read_logs D L c False w) (\<lambda>out w.
     then_do (read_logs D L c True w) (\<lambda>err w. (gather_result D L started timeout dir exit out err w, w)))))"

text \<open>The \<open>try\<close> block, and the container it left if one was created.\<close>

definition try_execution ::
  "'w docker \<Rightarrow> sandbox_config \<Rightarrow> pystr \<Rightarrow> (pystr \<times> input_content) list \<Rightarrow> dataset_mount list \<Rightarrow> rat \<Rightarrow> rat \<Rightarrow> pystr \<Rightarrow> pystr \<Rightarrow>
   'w sandbox_world \<Rightarrow> (execution_result pyres \<times> nat option) \<times> 'w sandbox_world" where
  "try_execution D C code files mounts started timeout execution_id dir w =
     (case make_dir D dir w of
        (Inl e, w1) \<Rightarrow> ((Inl e, None), w1)
      | (Inr u, w1) \<Rightarrow>
          (case sandbox_environment code files of
             Inl e \<Rightarrow> ((Inl e, None), w1)
           | Inr env \<Rightarrow>
               (case create_container D (container_of C env mounts (container_name D w1) execution_id dir) w1 of
                  (Inl e, w2) \<Rightarrow> ((Inl e, None), w2)
                | (Inr c, w2) \<Rightarrow> (case run_container D (sc_limits C) started timeout dir c w2 of (r, w3) \<Rightarrow> ((r, Some c), w3)))))"

definition handle_faults :: "'w docker \<Rightarrow> rat \<Rightarrow> execution_result pyres \<Rightarrow> 'w sandbox_world \<Rightarrow> execution_result pyres" where
  "handle_faults D started r w =
     (let duration = (dc_clock D (sx_rest w) - started) * 1000
      in case r of
           Inr x \<Rightarrow> Inr x
         | Inl e \<Rightarrow>
             (if dc_os_fault D e then Inr (failed_execution (py ''Sandbox artifact workspace is unavailable: '' @ exc_text e) duration)
              else if dc_docker_fault D e then Inr (failed_execution (py ''Docker sandbox execution failed: '' @ exc_text e) duration)
              else Inl e))"

text \<open>
  The \<open>finally\<close> block.  Docker's faults on removal are swallowed; any other one ends the block before
  the directory is removed.
\<close>

definition remove_container :: "'w docker \<Rightarrow> nat \<Rightarrow> 'w sandbox_world \<Rightarrow> unit pyres \<times> 'w sandbox_world" where
  "remove_container D c w =
     (case lift_call (dc_remove D c) w of
        (Inr u, w1) \<Rightarrow> (Inr (), w1\<lparr>sx_containers := remove1 c (sx_containers w1)\<rparr>)
      | (Inl e, w1) \<Rightarrow> (if dc_docker_fault D e then Inr () else Inl e, w1))"

definition clean_up ::
  "'w docker \<Rightarrow> pystr \<Rightarrow> nat option \<Rightarrow> execution_result pyres \<Rightarrow> 'w sandbox_world \<Rightarrow> execution_result pyres \<times> 'w sandbox_world" where
  "clean_up D dir container r w =
     (case (case container of None \<Rightarrow> (Inr (), w) | Some c \<Rightarrow> remove_container D c w) of
        (Inl e, w1) \<Rightarrow> (Inl e, w1)
      | (Inr u, w1) \<Rightarrow> (r, w1\<lparr>sx_dirs := removeAll dir (sx_dirs w1)\<rparr>))"

definition unavailable :: "pystr \<Rightarrow> 'a pyres" where
  "unavailable msg = raise_exc ''SandboxUnavailableError'' msg"

definition execute_sync ::
  "'w docker \<Rightarrow> sandbox_config \<Rightarrow> pystr \<Rightarrow> (pystr \<times> input_content) list \<Rightarrow> dataset_mount list \<Rightarrow> rat \<Rightarrow>
   'w sandbox_world \<Rightarrow> execution_result pyres \<times> 'w sandbox_world" where
  "execute_sync D C code files mounts timeout w =
     (let started = dc_clock D (sx_rest w);
          execution_id = py ''execution-'' @ str_nat (dc_counter D (sx_rest w));
          dir = sc_work_root C @ [47] @ execution_id
      in case lift_call (dc_image D (sc_image C)) w of
           (Inl e, w1) \<Rightarrow>
             (if exc_type e = py ''ImageNotFound'' then
                unavailable (py ''Sandbox image is not available: '' @ sc_image C @ py ''. Run `docker compose --profile sandbox build sandbox`.'')
              else if dc_docker_fault D e then unavailable (py ''Docker daemon is not available.'')
              else Inl e, w1)
         | (Inr u, w1) \<Rightarrow>
             (case try_execution D C code files mounts started timeout execution_id dir w1 of
                ((r, container), w2) \<Rightarrow> clean_up D dir container (handle_faults D started r w2) w2))"

definition effective_timeout :: "sandbox_limits \<Rightarrow> rat option \<Rightarrow> rat" where
  "effective_timeout L timeout =
     (let wanted = (case timeout of None \<Rightarrow> sl_timeout L | Some t \<Rightarrow> (if t = 0 then sl_timeout L else t)) in min wanted (sl_timeout L))"

definition sandbox_execute ::
  "'w docker \<Rightarrow> sandbox_config \<Rightarrow> pystr \<Rightarrow> (pystr \<times> input_content) list \<Rightarrow> dataset_mount list \<Rightarrow> rat option \<Rightarrow>
   'w sandbox_world \<Rightarrow> execution_result pyres \<times> 'w sandbox_world" where
  "sandbox_execute D C code files mounts timeout w =
     (case validate_payload (sc_limits C) code files mounts of
        Inl e \<Rightarrow> (Inl e, w)
      | Inr (Some msg) \<Rightarrow> (Inr (failed_execution msg 0), w)
      | Inr None \<Rightarrow> execute_sync D C code files mounts (effective_timeout (sc_limits C) timeout) w)"

end
