(* ===== verification/Sandbox_Properties.thy ===== *)
theory Sandbox_Properties
  imports Sandbox
begin

text \<open>
  What an execution leaves behind, what its containers may do, and what it returns.
\<close>

section \<open>Nothing is left\<close>

definition same_outside :: "'w sandbox_world \<Rightarrow> 'w sandbox_world \<Rightarrow> bool" where
  "same_outside w w' \<longleftrightarrow> sx_dirs w' = sx_dirs w \<and> sx_containers w' = sx_containers w \<and> sx_created w' = sx_created w"

lemma same_refl [simp, intro]: "same_outside w w"
  by (simp add: same_outside_def)

lemma same_trans: "same_outside w w' \<Longrightarrow> same_outside w' w'' \<Longrightarrow> same_outside w w''"
  by (simp add: same_outside_def)

lemma lift_call_same: "same_outside w (snd (lift_call f w))"
  by (simp add: lift_call_def same_outside_def Let_def split: prod.split)

lemma then_do_same:
  assumes "same_outside w (snd p)" and "\<And>x w'. same_outside w' (snd (f x w'))"
  shows "same_outside w (snd (then_do p f))"
proof -
  obtain r w1 where p: "p = (r, w1)" by (meson surj_pair)
  show ?thesis
  proof (cases r)
    case (Inr x)
    have "same_outside w w1" using assms(1) p by simp
    from same_trans [OF this assms(2)] Inr show ?thesis by (simp add: then_do_def p)
  qed (use assms(1) p in \<open>simp add: then_do_def\<close>)
qed

lemma wait_same: "same_outside w (snd (wait_container D c timeout w))"
proof -
  obtain r w1 where r: "lift_call (dc_wait D c timeout) w = (r, w1)" by (meson surj_pair)
  obtain k w2 where k: "lift_call (dc_kill D c) w1 = (k, w2)" by (meson surj_pair)
  have "same_outside w w1" "same_outside w1 w2"
    using lift_call_same [of w "dc_wait D c timeout"] lift_call_same [of w1 "dc_kill D c"] r k by simp_all
  then show ?thesis using same_trans [of w w1 w2] r k by (cases r; cases k) (simp_all add: wait_container_def)
qed

lemma logs_same: "same_outside w (snd (read_logs D L c b w))"
  unfolding read_logs_def by (rule then_do_same [OF lift_call_same]) simp

lemma run_container_same: "same_outside w (snd (run_container D L started timeout dir c w))"
  unfolding run_container_def
  by (rule then_do_same [OF lift_call_same], rule then_do_same [OF wait_same], rule then_do_same [OF logs_same],
      rule then_do_same [OF logs_same]) simp

text \<open>No network, no privileges, a read-only root, and one writable mount: the output directory.\<close>

definition locked_down :: "container_spec \<Rightarrow> bool" where
  "locked_down s \<longleftrightarrow> co_network_disabled s \<and> co_read_only s \<and> co_user s = py ''10001:10001'' \<and> co_cap_drop s = [py ''ALL'']
     \<and> co_security s = [py ''no-new-privileges:true'']
     \<and> (\<forall>m \<in> set (co_mounts s). mn_read_only m \<or> mn_target m = py ''/workspace/outputs'')"

lemma container_locked: "locked_down (container_of C env mounts name i dir)"
  by (simp add: locked_down_def container_of_def data_mount_def output_mount_def)

text \<open>The directory and the container of an execution, before the clean-up.\<close>

lemma try_execution_state:
  assumes "try_execution D C code files mounts started timeout i dir w = ((r, container), w')"
  shows "removeAll dir (sx_dirs w') = removeAll dir (sx_dirs w)
    \<and> sx_containers w' = (case container of None \<Rightarrow> sx_containers w | Some c \<Rightarrow> c # sx_containers w)
    \<and> (\<exists>new. sx_created w' = sx_created w @ new \<and> list_all locked_down new)"
proof -
  obtain m w1 where m: "make_dir D dir w = (m, w1)" by (meson surj_pair)
  have w1: "removeAll dir (sx_dirs w1) = removeAll dir (sx_dirs w)" "sx_containers w1 = sx_containers w" "sx_created w1 = sx_created w"
    using m by (auto simp: make_dir_def then_do_def lift_call_def Let_def split: if_splits prod.splits sum.splits)
  show ?thesis
  proof (cases m)
    case (Inl e)
    with assms m w1 show ?thesis by (simp add: try_execution_def)
  next
    case (Inr u)
    show ?thesis
    proof (cases "sandbox_environment code files")
      case (Inl e)
      with assms m Inr w1 show ?thesis by (simp add: try_execution_def)
    next
      case env: (Inr env)
      let ?spec = "container_of C env mounts (container_name D w1) i dir"
      obtain k x where k: "dc_create D ?spec (sx_rest w1) = (k, x)" by (meson surj_pair)
      show ?thesis
      proof (cases k)
        case (Inl e)
        with assms m Inr env w1 k show ?thesis by (auto simp: try_execution_def create_container_def then_do_def lift_call_def)
      next
        case (Inr c)
        let ?w2 = "w1\<lparr>sx_rest := x, sx_containers := c # sx_containers w1, sx_created := sx_created w1 @ [?spec]\<rparr>"
        have "create_container D ?spec w1 = (Inr c, ?w2)" using k Inr by (simp add: create_container_def then_do_def lift_call_def)
        with assms m \<open>m = Inr u\<close> env have "container = Some c" "w' = snd (run_container D (sc_limits C) started timeout dir c ?w2)"
          by (auto simp: try_execution_def split: prod.splits)
        moreover have "same_outside ?w2 (snd (run_container D (sc_limits C) started timeout dir c ?w2))" by (rule run_container_same)
        ultimately show ?thesis using w1 container_locked [of C env mounts "container_name D w1" i dir] by (simp add: same_outside_def)
      qed
    qed
  qed
qed

lemma clean_up_state:
  assumes "clean_up D dir container q w = (r, w')" and "\<And>c x. is_ok (fst (dc_remove D c x))"
  shows "sx_dirs w' = removeAll dir (sx_dirs w) \<and> sx_created w' = sx_created w
    \<and> sx_containers w' = (case container of None \<Rightarrow> sx_containers w | Some c \<Rightarrow> remove1 c (sx_containers w))"
proof (cases container)
  case None
  with assms(1) show ?thesis by (auto simp: clean_up_def)
next
  case (Some c)
  obtain u x where "dc_remove D c (sx_rest w) = (Inr u, x)" using assms(2) [of c "sx_rest w"] unfolding is_ok_iff by (metis prod.collapse)
  with assms(1) Some show ?thesis by (auto simp: clean_up_def remove_container_def lift_call_def)
qed


section \<open>What is collected\<close>

text \<open>A path below a directory: relative, without a step up, and of an allowed type.\<close>

definition safe_artifact :: "(nat \<Rightarrow> nat list) \<Rightarrow> sandbox_artifact \<Rightarrow> bool" where
  "safe_artifact cf a \<longleftrightarrow> relative_ok (sa_path a) \<and> path_components (sa_path a) \<noteq> [] \<and> length (sa_path a) \<le> 240
     \<and> casefold cf (path_suffix (sa_path a)) \<in> set artifact_suffixes
     \<and> (\<exists>content. bytes_ok content \<and> sa_size a = length content \<and> b64_decode_strict (sa_content a) = Some content)"

lemma join_absolute: "\<forall>p \<in> set ps. 47 \<notin> set p \<and> p \<noteq> [] \<Longrightarrow> \<not> path_absolute (join sep ps)"
proof (induction sep ps rule: join.induct)
  case (2 sep p)
  then show ?case by (cases p) (auto simp: path_absolute_def)
next
  case (3 sep p q ps)
  then show ?case by (cases p) (auto simp: path_absolute_def)
qed (simp add: path_absolute_def)

lemma set_join: "c \<in> set (join sep ps) \<Longrightarrow> c \<in> set sep \<or> (\<exists>p \<in> set ps. c \<in> set p)"
  by (induction sep ps rule: join.induct) auto

lemma set_components: "p \<in> set (path_components s) \<Longrightarrow> set p \<subseteq> set s"
proof -
  have "q \<in> set (split_slash acc s) \<Longrightarrow> set q \<subseteq> set acc \<union> set s" for q acc
    by (induction acc s rule: split_slash.induct) (auto split: if_splits)
  from this [of p "[]"] show "p \<in> set (path_components s) \<Longrightarrow> set p \<subseteq> set s" by (auto simp: path_components_def)
qed

text \<open>Normalising a path that is allowed gives a path that is allowed, with the same components.\<close>

lemma relative_normal:
  assumes "relative_ok s"
  shows "relative_ok (join [47] (path_components s)) \<and> path_components (join [47] (path_components s)) = path_components s"
proof -
  have each: "\<forall>p \<in> set (path_components s). 47 \<notin> set p \<and> p \<noteq> [] \<and> p \<noteq> [46]"
    using path_components_no_slash path_components_nonempty by blast
  have same: "path_components (join [47] (path_components s)) = path_components s" by (rule components_join [OF each])
  have "c \<noteq> 47 \<Longrightarrow> c \<in> set (join [47] (path_components s)) \<Longrightarrow> c \<in> set s" for c
    using set_join [of c "[47]" "path_components s"] set_components [of _ s] by auto
  from this [of 92] this [of 58] show ?thesis using assms same each join_absolute [of "path_components s"] by (auto simp: relative_ok_def)
qed

lemma path_suffix_same: "path_components s = path_components t \<Longrightarrow> path_suffix s = path_suffix t"
  by (metis path_name_def path_suffix_def)

lemma new_artifact_safe:
  assumes "new_artifact cf path mime content = Inr a" and "bytes_ok content" and "path_components path \<noteq> []" and "path = join [47] (path_components path)"
  shows "safe_artifact cf a \<and> sa_size a = length content"
proof -
  have p: "relative_ok path" "casefold cf (path_suffix path) \<in> set artifact_suffixes" "length path \<le> 240"
    and a: "a = \<lparr>sa_path = join [47] (path_components path), sa_mime = mime, sa_size = length content, sa_content = b64encode content\<rparr>"
    using assms(1) by (auto simp: new_artifact_def validate_artifact_path_def split: if_splits sum.splits)
  show ?thesis unfolding safe_artifact_def a using p assms(2,3) b64_strict_round_trip [OF assms(2)] by (simp add: assms(4) [symmetric])
qed

lemma safe_artifact_path_normal:
  assumes "safe_artifact_path s = Inr path"
  shows "path_components path \<noteq> [] \<and> path = join [47] (path_components path)"
proof -
  obtain parts where parts: "path = join [47] parts" "parts \<noteq> []" "set parts \<subseteq> set (path_components s)"
    using assms by (auto simp: safe_artifact_path_def Let_def split: if_splits list.splits)
  have "path_components path = parts" unfolding parts(1)
    using parts(3) path_components_no_slash path_components_nonempty by (intro components_join) blast
  with parts show ?thesis by simp
qed

lemma collect_bounded:
  assumes "collect_artifacts cf mime L files used acc = Inr out" and "\<forall>f \<in> set files. \<forall>bs. af_bytes f = Inr bs \<longrightarrow> bytes_ok bs"
    and "length acc \<le> sl_files L" and "used = sum_list (map sa_size acc)" and "used \<le> sl_bytes L" and "list_all (safe_artifact cf) acc"
  shows "length out \<le> sl_files L \<and> sum_list (map sa_size out) \<le> sl_bytes L \<and> list_all (safe_artifact cf) out"
  using assms
proof (induction files arbitrary: used acc)
  case (Cons f files)
  show ?case
  proof (cases "af_regular f \<and> (\<exists>path. safe_artifact_path (af_path f) = Inr path \<and> casefold cf (path_suffix path) \<in> set artifact_suffixes)")
    case False
    then have "collect_artifacts cf mime L files used acc = Inr out" using Cons.prems(1) by (auto split: if_splits sum.splits)
    then show ?thesis using Cons.IH Cons.prems(2-) by auto
  next
    case True
    then obtain path where path: "safe_artifact_path (af_path f) = Inr path" "casefold cf (path_suffix path) \<in> set artifact_suffixes" "af_regular f" by blast
    then obtain content a where c: "af_bytes f = Inr content" "length acc < sl_files L" "used + length content \<le> sl_bytes L"
      "new_artifact cf path (content_or (py ''application/octet-stream'') (mime path)) content = Inr a"
      "collect_artifacts cf mime L files (used + length content) (acc @ [a]) = Inr out"
      using Cons.prems(1) by (auto simp: limits_error_def not_le not_less split: if_splits sum.splits)
    have "bytes_ok content" using Cons.prems(2) c(1) by simp
    with new_artifact_safe [OF c(4)] safe_artifact_path_normal [OF path(1)] have a: "safe_artifact cf a" "sa_size a = length content" by auto
    show ?thesis using Cons.IH [OF c(5)] Cons.prems(2-) c(2,3) a by auto
  qed
qed auto


section \<open>Witnesses\<close>

definition demo_limits :: sandbox_limits where
  "demo_limits = \<lparr>sl_timeout = 10, sl_output = 100, sl_lines = 300, sl_chars = 1000, sl_input = 1000, sl_files = 2, sl_bytes = 10\<rparr>"

definition demo_config :: sandbox_config where
  "demo_config = \<lparr>sc_limits = demo_limits, sc_image = [105], sc_memory = [109], sc_pids = 64, sc_cpus = 1, sc_dataset_volume = [100],
     sc_work_volume = [], sc_work_root = [114]\<rparr>"

definition demo_docker :: "unit docker" where
  "demo_docker = \<lparr>dc_image = (\<lambda>i w. (Inr (), w)), dc_mkdir = (\<lambda>d w. (Inr (), w)), dc_create = (\<lambda>s w. (Inr 7, w)), dc_start = (\<lambda>c w. (Inr (), w)),
     dc_wait = (\<lambda>c t w. (Inr 0, w)), dc_kill = (\<lambda>c w. (Inr (), w)), dc_logs = (\<lambda>c e w. (Inr [], w)),
     dc_files = (\<lambda>d w. Inr [\<lparr>af_path = py ''b.txt'', af_regular = True, af_size = 1, af_bytes = Inr [65]\<rparr>]), dc_remove = (\<lambda>c w. (Inr (), w)),
     dc_docker_fault = (\<lambda>e. False), dc_wait_fault = (\<lambda>e. False), dc_os_fault = (\<lambda>e. False), dc_value_fault = (\<lambda>e. True), dc_decode = id,
     dc_mime = (\<lambda>p. None), dc_fold = ascii_fold, dc_general = (\<lambda>t. []), dc_clock = (\<lambda>w. 0), dc_counter = (\<lambda>w. 1)\<rparr>"

definition demo_sandbox :: "unit sandbox_world" where
  "demo_sandbox = \<lparr>sx_dirs = [], sx_containers = [], sx_created = [], sx_rest = ()\<rparr>"

lemma demo_payload: "validate_payload demo_limits [120] [] [] = Inr None"
  by (simp add: validate_payload_def demo_limits_def strip_def lstrip_def rstrip_def splitlines_def py_space_def line_break_def)


lemma demo_environment: "\<exists>env. sandbox_environment [120] [] = Inr env"
  by (simp add: sandbox_environment_def encode_text_def encode_input_files_def utf8_char_def)


end
