(* ===== verification/Sandbox_Runner.thy ===== *)
theory Sandbox_Runner
  imports Sandbox_Properties "HOL-Library.Sublist"
begin

text \<open>
  \<open>sandbox/runner.py\<close>, the program inside the container: it decodes the environment the executor made and
  writes the files of the execution.  With it the protocol between the two is complete: what passes
  the executor's checks is written by the runner, byte for byte and inside the workspace.
\<close>

section \<open>The runner\<close>

definition continuation :: "nat \<Rightarrow> bool" where
  "continuation b \<longleftrightarrow> 128 \<le> b \<and> b < 192"

text \<open>\<open>bytes.decode("utf-8")\<close>: no overlong forms and no surrogates.\<close>

fun utf8_decode :: "nat list \<Rightarrow> pystr option" where
  "utf8_decode [] = Some []"
| "utf8_decode (a # s) =
     (if a < 128 then map_option (Cons a) (utf8_decode s)
      else if 194 \<le> a \<and> a < 224 then
        (case s of
           b # r \<Rightarrow> (if continuation b then map_option (Cons ((a - 192) * 64 + (b - 128))) (utf8_decode r) else None)
         | _ \<Rightarrow> None)
      else if 224 \<le> a \<and> a < 240 then
        (case s of
           b # c # r \<Rightarrow>
             (let n = (a - 224) * 4096 + (b - 128) * 64 + (c - 128)
              in if continuation b \<and> continuation c \<and> 2048 \<le> n \<and> \<not> (55296 \<le> n \<and> n < 57344) then map_option (Cons n) (utf8_decode r) else None)
         | _ \<Rightarrow> None)
      else if 240 \<le> a \<and> a < 245 then
        (case s of
           b # c # d # r \<Rightarrow>
             (let n = (a - 240) * 262144 + (b - 128) * 4096 + (c - 128) * 64 + (d - 128)
              in if continuation b \<and> continuation c \<and> continuation d \<and> 65536 \<le> n \<and> n < 1114112 then map_option (Cons n) (utf8_decode r) else None)
         | _ \<Rightarrow> None)
      else None)"

definition runner_path :: "pystr \<Rightarrow> pystr list pyres" where
  "runner_path s =
     (if path_absolute s \<or> s = [] \<or> dotdot \<in> set (path_components s) then
        raise_exc ''ValueError'' (py ''Invalid sandbox input path: '' @ s)
      else case path_components s of
        [] \<Rightarrow> raise_exc ''IndexError'' (py ''tuple index out of range'')
      | p # ps \<Rightarrow> (if p = main_py then raise_exc ''ValueError'' (py ''Input files must not overwrite main.py.'') else Inr (p # ps)))"

definition runner_decode :: "pystr \<Rightarrow> nat list pyres" where
  "runner_decode s = (case b64decode s of None \<Rightarrow> raise_exc ''Error'' [] | Some bs \<Rightarrow> Inr bs)"

text \<open>
  The files written so far, each by its components below the workspace.  A directory cannot take the
  place of a file nor a file that of a directory; whatever else the file system refuses, a name that
  is too long or the mounted output directory, is the parameter \<open>fs\<close>.
\<close>

definition make_parent :: "(pystr list \<times> nat list) list \<Rightarrow> pystr list \<Rightarrow> unit pyres" where
  "make_parent written target =
     (if butlast target \<in> set (map fst written) then raise_exc ''FileExistsError'' []
      else if list_ex (\<lambda>(t, bs). strict_prefix t (butlast target)) written then raise_exc ''NotADirectoryError'' []
      else Inr ())"

definition write_file :: "(pystr list \<Rightarrow> unit pyres) \<Rightarrow> (pystr list \<times> nat list) list \<Rightarrow> pystr list \<Rightarrow> nat list \<Rightarrow> (pystr list \<times> nat list) list pyres" where
  "write_file fs written target bs =
     (if list_ex (\<lambda>(t, bs). strict_prefix target t) written then raise_exc ''IsADirectoryError'' []
      else case fs target of Inl e \<Rightarrow> Inl e | Inr u \<Rightarrow> Inr (AList.update target bs written))"

fun write_files ::
  "(pystr list \<Rightarrow> unit pyres) \<Rightarrow> (pystr \<times> pyval) list \<Rightarrow> (pystr list \<times> nat list) list \<Rightarrow> (pystr list \<times> nat list) list pyres" where
  "write_files fs [] written = Inr written"
| "write_files fs ((path, PStr content) # files) written =
     (case runner_path path of
        Inl e \<Rightarrow> Inl e
      | Inr target \<Rightarrow>
          (case make_parent written target of
             Inl e \<Rightarrow> Inl e
           | Inr u \<Rightarrow>
               (case runner_decode content of
                  Inl e \<Rightarrow> Inl e
                | Inr bs \<Rightarrow> (case write_file fs written target bs of Inl e \<Rightarrow> Inl e | Inr written' \<Rightarrow> write_files fs files written'))))"
| "write_files fs ((path, v) # files) written =
     raise_exc ''ValueError'' (py ''Sandbox input files must map paths to base64 strings.'')"

definition write_input_files :: "(pystr list \<Rightarrow> unit pyres) \<Rightarrow> pystr \<Rightarrow> (pystr list \<times> nat list) list pyres" where
  "write_input_files fs encoded =
     (if encoded = [] then Inr []
      else case runner_decode encoded of
        Inl e \<Rightarrow> Inl e
      | Inr bs \<Rightarrow>
          (case utf8_decode bs of
             None \<Rightarrow> raise_exc ''UnicodeDecodeError'' []
           | Some s \<Rightarrow>
               (case loads s of
                  None \<Rightarrow> raise_exc ''JSONDecodeError'' []
                | Some (PDict kvs) \<Rightarrow> write_files fs kvs []
                | Some v \<Rightarrow> raise_exc ''ValueError'' (py ''Sandbox input files must be an object.''))))"

text \<open>The files, and then the program that is started.\<close>

definition runner_main :: "(pystr list \<Rightarrow> unit pyres) \<Rightarrow> (pystr \<times> pystr) list \<Rightarrow> ((pystr list \<times> nat list) list \<times> nat list) pyres" where
  "runner_main fs env =
     (let files = content_or [] (dict_get env files_key); code = content_or [] (dict_get env code_key)
      in if code = [] then raise_exc ''ValueError'' (py ''Missing sandbox code.'')
         else case write_input_files fs files of
           Inl e \<Rightarrow> Inl e
         | Inr writes \<Rightarrow> (case runner_decode code of Inl e \<Rightarrow> Inl e | Inr bs \<Rightarrow> Inr (writes, bs)))"

section \<open>Paths the executor lets through\<close>

abbreviation unslash :: "nat \<Rightarrow> nat" where
  "unslash c \<equiv> (if c = 92 then 47 else c)"

lemma split_unslash:
  "p \<in> set (split_slash acc s) \<Longrightarrow> 92 \<notin> set p \<Longrightarrow> p \<in> set (split_slash acc (map unslash s))"
proof (induction s arbitrary: acc)
  case (Cons c s)
  show ?case
  proof (cases "c = 92")
    case True
    then have p: "p \<in> set (split_slash (92 # acc) s)" using Cons.prems by simp
    have "hd (split_slash (92 # acc) s) \<noteq> p" using Cons.prems(2) by (auto simp: split_slash_hd)
    with p have "p \<in> set (tl (split_slash (92 # acc) s))" by (cases "split_slash (92 # acc) s") auto
    then have "p \<in> set (tl (split_slash [] s))" by (simp only: split_slash_tl [of "92 # acc" s "[]"])
    then have "p \<in> set (split_slash [] s)" by (cases "split_slash [] s") auto
    from Cons.IH [OF this Cons.prems(2)] True show ?thesis by simp
  next
    case False
    with Cons show ?thesis by (cases "c = 47") auto
  qed
qed simp

lemma takeWhile_unslash: "takeWhile (\<lambda>c. c \<noteq> 47) (map unslash s) = takeWhile (\<lambda>c. c \<noteq> 47 \<and> c \<noteq> 92) s"
  by (induction s) auto

lemma executor_path:
  assumes "validate_relative_path s = Inr u"
  shows "runner_path s = Inr (path_components s) \<and> join [47] (path_components s) = s"
proof -
  have ok: "s \<noteq> []" "\<not> path_absolute s" "set (path_parts s) \<inter> {[], [46], dotdot} = {}" "hd (path_parts s) \<noteq> main_py"
    using assms by (auto simp: validate_relative_path_def split: if_splits)
  have none: "p \<notin> set (split_slash [] s)" if "p \<in> {[], [46], dotdot}" for p
    using split_unslash [of p "[]" s] ok(3) that by (auto simp: path_parts_def dotdot_def)
  then have comps: "path_components s = split_slash [] s" unfolding path_components_def by (intro filter_True) auto
  have "takeWhile (\<lambda>c. c \<noteq> 47) s \<noteq> main_py"
  proof
    assume t: "takeWhile (\<lambda>c. c \<noteq> 47) s = main_py"
    have "takeWhile (\<lambda>c. c \<noteq> 47 \<and> c \<noteq> 92) s = takeWhile (\<lambda>c. c \<noteq> 92) (takeWhile (\<lambda>c. c \<noteq> 47) s)" by (induction s) auto
    also have "\<dots> = main_py" unfolding t by (simp add: main_py_def takeWhile_eq_all_conv) code_simp
    finally show False using ok(4) by (simp add: path_parts_def split_slash_hd takeWhile_unslash)
  qed
  then have "hd (split_slash [] s) \<noteq> main_py" by (simp add: split_slash_hd)
  moreover have "dotdot \<notin> set (path_components s)" using none [of dotdot] comps by simp
  moreover obtain q qs where "path_components s = q # qs" using comps by (metis neq_Nil_conv split_slash_not_Nil)
  ultimately have "runner_path s = Inr (path_components s)" using ok(1,2) comps by (simp add: runner_path_def)
  moreover have "join [47] (path_components s) = s" unfolding comps using join_split [of "[]" s] by simp
  ultimately show ?thesis by simp
qed

section \<open>The protocol\<close>

lemma json_char_ascii: "d \<in> set (json_char True c) \<Longrightarrow> d < 128"
proof -
  have "x < 16 \<Longrightarrow> hex_digit x < 128" for x by simp
  then have "d \<in> set (hex4 n) \<Longrightarrow> d < 128" for d n unfolding hex4_def by (auto simp del: hex_digit.simps)
  then show "d \<in> set (json_char True c) \<Longrightarrow> d < 128" by (auto simp: json_char_def split: if_splits)
qed

lemma json_string_ascii: "d \<in> set (json_string True s) \<Longrightarrow> d < 128"
  using json_char_ascii by (auto simp: json_string_def)

lemma sandbox_json_ascii: "d \<in> set (dumps_pairs sandbox_json (map (\<lambda>(k, v). (k, PStr v)) kvs)) \<Longrightarrow> d < 128"
proof (induction kvs)
  case (Cons kv kvs)
  then show ?case by (cases kv) (auto simp: sandbox_json_def py_Cons split: if_splits dest: json_string_ascii)
qed simp

lemma ascii_utf8: "\<forall>c \<in> set s. c < 128 \<Longrightarrow> utf8_encode s = Some s \<and> utf8_decode s = Some s"
  by (induction s) (auto simp: utf8_char_def)

text \<open>Files as bytes, when all of them can be encoded.\<close>

fun files_bytes :: "(pystr \<times> input_content) list \<Rightarrow> (pystr \<times> nat list) list option" where
  "files_bytes [] = Some []"
| "files_bytes ((path, content) # files) =
     (case (content_bytes content, files_bytes files) of (Inr bs, Some rest) \<Rightarrow> Some ((path, bs) # rest) | _ \<Rightarrow> None)"

lemma input_size_ok:
  "input_size files used = Inr n \<Longrightarrow> \<exists>fb. files_bytes files = Some fb \<and> map fst fb = map fst files \<and> (\<forall>(p, bs) \<in> set fb. validate_relative_path p = Inr ())
     \<and> map_res (\<lambda>(path, content). case content_bytes content of Inl e \<Rightarrow> Inl e | Inr bs \<Rightarrow> Inr (path, PStr (b64encode bs))) files
         = Inr (map (\<lambda>(p, bs). (p, PStr (b64encode bs))) fb)"
proof (induction files arbitrary: used)
  case (Cons f files)
  obtain p c where f: "f = (p, c)" by fastforce
  obtain bs where bs: "validate_relative_path p = Inr ()" "content_bytes c = Inr bs" "input_size files (used + length bs) = Inr n"
    using Cons.prems f by (auto split: sum.splits)
  from Cons.IH [OF bs(3)] obtain fb where "files_bytes files = Some fb" "map fst fb = map fst files" "\<forall>(p, bs) \<in> set fb. validate_relative_path p = Inr ()"
    "map_res (\<lambda>(path, content). case content_bytes content of Inl e \<Rightarrow> Inl e | Inr bs \<Rightarrow> Inr (path, PStr (b64encode bs))) files
         = Inr (map (\<lambda>(p, bs). (p, PStr (b64encode bs))) fb)" by blast
  then show ?case using f bs(1,2) by (intro exI [of _ "(p, bs) # fb"]) simp
qed simp

lemma utf8_bytes: "utf8_encode s = Some bs \<Longrightarrow> bytes_ok bs \<and> (bs = [] \<longleftrightarrow> s = [])"
proof (induction s arbitrary: bs)
  case (Cons c s)
  then obtain b r where b: "utf8_char c = Some b" "utf8_encode s = Some r" "bs = b @ r" by (auto split: option.splits)
  have "bytes_ok b \<and> b \<noteq> []" using b(1) by (auto simp: utf8_char_def bytes_ok_def less_mult_imp_div_less intro: order.strict_trans split: if_splits)
  with b Cons.IH [OF b(2)] show ?case by (auto simp: bytes_ok_def)
qed (simp add: bytes_ok_def)

lemma seps_ok_sandbox: "seps_ok sandbox_json"
  by (simp add: seps_ok_def sandbox_json_def py_Cons)

lemma encoded_files_ok:
  assumes "distinct (map fst fb)" and "\<forall>p \<in> set (map fst fb). text_ok p" and "\<forall>(p, bs) \<in> set fb. bytes_ok bs"
  shows "json_ok (PDict (map (\<lambda>(p, bs). (p, PStr (b64encode bs))) fb))"
proof -
  have "text_ok (b64encode bs)" if "bytes_ok bs" for bs using b64encode_ascii [OF that] by (fastforce simp: text_ok_def)
  then have "json_ok_pairs (map (\<lambda>(p, bs). (p, PStr (b64encode bs))) fb)" using assms(2,3) by (induction fb) auto
  moreover have "map fst (map (\<lambda>(p, bs). (p, PStr (b64encode bs))) fb) = map fst fb" by (simp add: case_prod_unfold comp_def)
  ultimately show ?thesis using assms(1) by (simp only: json_ok.simps)
qed

lemma write_fresh:
  assumes "target \<noteq> []" and "target \<notin> set (map fst written)" and "fs target = Inr ()"
    and "\<forall>t \<in> set (map fst written). \<not> strict_prefix t target \<and> \<not> strict_prefix target t"
  shows "make_parent written target = Inr () \<and> write_file fs written target bs = Inr (written @ [(target, bs)])"
proof -
  have parent: "strict_prefix (butlast target) target" using assms(1) by (intro strict_prefixI' [of _ _ "last target" "[]"]) (simp add: assms(1))
  have "butlast target \<notin> set (map fst written)" using assms(4) parent by blast
  moreover have "\<forall>(t, b) \<in> set written. \<not> strict_prefix t (butlast target) \<and> \<not> strict_prefix target t"
    using assms(4) parent by (force dest: prefix_order.less_trans)
  moreover have "AList.update target bs written = written @ [(target, bs)]" using assms(2) by (induction written) auto
  ultimately show ?thesis using assms(3) by (auto simp: make_parent_def write_file_def list_ex_iff)
qed

lemma runner_files:
  "\<forall>(p, bs) \<in> set fb. validate_relative_path p = Inr () \<and> bytes_ok bs \<and> path_components p \<noteq> [] \<and> fs (path_components p) = Inr () \<Longrightarrow>
   distinct (map fst written @ map (\<lambda>(p, bs). path_components p) fb) \<Longrightarrow>
   \<forall>a \<in> set (map fst written @ map (\<lambda>(p, bs). path_components p) fb). \<forall>b \<in> set (map fst written @ map (\<lambda>(p, bs). path_components p) fb). \<not> strict_prefix a b \<Longrightarrow>
   write_files fs (map (\<lambda>(p, bs). (p, PStr (b64encode bs))) fb) written = Inr (written @ map (\<lambda>(p, bs). (path_components p, bs)) fb)"
proof (induction fb arbitrary: written)
  case (Cons f fb)
  obtain p bs where f: "f = (p, bs)" by fastforce
  have p: "validate_relative_path p = Inr ()" "bytes_ok bs" "path_components p \<noteq> []" "fs (path_components p) = Inr ()"
    using Cons.prems(1) f by simp_all
  have "path_components p \<notin> set (map fst written)"
    "\<forall>t \<in> set (map fst written). \<not> strict_prefix t (path_components p) \<and> \<not> strict_prefix (path_components p) t"
    using Cons.prems(2,3) f by auto
  note step = write_fresh [where fs = fs and bs = bs, OF p(3) this(1) p(4) this(2)]
  have "write_files fs (map (\<lambda>(p, bs). (p, PStr (b64encode bs))) fb) (written @ [(path_components p, bs)])
      = Inr ((written @ [(path_components p, bs)]) @ map (\<lambda>(p, bs). (path_components p, bs)) fb)"
    by (rule Cons.IH) (use Cons.prems f in auto)
  with f step executor_path [OF p(1)] p(2) show ?case by (simp add: runner_decode_def b64_lenient_round_trip)
qed simp

lemma files_bytes_ok:
  assumes "files_bytes files = Some fb" and "\<forall>(p, c) \<in> set files. \<forall>bs. c = FileBytes bs \<longrightarrow> bytes_ok bs"
  shows "\<forall>(p, bs) \<in> set fb. bytes_ok bs"
  using assms
proof (induction files arbitrary: fb)
  case (Cons f files)
  obtain p c where f: "f = (p, c)" by fastforce
  then obtain bs r where r: "content_bytes c = Inr bs" "files_bytes files = Some r" "fb = (p, bs) # r"
    using Cons.prems(1) by (auto split: sum.splits option.splits)
  have "bytes_ok bs" using r(1) Cons.prems(2) f
    by (auto simp: content_bytes_def encode_text_def encode_error_def split: input_content.splits option.splits dest: utf8_bytes)
  with r Cons.IH [OF r(2)] Cons.prems(2) show ?case by simp
qed simp

text \<open>
  C10.  The sandbox protocol: whatever code and input files pass the executor's checks, the runner in the
  container decodes the environment it is given to exactly that code and exactly those files, each
  at its own place below the workspace and none over the program itself, as long as no file is also
  the directory of another and the file system takes them.
\<close>

theorem sandbox_protocol:
  assumes "validate_payload L code files mounts = Inr None" and "sandbox_environment code files = Inr env"
    and "distinct (map fst files)" and "\<forall>p \<in> set (map fst files). text_ok p \<and> fs (path_components p) = Inr ()"
    and "\<forall>(p, c) \<in> set files. \<forall>bs. c = FileBytes bs \<longrightarrow> bytes_ok bs"
    and "\<forall>p \<in> set (map fst files). \<forall>q \<in> set (map fst files). \<not> strict_prefix (path_components p) (path_components q)"
  shows "\<exists>program fb. encode_text code = Inr program \<and> files_bytes files = Some fb
     \<and> runner_main fs env = Inr (map (\<lambda>(p, bs). (path_components p, bs)) fb, program)
     \<and> (\<forall>(p, bs) \<in> set fb. path_components p \<noteq> [] \<and> hd (path_components p) \<noteq> main_py \<and> dotdot \<notin> set (path_components p))
     \<and> distinct (map (\<lambda>(p, bs). path_components p) fb)"
proof -
  obtain n where n: "input_size files 0 = Inr n" and code: "strip code \<noteq> []"
    using assms(1) by (auto simp: validate_payload_def split: if_splits sum.splits)
  from input_size_ok [OF n] obtain fb where fb: "files_bytes files = Some fb" "map fst fb = map fst files"
    "\<forall>(p, bs) \<in> set fb. validate_relative_path p = Inr ()"
    "map_res (\<lambda>(path, content). case content_bytes content of Inl e \<Rightarrow> Inl e | Inr bs \<Rightarrow> Inr (path, PStr (b64encode bs))) files
         = Inr (map (\<lambda>(p, bs). (p, PStr (b64encode bs))) fb)" by blast
  have ok: "\<forall>(p, bs) \<in> set fb. bytes_ok bs" by (rule files_bytes_ok [OF fb(1) assms(5)])
  let ?kvs = "map (\<lambda>(p, bs). (p, PStr (b64encode bs))) fb" and ?json = "dumps sandbox_json (PDict (map (\<lambda>(p, bs). (p, PStr (b64encode bs))) fb))"
  have json: "json_ok (PDict ?kvs)" using encoded_files_ok [of fb] assms(3,4) ok fb(2) by simp
  have "?kvs = map (\<lambda>(k, v). (k, PStr v)) (map (\<lambda>(p, bs). (p, b64encode bs)) fb)" by (simp add: case_prod_unfold)
  then have "\<forall>d \<in> set (dumps_pairs sandbox_json ?kvs). d < 128" using sandbox_json_ascii by metis
  then have ascii: "utf8_encode ?json = Some ?json" "utf8_decode ?json = Some ?json" using ascii_utf8 [of ?json] by simp_all
  obtain program where program: "utf8_encode code = Some program" and env: "env = [(code_key, b64encode program), (files_key, b64encode ?json),
      (py ''PYTHONDONTWRITEBYTECODE'', py ''1''), (py ''PYTHONUNBUFFERED'', py ''1''), (py ''MPLBACKEND'', py ''Agg''),
      (py ''MPLCONFIGDIR'', py ''/tmp/matplotlib''), (py ''HOME'', py ''/tmp'')]"
    using assms(2) fb(4) ascii(1) by (auto simp: sandbox_environment_def encode_text_def encode_error_def encode_input_files_def split: option.splits)
  have "code \<noteq> []" using code by (auto simp: strip_def rstrip_def lstrip_def)
  with utf8_bytes [OF program] have pb: "bytes_ok program" "program \<noteq> []" by simp_all
  have jb: "bytes_ok ?json" "?json \<noteq> []" using utf8_bytes [OF ascii(1)] by simp_all
  have keys: "files_key \<noteq> code_key" by (simp add: files_key_def code_key_def py_Cons)
  have each: "path_components p \<noteq> [] \<and> hd (path_components p) \<noteq> main_py \<and> dotdot \<notin> set (path_components p)" "join [47] (path_components p) = p"
    if "(p, bs) \<in> set fb" for p bs
    using executor_path [of p "()"] fb(3) that by (auto simp: runner_path_def split: if_splits list.splits)
  have "inj_on path_components (set (map fst fb))"
    by (rule inj_on_inverseI [of _ "join [47]"]) (use each(2) in auto)
  with assms(3) fb(2) have "distinct (map path_components (map fst fb))" by (simp only: distinct_map)
  then have dist: "distinct (map (\<lambda>(p, bs). path_components p) fb)" by (simp add: case_prod_unfold comp_def)
  have at: "\<forall>p \<in> set (map fst fb). fs (path_components p) = Inr ()" unfolding fb(2) using assms(4) by blast
  have sep: "\<forall>p \<in> set (map fst fb). \<forall>q \<in> set (map fst fb). \<not> strict_prefix (path_components p) (path_components q)"
    unfolding fb(2) by (rule assms(6))
  have "write_files fs ?kvs [] = Inr ([] @ map (\<lambda>(p, bs). (path_components p, bs)) fb)"
  proof (rule runner_files)
    show "\<forall>(p, bs) \<in> set fb. validate_relative_path p = Inr () \<and> bytes_ok bs \<and> path_components p \<noteq> [] \<and> fs (path_components p) = Inr ()"
      using fb(3) ok each(1) at by fastforce
  qed (use dist sep in \<open>auto simp: case_prod_unfold\<close>)
  then have "write_input_files fs (b64encode ?json) = Inr (map (\<lambda>(p, bs). (path_components p, bs)) fb)"
    using loads_dumps [OF seps_ok_sandbox json] ascii(2) jb
    by (simp add: write_input_files_def runner_decode_def b64_lenient_round_trip del: dumps.simps)
  then have run: "runner_main fs env = Inr (map (\<lambda>(p, bs). (path_components p, bs)) fb, program)"
    using keys pb jb by (simp add: env runner_main_def content_or_def runner_decode_def b64_lenient_round_trip del: dumps.simps)
  with program dist each(1) fb(1) show ?thesis by (auto simp: encode_text_def)
qed

theorem sandbox_protocol_witness:
  "\<exists>env fb. sandbox_environment [120] [] = Inr env \<and> runner_main (\<lambda>p. Inr ()) env = Inr (map (\<lambda>(p, bs). (path_components p, bs)) fb, [120]) \<and> files_bytes [] = Some fb"
proof -
  obtain env where env: "sandbox_environment [120] [] = Inr env" using demo_environment by blast
  from sandbox_protocol [OF demo_payload env, of "\<lambda>p. Inr ()"] obtain program fb where "encode_text [120] = Inr program" "files_bytes [] = Some fb"
    "runner_main (\<lambda>p. Inr ()) env = Inr (map (\<lambda>(p, bs). (path_components p, bs)) fb, program)" by auto
  with env show ?thesis by (simp add: encode_text_def utf8_char_def)
qed

end
