(* ===== verification/Sandbox_Service.thy ===== *)
theory Sandbox_Service
  imports Sandbox Initial_Tools Llm_Provider Chat_Routes
begin

text \<open>
  The rest of \<open>app/sandbox\<close>: the two read-only SQL executors, the service that chooses an executor, the
  HTTP client of the runner and the runner's own HTTP interface with its token.
\<close>

section \<open>SQL executors\<close>

definition result_payload :: "pystr list \<Rightarrow> arguments list \<Rightarrow> nat \<Rightarrow> bool \<Rightarrow> pyval" where
  "result_payload cols rows n truncated = PDict [(py ''columns'', PList (map PStr cols)), (py ''rows'', PList (map PDict rows)),
     (py ''row_count'', PInt (int n)), (py ''truncated'', PBool truncated)]"

definition ok_execution :: "pystr \<Rightarrow> bool \<Rightarrow> rat \<Rightarrow> execution_result" where
  "ok_execution out truncated duration = \<lparr>er_ok = True, er_stdout = out, er_stderr = [], er_truncated = truncated, er_exit_code = None,
     er_timed_out = False, er_duration = duration, er_artifacts = []\<rparr>"

text \<open>Every exception becomes a failed result.\<close>

definition executed :: "(pystr \<times> bool) pyres \<Rightarrow> rat \<Rightarrow> execution_result" where
  "executed r duration = (case r of Inl e \<Rightarrow> failed_execution (render_exc e) duration | Inr (out, truncated) \<Rightarrow> ok_execution out truncated duration)"

definition duckdb_query :: "'e duckdb \<Rightarrow> sql_policy \<Rightarrow> pystr \<Rightarrow> 'e \<Rightarrow> (pystr \<times> bool) pyres \<times> 'e" where
  "duckdb_query D p sql e =
     then_do (list_table_names D e) (\<lambda>allowed e.
     then_do (validate p sql allowed, e) (\<lambda>safe e.
     then_do (execute_select D safe None e) (\<lambda>q e.
       (case json_dumps compact_json (result_payload (qr_columns q)
               (map (map (\<lambda>(k, v). (k, json_safe v))) (qr_rows q)) (qr_row_count q) (qr_truncated q)) of
          Inl x \<Rightarrow> Inl x
        | Inr out \<Rightarrow> Inr (out, qr_truncated q), e))))"

definition duckdb_execute :: "'e duckdb \<Rightarrow> sql_policy \<Rightarrow> pystr \<Rightarrow> 'e \<Rightarrow> execution_result \<times> 'e" where
  "duckdb_execute D p sql e =
     (case duckdb_query D p sql e of (r, e1) \<Rightarrow> (executed r ((dk_clock D e1 - dk_clock D e) * 1000), e1))"

text \<open>A connection executes statements in one transaction, which is rolled back at the end.\<close>

record 'e postgres =
  pg_connect :: "'e \<Rightarrow> unit pyres \<times> 'e"
  pg_execute :: "pystr \<Rightarrow> 'e \<Rightarrow> (pystr list \<times> pyval list list) pyres \<times> 'e"
  pg_rollback :: "'e \<Rightarrow> unit pyres \<times> 'e"
  pg_clock :: "'e \<Rightarrow> rat"
  pg_allowed :: "pystr list"
  pg_timeout_ms :: int
  pg_max_rows :: nat

definition new_postgres_ok :: "int \<Rightarrow> int \<Rightarrow> unit pyres" where
  "new_postgres_ok timeout rows =
     (if timeout < 1 then raise_exc ''ValueError'' (py ''statement_timeout_ms must be positive.'')
      else if rows < 1 then raise_exc ''ValueError'' (py ''max_rows must be positive.'') else Inr ())"

definition read_only_sql :: pystr where "read_only_sql = py ''SET TRANSACTION READ ONLY''"

definition timeout_sql :: "int \<Rightarrow> pystr" where
  "timeout_sql ms = py ''SET LOCAL statement_timeout = '' @ str_int ms"

definition postgres_query :: "'e postgres \<Rightarrow> sql_policy \<Rightarrow> pystr \<Rightarrow> 'e \<Rightarrow> (pystr \<times> bool) pyres \<times> 'e" where
  "postgres_query P p sql e =
     then_do (validate p sql (pg_allowed P), e) (\<lambda>safe e.
     then_do (pg_connect P e) (\<lambda>u e.
     then_do (pg_execute P read_only_sql e) (\<lambda>u e.
     then_do (pg_execute P (timeout_sql (pg_timeout_ms P)) e) (\<lambda>u e.
     then_do (pg_execute P safe e) (\<lambda>(cols, all_rows) e.
     then_do (pg_rollback P e) (\<lambda>u e.
       (let raw = take (pg_max_rows P + 1) all_rows;
            truncated = (pg_max_rows P < length raw)
        in case map_res (row_dict cols) (take (pg_max_rows P) raw) of
             Inl x \<Rightarrow> Inl x
           | Inr rows \<Rightarrow>
               (case json_dumps compact_json (result_payload cols rows (length rows) truncated) of
                  Inl x \<Rightarrow> Inl x
                | Inr out \<Rightarrow> Inr (out, truncated)), e)))))))"

definition postgres_execute :: "'e postgres \<Rightarrow> sql_policy \<Rightarrow> pystr \<Rightarrow> 'e \<Rightarrow> execution_result \<times> 'e" where
  "postgres_execute P p sql e =
     (case postgres_query P p sql e of (r, e1) \<Rightarrow> (executed r ((pg_clock P e1 - pg_clock P e) * 1000), e1))"

section \<open>The service\<close>

record 'w sandbox_service =
  ss_python :: "(pystr \<Rightarrow> (pystr \<times> input_content) list \<Rightarrow> dataset_mount list \<Rightarrow> rat option \<Rightarrow> 'w \<Rightarrow> execution_result pyres \<times> 'w) option"
  ss_duckdb :: "(pystr \<Rightarrow> 'w \<Rightarrow> execution_result \<times> 'w) option"
  ss_postgres :: "(pystr \<Rightarrow> 'w \<Rightarrow> execution_result \<times> 'w) option"

definition run_executor :: "string \<Rightarrow> (pystr \<Rightarrow> 'w \<Rightarrow> execution_result \<times> 'w) option \<Rightarrow> pystr \<Rightarrow> 'w \<Rightarrow> execution_result pyres \<times> 'w" where
  "run_executor name f sql w =
     (case f of
        None \<Rightarrow> (Inr (failed_execution (py name @ py '' executor is not configured.'') 0), w)
      | Some f \<Rightarrow> (case f sql w of (r, w1) \<Rightarrow> (Inr r, w1)))"

definition service_execute :: "'w sandbox_service \<Rightarrow> sandbox_request \<Rightarrow> 'w \<Rightarrow> execution_result pyres \<times> 'w" where
  "service_execute S r w =
     (case sr_kind r of
        KindPython \<Rightarrow>
          (case ss_python S of
             None \<Rightarrow> (Inr (failed_execution (py ''Python sandbox is not configured.'') 0), w)
           | Some f \<Rightarrow> f (content_or [] (sr_code r)) (map (\<lambda>(p, s). (p, FileText s)) (sr_files r)) (sr_mounts r) (sr_timeout r) w)
      | KindDuckdb \<Rightarrow> run_executor ''DuckDB'' (ss_duckdb S) (content_or [] (sr_sql r)) w
      | KindPostgres \<Rightarrow> run_executor ''PostgreSQL'' (ss_postgres S) (content_or [] (sr_sql r)) w)"

section \<open>The runner's client\<close>

record runner_request =
  rr_code :: pystr
  rr_files :: "(pystr \<times> pystr) list"
  rr_mounts :: "dataset_mount list"
  rr_timeout :: "rat option"

definition runner_error :: "string \<Rightarrow> 'a pyres" where
  "runner_error msg = raise_exc ''SandboxRunnerError'' (py msg)"

fun text_files :: "(pystr \<times> input_content) list \<Rightarrow> (pystr \<times> pystr) list pyres" where
  "text_files [] = Inr []"
| "text_files ((path, FileBytes bs) # files) = runner_error ''The remote sandbox runner only accepts UTF-8 input files.''"
| "text_files ((path, FileText s) # files) = (case text_files files of Inl e \<Rightarrow> Inl e | Inr fs \<Rightarrow> Inr ((path, s) # fs))"

text \<open>\<open>post\<close> sends the request with the token; \<open>parse\<close> validates the body, and raises \<open>ValueError\<close>s only.\<close>

definition client_execute ::
  "(pystr \<Rightarrow> runner_request \<Rightarrow> 'w \<Rightarrow> http_reply \<times> 'w) \<Rightarrow> (pystr \<Rightarrow> execution_result pyres) \<Rightarrow> pystr \<Rightarrow> pystr \<Rightarrow>
   (pystr \<times> input_content) list \<Rightarrow> dataset_mount list \<Rightarrow> rat option \<Rightarrow> 'w \<Rightarrow> execution_result pyres \<times> 'w" where
  "client_execute post parse token code files mounts timeout w =
     (case text_files files of
        Inl e \<Rightarrow> (Inl e, w)
      | Inr fs \<Rightarrow>
          (case post token \<lparr>rr_code = code, rr_files = fs, rr_mounts = mounts, rr_timeout = timeout\<rparr> w of
             (TransportFault e, w1) \<Rightarrow> (Inr (failed_execution (py ''Sandbox runner unavailable: '' @ exc_type e) 0), w1)
           | (Reply status body, w1) \<Rightarrow>
               (if status \<noteq> 200 then (Inr (failed_execution (py ''Sandbox runner rejected execution: '' @ take 1000 body) 0), w1)
                else case parse body of
                  Inl e \<Rightarrow> (runner_error ''Sandbox runner returned an invalid response.'', w1)
                | Inr r \<Rightarrow> (Inr r, w1))))"

definition client_health :: "('w \<Rightarrow> http_reply \<times> 'w) \<Rightarrow> 'w \<Rightarrow> bool \<times> 'w" where
  "client_health get w = (case get w of (TransportFault e, w1) \<Rightarrow> (False, w1) | (Reply status body, w1) \<Rightarrow> (status = 200, w1))"

section \<open>The runner's interface\<close>

definition is_ascii :: "pystr \<Rightarrow> bool" where
  "is_ascii s \<longleftrightarrow> list_all (\<lambda>c. c < 128) s"

text \<open>\<open>hmac.compare_digest\<close> refuses text that is not ASCII.\<close>

definition require_token :: "pystr \<Rightarrow> pystr option \<Rightarrow> unit route" where
  "require_token expected header =
     (if expected = [] then Inl (HttpError 503 (py ''Sandbox runner token is not configured.''))
      else if absent header then Inl (HttpError 401 (py ''Invalid sandbox runner token.''))
      else if \<not> is_ascii (content_or [] header) \<or> \<not> is_ascii expected then
        Inl (Crash (Exc (py ''TypeError'') (py ''comparing strings with non-ASCII characters is not supported'')))
      else if header \<noteq> Some expected then Inl (HttpError 401 (py ''Invalid sandbox runner token.''))
      else Inr ())"

definition runner_request_ok :: "runner_request \<Rightarrow> bool" where
  "runner_request_ok r \<longleftrightarrow> rr_code r \<noteq> [] \<and> list_all (\<lambda>m. target_name_ok (mo_target m)) (rr_mounts r)
     \<and> (case rr_timeout r of None \<Rightarrow> True | Some t \<Rightarrow> 0 < t \<and> t \<le> 60)"

definition expected_token :: "pystr option \<Rightarrow> pystr option \<Rightarrow> pystr" where
  "expected_token token configured = (case token of Some t \<Rightarrow> t | None \<Rightarrow> (case configured of Some t \<Rightarrow> t | None \<Rightarrow> []))"

definition runner_route ::
  "(pystr \<Rightarrow> (pystr \<times> input_content) list \<Rightarrow> dataset_mount list \<Rightarrow> rat option \<Rightarrow> 'w \<Rightarrow> execution_result pyres \<times> 'w) \<Rightarrow>
   pystr \<Rightarrow> pystr option \<Rightarrow> runner_request \<Rightarrow> 'w \<Rightarrow> execution_result route \<times> 'w" where
  "runner_route backend expected header r w =
     (case require_token expected header of
        Inl e \<Rightarrow> (Inl e, w)
      | Inr u \<Rightarrow>
          (if \<not> runner_request_ok r then (Inl Unprocessable, w)
           else case backend (rr_code r) (map (\<lambda>(p, s). (p, FileText s)) (rr_files r)) (rr_mounts r) (rr_timeout r) w of
             (Inl e, w1) \<Rightarrow> (Inl (Crash e), w1)
           | (Inr x, w1) \<Rightarrow> (Inr x, w1)))"

section \<open>What reaches a database or a container\<close>

text \<open>
  The read-only transaction: PostgreSQL is asked to run nothing but the statement the guard
  rendered, after the transaction was made read-only and its time limited, and the connection is
  used for nothing when the guard rejects; and every failure is a failed result, not an exception.
\<close>

theorem postgres_reads_only:
  "(\<exists>e. validate p sql (pg_allowed P) = Inl e \<and> postgres_execute P p sql w = (failed_execution (render_exc e) 0, w))
   \<or> (\<exists>safe t. validate p sql (pg_allowed P) = Inr safe \<and> sp_parse p sql = Parsed [Some t] \<and> statement_safe p (pg_allowed P) t \<and> safe = sp_render p t
      \<and> snd (postgres_query P p sql w) = snd (then_do (pg_connect P w) (\<lambda>u e. then_do (pg_execute P read_only_sql e) (\<lambda>u e.
          then_do (pg_execute P (timeout_sql (pg_timeout_ms P)) e) (\<lambda>u e. then_do (pg_execute P safe e) (\<lambda>r e. pg_rollback P e))))))"
proof (cases "validate p sql (pg_allowed P)")
  case (Inl e)
  then show ?thesis by (simp add: postgres_execute_def postgres_query_def then_do_def executed_def)
next
  case (Inr safe)
  then obtain t where "sp_parse p sql = Parsed [Some t]" "statement_safe p (pg_allowed P) t" "safe = sp_render p t" unfolding validate_Inr by blast
  moreover have "snd (postgres_query P p sql w) = snd (then_do (pg_connect P w) (\<lambda>u e. then_do (pg_execute P read_only_sql e) (\<lambda>u e.
      then_do (pg_execute P (timeout_sql (pg_timeout_ms P)) e) (\<lambda>u e. then_do (pg_execute P safe e) (\<lambda>r e. pg_rollback P e)))))"
    using Inr by (simp add: postgres_query_def then_do_def Let_def split: prod.split sum.split)
  ultimately show ?thesis using Inr by blast
qed

text \<open>
  The runner's token: whatever is sent, the runner executes something only when a token is
  configured and the request carries exactly that token, and then exactly what was sent.
\<close>

theorem runner_needs_token:
  "if expected \<noteq> [] \<and> header = Some expected \<and> is_ascii expected \<and> runner_request_ok r
   then runner_route backend expected header r w =
     (case backend (rr_code r) (map (\<lambda>(p, s). (p, FileText s)) (rr_files r)) (rr_mounts r) (rr_timeout r) w of
        (Inl e, w1) \<Rightarrow> (Inl (Crash e), w1) | (Inr x, w1) \<Rightarrow> (Inr x, w1))
   else \<exists>e. runner_route backend expected header r w = (Inl e, w)"
  by (auto simp: runner_route_def require_token_def absent_def content_or_def split: option.splits)

end
