(* ===== verification/Artifact_Store.thy ===== *)
theory Artifact_Store
  imports Sandbox_Properties Chat_Routes
begin

text \<open>
  \<open>app/artifacts/service.py\<close> and \<open>app/api/routes/artifacts.py\<close>: the files an execution produced are stored
  below a directory of their own, with one row each, and handed out to their workspace only.

  A stored file is known by its place below the storage root: batch, artifact and the components of
  its relative path.  What the file system and the database may raise are parameters.
\<close>

section \<open>Storing\<close>

record artifact_row =
  ar_id :: uuid
  ar_workspace :: uuid
  ar_filename :: pystr
  ar_path :: "uuid \<times> uuid \<times> pystr list"
  ar_mime :: pystr
  ar_size :: nat
  ar_relative :: pystr
  ar_sandbox_mime :: pystr
  ar_created :: int

record artifact_world =
  aw_workspaces :: "uuid list"
  aw_files :: "((uuid \<times> uuid \<times> pystr list) \<times> nat list) list"
  aw_rows :: "artifact_row list"

record artifact_env =
  pe_fold :: "nat \<Rightarrow> nat list"
  pe_mime :: "pystr \<Rightarrow> pystr option"
  pe_write :: "uuid \<times> uuid \<times> pystr list \<Rightarrow> unit pyres"
  pe_commit :: "unit pyres"
  pe_batch :: uuid
  pe_ids :: "nat \<Rightarrow> uuid"
  pe_now :: int

record artifact_view_data =
  av_id :: uuid
  av_filename :: pystr
  av_mime :: pystr
  av_size :: nat
  av_url :: pystr
  av_created :: int

definition artifact_view :: "artifact_row \<Rightarrow> artifact_view_data" where
  "artifact_view r = \<lparr>av_id = ar_id r, av_filename = ar_filename r, av_mime = ar_mime r, av_size = ar_size r,
     av_url = py ''/api/artifacts/'' @ str_uuid (ar_id r), av_created = ar_created r\<rparr>"

definition safe_relative_path :: "(nat \<Rightarrow> nat list) \<Rightarrow> pystr \<Rightarrow> pystr list pyres" where
  "safe_relative_path cf s =
     (if s = [] \<or> 240 < length s \<or> \<not> relative_ok s then raise_exc ''ValueError'' (py ''Invalid artifact path: '' @ s)
      else if casefold cf (path_suffix s) \<notin> set artifact_suffixes then raise_exc ''ValueError'' (py ''Unsupported artifact type: '' @ s)
      else Inr (path_components s))"

definition decode_strict :: "pystr \<Rightarrow> nat list pyres" where
  "decode_strict s = (case b64_decode_strict s of None \<Rightarrow> raise_exc ''Error'' [] | Some bs \<Rightarrow> Inr bs)"

text \<open>The checks of one artifact: its place and its bytes.\<close>

definition check_artifact :: "(nat \<Rightarrow> nat list) \<Rightarrow> sandbox_artifact \<Rightarrow> (pystr list \<times> nat list) pyres" where
  "check_artifact cf a =
     (case safe_relative_path cf (sa_path a) of
        Inl e \<Rightarrow> Inl e
      | Inr parts \<Rightarrow>
          (case decode_strict (sa_content a) of
             Inl e \<Rightarrow> Inl e
           | Inr content \<Rightarrow>
               (if length content \<noteq> sa_size a then raise_exc ''ValueError'' (py ''Artifact size mismatch: '' @ join [47] parts)
                else Inr (parts, content))))"

definition artifact_record :: "artifact_env \<Rightarrow> uuid \<Rightarrow> uuid \<Rightarrow> sandbox_artifact \<Rightarrow> pystr list \<Rightarrow> nat list \<Rightarrow> artifact_row" where
  "artifact_record P ws i a parts content =
     \<lparr>ar_id = i, ar_workspace = ws, ar_filename = last parts, ar_path = (pe_batch P, i, parts),
      ar_mime = content_or (py ''application/octet-stream'') (pe_mime P (last parts)), ar_size = length content,
      ar_relative = join [47] parts, ar_sandbox_mime = sa_mime a, ar_created = pe_now P\<rparr>"

fun persist_items ::
  "artifact_env \<Rightarrow> uuid \<Rightarrow> nat \<Rightarrow> sandbox_artifact list \<Rightarrow> artifact_row list \<Rightarrow> artifact_world \<Rightarrow> artifact_row list pyres \<times> artifact_world" where
  "persist_items P ws k [] acc w = (Inr acc, w)"
| "persist_items P ws k (a # items) acc w =
     (case check_artifact (pe_fold P) a of
        Inl e \<Rightarrow> (Inl e, w)
      | Inr (parts, content) \<Rightarrow>
          (let target = (pe_batch P, pe_ids P k, parts)
           in case pe_write P target of
                Inl e \<Rightarrow> (Inl e, w)
              | Inr u \<Rightarrow>
                  persist_items P ws (Suc k) items (acc @ [artifact_record P ws (pe_ids P k) a parts content])
                    (w\<lparr>aw_files := AList.update target content (aw_files w)\<rparr>)))"

definition artifact_fits :: "artifact_row \<Rightarrow> bool" where
  "artifact_fits r \<longleftrightarrow> length (ar_filename r) \<le> 255 \<and> length (ar_mime r) \<le> 128 \<and> ar_size r < 2 ^ 31"

definition insert_artifacts :: "unit pyres \<Rightarrow> artifact_row list \<Rightarrow> artifact_world \<Rightarrow> unit pyres \<times> artifact_world" where
  "insert_artifacts commit rows w =
     (if \<not> distinct (map ar_id (aw_rows w @ rows)) \<or> \<not> list_all (\<lambda>r. ar_workspace r \<in> set (aw_workspaces w)) rows then
        (raise_exc ''IntegrityError'' [], w)
      else if \<not> list_all artifact_fits rows then (raise_exc ''DBAPIError'' [], w)
      else case commit of Inl e \<Rightarrow> (Inl e, w) | Inr u \<Rightarrow> (Inr (), w\<lparr>aw_rows := aw_rows w @ rows\<rparr>))"

definition remove_batch :: "uuid \<Rightarrow> artifact_world \<Rightarrow> artifact_world" where
  "remove_batch b w = w\<lparr>aw_files := filter (\<lambda>(target, content). fst target \<noteq> b) (aw_files w)\<rparr>"

definition persist :: "artifact_env \<Rightarrow> uuid \<Rightarrow> sandbox_artifact list \<Rightarrow> artifact_world \<Rightarrow> artifact_view_data list pyres \<times> artifact_world" where
  "persist P ws items w =
     (if items = [] then (Inr [], w)
      else case persist_items P ws 0 items [] w of
        (Inl e, w1) \<Rightarrow> (Inl e, remove_batch (pe_batch P) w1)
      | (Inr rows, w1) \<Rightarrow>
          (case insert_artifacts (pe_commit P) rows w1 of
             (Inl e, w2) \<Rightarrow> (Inl e, remove_batch (pe_batch P) w2)
           | (Inr u, w2) \<Rightarrow> (Inr (map artifact_view rows), w2)))"

section \<open>Handing out\<close>

definition get_artifact :: "artifact_world \<Rightarrow> uuid \<Rightarrow> uuid \<Rightarrow> artifact_row option" where
  "get_artifact w ws i = find (\<lambda>r. ar_id r = i \<and> ar_workspace r = ws) (aw_rows w)"

text \<open>The file, its type and the name it is saved under.\<close>

definition download_artifact :: "uuid \<Rightarrow> uuid \<Rightarrow> artifact_world \<Rightarrow> (nat list \<times> pystr \<times> pystr) route" where
  "download_artifact i ws w =
     (case get_artifact w ws i of
        None \<Rightarrow> Inl (HttpError 404 (py ''Artifact not found.''))
      | Some r \<Rightarrow>
          (case dict_get (aw_files w) (ar_path r) of
             None \<Rightarrow> Inl (HttpError 404 (py ''Artifact file is missing.''))
           | Some content \<Rightarrow> Inr (content, ar_mime r, ar_filename r)))"

section \<open>Properties\<close>

text \<open>
  What the executor collected passes every check of the store: its path, its encoding and its size.
\<close>

lemma safe_artifact_checked:
  assumes "safe_artifact cf a"
  shows "\<exists>content. check_artifact cf a = Inr (path_components (sa_path a), content) \<and> b64_decode_strict (sa_content a) = Some content"
proof -
  obtain content where c: "sa_size a = length content" "b64_decode_strict (sa_content a) = Some content"
    using assms by (auto simp: safe_artifact_def)
  have "sa_path a \<noteq> []" using assms by (auto simp: safe_artifact_def path_components_def)
  with assms c show ?thesis by (simp add: safe_artifact_def check_artifact_def safe_relative_path_def decode_strict_def)
qed

lemma checked_inside:
  assumes "check_artifact cf a = Inr (parts, content)"
  shows "parts \<noteq> [] \<and> (\<forall>p \<in> set parts. p \<noteq> [] \<and> 47 \<notin> set p \<and> p \<noteq> [46] \<and> p \<noteq> dotdot)
    \<and> b64_decode_strict (sa_content a) = Some content \<and> length content = sa_size a"
proof -
  have p: "relative_ok (sa_path a)" "casefold cf (path_suffix (sa_path a)) \<in> set artifact_suffixes" "parts = path_components (sa_path a)"
    and c: "b64_decode_strict (sa_content a) = Some content" "length content = sa_size a"
    using assms by (auto simp: check_artifact_def safe_relative_path_def decode_strict_def split: sum.splits if_splits option.splits)
  have "casefold cf [] \<notin> set artifact_suffixes" by (simp add: artifact_suffixes_def casefold_def py_Cons)
  with p(2) have "parts \<noteq> []" unfolding p(3) by (auto simp: path_suffix_def path_name_def last_dot_def)
  with p c path_components_no_slash [of _ "sa_path a"] path_components_nonempty [of _ "sa_path a"] show ?thesis
    by (auto simp: relative_ok_def)
qed

lemma filter_update: "\<not> Q k \<Longrightarrow> filter (\<lambda>(t, c). Q t) (AList.update k v d) = filter (\<lambda>(t, c). Q t) d"
  by (induction d) auto

lemma persist_items_rest:
  "remove_batch (pe_batch P) (snd (persist_items P ws k items acc w)) = remove_batch (pe_batch P) w
    \<and> aw_rows (snd (persist_items P ws k items acc w)) = aw_rows w \<and> aw_workspaces (snd (persist_items P ws k items acc w)) = aw_workspaces w"
proof (induction P ws k items acc w rule: persist_items.induct)
  case (2 P ws k a items acc w)
  show ?case
  proof (cases "check_artifact (pe_fold P) a")
    case (Inr pc)
    obtain parts content where pc: "pc = (parts, content)" by fastforce
    let ?w = "w\<lparr>aw_files := AList.update (pe_batch P, pe_ids P k, parts) content (aw_files w)\<rparr>"
    have "remove_batch (pe_batch P) ?w = remove_batch (pe_batch P) w"
      using filter_update [of "\<lambda>t. fst t \<noteq> pe_batch P" "(pe_batch P, pe_ids P k, parts)" content "aw_files w"] by (simp add: remove_batch_def)
    with 2 [OF Inr pc [symmetric] refl] Inr pc show ?thesis by (simp add: Let_def split: sum.split)
  qed simp
qed simp

lemma persist_items_stored:
  assumes "persist_items P ws k items acc w = (Inr rows, w')" and "inj (pe_ids P)"
  shows "\<exists>new. rows = acc @ new \<and> length new = length items
     \<and> (\<forall>j < length items. \<exists>parts content. check_artifact (pe_fold P) (items ! j) = Inr (parts, content)
          \<and> new ! j = artifact_record P ws (pe_ids P (k + j)) (items ! j) parts content
          \<and> dict_get (aw_files w') (pe_batch P, pe_ids P (k + j), parts) = Some content)
     \<and> (\<forall>i parts. (\<forall>j. i \<noteq> pe_ids P (k + j)) \<longrightarrow> dict_get (aw_files w') (pe_batch P, i, parts) = dict_get (aw_files w) (pe_batch P, i, parts))"
  using assms(1)
proof (induction items arbitrary: k acc w)
  case (Cons a items)
  obtain parts content where c: "check_artifact (pe_fold P) a = Inr (parts, content)" and rest: "persist_items P ws (Suc k) items
      (acc @ [artifact_record P ws (pe_ids P k) a parts content]) (w\<lparr>aw_files := AList.update (pe_batch P, pe_ids P k, parts) content (aw_files w)\<rparr>) = (Inr rows, w')"
    using Cons.prems by (auto simp: Let_def split: sum.splits prod.splits)
  let ?r = "artifact_record P ws (pe_ids P k) a parts content"
  from Cons.IH [OF rest] obtain new where new: "rows = (acc @ [?r]) @ new" "length new = length items"
    "\<forall>j < length items. \<exists>parts content. check_artifact (pe_fold P) (items ! j) = Inr (parts, content)
       \<and> new ! j = artifact_record P ws (pe_ids P (Suc k + j)) (items ! j) parts content
       \<and> dict_get (aw_files w') (pe_batch P, pe_ids P (Suc k + j), parts) = Some content"
    and other: "\<forall>i ps. (\<forall>j. i \<noteq> pe_ids P (Suc k + j)) \<longrightarrow> dict_get (aw_files w') (pe_batch P, i, ps)
       = dict_get (AList.update (pe_batch P, pe_ids P k, parts) content (aw_files w)) (pe_batch P, i, ps)" by auto
  have "pe_ids P k \<noteq> pe_ids P (Suc k + j)" for j using injD [OF assms(2), of k "Suc k + j"] by auto
  with other have first: "dict_get (aw_files w') (pe_batch P, pe_ids P k, parts) = Some content" by (simp add: get_update)
  have each: "\<exists>parts content. check_artifact (pe_fold P) ((a # items) ! j) = Inr (parts, content)
       \<and> (?r # new) ! j = artifact_record P ws (pe_ids P (k + j)) ((a # items) ! j) parts content
       \<and> dict_get (aw_files w') (pe_batch P, pe_ids P (k + j), parts) = Some content" if "j < length (a # items)" for j
    using that new(3) c first by (cases j) auto
  have rest: "dict_get (aw_files w') (pe_batch P, i, ps) = dict_get (aw_files w) (pe_batch P, i, ps)" if i: "\<forall>j. i \<noteq> pe_ids P (k + j)" for i ps
  proof -
    have "i \<noteq> pe_ids P (Suc k + j)" for j using spec [OF i, of "Suc j"] by simp
    moreover have "i \<noteq> pe_ids P k" using spec [OF i, of 0] by simp
    ultimately show ?thesis using other by (simp add: get_update)
  qed
  show ?case using new(1,2) each rest by (intro exI [of _ "?r # new"]) auto
qed auto

text \<open>
  C12.  Artifacts: storing is all or nothing, and what was stored comes back: every view's download is, for
  its own workspace, exactly the bytes the execution produced, and for any other workspace a 404; the
  file lies in the batch's own directory, under a path that cannot leave it.
\<close>

theorem artifacts_come_back:
  assumes "persist P ws items w = (r, w')" and "inj (pe_ids P)" and "\<forall>(t, c) \<in> set (aw_files w). fst t \<noteq> pe_batch P"
  shows "(case r of
      Inl e \<Rightarrow> w' = w
    | Inr views \<Rightarrow> length views = length items \<and> (\<forall>j < length items. \<exists>content row.
          b64_decode_strict (sa_content (items ! j)) = Some content
          \<and> download_artifact (av_id (views ! j)) ws w' = Inr (content, av_mime (views ! j), av_filename (views ! j))
          \<and> (\<forall>other. other \<noteq> ws \<longrightarrow> download_artifact (av_id (views ! j)) other w' = Inl (HttpError 404 (py ''Artifact not found.'')))
          \<and> row \<in> set (aw_rows w') \<and> artifact_view row = views ! j \<and> fst (ar_path row) = pe_batch P
          \<and> (\<forall>p \<in> set (snd (snd (ar_path row))). p \<noteq> [] \<and> 47 \<notin> set p \<and> p \<noteq> [46] \<and> p \<noteq> dotdot)))"
proof (cases "items = []")
  case True
  with assms(1) show ?thesis by (auto simp: persist_def)
next
  case False
  have clean: "remove_batch (pe_batch P) w = w" using assms(3) by (simp add: remove_batch_def filter_True case_prod_unfold)
  obtain q w1 where q: "persist_items P ws 0 items [] w = (q, w1)" by (meson surj_pair)
  have w1: "remove_batch (pe_batch P) w1 = w" "aw_rows w1 = aw_rows w" using persist_items_rest [of P ws 0 items "[]" w] q clean by simp_all
  show ?thesis
  proof (cases r)
    case (Inl e)
    have "w' = w"
    proof (cases q)
      case (Inl e')
      with assms(1) False q w1 show ?thesis by (simp add: persist_def)
    next
      case (Inr rows)
      obtain u w2 where u: "insert_artifacts (pe_commit P) rows w1 = (u, w2)" by (meson surj_pair)
      obtain x where x: "u = Inl x" using assms(1) False q Inr u \<open>r = Inl e\<close> by (cases u) (simp_all add: persist_def)
      then have "w' = remove_batch (pe_batch P) w2" using assms(1) False q Inr u by (simp add: persist_def)
      moreover have "w2 = w1" using u x by (auto simp: insert_artifacts_def split: if_splits sum.splits)
      ultimately show ?thesis using w1 by simp
    qed
    with Inl show ?thesis by simp
  next
    case (Inr views)
    then obtain rows where rows: "q = Inr rows" "views = map artifact_view rows" and ins: "insert_artifacts (pe_commit P) rows w1 = (Inr (), w')"
      using assms(1) False q by (auto simp: persist_def split: sum.splits prod.splits)
    have w': "aw_rows w' = aw_rows w @ rows" "aw_files w' = aw_files w1" "distinct (map ar_id (aw_rows w @ rows))"
      using ins w1(2) by (auto simp: insert_artifacts_def split: if_splits sum.splits)
    from persist_items_stored [OF _ assms(2), of ws 0 items "[]" w rows w1] q rows(1)
    have len: "length rows = length items" and each: "\<forall>j < length items. \<exists>parts content. check_artifact (pe_fold P) (items ! j) = Inr (parts, content)
          \<and> rows ! j = artifact_record P ws (pe_ids P j) (items ! j) parts content
          \<and> dict_get (aw_files w1) (pe_batch P, pe_ids P j, parts) = Some content" by auto
    have item: "\<exists>content row. b64_decode_strict (sa_content (items ! j)) = Some content
          \<and> download_artifact (av_id (views ! j)) ws w' = Inr (content, av_mime (views ! j), av_filename (views ! j))
          \<and> (\<forall>other. other \<noteq> ws \<longrightarrow> download_artifact (av_id (views ! j)) other w' = Inl (HttpError 404 (py ''Artifact not found.'')))
          \<and> row \<in> set (aw_rows w') \<and> artifact_view row = views ! j \<and> fst (ar_path row) = pe_batch P
          \<and> (\<forall>p \<in> set (snd (snd (ar_path row))). p \<noteq> [] \<and> 47 \<notin> set p \<and> p \<noteq> [46] \<and> p \<noteq> dotdot)" if j: "j < length items" for j
    proof -
      from each j obtain parts content where p: "check_artifact (pe_fold P) (items ! j) = Inr (parts, content)"
        "rows ! j = artifact_record P ws (pe_ids P j) (items ! j) parts content"
        "dict_get (aw_files w1) (pe_batch P, pe_ids P j, parts) = Some content" by blast
      let ?row = "rows ! j"
      have "?row \<in> set rows" using j len by (intro nth_mem) simp
      then have row: "?row \<in> set (aw_rows w')" "ar_workspace ?row = ws" "ar_path ?row = (pe_batch P, pe_ids P j, parts)"
        unfolding w'(1) using p(2) by (simp_all add: artifact_record_def)
      have unique: "r' = ?row" if "r' \<in> set (aw_rows w')" "ar_id r' = ar_id ?row" for r'
      proof -
        have "inj_on ar_id (set (aw_rows w'))" using w'(1,3) unfolding distinct_map by simp
        then show ?thesis by (rule inj_onD [OF _ that(2) that(1) row(1)])
      qed
      have find: "get_artifact w' ws (ar_id ?row) = Some ?row"
      proof (cases "get_artifact w' ws (ar_id ?row)")
        case None
        with row show ?thesis by (auto simp: get_artifact_def find_None_iff)
      next
        case (Some r')
        then have "r' \<in> set (aw_rows w')" "ar_id r' = ar_id ?row" by (auto simp: get_artifact_def find_Some_iff)
        with unique Some show ?thesis by simp
      qed
      have others: "get_artifact w' other (ar_id ?row) = None" if "other \<noteq> ws" for other
        using unique row(2) that by (auto simp: get_artifact_def find_None_iff)
      have view: "views ! j = artifact_view ?row" using rows(2) j len by simp
      have "download_artifact (ar_id ?row) ws w' = Inr (content, ar_mime ?row, ar_filename ?row)"
        using find row(3) p(3) w'(2) by (simp add: download_artifact_def)
      moreover have "download_artifact (ar_id ?row) other w' = Inl (HttpError 404 (py ''Artifact not found.''))" if "other \<noteq> ws" for other
        using others [OF that] by (simp add: download_artifact_def)
      ultimately show ?thesis using checked_inside [OF p(1)] row view by (intro exI [of _ content] exI [of _ ?row]) (auto simp: artifact_view_def)
    qed
    then show ?thesis using Inr rows(2) len by simp
  qed
qed

definition demo_artifact :: sandbox_artifact where
  "demo_artifact = \<lparr>sa_path = py ''a.csv'', sa_mime = py ''text/csv'', sa_size = 1, sa_content = b64encode [65]\<rparr>"

definition demo_artifact_env :: artifact_env where
  "demo_artifact_env = \<lparr>pe_fold = ascii_fold, pe_mime = (\<lambda>n. None), pe_write = (\<lambda>t. Inr ()), pe_commit = Inr (), pe_batch = 3, pe_ids = (\<lambda>k. k), pe_now = 0\<rparr>"

theorem artifacts_come_back_witness:
  "\<exists>views w'. persist demo_artifact_env 9 [demo_artifact] \<lparr>aw_workspaces = [9], aw_files = [], aw_rows = []\<rparr> = (Inr views, w') \<and> length views = 1
     \<and> (\<exists>t n. download_artifact (av_id (views ! 0)) 9 w' = Inr ([65], t, n))"
proof -
  let ?w = "\<lparr>aw_workspaces = [9], aw_files = [], aw_rows = []\<rparr>"
  have c: "check_artifact ascii_fold demo_artifact = Inr ([py ''a.csv''], [65])" by code_simp
  have short: "length (py ''a.csv'') \<le> 255" "length (py ''application/octet-stream'') \<le> 128" by code_simp+
  have "\<exists>views w'. persist demo_artifact_env 9 [demo_artifact] ?w = (Inr views, w')"
    using c short by (simp add: persist_def demo_artifact_env_def insert_artifacts_def artifact_record_def artifact_fits_def content_or_def Let_def)
  then obtain views w' where run: "persist demo_artifact_env 9 [demo_artifact] ?w = (Inr views, w')" by blast
  have "b64_decode_strict (sa_content demo_artifact) = Some [65]" by code_simp
  with artifacts_come_back [OF run] run show ?thesis by (auto simp: demo_artifact_env_def)
qed

end
