(* ===== verification/Python_Tool.thy ===== *)
theory Python_Tool
  imports Sandbox_Service Artifact_Store
begin

text \<open>
  \<open>app/tools/python.py\<close>: the tool that runs generated Python on datasets of the active workspace, from the
  names the model gives to the stored artifacts.
\<close>

record ('t, 'w) python_env =
  px_workspace :: "'w \<Rightarrow> uuid option"
  px_datasets :: "'w \<Rightarrow> 't dataset_world"
  px_execute :: "sandbox_request \<Rightarrow> 'w \<Rightarrow> execution_result pyres \<times> 'w"
  px_persist :: "uuid \<Rightarrow> sandbox_artifact list \<Rightarrow> 'w \<Rightarrow> artifact_view_data list pyres \<times> 'w"
  px_dump :: "artifact_view_data \<Rightarrow> pyval"
  px_float :: "rat \<Rightarrow> pystr"

definition mount_of :: "dataset_view_data \<Rightarrow> dataset_mount" where
  "mount_of v = \<lparr>mo_dataset = dv_id v, mo_target = dv_table v\<rparr>"

definition python_request :: "pystr \<Rightarrow> dataset_mount list \<Rightarrow> sandbox_request" where
  "python_request code mounts = \<lparr>sr_kind = KindPython, sr_code = Some code, sr_sql = None, sr_files = [], sr_mounts = mounts, sr_timeout = None\<rparr>"

definition build_request :: "sandbox_request \<Rightarrow> sandbox_request pyres" where
  "build_request r =
     (if \<not> request_fields_ok r then raise_exc ''ValidationError'' []
      else case validate_request r of Inl e \<Rightarrow> raise_exc ''ValidationError'' (exc_text e) | Inr r \<Rightarrow> Inr r)"

definition python_payload :: "('t, 'w) python_env \<Rightarrow> execution_result \<Rightarrow> artifact_view_data list \<Rightarrow> pyval" where
  "python_payload E r artifacts = PDict [(py ''ok'', PBool (er_ok r)), (py ''stdout'', PStr (er_stdout r)), (py ''stderr'', PStr (er_stderr r)),
     (py ''truncated'', PBool (er_truncated r)), (py ''timed_out'', PBool (er_timed_out r)),
     (py ''exit_code'', (case er_exit_code r of None \<Rightarrow> PNone | Some c \<Rightarrow> PInt c)), (py ''duration_ms'', PFloat (px_float E (er_duration r))),
     (py ''artifacts'', PList (map (px_dump E) artifacts))]"

text \<open>From the request on: execute, store what was produced, report.\<close>

definition execute_and_store :: "('t, 'w) python_env \<Rightarrow> uuid \<Rightarrow> sandbox_request \<Rightarrow> 'w \<Rightarrow> pyval pyres \<times> 'w" where
  "execute_and_store E ws r w =
     then_do (px_execute E r w) (\<lambda>result w.
     then_do (px_persist E ws (er_artifacts result) w) (\<lambda>artifacts w. (Inr (python_payload E result artifacts), w)))"

definition run_python :: "('t, 'w) python_env \<Rightarrow> pystr \<Rightarrow> pystr list \<Rightarrow> 'w \<Rightarrow> pyval pyres \<times> 'w" where
  "run_python E code names w =
     (if 300 < length (splitlines code) then
        (raise_exc ''ValueError'' (py ''Generated Python exceeds 300 lines and requires manual review.''), w)
      else if \<not> distinct names then (raise_exc ''ValueError'' (py ''Dataset names must be unique.''), w)
      else case require_workspace_id (px_workspace E w) of
        Inl e \<Rightarrow> (Inl e, w)
      | Inr ws \<Rightarrow>
          (case resolve_tables (px_datasets E w) ws names of
             Inl e \<Rightarrow> (Inl e, w)
           | Inr views \<Rightarrow>
               (case build_request (python_request code (map mount_of views)) of
                  Inl e \<Rightarrow> (Inl e, w)
                | Inr r \<Rightarrow> execute_and_store E ws r w)))"

section \<open>Own datasets only\<close>

text \<open>The name of a dataset's table is one that can be mounted.\<close>

lemma table_of_mountable: "target_name_ok (table_of i)"
proof -
  have hex: "c \<in> set (hex_pad k n) \<Longrightarrow> letter c \<or> is_digit c" for c k n
  proof (induction k arbitrary: n)
    case (Suc k)
    have "x < 16 \<Longrightarrow> letter (hex_digit x) \<or> is_digit (hex_digit x)" for x by (auto simp: letter_def)
    from this [of "n mod 16"] Suc show ?case by (auto simp del: hex_digit.simps)
  qed simp
  have "c \<in> set (take 12 (uuid_hex i)) \<Longrightarrow> letter c \<or> is_digit c" for c unfolding uuid_hex_def by (rule hex, erule in_set_takeD)
  moreover have "letter (hd (table_of i))" "\<forall>c \<in> set (tl (py ''dataset_'')). letter c" by (simp add: table_of_def py_Cons letter_def, code_simp)
  moreover have "tl (table_of i) = tl (py ''dataset_'') @ take 12 (uuid_hex i)" "table_of i \<noteq> []" by (simp_all add: table_of_def py_Cons)
  ultimately show ?thesis by (auto simp: target_name_ok_def table_of_length list_all_iff)
qed

text \<open>
  C9.  Python on datasets: when the tool executes anything, the mounts of the request are, in the order of
  the names given, datasets of the active workspace that are ready and whose file exists, no dataset
  or name twice, and the artifacts are stored for that workspace; else nothing at all happens.
\<close>

theorem python_mounts_own_datasets:
  assumes "dataset_step\<^sup>*\<^sup>* (no_datasets workspaces) (px_datasets E w)" and "code \<noteq> []"
  shows "(\<exists>e. run_python E code names w = (Inl e, w))
   \<or> (\<exists>ws rows. px_workspace E w = Some ws \<and> map ds_table rows = names \<and> distinct names \<and> distinct (map ds_id rows)
       \<and> (\<forall>r \<in> set rows. r \<in> set (dw_rows (px_datasets E w)) \<and> ds_workspace r = ws \<and> is_ready r
            \<and> (\<exists>t. parquet_of (px_datasets E w) (ds_id r) = Some (ParquetFile t)))
       \<and> run_python E code names w
           = execute_and_store E ws (python_request code (map (\<lambda>r. \<lparr>mo_dataset = ds_id r, mo_target = ds_table r\<rparr>) rows)) w)"
proof -
  let ?D = "px_datasets E w"
  have ok: "datasets_ok ?D" by (rule reachable_ok [OF assms(1) no_datasets_ok])
  show ?thesis
  proof (cases "\<exists>e. run_python E code names w = (Inl e, w)")
    case False
    then obtain ws where ws: "px_workspace E w = Some ws" "distinct names" "\<not> 300 < length (splitlines code)"
      by (cases "px_workspace E w") (auto simp: run_python_def require_workspace_id_def split: if_splits)
    from resolve_tables_cases [OF datasets_okD(2) [OF ok], of ws names]
    consider (found) rows where "resolve_tables ?D ws names = Inr (map dataset_view rows)" "map ds_table rows = names"
        "\<forall>r \<in> set rows. r \<in> set (dw_rows ?D) \<and> ds_workspace r = ws \<and> is_ready r"
      | (missing) msg where "resolve_tables ?D ws names = raise_exc ''ValueError'' msg" by blast
    then show ?thesis
    proof cases
      case missing
      with False ws show ?thesis by (simp add: run_python_def require_workspace_id_def)
    next
      case found
      let ?mounts = "map (\<lambda>r. \<lparr>mo_dataset = ds_id r, mo_target = ds_table r\<rparr>) rows"
      have names: "ds_table r = table_of (ds_id r)" if "r \<in> set rows" for r using found(3) that datasets_okD(3) [OF ok] by blast
      have mounts: "map mount_of (map dataset_view rows) = ?mounts" by (simp add: mount_of_def dataset_view_def)
      have "list_all (\<lambda>m. target_name_ok (mo_target m)) ?mounts" using names by (simp add: list_all_iff table_of_mountable)
      then have req: "build_request (python_request code ?mounts) = Inr (python_request code ?mounts)"
        using assms(2) by (simp add: build_request_def python_request_def request_fields_ok_def validate_request_def absent_def)
      have "run_python E code names w = execute_and_store E ws (python_request code ?mounts) w"
        using ws found(1) req mounts by (simp add: run_python_def require_workspace_id_def del: map_map)
      moreover have "distinct (map ds_id rows)"
      proof -
        have "map ds_table rows = map table_of (map ds_id rows)" using names by simp
        then have "distinct (map table_of (map ds_id rows))" using ws(2) found(2) by metis
        then show ?thesis by (simp only: distinct_map)
      qed
      moreover have "\<forall>r \<in> set rows. \<exists>t. parquet_of ?D (ds_id r) = Some (ParquetFile t)"
        using found(3) datasets_okD(6) [OF ok] by blast
      ultimately show ?thesis using ws found(2,3) by blast
    qed
  qed blast
qed

definition demo_python :: "(unit, unit) python_env" where
  "demo_python = \<lparr>px_workspace = (\<lambda>w. Some 9), px_datasets = (\<lambda>w. demo_stored), px_execute = (\<lambda>r w. (Inr (ok_execution [] False 0), w)),
     px_persist = (\<lambda>ws artifacts w. (Inr [], w)), px_dump = (\<lambda>v. PNone), px_float = (\<lambda>q. [])\<rparr>"

lemma demo_python_runs: "\<exists>v. run_python demo_python [120] [table_of 5] () = (Inr v, ())"
proof -
  let ?row = "dataset_from_processed demo_processed 9 7"
  have t: "ds_table ?row = table_of 5" "dv_table (dataset_view ?row) = table_of 5"
    by (simp_all add: dataset_from_processed_def demo_processed_def dataset_view_def)
  have "resolve_tables demo_stored 9 [table_of 5] = Inr [dataset_view ?row]"
    by (simp add: resolve_tables_def by_table_def map_filter_def is_ready_def dataset_from_processed_def demo_processed_def)
  moreover have "build_request (python_request [120] [mount_of (dataset_view ?row)]) = Inr (python_request [120] [mount_of (dataset_view ?row)])"
    using table_of_mountable [of 5] t(2)
    by (simp add: build_request_def python_request_def request_fields_ok_def validate_request_def absent_def mount_of_def)
  moreover have "length (splitlines [120]) = 1" by (simp add: splitlines_def line_break_def)
  ultimately show ?thesis
    by (simp add: run_python_def demo_python_def require_workspace_id_def execute_and_store_def then_do_def)
qed

theorem python_mounts_own_datasets_witness:
  "\<exists>r. ds_table r = table_of 5 \<and> r \<in> set (dw_rows demo_stored) \<and> ds_workspace r = 9
     \<and> run_python demo_python [120] [table_of 5] ()
         = execute_and_store demo_python 9 (python_request [120] [\<lparr>mo_dataset = ds_id r, mo_target = ds_table r\<rparr>]) ()"
proof -
  have "dataset_step\<^sup>*\<^sup>* (no_datasets [9]) (px_datasets demo_python ())" using demo_reach by (simp add: demo_python_def)
  note cases = python_mounts_own_datasets [OF this list.distinct(2) [of 120 "[]"], of "[table_of 5]"]
  have "\<exists>ws rows. px_workspace demo_python () = Some ws \<and> map ds_table rows = [table_of 5]
      \<and> (\<forall>r \<in> set rows. r \<in> set (dw_rows (px_datasets demo_python ())) \<and> ds_workspace r = ws)
      \<and> run_python demo_python [120] [table_of 5] ()
         = execute_and_store demo_python ws (python_request [120] (map (\<lambda>r. \<lparr>mo_dataset = ds_id r, mo_target = ds_table r\<rparr>) rows)) ()"
  proof (rule disjE [OF cases])
    assume "\<exists>e. run_python demo_python [120] [table_of 5] () = (Inl e, ())"
    with demo_python_runs show ?thesis by auto
  qed (elim exE conjE, rule exI, rule exI, intro conjI, assumption, assumption, blast, assumption)
  then obtain ws rows where r: "px_workspace demo_python () = Some ws" "map ds_table rows = [table_of 5]"
      "\<forall>r \<in> set rows. r \<in> set (dw_rows (px_datasets demo_python ())) \<and> ds_workspace r = ws"
      "run_python demo_python [120] [table_of 5] ()
         = execute_and_store demo_python ws (python_request [120] (map (\<lambda>r. \<lparr>mo_dataset = ds_id r, mo_target = ds_table r\<rparr>) rows)) ()"
    by (elim exE conjE) (rule that; assumption)
  from r(2) obtain row where row: "rows = [row]" "ds_table row = table_of 5" by (auto simp: map_eq_Cons_conv)
  moreover have "ws = 9" using r(1) by (simp add: demo_python_def)
  ultimately show ?thesis using r(3,4) by (auto simp: demo_python_def)
qed

end
