(* ===== verification/Observability.thy ===== *)
theory Observability
  imports Chat_Store_Properties Chat_Routes Llm_Router
begin

text \<open>
  \<open>app/observability\<close> and its routes: the recorder that stores one row for every model call, and what a
  workspace reads of the rows, the totals, the pages and the trace of one answer.  The table of usage
  rows stands beside the tables of the conversation store: deleting a conversation sets the
  references of the rows to null.  Amounts and times are rationals.
\<close>

section \<open>Tables\<close>

record usage_row =
  lu_id :: uuid
  lu_workspace :: uuid
  lu_request :: pystr
  lu_trace :: "uuid option"
  lu_conversation :: "uuid option"
  lu_message :: "uuid option"
  lu_task :: pystr
  lu_provider :: pystr
  lu_model :: pystr
  lu_input :: nat
  lu_output :: nat
  lu_cost :: rat
  lu_latency :: rat
  lu_success :: bool
  lu_error :: "pystr option"
  lu_created :: int

record obs_db =
  ob_workspaces :: "uuid list"
  ob_chat :: chat_db
  ob_usage :: "usage_row list"

definition usage_fits :: "usage_row \<Rightarrow> bool" where
  "usage_fits r \<longleftrightarrow> length (lu_request r) \<le> 64 \<and> length (lu_task r) \<le> 64 \<and> length (lu_provider r) \<le> 64 \<and> length (lu_model r) \<le> 128
     \<and> length (content_or [] (lu_error r)) \<le> 128 \<and> lu_input r < 2 ^ 31 \<and> lu_output r < 2 ^ 31 \<and> lu_cost r < 10 ^ 10"

text \<open>A column of 18 digits, 8 of them after the point, rounds what it is given.\<close>

definition money :: "rat \<Rightarrow> rat" where
  "money q = of_int \<lfloor>q * 10 ^ 8 + 1 / 2\<rfloor> / 10 ^ 8"

text \<open>\<open>ON DELETE SET NULL\<close>: a reference lives as long as its row.\<close>

definition keep_reference :: "uuid list \<Rightarrow> uuid option \<Rightarrow> uuid option" where
  "keep_reference ids r = (case r of None \<Rightarrow> None | Some i \<Rightarrow> (if i \<in> set ids then Some i else None))"

definition keep_references :: "chat_db \<Rightarrow> usage_row \<Rightarrow> usage_row" where
  "keep_references tables r = r\<lparr>lu_conversation := keep_reference (map cv_id (db_conversations tables)) (lu_conversation r),
     lu_message := keep_reference (map mg_id (db_messages tables)) (lu_message r)\<rparr>"

definition chat_operation :: "(agent_step \<Rightarrow> agent_step) \<Rightarrow> store_op \<Rightarrow> obs_db \<Rightarrow> obs_db" where
  "chat_operation column op db =
     (let tables = store_apply column op (ob_chat db)
      in db\<lparr>ob_chat := tables, ob_usage := map (keep_references tables) (ob_usage db)\<rparr>)"

section \<open>Recording\<close>

text \<open>The first message with the trace, joined with its conversation.\<close>

definition with_conversation :: "chat_db \<Rightarrow> message_row \<Rightarrow> (message_row \<times> conversation_row) option" where
  "with_conversation tables m = map_option (Pair m) (find (\<lambda>c. cv_id c = mg_conversation m) (db_conversations tables))"

definition traced_message :: "chat_db \<Rightarrow> uuid option \<Rightarrow> (message_row \<times> conversation_row) option" where
  "traced_message tables trace =
     (case trace of
        None \<Rightarrow> None
      | Some t \<Rightarrow>
          (case List.map_filter (with_conversation tables) (filter (\<lambda>m. mg_trace m = Some t) (db_messages tables)) of
             [] \<Rightarrow> None
           | row # rows \<Rightarrow> Some row))"

text \<open>The workspace, the conversation and the message a row belongs to.\<close>

definition usage_place :: "uuid option \<Rightarrow> uuid option \<Rightarrow> chat_db \<Rightarrow> uuid option \<times> uuid option \<times> uuid option" where
  "usage_place active trace tables =
     (case traced_message tables trace of
        None \<Rightarrow> (active, None, None)
      | Some (m, c) \<Rightarrow> (Some (cv_workspace c), Some (mg_conversation m), Some (mg_id m)))"

definition new_usage_row :: "uuid \<Rightarrow> int \<Rightarrow> uuid \<Rightarrow> uuid option \<Rightarrow> uuid option \<Rightarrow> usage_record \<Rightarrow> usage_row" where
  "new_usage_row i now ws conversation mesg u =
     \<lparr>lu_id = i, lu_workspace = ws, lu_request = ur_request_id u, lu_trace = ur_trace u, lu_conversation = conversation,
      lu_message = mesg, lu_task = ur_task u, lu_provider = ur_provider u, lu_model = ur_model u,
      lu_input = ur_input_tokens u, lu_output = ur_output_tokens u, lu_cost = money (ur_cost u), lu_latency = ur_latency u,
      lu_success = ur_success u, lu_error = ur_error_type u, lu_created = now\<rparr>"

definition insert_usage :: "unit pyres \<Rightarrow> usage_row \<Rightarrow> obs_db \<Rightarrow> unit pyres \<times> obs_db" where
  "insert_usage commit r db =
     (if lu_id r \<in> set (map lu_id (ob_usage db)) \<or> lu_request r \<in> set (map lu_request (ob_usage db))
         \<or> lu_workspace r \<notin> set (ob_workspaces db) then (raise_exc ''IntegrityError'' [], db)
      else if \<not> usage_fits r then (raise_exc ''DBAPIError'' [], db)
      else case commit of Inl e \<Rightarrow> (Inl e, db) | Inr u \<Rightarrow> (Inr (), db\<lparr>ob_usage := ob_usage db @ [r]\<rparr>))"

text \<open>Whatever goes wrong is logged and forgotten; \<open>commit\<close> is how the transaction ends.\<close>

definition database_record :: "unit pyres \<Rightarrow> uuid \<Rightarrow> int \<Rightarrow> uuid option \<Rightarrow> usage_record \<Rightarrow> obs_db \<Rightarrow> unit pyres \<times> obs_db" where
  "database_record commit i now active u db =
     (case usage_place active (ur_trace u) (ob_chat db) of
        (None, conversation, mesg) \<Rightarrow> (Inr (), db)
      | (Some ws, conversation, mesg) \<Rightarrow> (Inr (), snd (insert_usage commit (new_usage_row i now ws conversation mesg u) db)))"

section \<open>Reading\<close>

record usage_summary =
  us_calls :: nat
  us_input :: nat
  us_output :: nat
  us_total :: nat
  us_cost :: rat
  us_latency :: rat
  us_errors :: nat

text \<open>A view is a row without its workspace.\<close>

record usage_view_data =
  uv_id :: uuid
  uv_request :: pystr
  uv_trace :: "uuid option"
  uv_conversation :: "uuid option"
  uv_message :: "uuid option"
  uv_task :: pystr
  uv_provider :: pystr
  uv_model :: pystr
  uv_input :: nat
  uv_output :: nat
  uv_cost :: rat
  uv_latency :: rat
  uv_success :: bool
  uv_error :: "pystr option"
  uv_created :: int

record usage_page =
  up_items :: "usage_view_data list"
  up_total :: nat
  up_limit :: nat
  up_offset :: nat

record tool_metrics =
  tm_calls :: nat
  tm_failed :: nat
  tm_duration :: rat

record trace_view =
  tv_trace :: uuid
  tv_conversation :: "uuid option"
  tv_message :: "message_view option"
  tv_usage :: "usage_view_data list"
  tv_metrics :: tool_metrics

record usage_filter =
  uf_start :: "int option"
  uf_end :: "int option"
  uf_conversation :: "uuid option"

definition usage_hit :: "uuid \<Rightarrow> usage_filter \<Rightarrow> usage_row \<Rightarrow> bool" where
  "usage_hit ws f r \<longleftrightarrow> lu_workspace r = ws
     \<and> (case uf_start f of None \<Rightarrow> True | Some t \<Rightarrow> t \<le> lu_created r)
     \<and> (case uf_end f of None \<Rightarrow> True | Some t \<Rightarrow> lu_created r \<le> t)
     \<and> (case uf_conversation f of None \<Rightarrow> True | Some c \<Rightarrow> lu_conversation r = Some c)"

definition usage_view :: "usage_row \<Rightarrow> usage_view_data" where
  "usage_view r = \<lparr>uv_id = lu_id r, uv_request = lu_request r, uv_trace = lu_trace r, uv_conversation = lu_conversation r,
     uv_message = lu_message r, uv_task = lu_task r, uv_provider = lu_provider r, uv_model = lu_model r, uv_input = lu_input r,
     uv_output = lu_output r, uv_cost = lu_cost r, uv_latency = lu_latency r, uv_success = lu_success r, uv_error = lu_error r,
     uv_created = lu_created r\<rparr>"

definition average :: "rat list \<Rightarrow> rat" where
  "average xs = (if xs = [] then 0 else sum_list xs / of_nat (length xs))"

definition usage_summary_of :: "usage_row list \<Rightarrow> usage_summary" where
  "usage_summary_of rows =
     \<lparr>us_calls = length rows, us_input = sum_list (map lu_input rows), us_output = sum_list (map lu_output rows),
      us_total = sum_list (map lu_input rows) + sum_list (map lu_output rows), us_cost = sum_list (map lu_cost rows),
      us_latency = average (map lu_latency rows), us_errors = sum_list (map (\<lambda>r. if lu_success r then 0 else 1) rows)\<rparr>"

definition summary :: "uuid \<Rightarrow> usage_filter \<Rightarrow> obs_db \<Rightarrow> usage_summary" where
  "summary ws f db = usage_summary_of (filter (usage_hit ws f) (ob_usage db))"

definition list_usage :: "uuid \<Rightarrow> nat \<Rightarrow> nat \<Rightarrow> usage_filter \<Rightarrow> obs_db \<Rightarrow> usage_page" where
  "list_usage ws limit offset f db =
     (let rows = filter (usage_hit ws f) (ob_usage db)
      in \<lparr>up_items = map usage_view (take limit (drop offset (sort_key (\<lambda>r. - lu_created r) rows))), up_total = length rows,
          up_limit = limit, up_offset = offset\<rparr>)"

definition tool_metrics_of :: "agent_step list \<Rightarrow> tool_metrics" where
  "tool_metrics_of steps =
     (let executions = concat (map as_tool_executions steps)
      in \<lparr>tm_calls = length executions, tm_failed = length (filter (\<lambda>x. content_or [] (te_error x) \<noteq> []) executions),
          tm_duration = sum_list (map te_duration_ms executions)\<rparr>)"

definition trace_messages :: "uuid \<Rightarrow> uuid \<Rightarrow> chat_db \<Rightarrow> message_row list" where
  "trace_messages ws t tables = filter (\<lambda>m. mg_trace m = Some t \<and> in_workspace ws tables m) (db_messages tables)"

definition trace_usage :: "uuid \<Rightarrow> uuid \<Rightarrow> obs_db \<Rightarrow> usage_row list" where
  "trace_usage ws t db = sort_key lu_created (filter (\<lambda>r. lu_trace r = Some t \<and> lu_workspace r = ws) (ob_usage db))"

definition trace_view_of :: "uuid \<Rightarrow> message_row option \<Rightarrow> usage_row list \<Rightarrow> trace_view option" where
  "trace_view_of t mesg usage =
     (if mesg = None \<and> usage = [] then None
      else Some \<lparr>tv_trace = t, tv_conversation = map_option mg_conversation mesg, tv_message = map_option message_view_of mesg,
                 tv_usage = map usage_view usage,
                 tv_metrics = tool_metrics_of (case mesg of None \<Rightarrow> [] | Some m \<Rightarrow> sort_key as_step (mg_steps m))\<rparr>)"

definition one_or_none :: "'a list \<Rightarrow> 'a option pyres" where
  "one_or_none xs =
     (case xs of
        [] \<Rightarrow> Inr None
      | [x] \<Rightarrow> Inr (Some x)
      | _ \<Rightarrow> raise_exc ''MultipleResultsFound'' (py ''Multiple rows were found when one or none was required''))"

definition get_trace :: "uuid \<Rightarrow> uuid \<Rightarrow> obs_db \<Rightarrow> trace_view option pyres" where
  "get_trace ws t db =
     (case one_or_none (trace_messages ws t (ob_chat db)) of
        Inl e \<Rightarrow> Inl e
      | Inr mesg \<Rightarrow> Inr (trace_view_of t mesg (trace_usage ws t db)))"

section \<open>Routes\<close>

definition route_summary :: "usage_filter \<Rightarrow> uuid \<Rightarrow> obs_db \<Rightarrow> usage_summary route" where
  "route_summary f ws db = Inr (summary ws f db)"

definition route_usage :: "int \<Rightarrow> int \<Rightarrow> usage_filter \<Rightarrow> uuid \<Rightarrow> obs_db \<Rightarrow> usage_page route" where
  "route_usage limit offset f ws db =
     (if limit < 1 \<or> 200 < limit \<or> offset < 0 then Inl Unprocessable
      else Inr (list_usage ws (nat limit) (nat offset) f db))"

definition route_trace :: "uuid \<Rightarrow> uuid \<Rightarrow> obs_db \<Rightarrow> trace_view route" where
  "route_trace t ws db =
     (case get_trace ws t db of
        Inl e \<Rightarrow> Inl (Crash e)
      | Inr None \<Rightarrow> Inl (HttpError 404 (py ''Trace not found.''))
      | Inr (Some v) \<Rightarrow> Inr v)"

end
