(* ===== verification/Observability_Properties.thy ===== *)
theory Observability_Properties
  imports Observability "HOL-Library.Multiset"
begin

text \<open>
  What the usage table keeps: rows stay attributed to the workspace that owns their conversation,
  workspaces do not see each other's usage or traces, and the totals are those of the pages.
\<close>

section \<open>Attribution\<close>

definition usage_ok :: "obs_db \<Rightarrow> bool" where
  "usage_ok db \<longleftrightarrow> store_ok (ob_chat db) \<and> distinct (map lu_id (ob_usage db)) \<and> distinct (map lu_request (ob_usage db))
     \<and> (\<forall>r \<in> set (ob_usage db). lu_workspace r \<in> set (ob_workspaces db)
         \<and> (\<forall>i. lu_conversation r = Some i \<longrightarrow> (\<exists>c \<in> set (db_conversations (ob_chat db)). cv_id c = i \<and> cv_workspace c = lu_workspace r))
         \<and> (\<forall>i. lu_message r = Some i \<longrightarrow> (\<exists>m \<in> set (db_messages (ob_chat db)). mg_id m = i
               \<and> lu_conversation r = Some (mg_conversation m) \<and> mg_trace m = lu_trace r)))"

lemma usage_okD:
  assumes "usage_ok db"
  shows "store_ok (ob_chat db)" "distinct (map lu_id (ob_usage db))" "distinct (map lu_request (ob_usage db))"
    "r \<in> set (ob_usage db) \<Longrightarrow> lu_workspace r \<in> set (ob_workspaces db)"
    "r \<in> set (ob_usage db) \<Longrightarrow> lu_conversation r = Some i \<Longrightarrow>
       \<exists>c \<in> set (db_conversations (ob_chat db)). cv_id c = i \<and> cv_workspace c = lu_workspace r"
    "r \<in> set (ob_usage db) \<Longrightarrow> lu_message r = Some i \<Longrightarrow> \<exists>m \<in> set (db_messages (ob_chat db)). mg_id m = i
       \<and> lu_conversation r = Some (mg_conversation m) \<and> mg_trace m = lu_trace r"
  using assms unfolding usage_ok_def by blast+

text \<open>An operation on the store keeps the workspace of a conversation and the place and trace of a message.\<close>

lemma apply_conversation:
  assumes "c \<in> set (db_conversations db)" and "cv_id c \<in> set (map cv_id (db_conversations (store_apply column op db)))" and ok: "store_ok db"
  shows "\<exists>d \<in> set (db_conversations (store_apply column op db)). cv_id d = cv_id c \<and> cv_workspace d = cv_workspace c"
proof -
  have kept: "\<exists>d \<in> set (db_conversations (update_conversations P f db)). cv_id d = cv_id c \<and> cv_workspace d = cv_workspace c"
    if "\<And>c. cv_id (f c) = cv_id c" "\<And>c. cv_workspace (f c) = cv_workspace c" for P f
  proof -
    have rows: "db_conversations (update_conversations P f db) = map (\<lambda>c. if P c then f c else c) (db_conversations db)"
      by (simp add: update_conversations_def)
    have "(if P c then f c else c) \<in> set (db_conversations (update_conversations P f db))"
      unfolding rows set_map by (rule imageI [OF assms(1)])
    moreover have "cv_id (if P c then f c else c) = cv_id c" "cv_workspace (if P c then f c else c) = cv_workspace c" using that by simp_all
    ultimately show ?thesis by blast
  qed
  show ?thesis
  proof (cases op)
    case (AppendOp i now v cid role content status calls request trace)
    from ok show ?thesis
    proof (cases rule: append_message_cases [of db v cid i now role content status calls request trace])
      case (appended d f m)
      then show ?thesis using AppendOp kept [of f] by simp
    qed (use AppendOp assms(1) in auto)
  next
    case (CompleteOp now v mid content status steps)
    then show ?thesis using assms(1) kept [of "\<lambda>c. c\<lparr>cv_updated := now\<rparr>"]
      by (auto simp: complete_assistant_message_def Let_def split: option.split)
  next
    case (ArchiveOp now v cid a)
    then show ?thesis using assms(1) kept [of "\<lambda>c. c\<lparr>cv_archived := (if a then Some now else None), cv_updated := now\<rparr>"]
      by (auto simp: archive_conversation_def split: option.split)
  qed (use assms in \<open>auto simp: create_conversation_def delete_conversation_def Let_def split: option.splits if_splits\<close>)
qed

lemma apply_message:
  assumes "m \<in> set (db_messages db)" and "mg_id m \<in> set (map mg_id (db_messages (store_apply column op db)))" and ok: "store_ok db"
  shows "\<exists>n \<in> set (db_messages (store_apply column op db)). mg_id n = mg_id m \<and> mg_conversation n = mg_conversation m \<and> mg_trace n = mg_trace m"
proof (cases op)
  case (AppendOp i now v cid role content status calls request trace)
  from ok show ?thesis
  proof (cases rule: append_message_cases [of db v cid i now role content status calls request trace])
    case (appended d f n)
    then show ?thesis using AppendOp assms(1) by auto
  qed (use AppendOp assms(1) in auto)
next
  case (CompleteOp now v mid content status steps)
  let ?f = "\<lambda>x. if mg_id x = mid then x\<lparr>mg_content := content, mg_status := status, mg_steps := map column steps\<rparr> else x"
  consider (same) "db_messages (store_apply column op db) = db_messages db" | (new) "db_messages (store_apply column op db) = map ?f (db_messages db)"
  proof (cases "select_message v mid db")
    case None
    then show thesis using same CompleteOp by (simp add: complete_assistant_message_def)
  next
    case (Some x)
    show thesis
    proof (cases "distinct (map as_step (mg_steps x @ steps))")
      case True
      then have "db_messages (store_apply column op db) = map ?f (db_messages db)"
        unfolding CompleteOp store_apply.simps complete_assistant_message_def Some option.case Let_def by simp
      then show thesis by (rule new)
    next
      case False
      then have "db_messages (store_apply column op db) = db_messages db"
        unfolding CompleteOp store_apply.simps complete_assistant_message_def Some option.case by simp
      then show thesis by (rule same)
    qed
  qed
  then show ?thesis
  proof cases
    case same
    then show ?thesis using assms(1) by auto
  next
    case new
    show ?thesis
    proof (rule bexI)
      show "?f m \<in> set (db_messages (store_apply column op db))" unfolding new set_map by (rule imageI [OF assms(1)])
    qed simp
  qed
next
  case (DeleteOp v cid)
  show ?thesis
  proof (cases "select_conversation v cid db")
    case (Some c)
    then obtain n where n: "n \<in> set (db_messages db)" "mg_conversation n \<noteq> cid" "mg_id n = mg_id m"
      using assms(2) DeleteOp by (auto simp: delete_conversation_def)
    then have "n = m" using message_unique [OF ok n(1) assms(1)] by simp
    with n Some DeleteOp show ?thesis by (auto simp: delete_conversation_def)
  qed (use DeleteOp assms(1) in \<open>auto simp: delete_conversation_def\<close>)
qed (use assms(1) in \<open>auto simp: create_conversation_def archive_conversation_def Let_def split: option.split\<close>)

lemma keep_reference_Some: "keep_reference ids r = Some i \<longleftrightarrow> r = Some i \<and> i \<in> set ids"
  by (auto simp: keep_reference_def split: option.splits)

lemma usage_ok_chat:
  assumes "usage_ok db"
  shows "usage_ok (chat_operation column op db)"
proof -
  let ?c = "store_apply column op (ob_chat db)"
  note ok = usage_okD(1) [OF assms]
  have ok': "store_ok ?c" by (rule store_ok_apply [OF ok])
  have row: "(\<forall>i. lu_conversation k = Some i \<longrightarrow> (\<exists>c \<in> set (db_conversations ?c). cv_id c = i \<and> cv_workspace c = lu_workspace k))
     \<and> (\<forall>i. lu_message k = Some i \<longrightarrow> (\<exists>m \<in> set (db_messages ?c). mg_id m = i \<and> lu_conversation k = Some (mg_conversation m) \<and> mg_trace m = lu_trace k))"
    if r_in: "r \<in> set (ob_usage db)" and k: "k = keep_references ?c r" for r k
  proof (intro conjI allI impI)
    fix i assume "lu_conversation k = Some i"
    then have i: "lu_conversation r = Some i" "i \<in> set (map cv_id (db_conversations ?c))"
      unfolding k by (simp_all add: keep_references_def keep_reference_Some)
    obtain c where c: "c \<in> set (db_conversations (ob_chat db))" "cv_id c = i" "cv_workspace c = lu_workspace r"
      using usage_okD(5) [OF assms r_in i(1)] by blast
    from apply_conversation [OF c(1) _ ok, of column op] i(2) c
    show "\<exists>c \<in> set (db_conversations ?c). cv_id c = i \<and> cv_workspace c = lu_workspace k" by (simp add: k keep_references_def)
  next
    fix i assume "lu_message k = Some i"
    then have i: "lu_message r = Some i" "i \<in> set (map mg_id (db_messages ?c))"
      unfolding k by (simp_all add: keep_references_def keep_reference_Some)
    obtain m where m: "m \<in> set (db_messages (ob_chat db))" "mg_id m = i" "lu_conversation r = Some (mg_conversation m)" "mg_trace m = lu_trace r"
      using usage_okD(6) [OF assms r_in i(1)] by blast
    from apply_message [OF m(1) _ ok, of column op] i(2) m(2)
    obtain n where n: "n \<in> set (db_messages ?c)" "mg_id n = i" "mg_conversation n = mg_conversation m" "mg_trace n = mg_trace m" by auto
    have "mg_conversation n \<in> set (map cv_id (db_conversations ?c))" using store_okD(4) [OF ok' n(1)] by simp
    then have "lu_conversation k = Some (mg_conversation n)"
      using m(3) n(3) unfolding k by (simp add: keep_references_def keep_reference_Some)
    with n m(4) show "\<exists>m \<in> set (db_messages ?c). mg_id m = i \<and> lu_conversation k = Some (mg_conversation m) \<and> mg_trace m = lu_trace k"
      by (auto simp: k keep_references_def)
  qed
  have ids: "map lu_id (map (keep_references ?c) rs) = map lu_id rs" "map lu_request (map (keep_references ?c) rs) = map lu_request rs" for rs
    by (simp_all add: keep_references_def)
  have ws: "lu_workspace (keep_references ?c r) = lu_workspace r" for r by (simp add: keep_references_def)
  show ?thesis
    unfolding usage_ok_def chat_operation_def Let_def
    using ok' usage_okD(2-4) [OF assms] row by (auto simp: ids ws simp del: map_map)
qed

lemma traced_message_Some:
  "traced_message tables trace = Some (m, c) \<Longrightarrow>
   m \<in> set (db_messages tables) \<and> mg_trace m = trace \<and> c \<in> set (db_conversations tables) \<and> cv_id c = mg_conversation m"
proof -
  assume "traced_message tables trace = Some (m, c)"
  then obtain t rows where t: "trace = Some t"
    "List.map_filter (with_conversation tables) (filter (\<lambda>m. mg_trace m = Some t) (db_messages tables)) = (m, c) # rows"
    by (auto simp: traced_message_def split: option.splits list.splits)
  then have "(m, c) \<in> set (List.map_filter (with_conversation tables) (filter (\<lambda>m. mg_trace m = Some t) (db_messages tables)))" by simp
  then show ?thesis unfolding List.map_filter_def using t(1)
    by (auto simp: with_conversation_def dest: find_some)
qed

lemma database_record_cases:
  obtains (ignored) "database_record commit i now active u db = (Inr (), db)"
  | (stored) ws c m where "usage_place active (ur_trace u) (ob_chat db) = (Some ws, c, m)"
      "database_record commit i now active u db = (Inr (), db\<lparr>ob_usage := ob_usage db @ [new_usage_row i now ws c m u]\<rparr>)"
      "i \<notin> set (map lu_id (ob_usage db))" "ur_request_id u \<notin> set (map lu_request (ob_usage db))" "ws \<in> set (ob_workspaces db)"
proof -
  obtain o_ws c m where p: "usage_place active (ur_trace u) (ob_chat db) = (o_ws, c, m)" by (rule prod_cases3)
  show thesis
  proof (cases o_ws)
    case None
    with p that(1) show thesis by (simp add: database_record_def)
  next
    case (Some ws)
    show thesis
    proof (cases "fst (insert_usage commit (new_usage_row i now ws c m u) db)")
      case (Inl e)
      then have "snd (insert_usage commit (new_usage_row i now ws c m u) db) = db" by (auto simp: insert_usage_def split: if_splits sum.splits)
      with p Some that(1) show thesis by (simp add: database_record_def)
    next
      case (Inr x)
      with p Some that(2) [of ws c m] show thesis
        by (auto simp: database_record_def insert_usage_def new_usage_row_def split: if_splits sum.splits)
    qed
  qed
qed

lemma usage_place_ok:
  assumes "usage_place active trace tables = (Some ws, c, m)"
  shows "(\<forall>i. c = Some i \<longrightarrow> (\<exists>v \<in> set (db_conversations tables). cv_id v = i \<and> cv_workspace v = ws))
     \<and> (\<forall>i. m = Some i \<longrightarrow> (\<exists>x \<in> set (db_messages tables). mg_id x = i \<and> c = Some (mg_conversation x) \<and> mg_trace x = trace))"
proof (cases "traced_message tables trace")
  case (Some p)
  obtain x v where p: "p = (x, v)" by fastforce
  from traced_message_Some [of tables trace x v] Some p assms show ?thesis by (auto simp: usage_place_def)
qed (use assms in \<open>auto simp: usage_place_def\<close>)

lemma usage_ok_record:
  assumes "usage_ok db"
  shows "usage_ok (snd (database_record commit i now active u db))"
proof (cases rule: database_record_cases [of commit i now active u db])
  case ignored
  with assms show ?thesis by simp
next
  case (stored ws c m)
  note place = usage_place_ok [OF stored(1)]
  let ?r = "new_usage_row i now ws c m u"
  have r: "lu_id ?r = i" "lu_request ?r = ur_request_id u" "lu_workspace ?r = ws" "lu_conversation ?r = c" "lu_message ?r = m" "lu_trace ?r = ur_trace u"
    by (simp_all add: new_usage_row_def)
  show ?thesis unfolding stored(2) usage_ok_def
    using usage_okD(1-3) [OF assms] usage_okD(4-6) [OF assms] stored(3-5) place by (simp add: new_usage_row_def)
qed

text \<open>A workspace's part of the tables, over a sequence of operations.\<close>

datatype obs_op = ChatOp store_op | RecordOp "unit pyres" uuid int "uuid option" usage_record

fun obs_apply :: "(agent_step \<Rightarrow> agent_step) \<Rightarrow> obs_op \<Rightarrow> obs_db \<Rightarrow> obs_db" where
  "obs_apply column (ChatOp op) db = chat_operation column op db"
| "obs_apply column (RecordOp commit i now active u) db = snd (database_record commit i now active u db)"

lemma usage_ok_apply: "usage_ok db \<Longrightarrow> usage_ok (obs_apply column op db)"
  by (cases op) (simp_all add: usage_ok_chat usage_ok_record)

definition no_usage :: "uuid list \<Rightarrow> obs_db" where
  "no_usage workspaces = \<lparr>ob_workspaces = workspaces, ob_chat = empty_db, ob_usage = []\<rparr>"

lemma usage_ok_start: "usage_ok (no_usage workspaces)"
  by (simp add: usage_ok_def no_usage_def store_ok_empty)

section \<open>Isolation\<close>

lemma view_members:
  "m \<in> set (concat (map snd (workspace_view w db))) \<longleftrightarrow> m \<in> set (db_messages db) \<and> in_workspace w db m"
  by (auto simp: workspace_view_def in_workspace_def select_conversation_def own_conversation_def find_None_iff)

lemma view_conversation:
  "workspace_view w db = workspace_view w db' \<Longrightarrow> c \<in> set (db_conversations db) \<Longrightarrow> cv_workspace c = w \<Longrightarrow> c \<in> set (db_conversations db')"
proof -
  assume same: "workspace_view w db = workspace_view w db'" and c: "c \<in> set (db_conversations db)" "cv_workspace c = w"
  have fst: "map fst (workspace_view w d) = filter (\<lambda>c. cv_workspace c = w) (db_conversations d)" for d
    by (simp add: workspace_view_def comp_def)
  have "c \<in> set (map fst (workspace_view w db))" unfolding fst using c by simp
  then show ?thesis unfolding same fst by simp
qed

lemma one_or_none_same:
  assumes "distinct xs" and "distinct ys" and "set xs = set ys"
  shows "one_or_none xs = one_or_none ys"
proof -
  have "length xs = length ys" using assms by (metis distinct_card)
  with assms(3) show ?thesis by (cases xs; cases ys; cases "tl xs"; cases "tl ys") (auto simp: one_or_none_def)
qed

lemma trace_messages_view:
  assumes "store_ok db" and "store_ok db'" and "workspace_view ws db = workspace_view ws db'"
  shows "one_or_none (trace_messages ws t db) = one_or_none (trace_messages ws t db')"
proof (rule one_or_none_same)
  have "distinct (db_messages d)" if "store_ok d" for d using store_okD(2) [OF that] by (simp add: distinct_map)
  then show "distinct (trace_messages ws t db)" "distinct (trace_messages ws t db')" using assms(1,2) by (simp_all add: trace_messages_def)
  have "set (trace_messages ws t d) = {m \<in> set (concat (map snd (workspace_view ws d))). mg_trace m = Some t}" for d
    unfolding view_members by (auto simp: trace_messages_def)
  then show "set (trace_messages ws t db) = set (trace_messages ws t db')" using assms(3) by simp
qed

text \<open>An operation of others on the store keeps the references of the workspace's own rows.\<close>

lemma references_kept:
  assumes ok: "usage_ok db" and "r \<in> set (ob_usage db)" and "lu_workspace r = ws"
    and same: "workspace_view ws tables = workspace_view ws (ob_chat db)"
  shows "keep_references tables r = r"
proof -
  have "keep_reference (map cv_id (db_conversations tables)) (lu_conversation r) = lu_conversation r"
  proof (cases "lu_conversation r")
    case (Some i)
    then obtain c where "c \<in> set (db_conversations (ob_chat db))" "cv_id c = i" "cv_workspace c = ws"
      using usage_okD(5) [OF ok assms(2)] assms(3) by blast
    with view_conversation [OF same [symmetric]] Some show ?thesis by (force simp: keep_reference_def)
  qed (simp add: keep_reference_def)
  moreover have "keep_reference (map mg_id (db_messages tables)) (lu_message r) = lu_message r"
  proof (cases "lu_message r")
    case (Some i)
    then obtain m where m: "m \<in> set (db_messages (ob_chat db))" "mg_id m = i" "lu_conversation r = Some (mg_conversation m)"
      using usage_okD(6) [OF ok assms(2)] by blast
    obtain c where "c \<in> set (db_conversations (ob_chat db))" "cv_id c = mg_conversation m" "cv_workspace c = ws"
      using usage_okD(5) [OF ok assms(2) m(3)] assms(3) by blast
    then have "in_workspace ws (ob_chat db) m"
      by (auto simp: in_workspace_def select_conversation_def own_conversation_def find_None_iff)
    with m(1) have "m \<in> set (concat (map snd (workspace_view ws (ob_chat db))))" unfolding view_members by simp
    then have "m \<in> set (db_messages tables)" unfolding same [symmetric] view_members by simp
    with m(2) Some show ?thesis by (force simp: keep_reference_def)
  qed (simp add: keep_reference_def)
  ultimately show ?thesis by (simp add: keep_references_def)
qed

lemma filter_map_others:
  assumes "\<And>x. x \<in> set xs \<Longrightarrow> P x \<Longrightarrow> f x = x" and "\<And>x. x \<in> set xs \<Longrightarrow> \<not> P x \<Longrightarrow> \<not> P (f x)"
  shows "filter P (map f xs) = filter P xs"
  using assms by (induction xs) auto

text \<open>Whose row a recording makes.\<close>

definition obs_owner :: "obs_db \<Rightarrow> obs_op \<Rightarrow> uuid option" where
  "obs_owner db op = (case op of ChatOp op \<Rightarrow> Some (op_workspace op) | RecordOp commit i now active u \<Rightarrow> fst (usage_place active (ur_trace u) (ob_chat db)))"

lemma own_usage_kept:
  assumes ok: "usage_ok db" and other: "obs_owner db op \<noteq> Some ws"
  shows "filter (\<lambda>r. lu_workspace r = ws) (ob_usage (obs_apply column op db)) = filter (\<lambda>r. lu_workspace r = ws) (ob_usage db)
    \<and> workspace_view ws (ob_chat (obs_apply column op db)) = workspace_view ws (ob_chat db)"
proof (cases op)
  case (ChatOp o')
  then have "workspace_view ws (store_apply column o' (ob_chat db)) = workspace_view ws (ob_chat db)"
    using workspace_view_apply [OF usage_okD(1) [OF ok]] other by (simp add: obs_owner_def)
  moreover from references_kept [OF ok _ _ this]
  have "filter (\<lambda>r. lu_workspace r = ws) (map (keep_references (store_apply column o' (ob_chat db))) (ob_usage db))
      = filter (\<lambda>r. lu_workspace r = ws) (ob_usage db)"
    by (intro filter_map_others) (auto simp: keep_references_def)
  ultimately show ?thesis using ChatOp by (simp add: chat_operation_def Let_def)
next
  case (RecordOp commit i now active u)
  show ?thesis
  proof (cases rule: database_record_cases [of commit i now active u db])
    case (stored v c m)
    with RecordOp other show ?thesis by (simp add: obs_owner_def new_usage_row_def)
  qed (simp add: RecordOp)
qed

text \<open>What a workspace can see: its rows of the usage table and its conversations.\<close>

definition usage_scope_view :: "uuid \<Rightarrow> obs_db \<Rightarrow> usage_row list \<times> (conversation_row \<times> message_row list) list" where
  "usage_scope_view ws db = (filter (\<lambda>r. lu_workspace r = ws) (ob_usage db), workspace_view ws (ob_chat db))"

interpretation usage_scope: workspace_scope "obs_apply column" obs_owner usage_ok usage_scope_view for column
  by unfold_locales (simp_all add: usage_ok_apply usage_scope_view_def own_usage_kept)

lemma usage_ok_run: "usage_ok (fold (obs_apply column) ops (no_usage workspaces))"
  by (rule usage_scope.run_inv [OF usage_ok_start])

lemma hits_of_own: "filter (usage_hit ws f) (ob_usage db) = filter (usage_hit ws f) (fst (usage_scope_view ws db))"
  unfolding usage_scope_view_def fst_conv filter_filter by (rule filter_cong) (auto simp: usage_hit_def)

lemma traced_of_own:
  "filter (\<lambda>r. lu_trace r = Some t \<and> lu_workspace r = ws) (ob_usage db) = filter (\<lambda>r. lu_trace r = Some t) (fst (usage_scope_view ws db))"
  unfolding usage_scope_view_def fst_conv filter_filter by (rule filter_cong) auto

text \<open>
  C39.  Usage is private: whatever other workspaces do in any number of operations, in the store or by
  calling a model with any trace that is not of this workspace, its totals, its pages and its traces
  read the same afterwards.
\<close>

theorem usage_isolated:
  assumes "db = fold (obs_apply column) ops (no_usage workspaces)"
    and "by_others (obs_apply column) obs_owner ws others db" and "db' = fold (obs_apply column) others db"
  shows "summary ws f db' = summary ws f db
    \<and> list_usage ws limit offset f db' = list_usage ws limit offset f db
    \<and> get_trace ws t db' = get_trace ws t db"
proof -
  have ok: "usage_ok db" unfolding assms(1) by (rule usage_ok_run)
  have ok': "usage_ok db'" unfolding assms(3) by (rule usage_scope.run_inv [OF ok])
  have same: "usage_scope_view ws db' = usage_scope_view ws db" unfolding assms(3) by (rule usage_scope.run_others [OF ok assms(2)])
  have hits: "filter (usage_hit ws f) (ob_usage db') = filter (usage_hit ws f) (ob_usage db)" unfolding hits_of_own same ..
  have "trace_usage ws t db' = trace_usage ws t db" unfolding trace_usage_def traced_of_own same ..
  moreover have "one_or_none (trace_messages ws t (ob_chat db')) = one_or_none (trace_messages ws t (ob_chat db))"
    using same by (intro trace_messages_view [OF usage_okD(1) [OF ok'] usage_okD(1) [OF ok]]) (simp add: usage_scope_view_def)
  ultimately show ?thesis by (simp only: summary_def list_usage_def get_trace_def hits)
qed

section \<open>Totals\<close>

lemma pages_of: "concat (map (\<lambda>k. take n (drop (k * n) xs)) [0..<m]) = take (m * n) xs"
proof (induction m)
  case (Suc m)
  have "Suc m * n = m * n + n" by simp
  then have "take (Suc m * n) xs = take (m * n) xs @ take n (drop (m * n) xs)" by (simp only: take_add)
  with Suc show ?case by simp
qed simp


section \<open>Witnesses\<close>

definition demo_usage :: "pystr \<Rightarrow> usage_record" where
  "demo_usage request = \<lparr>ur_request_id = request, ur_trace = None, ur_task = [1], ur_provider = [2], ur_model = [3], ur_input_tokens = 4,
     ur_output_tokens = 5, ur_cost = 0, ur_latency = 6, ur_success = True, ur_error_type = None\<rparr>"

definition every_usage :: usage_filter where
  "every_usage = \<lparr>uf_start = None, uf_end = None, uf_conversation = None\<rparr>"

definition demo_usage_db :: obs_db where
  "demo_usage_db = fold (obs_apply (\<lambda>s. s)) [RecordOp (Inr ()) 7 3 (Some 1) (demo_usage [1])] (no_usage [1, 2])"

lemma demo_usage_rows: "ob_usage demo_usage_db = [new_usage_row 7 3 1 None None (demo_usage [1])]"
  by (simp add: demo_usage_db_def database_record_def usage_place_def traced_message_def demo_usage_def no_usage_def insert_usage_def
      new_usage_row_def usage_fits_def money_def content_or_def)

theorem usage_isolated_witness:
  "us_calls (summary 1 every_usage (fold (obs_apply (\<lambda>s. s)) [RecordOp (Inr ()) 8 4 (Some 2) (demo_usage [2]), ChatOp (CreateOp 5 0 2 [])] demo_usage_db)) = 1"
proof -
  let ?ops = "[RecordOp (Inr ()) 8 4 (Some 2) (demo_usage [2]), ChatOp (CreateOp 5 0 2 [])]"
  have "by_others (obs_apply (\<lambda>s. s)) obs_owner 1 ?ops demo_usage_db"
    by (simp add: obs_owner_def usage_place_def traced_message_def demo_usage_def)
  from usage_isolated [OF demo_usage_db_def this refl, of every_usage]
  have "summary 1 every_usage (fold (obs_apply (\<lambda>s. s)) ?ops demo_usage_db) = summary 1 every_usage demo_usage_db"
    by blast
  then show ?thesis
    by (simp add: summary_def usage_summary_of_def demo_usage_rows usage_hit_def every_usage_def new_usage_row_def)
qed


end
