(* ===== verification/Load_Test.thy ===== *)
theory Load_Test
  imports Context_Compaction "HOL-Library.Multiset"
begin

text \<open>
  \<open>app/loadtest/runner.py\<close>: workers that take request numbers from one queue and record a sample for each
  answer, and the report over the samples.  The workers are a step relation: each of its steps is
  what one of them does between two awaits, in any order, so every schedule of the event loop is a run
  of it; what the target answers and how long that takes is free.

  Durations and rates are rationals.  For the three percentiles of the program the rounding of the
  product in floating point cannot pass an integer, so the index is the one computed there.
\<close>

section \<open>Data\<close>

record load_config =
  lc_url :: pystr
  lc_requests :: nat
  lc_concurrency :: nat
  lc_timeout :: rat
  lc_authorization :: "pystr option"
  lc_cookie :: "pystr option"

definition load_config_ok :: "load_config \<Rightarrow> bool" where
  "load_config_ok c \<longleftrightarrow> 1 \<le> lc_requests c \<and> lc_requests c \<le> 100000 \<and> 1 \<le> lc_concurrency c \<and> lc_concurrency c \<le> 1000
     \<and> 0 < lc_timeout c \<and> lc_timeout c \<le> 120"

definition load_headers :: "load_config \<Rightarrow> (pystr \<times> pystr) list" where
  "load_headers c = (if content_or [] (lc_authorization c) \<noteq> [] then [(py ''Authorization'', content_or [] (lc_authorization c))] else [])
     @ (if content_or [] (lc_cookie c) \<noteq> [] then [(py ''Cookie'', content_or [] (lc_cookie c))] else [])"

record sample =
  sm_status :: nat
  sm_duration :: rat
  sm_error :: "pystr option"

record load_report =
  lr_url :: pystr
  lr_requests :: nat
  lr_success :: nat
  lr_errors :: nat
  lr_error_rate :: rat
  lr_per_second :: rat
  lr_average :: rat
  lr_p50 :: rat
  lr_p95 :: rat
  lr_p99 :: rat
  lr_statuses :: "(pystr \<times> nat) list"

section \<open>Workers\<close>

text \<open>
  At the head of its loop, waiting for an answer, waiting for the lock with its sample, returned, or
  dead of an exception that is not one of the transport's.
\<close>

datatype load_worker = AtLoop | Requesting nat | Measured sample | Returned | Died py_exc

record load_state =
  ls_queue :: "nat list"
  ls_workers :: "load_worker list"
  ls_samples :: "sample list"

definition load_start :: "load_config \<Rightarrow> load_state" where
  "load_start c = \<lparr>ls_queue = [0..<lc_requests c], ls_workers = replicate (lc_concurrency c) AtLoop, ls_samples = []\<rparr>"

text \<open>An answer: a status, an error of the transport, or an exception the worker does not catch.\<close>

datatype load_answer = Answered nat | TransportError pystr | Raised py_exc

definition after_answer :: "load_answer \<Rightarrow> rat \<Rightarrow> load_worker" where
  "after_answer a duration =
     (case a of
        Answered status \<Rightarrow> Measured \<lparr>sm_status = status, sm_duration = duration, sm_error = None\<rparr>
      | TransportError name \<Rightarrow> Measured \<lparr>sm_status = 0, sm_duration = duration, sm_error = Some name\<rparr>
      | Raised e \<Rightarrow> Died e)"

inductive load_step :: "load_state \<Rightarrow> load_state \<Rightarrow> bool" where
  take_request: "k < length (ls_workers s) \<Longrightarrow> ls_workers s ! k = AtLoop \<Longrightarrow> ls_queue s = n # q \<Longrightarrow>
     load_step s (s\<lparr>ls_queue := q, ls_workers := (ls_workers s)[k := Requesting n]\<rparr>)"
| return: "k < length (ls_workers s) \<Longrightarrow> ls_workers s ! k = AtLoop \<Longrightarrow> ls_queue s = [] \<Longrightarrow>
     load_step s (s\<lparr>ls_workers := (ls_workers s)[k := Returned]\<rparr>)"
| answer: "k < length (ls_workers s) \<Longrightarrow> ls_workers s ! k = Requesting n \<Longrightarrow>
     load_step s (s\<lparr>ls_workers := (ls_workers s)[k := after_answer a duration]\<rparr>)"
| append_sample: "k < length (ls_workers s) \<Longrightarrow> ls_workers s ! k = Measured x \<Longrightarrow>
     load_step s (s\<lparr>ls_workers := (ls_workers s)[k := AtLoop], ls_samples := ls_samples s @ [x]\<rparr>)"

inductive_cases load_stepE: "load_step s s'"

text \<open>\<open>gather\<close> returns when all workers have, and raises what the first of them died of.\<close>

definition gathered :: "load_state \<Rightarrow> bool" where
  "gathered s \<longleftrightarrow> list_all (\<lambda>w. w = Returned) (ls_workers s)"

section \<open>The report\<close>

definition percentile :: "rat list \<Rightarrow> rat \<Rightarrow> rat" where
  "percentile sorted_values p =
     (if sorted_values = [] then 0
      else sorted_values ! nat (max 0 (\<lceil>p * of_nat (length sorted_values)\<rceil> - 1)))"

definition succeeded :: "sample \<Rightarrow> bool" where
  "succeeded x \<longleftrightarrow> sm_error x = None \<and> 200 \<le> sm_status x \<and> sm_status x < 400"

definition status_key :: "sample \<Rightarrow> pystr" where
  "status_key x = (case sm_error x of None \<Rightarrow> str_nat (sm_status x) | Some e \<Rightarrow> py ''error:'' @ e)"

definition count_status :: "sample \<Rightarrow> (pystr \<times> nat) list \<Rightarrow> (pystr \<times> nat) list" where
  "count_status x counts =
     AList.update (status_key x) ((case dict_get counts (status_key x) of None \<Rightarrow> 0 | Some n \<Rightarrow> n) + 1) counts"

definition load_report_of :: "load_config \<Rightarrow> rat \<Rightarrow> sample list \<Rightarrow> load_report" where
  "load_report_of c wall samples =
     (let elapsed = max wall (1 / 1000000000);
          durations = sort (map sm_duration samples);
          success = length (filter succeeded samples);
          n = length samples
      in \<lparr>lr_url = lc_url c, lr_requests = n, lr_success = success, lr_errors = n - success,
          lr_error_rate = (if samples = [] then 0 else of_nat (n - success) / of_nat n),
          lr_per_second = of_nat n / elapsed,
          lr_average = (if durations = [] then 0 else sum_list durations / of_nat (length durations)),
          lr_p50 = percentile durations (1 / 2), lr_p95 = percentile durations (95 / 100), lr_p99 = percentile durations (99 / 100),
          lr_statuses = fold count_status samples []\<rparr>)"

section \<open>Every request once\<close>

text \<open>What a worker holds: a request under way or the sample of one that ended.\<close>

fun holds_one :: "load_worker \<Rightarrow> bool" where
  "holds_one (Requesting n) = True"
| "holds_one (Measured x) = True"
| "holds_one w = False"

fun lost_one :: "load_worker \<Rightarrow> bool" where
  "lost_one (Died e) = True"
| "lost_one w = False"

definition accounted :: "load_state \<Rightarrow> nat" where
  "accounted s = length (ls_queue s) + length (ls_samples s) + length (filter holds_one (ls_workers s)) + length (filter lost_one (ls_workers s))"

lemma length_filter_update:
  assumes "k < length xs"
  shows "length (filter P (xs[k := y])) + (if P (xs ! k) then 1 else 0) = length (filter P xs) + (if P y then 1 else 0)"
  using assms
proof (induction xs arbitrary: k)
  case (Cons x xs)
  then show ?case by (cases k) auto
qed simp

lemma step_accounted: "load_step s s' \<Longrightarrow> accounted s' = accounted s \<and> length (ls_workers s') = length (ls_workers s)"
proof (induction rule: load_step.induct)
  case (take_request k s n q)
  with length_filter_update [OF take_request(1), of holds_one "Requesting n"] length_filter_update [OF take_request(1), of lost_one "Requesting n"]
  show ?case by (simp add: accounted_def)
next
  case (return k s)
  with length_filter_update [OF return(1), of holds_one Returned] length_filter_update [OF return(1), of lost_one Returned]
  show ?case by (simp add: accounted_def)
next
  case (answer k s n a duration)
  with length_filter_update [OF answer(1), of holds_one "after_answer a duration"] length_filter_update [OF answer(1), of lost_one "after_answer a duration"]
  show ?case by (simp add: accounted_def after_answer_def split: load_answer.splits)
next
  case (append_sample k s x)
  with length_filter_update [OF append_sample(1), of holds_one AtLoop] length_filter_update [OF append_sample(1), of lost_one AtLoop]
  show ?case by (simp add: accounted_def)
qed

lemma reachable_accounted:
  "load_step\<^sup>*\<^sup>* (load_start c) s \<Longrightarrow> accounted s = lc_requests c \<and> length (ls_workers s) = lc_concurrency c"
proof (induction rule: rtranclp_induct)
  case base
  show ?case by (simp add: accounted_def load_start_def filter_replicate)
qed (simp add: step_accounted)

text \<open>Every step brings the run nearer to its end.\<close>

fun worker_rank :: "load_worker \<Rightarrow> nat" where
  "worker_rank AtLoop = 1"
| "worker_rank (Requesting n) = 3"
| "worker_rank (Measured x) = 2"
| "worker_rank w = 0"

definition load_rank :: "load_state \<Rightarrow> nat" where
  "load_rank s = 3 * length (ls_queue s) + sum_list (map worker_rank (ls_workers s))"

lemma rank_update:
  assumes "k < length xs"
  shows "sum_list (map worker_rank (xs[k := y])) + worker_rank (xs ! k) = sum_list (map worker_rank xs) + worker_rank y"
  using assms
proof (induction xs arbitrary: k)
  case (Cons x xs)
  show ?case
  proof (cases k)
    case (Suc j)
    with Cons.IH [of j] Cons.prems show ?thesis by simp
  qed simp
qed simp

lemma step_rank: "load_step s s' \<Longrightarrow> load_rank s' < load_rank s"
proof (induction rule: load_step.induct)
  case (take_request k s n q)
  with rank_update [OF take_request(1), of "Requesting n"] show ?case by (simp add: load_rank_def)
next
  case (return k s)
  with rank_update [OF return(1), of Returned] show ?case by (simp add: load_rank_def)
next
  case (answer k s n a duration)
  with rank_update [OF answer(1), of "after_answer a duration"] show ?case
    by (simp add: load_rank_def after_answer_def split: load_answer.splits)
next
  case (append_sample k s x)
  with rank_update [OF append_sample(1), of AtLoop] show ?case by (simp add: load_rank_def)
qed

lemma returned_means_empty:
  "load_step\<^sup>*\<^sup>* (load_start c) s \<Longrightarrow> Returned \<in> set (ls_workers s) \<Longrightarrow> ls_queue s = []"
proof (induction rule: rtranclp_induct)
  case base
  then show ?case by (simp add: load_start_def)
next
  case (step s s')
  from step.hyps(2) step.prems step.IH show ?case
    by (cases rule: load_step.cases)
      (auto simp: after_answer_def dest!: set_update_subset_insert [THEN subsetD] split: load_answer.splits)
qed

lemma stuck_is_over:
  assumes "\<nexists>s'. load_step s s'" and "w \<in> set (ls_workers s)"
  shows "w = Returned \<or> (\<exists>e. w = Died e)"
proof -
  obtain k where k: "k < length (ls_workers s)" "ls_workers s ! k = w" using assms(2) by (auto simp: in_set_conv_nth)
  show ?thesis
  proof (cases w)
    case AtLoop
    with k assms(1) show ?thesis by (cases "ls_queue s") (blast intro: load_step.intros)+
  next
    case (Requesting n)
    with k assms(1) show ?thesis by (blast intro: load_step.intros)
  next
    case (Measured x)
    with k assms(1) show ?thesis by (blast intro: load_step.intros)
  qed simp_all
qed

lemma gathered_samples:
  assumes "load_config_ok c" and "load_step\<^sup>*\<^sup>* (load_start c) s" and "gathered s"
  shows "length (ls_samples s) = lc_requests c"
proof -
  note acc = reachable_accounted [OF assms(2)]
  have all: "w = Returned" if "w \<in> set (ls_workers s)" for w using assms(3) that by (simp add: gathered_def list_all_iff)
  have "ls_workers s \<noteq> []" using acc assms(1) by (auto simp: load_config_ok_def)
  then have "Returned \<in> set (ls_workers s)" using all by (cases "ls_workers s") auto
  then have "ls_queue s = []" by (rule returned_means_empty [OF assms(2)])
  moreover have "filter holds_one (ls_workers s) = []" "filter lost_one (ls_workers s) = []"
    unfolding filter_empty_conv by (auto dest: all)
  ultimately show ?thesis using acc by (simp add: accounted_def)
qed

lemma steps_rank: "(load_step ^^ n) s s' \<Longrightarrow> n + load_rank s' \<le> load_rank s"
proof (induction n arbitrary: s')
  case (Suc n)
  then obtain t where "(load_step ^^ n) s t" "load_step t s'" by auto
  with Suc.IH [of t] step_rank [of t s'] show ?case by simp
qed simp

text \<open>
  A load test makes exactly the requests asked for: in whatever order its workers run and whatever
  the target answers, no more than the configured number are under way at once, no schedule runs for
  ever, it can only stop when the workers have returned or one died of an exception that is not the
  transport's, and when they have returned there is one sample for every request.
\<close>

theorem load_test_complete:
  assumes "load_config_ok c" and "load_step\<^sup>*\<^sup>* (load_start c) s"
  shows "length (filter holds_one (ls_workers s)) \<le> lc_concurrency c
    \<and> length (ls_samples s) + length (filter holds_one (ls_workers s)) \<le> lc_requests c
    \<and> (gathered s \<longrightarrow> length (ls_samples s) = lc_requests c)
    \<and> (\<forall>n s'. (load_step ^^ n) s s' \<longrightarrow> n \<le> load_rank s)
    \<and> ((\<nexists>s'. load_step s s') \<longrightarrow> gathered s \<or> (\<exists>e. Died e \<in> set (ls_workers s)))"
proof (intro conjI impI allI)
  note acc = reachable_accounted [OF assms(2)]
  show "length (filter holds_one (ls_workers s)) \<le> lc_concurrency c"
    using acc length_filter_le [of holds_one "ls_workers s"] by simp
  show "length (ls_samples s) + length (filter holds_one (ls_workers s)) \<le> lc_requests c" using acc by (simp add: accounted_def)
  show "length (ls_samples s) = lc_requests c" if "gathered s" by (rule gathered_samples [OF assms that])
  show "n \<le> load_rank s" if "(load_step ^^ n) s s'" for n s' using steps_rank [OF that] by simp
  show "gathered s \<or> (\<exists>e. Died e \<in> set (ls_workers s))" if "\<nexists>s'. load_step s s'"
    using stuck_is_over [OF that] by (auto simp: gathered_def list_all_iff)
qed

section \<open>What the report says\<close>

lemma sorted_counts:
  assumes "sorted xs" and "k < length xs"
  shows "Suc k \<le> length (filter (\<lambda>x. x \<le> xs ! k) xs)" and "length (filter (\<lambda>x. x < xs ! k) xs) \<le> k"
proof -
  have "x \<le> xs ! k" if "x \<in> set (take (Suc k) xs)" for x
    using that assms by (auto simp: in_set_conv_nth less_Suc_eq_le intro: sorted_nth_mono)
  then have "filter (\<lambda>x. x \<le> xs ! k) (take (Suc k) xs) = take (Suc k) xs" by (intro filter_True) auto
  moreover have "length (filter (\<lambda>x. x \<le> xs ! k) (take (Suc k) xs @ drop (Suc k) xs))
      \<ge> length (filter (\<lambda>x. x \<le> xs ! k) (take (Suc k) xs))" unfolding filter_append length_append by simp
  ultimately show "Suc k \<le> length (filter (\<lambda>x. x \<le> xs ! k) xs)" using assms(2) by simp
  have "\<not> x < xs ! k" if x_in: "x \<in> set (drop k xs)" for x
  proof -
    obtain j where "j < length xs - k" "x = xs ! (k + j)" using x_in by (auto simp: in_set_conv_nth)
    then show ?thesis using sorted_nth_mono [OF assms(1), of k "k + j"] by (simp add: less_diff_conv)
  qed
  then have "filter (\<lambda>x. x < xs ! k) (drop k xs) = []" unfolding filter_empty_conv by blast
  then have "length (filter (\<lambda>x. x < xs ! k) (take k xs @ drop k xs)) = length (filter (\<lambda>x. x < xs ! k) (take k xs))"
    unfolding filter_append by simp
  also have "\<dots> \<le> length (take k xs)" by (rule length_filter_le)
  finally show "length (filter (\<lambda>x. x < xs ! k) xs) \<le> k" by simp
qed

definition percentile_index :: "nat \<Rightarrow> rat \<Rightarrow> nat" where
  "percentile_index n p = nat (max 0 (\<lceil>p * of_nat n\<rceil> - 1))"

lemma percentile_at: "xs \<noteq> [] \<Longrightarrow> percentile xs p = xs ! percentile_index (length xs) p"
  by (simp add: percentile_def percentile_index_def)

lemma percentile_index_less: "0 < n \<Longrightarrow> p \<le> 1 \<Longrightarrow> percentile_index n p < n"
proof -
  assume n: "0 < n" "p \<le> 1"
  then have "p * of_nat n \<le> of_nat n" by (simp add: mult_left_le_one_le mult_le_cancel_right1)
  then have "\<lceil>p * of_nat n\<rceil> \<le> int n" by (simp add: ceiling_le_iff)
  with n(1) show ?thesis by (simp add: percentile_index_def nat_less_iff)
qed

lemma percentile_index_mono: "p \<le> q \<Longrightarrow> percentile_index n p \<le> percentile_index n q"
  unfolding percentile_index_def by (intro nat_mono max.mono diff_right_mono ceiling_mono mult_right_mono) simp_all

lemma percentile_mono:
  assumes "sorted xs" and "p \<le> q" and "q \<le> 1"
  shows "percentile xs p \<le> percentile xs q"
proof (cases "xs = []")
  case False
  then show ?thesis unfolding percentile_at [OF False]
    using assms percentile_index_less [of "length xs" q] percentile_index_mono [of p q "length xs"] by (intro sorted_nth_mono) simp_all
qed (simp add: percentile_def)

text \<open>
  Percentiles: a percentile of the sorted durations is one of them, at least that share of the
  durations does not exceed it, and less than that share lies below it.
\<close>

theorem percentile_is_quantile:
  assumes "sorted xs" and "xs \<noteq> []" and "0 < p" and "p \<le> 1"
  shows "percentile xs p \<in> set xs
    \<and> p * of_nat (length xs) \<le> of_nat (length (filter (\<lambda>x. x \<le> percentile xs p) xs))
    \<and> of_nat (length (filter (\<lambda>x. x < percentile xs p) xs)) < p * of_nat (length xs)"
proof -
  let ?n = "length xs" and ?k = "percentile_index (length xs) p"
  have k: "?k < ?n" by (rule percentile_index_less) (use assms in simp_all)
  have pos: "0 < p * of_nat ?n" using assms(2,3) by simp
  then have "1 \<le> \<lceil>p * of_nat ?n\<rceil>" by linarith
  then have index: "int ?k = \<lceil>p * of_nat ?n\<rceil> - 1" by (simp add: percentile_index_def)
  note counts = sorted_counts [OF assms(1) k]
  have "p * of_nat ?n \<le> of_int \<lceil>p * of_nat ?n\<rceil>" by (rule le_of_int_ceiling)
  also have "\<dots> = of_nat (Suc ?k)" using index by (metis add.commute diff_add_cancel of_int_of_nat_eq of_nat_Suc)
  also have "\<dots> \<le> of_nat (length (filter (\<lambda>x. x \<le> xs ! ?k) xs))" using counts(1) by (rule of_nat_mono)
  finally have "p * of_nat ?n \<le> of_nat (length (filter (\<lambda>x. x \<le> xs ! ?k) xs))" .
  moreover have "of_nat (length (filter (\<lambda>x. x < xs ! ?k) xs)) \<le> (of_nat ?k :: rat)" using counts(2) by (rule of_nat_mono)
  moreover have "(of_nat ?k :: rat) < p * of_nat ?n"
  proof -
    have "of_nat ?k = (of_int (int ?k) :: rat)" by simp
    also have "\<dots> = of_int \<lceil>p * of_nat ?n\<rceil> - 1" unfolding index by simp
    also have "\<dots> < p * of_nat ?n" using ceiling_correct [of "p * of_nat ?n"] by linarith
    finally show ?thesis .
  qed
  ultimately show ?thesis unfolding percentile_at [OF assms(2)] using k by (auto intro: order.strict_trans1)
qed

lemma counts_statuses:
  "dict_get (fold count_status xs counts) key = (case dict_get counts key of None \<Rightarrow> (if \<exists>x \<in> set xs. status_key x = key then
       Some (length (filter (\<lambda>x. status_key x = key) xs)) else None)
     | Some n \<Rightarrow> Some (n + length (filter (\<lambda>x. status_key x = key) xs)))"
proof (induction xs arbitrary: counts)
  case (Cons x xs)
  show ?case
  proof (cases "status_key x = key")
    case True
    then show ?thesis using Cons.IH [of "count_status x counts"] by (auto simp: count_status_def get_update split: option.splits)
  next
    case False
    then have "dict_get (count_status x counts) key = dict_get counts key" by (simp add: count_status_def get_update)
    with False Cons.IH [of "count_status x counts"] show ?thesis by (simp split: option.splits)
  qed
qed (simp split: option.split)

text \<open>
  The report adds up: every sample is a success or an error, the table of statuses says for every
  status how many samples had it, and the percentiles are in their order.
\<close>

theorem load_report_adds_up:
  "let r = load_report_of c wall samples
   in lr_success r + lr_errors r = lr_requests r \<and> lr_requests r = length samples
    \<and> 0 \<le> lr_error_rate r \<and> lr_error_rate r \<le> 1 \<and> lr_p50 r \<le> lr_p95 r \<and> lr_p95 r \<le> lr_p99 r
    \<and> dict_get (lr_statuses r) key = (let n = length (filter (\<lambda>x. status_key x = key) samples) in if n = 0 then None else Some n)"
proof -
  let ?n = "length samples" and ?s = "length (filter succeeded samples)"
  have le: "?s \<le> ?n" by simp
  have rate: "0 \<le> lr_error_rate (load_report_of c wall samples) \<and> lr_error_rate (load_report_of c wall samples) \<le> 1"
  proof (cases "samples = []")
    case False
    have "(of_nat (?n - ?s) :: rat) \<le> of_nat ?n" by (rule of_nat_mono) simp
    with False show ?thesis by (simp add: load_report_of_def Let_def divide_le_eq)
  qed (simp add: load_report_of_def Let_def)
  have sorted: "sorted (sort (map sm_duration samples))" by simp
  have order: "lr_p50 (load_report_of c wall samples) \<le> lr_p95 (load_report_of c wall samples)
      \<and> lr_p95 (load_report_of c wall samples) \<le> lr_p99 (load_report_of c wall samples)"
    unfolding load_report_of_def Let_def load_report.select_convs
    using percentile_mono [OF sorted, of "1 / 2" "95 / 100"] percentile_mono [OF sorted, of "95 / 100" "99 / 100"] by simp
  have "dict_get (lr_statuses (load_report_of c wall samples)) key
      = (if length (filter (\<lambda>x. status_key x = key) samples) = 0 then None else Some (length (filter (\<lambda>x. status_key x = key) samples)))"
    using counts_statuses [of samples "[]" key] by (auto simp: load_report_of_def Let_def filter_empty_conv)
  with rate order le show ?thesis by (simp add: Let_def) (simp add: load_report_of_def Let_def)
qed

section \<open>Witnesses\<close>

definition demo_load :: load_config where
  "demo_load = \<lparr>lc_url = [104], lc_requests = 1, lc_concurrency = 1, lc_timeout = 10, lc_authorization = None, lc_cookie = None\<rparr>"

lemma demo_load_runs:
  "\<exists>s. load_step\<^sup>*\<^sup>* (load_start demo_load) s \<and> gathered s \<and> ls_samples s = [\<lparr>sm_status = 200, sm_duration = 5, sm_error = None\<rparr>]"
proof -
  let ?x = "\<lparr>sm_status = 200, sm_duration = 5, sm_error = None\<rparr>"
  let ?s0 = "\<lparr>ls_queue = [0], ls_workers = [AtLoop], ls_samples = []\<rparr>" and ?s1 = "\<lparr>ls_queue = [], ls_workers = [Requesting 0], ls_samples = []\<rparr>"
    and ?s2 = "\<lparr>ls_queue = [], ls_workers = [Measured ?x], ls_samples = []\<rparr>" and ?s3 = "\<lparr>ls_queue = [], ls_workers = [AtLoop], ls_samples = [?x]\<rparr>"
    and ?s4 = "\<lparr>ls_queue = [], ls_workers = [Returned], ls_samples = [?x]\<rparr>"
  have start: "load_start demo_load = ?s0" by (simp add: load_start_def demo_load_def)
  have 1: "load_step ?s0 ?s1" using take_request [of 0 ?s0 0 "[]"] by simp
  have 2: "load_step ?s1 ?s2" using answer [of 0 ?s1 0 "Answered 200" 5] by (simp add: after_answer_def)
  have 3: "load_step ?s2 ?s3" using append_sample [of 0 ?s2 ?x] by simp
  have 4: "load_step ?s3 ?s4" using return [of 0 ?s3] by simp
  have run: "load_step\<^sup>*\<^sup>* (load_start demo_load) ?s4"
    unfolding start
    by (rule converse_rtranclp_into_rtranclp, rule 1, rule converse_rtranclp_into_rtranclp, rule 2,
        rule converse_rtranclp_into_rtranclp, rule 3, rule converse_rtranclp_into_rtranclp, rule 4, rule rtranclp.rtrancl_refl)
  have "gathered ?s4" by (simp add: gathered_def)
  with run show ?thesis by (intro exI [of _ ?s4] conjI) simp_all
qed

theorem load_test_complete_witness:
  "\<exists>s. load_step\<^sup>*\<^sup>* (load_start demo_load) s \<and> gathered s \<and> length (ls_samples s) = 1"
proof -
  obtain s where s: "load_step\<^sup>*\<^sup>* (load_start demo_load) s" "gathered s" using demo_load_runs by blast
  have ok: "load_config_ok demo_load" by (simp add: load_config_ok_def demo_load_def)
  have "gathered s \<longrightarrow> length (ls_samples s) = lc_requests demo_load" using load_test_complete [OF ok s(1)] by (elim conjE)
  with s show ?thesis by (intro exI [of _ s] conjI) (simp_all add: demo_load_def)
qed

theorem percentile_is_quantile_witness:
  "of_nat (length (filter (\<lambda>x. x < percentile [1, 2, 3] (1 / 2)) [1, 2, 3])) < 1 / 2 * (3 :: rat)"
  using percentile_is_quantile [of "[1, 2, 3]" "1 / 2"] by simp

end
