(* ===== verification/Evaluation.thy ===== *)
theory Evaluation
  imports Agent_Properties Initial_Tools "HOL-Library.Sublist"
begin

text \<open>
  \<open>app/evaluation\<close>: scripted models, the evaluator that runs an agent against a scenario and checks what
  it did, and the built-in scenarios with their environment.

  The world of a run is the script's position, the tool names the model saw last, and the state of the
  scenario's environment.  The agent's other parameters are those of \<open>Agent_Loop\<close>.
\<close>

section \<open>Scripted models\<close>

record 's eval_world =
  ew_index :: nat
  ew_tools :: "pystr list"
  ew_state :: 's

definition sequence_chat ::
  "llm_response list \<Rightarrow> 's eval_world \<Rightarrow> chat_message list \<Rightarrow> tool_definition list \<Rightarrow> uuid option \<Rightarrow> llm_response pyres \<times> 's eval_world" where
  "sequence_chat responses w messages tools trace =
     (let w1 = w\<lparr>ew_tools := map fd_name tools\<rparr>
      in if length responses \<le> ew_index w then
           (raise_exc ''RuntimeError'' (py ''Evaluation model has no scripted response left.''), w1)
         else (Inr (responses ! ew_index w), w1\<lparr>ew_index := ew_index w + 1\<rparr>))"

definition sequence_model :: "llm_response list \<Rightarrow> 's eval_world chat_model" where
  "sequence_model responses = \<lparr>chat = sequence_chat responses, chat_stream = None\<rparr>"

section \<open>Scenarios and results\<close>

datatype eval_category = Orchestration | Guardrail

record eval_check =
  ck_name :: pystr
  ck_passed :: bool
  ck_detail :: pystr

record 's eval_scenario =
  en_case :: pystr
  en_category :: eval_category
  en_description :: pystr
  en_config :: agent_config
  en_environment :: "'s eval_world registry \<times> 's"
  en_responses :: "llm_response list"
  en_status :: pystr
  en_expected :: "pystr list"
  en_forbidden :: "pystr list"
  en_terms :: "pystr list"
  en_failed :: "nat option"
  en_checks :: "(agent_run_result \<Rightarrow> 's \<Rightarrow> eval_check) list"

record eval_case =
  ec_case :: pystr
  ec_category :: eval_category
  ec_description :: pystr
  ec_passed :: bool
  ec_status :: "agent_status option"
  ec_output :: "pystr option"
  ec_duration :: rat
  ec_steps :: nat
  ec_calls :: nat
  ec_failed :: nat
  ec_tokens :: nat
  ec_checks :: "eval_check list"

record eval_summary =
  ev_total :: nat
  ev_passed :: nat
  ev_failed :: nat
  ev_rate :: rat
  ev_safety :: rat
  ev_tokens :: nat
  ev_calls :: nat
  ev_failed_calls :: nat
  ev_duration :: rat

section \<open>Checks\<close>

text \<open>\<open>cursor\<close> names of \<open>expected\<close> have been found so far.\<close>

fun sequence_cursor :: "pystr list \<Rightarrow> pystr list \<Rightarrow> nat \<Rightarrow> nat" where
  "sequence_cursor expected [] cursor = cursor"
| "sequence_cursor expected (name # actual) cursor =
     sequence_cursor expected actual (if cursor < length expected \<and> name = expected ! cursor then cursor + 1 else cursor)"

definition is_subsequence :: "pystr list \<Rightarrow> pystr list \<Rightarrow> bool" where
  "is_subsequence expected actual \<longleftrightarrow> sequence_cursor expected actual 0 = length expected"

definition all_executions :: "agent_run_result \<Rightarrow> tool_execution list" where
  "all_executions r = concat (map as_tool_executions (rr_steps r))"

definition failed_executions :: "agent_run_result \<Rightarrow> nat" where
  "failed_executions r = length (filter (\<lambda>x. te_error x \<noteq> None) (all_executions r))"

definition called_tools :: "agent_run_result \<Rightarrow> pystr list" where
  "called_tools r = concat (map (\<lambda>s. map tc_name (as_tool_calls s)) (rr_steps r))"

definition available_check :: "'s eval_scenario \<Rightarrow> pystr list \<Rightarrow> eval_check" where
  "available_check s available = \<lparr>ck_name = py ''available_tools'', ck_passed = list_all (\<lambda>t. t \<in> set available) (en_expected s),
     ck_detail = [27169, 22411, 21487, 35265, 24037, 20855, 65306] @ (if available = [] then [26080] else join (py '', '') available) @ [12290]\<rparr>"

definition status_check :: "'s eval_scenario \<Rightarrow> agent_run_result \<Rightarrow> eval_check" where
  "status_check s r = \<lparr>ck_name = py ''terminal_status'', ck_passed = (status_text (rr_status r) = en_status s),
     ck_detail = [23454, 38469, 29366, 24577] @ py '' '' @ status_text (rr_status r) @ [65292, 26399, 26395, 29366, 24577] @ py '' '' @ en_status s @ [12290]\<rparr>"

definition sequence_check :: "'s eval_scenario \<Rightarrow> agent_run_result \<Rightarrow> eval_check" where
  "sequence_check s r = \<lparr>ck_name = py ''tool_sequence'', ck_passed = is_subsequence (en_expected s) (called_tools r),
     ck_detail = [23454, 38469, 24037, 20855, 24207, 21015, 65306] @ py_str (PList (map PStr (if called_tools r = [] then [[26080]] else called_tools r))) @ [12290]\<rparr>"

definition forbidden_check :: "'s eval_scenario \<Rightarrow> agent_run_result \<Rightarrow> eval_check" where
  "forbidden_check s r =
     (let forbidden = filter (\<lambda>t. t \<in> set (called_tools r)) (en_forbidden s)
      in \<lparr>ck_name = py ''forbidden_tools'', ck_passed = (forbidden = []),
          ck_detail = (if forbidden = [] then [26410, 35843, 29992, 31105, 27490, 24037, 20855, 12290] else [35843, 29992, 20102, 31105, 27490, 24037, 20855, 65306] @ join (py '', '') forbidden @ [12290])\<rparr>)"

definition output_check :: "'s eval_scenario \<Rightarrow> agent_run_result \<Rightarrow> eval_check" where
  "output_check s r =
     (let missing = filter (\<lambda>t. \<not> sublist t (content_or [] (rr_output r))) (en_terms s)
      in \<lparr>ck_name = py ''required_output'', ck_passed = (missing = []),
          ck_detail = (if missing = [] then [26368, 32456, 36755, 20986, 21253, 21547, 20840, 37096, 24517, 35201, 20449, 24687, 12290] else [26368, 32456, 36755, 20986, 32570, 23569, 65306] @ join (py '', '') missing @ [12290])\<rparr>)"

definition failed_check :: "nat \<Rightarrow> agent_run_result \<Rightarrow> eval_check" where
  "failed_check n r = \<lparr>ck_name = py ''failed_tool_calls'', ck_passed = (failed_executions r = n),
     ck_detail = [22833, 36133, 24037, 20855, 35843, 29992] @ py '' '' @ str_nat (failed_executions r) @ py '' '' @ [27425, 65292, 26399, 26395] @ py '' '' @ str_nat n @ py '' '' @ [27425, 12290]\<rparr>"

definition evaluate_checks :: "'s eval_scenario \<Rightarrow> agent_run_result \<Rightarrow> 's \<Rightarrow> pystr list \<Rightarrow> eval_check list" where
  "evaluate_checks s r state available =
     [available_check s available, status_check s r, sequence_check s r, forbidden_check s r, output_check s r]
     @ (case en_failed s of None \<Rightarrow> [] | Some n \<Rightarrow> [failed_check n r]) @ map (\<lambda>check. check r state) (en_checks s)"

section \<open>Running\<close>

definition case_result :: "'s eval_scenario \<Rightarrow> agent_run_result \<Rightarrow> eval_check list \<Rightarrow> rat \<Rightarrow> eval_case" where
  "case_result s r checks duration =
     \<lparr>ec_case = en_case s, ec_category = en_category s, ec_description = en_description s, ec_passed = list_all ck_passed checks,
      ec_status = Some (rr_status r), ec_output = rr_output r, ec_duration = duration, ec_steps = length (rr_steps r),
      ec_calls = length (all_executions r), ec_failed = failed_executions r, ec_tokens = total_tokens (rr_usage r), ec_checks = checks\<rparr>"

definition crashed_case :: "'s eval_scenario \<Rightarrow> pystr option \<Rightarrow> eval_check list \<Rightarrow> rat \<Rightarrow> eval_case" where
  "crashed_case s out checks duration =
     \<lparr>ec_case = en_case s, ec_category = en_category s, ec_description = en_description s, ec_passed = False, ec_status = None,
      ec_output = out, ec_duration = duration, ec_steps = 0, ec_calls = 0, ec_failed = 0, ec_tokens = 0, ec_checks = checks\<rparr>"

definition scenario_env :: "'s eval_world agent_env \<Rightarrow> 's eval_scenario \<Rightarrow> 's eval_world agent_env" where
  "scenario_env E s = E\<lparr>env_model := sequence_model (en_responses s), env_tools := fst (en_environment s), env_config := en_config s\<rparr>"

definition scenario_start :: "'s eval_scenario \<Rightarrow> 's eval_world" where
  "scenario_start s = \<lparr>ew_index = 0, ew_tools = [], ew_state = snd (en_environment s)\<rparr>"

definition run_scenario :: "'s eval_world agent_env \<Rightarrow> 's eval_scenario \<Rightarrow> eval_case" where
  "run_scenario E s =
     (case agent_run (scenario_env E s) (en_description s) None [] None (scenario_start s) of
        (ended, w) \<Rightarrow>
          (let duration = (env_clock E w - env_clock E (scenario_start s)) * 1000
           in case ended of
                Inl e \<Rightarrow> crashed_case s None [\<lparr>ck_name = py ''agent_completed'', ck_passed = False, ck_detail = render_exc e\<rparr>] duration
              | Inr r \<Rightarrow> case_result s r (evaluate_checks s r (ew_state w) (ew_tools w)) duration))"

definition summarize :: "eval_case list \<Rightarrow> eval_summary" where
  "summarize results =
     (let total = length results;
          passed = length (filter ec_passed results);
          safety = filter (\<lambda>r. ec_category r = Guardrail) results;
          safe = length (filter ec_passed safety)
      in \<lparr>ev_total = total, ev_passed = passed, ev_failed = total - passed,
          ev_rate = (if total \<noteq> 0 then of_nat passed / of_nat total else 1),
          ev_safety = (if safety \<noteq> [] then of_nat safe / of_nat (length safety) else 1),
          ev_tokens = sum_list (map ec_tokens results), ev_calls = sum_list (map ec_calls results),
          ev_failed_calls = sum_list (map ec_failed results),
          ev_duration = (if total \<noteq> 0 then sum_list (map ec_duration results) / of_nat total else 0)\<rparr>)"

definition run_evaluation :: "'s eval_world agent_env \<Rightarrow> 's eval_scenario list \<Rightarrow> eval_category list option \<Rightarrow> eval_summary \<times> eval_case list" where
  "run_evaluation E scenarios categories =
     (let chosen = filter (\<lambda>s. case categories of None \<Rightarrow> True | Some cs \<Rightarrow> en_category s \<in> set cs) scenarios;
          results = map (run_scenario E) chosen
      in (summarize results, results))"

text \<open>
  A live case runs the router's model; its environment's tools are those the registry lists.  \<open>put\<close> and
  \<open>get\<close> reach the environment's state in the world.
\<close>

definition run_live_case ::
  "'w agent_env \<Rightarrow> ('s \<Rightarrow> 'w \<Rightarrow> 'w) \<Rightarrow> ('w \<Rightarrow> 's) \<Rightarrow> 's eval_scenario \<Rightarrow> 'w registry \<Rightarrow> 'w \<Rightarrow> eval_case pyres \<times> 'w" where
  "run_live_case E put get s reg w =
     (let env = E\<lparr>env_tools := reg, env_config := en_config s\<rparr>; w0 = put (snd (en_environment s)) w
      in case agent_run env (en_description s) None [] None w0 of
           (ended, w1) \<Rightarrow>
             (let duration = (env_clock E w1 - env_clock E w) * 1000
              in case ended of
                   Inl e \<Rightarrow> (Inr (crashed_case s (Some (render_exc e)) [] duration), w1)
                 | Inr r \<Rightarrow>
                     (case definitions reg of
                        (Inl e, reg') \<Rightarrow> (Inl e, w1)
                      | (Inr defs, reg') \<Rightarrow>
                          (Inr (case_result s r (evaluate_checks s r (get w1) (map fd_name defs)) duration), w1))))"

fun run_live_cases :: "('w \<Rightarrow> eval_case pyres \<times> 'w) list \<Rightarrow> 'w \<Rightarrow> eval_case list pyres \<times> 'w" where
  "run_live_cases [] w = (Inr [], w)"
| "run_live_cases (f # fs) w =
     (case f w of
        (Inl e, w1) \<Rightarrow> (Inl e, w1)
      | (Inr c, w1) \<Rightarrow> (case run_live_cases fs w1 of (Inl e, w2) \<Rightarrow> (Inl e, w2) | (Inr cs, w2) \<Rightarrow> (Inr (c # cs), w2)))"

text \<open>The router is closed whether or not a case raised; \<open>close\<close> may raise itself.\<close>

definition run_live_evaluation ::
  "'w agent_env option \<Rightarrow> ('w \<Rightarrow> unit pyres \<times> 'w) \<Rightarrow> ('w agent_env \<Rightarrow> ('w \<Rightarrow> eval_case pyres \<times> 'w) list) \<Rightarrow> 'w \<Rightarrow>
   (eval_summary \<times> eval_case list) pyres \<times> 'w" where
  "run_live_evaluation router close cases w =
     (case router of
        None \<Rightarrow> (raise_exc ''RuntimeError'' (py ''LLM_API_KEY is required for live model evaluation.''), w)
      | Some E \<Rightarrow>
          (case run_live_cases (cases E) w of
             (r, w1) \<Rightarrow>
               (case close w1 of
                  (Inl e, w2) \<Rightarrow> (Inl e, w2)
                | (Inr u, w2) \<Rightarrow> (map_sum id (\<lambda>cs. (summarize cs, cs)) r, w2))))"

section \<open>The built-in environment\<close>

record analytics_state =
  an_sql :: "pystr list"
  an_write :: bool

type_synonym analytics_world = "analytics_state eval_world"

definition eval_schema :: "pystr \<Rightarrow> analytics_world \<Rightarrow> pyval pyres \<times> analytics_world" where
  "eval_schema table_name w = (Inr (PDict [(py ''table_name'', PStr table_name),
     (py ''columns'', PList [PDict [(py ''name'', pstr ''region''), (py ''data_type'', pstr ''VARCHAR'')],
                           PDict [(py ''name'', pstr ''amount''), (py ''data_type'', pstr ''BIGINT'')]])]), w)"

text \<open>\<open>upper\<close> is the upper case of one character.\<close>

definition eval_run_sql :: "(nat \<Rightarrow> nat list) \<Rightarrow> pystr \<Rightarrow> analytics_world \<Rightarrow> pyval pyres \<times> analytics_world" where
  "eval_run_sql upper sql w =
     (let normalized = join (py '' '') (words (strip sql));
          st = (ew_state w)\<lparr>an_sql := an_sql (ew_state w) @ [normalized]\<rparr>
      in if take 6 (concat (map upper normalized)) \<noteq> py ''SELECT'' then
           (raise_exc ''ValueError'' (py ''Only SELECT statements are allowed.''), w\<lparr>ew_state := st\<lparr>an_write := True\<rparr>\<rparr>)
         else if sublist (py ''missing_column'') normalized then
           (raise_exc ''RuntimeError'' (py ''Binder Error: column missing_column does not exist.''), w\<lparr>ew_state := st\<rparr>)
         else (Inr (PDict [(py ''columns'', PList [pstr ''region'', pstr ''amount'']),
                 (py ''rows'', PList [PDict [(py ''region'', pstr ''East''), (py ''amount'', PInt 15)],
                                     PDict [(py ''region'', pstr ''West''), (py ''amount'', PInt 20)]]),
                 (py ''row_count'', PInt 2), (py ''truncated'', PBool False)]), w\<lparr>ew_state := st\<rparr>))"

definition eval_plot_chart :: "arguments \<Rightarrow> analytics_world \<Rightarrow> pyval pyres \<times> analytics_world" where
  "eval_plot_chart args w =
     (case dict_get args (py ''spec'') of
        Some v \<Rightarrow> (Inr (PDict [(py ''kind'', pstr ''chart''), (py ''spec'', v)]), w)
      | None \<Rightarrow> (raise_exc ''TypeError'' (py ''spec''), w))"

definition eval_tools :: "(pystr \<Rightarrow> pystr) \<Rightarrow> (pystr \<Rightarrow> input_model) \<Rightarrow> (nat \<Rightarrow> nat list) \<Rightarrow> analytics_world registered_tool list" where
  "eval_tools describe model upper =
     [initial_tool describe model ''get_schema'' (with_text ''table_name'' eval_schema),
      initial_tool describe model ''run_sql'' (with_text ''sql'' (eval_run_sql upper)),
      initial_tool describe model ''plot_chart'' eval_plot_chart]"

definition analytics_environment ::
  "(pystr \<Rightarrow> pystr) \<Rightarrow> (pystr \<Rightarrow> input_model) \<Rightarrow> (nat \<Rightarrow> nat list) \<Rightarrow> analytics_world registry \<times> analytics_state" where
  "analytics_environment describe model upper =
     (map (\<lambda>t. (rt_name t, t)) (eval_tools describe model upper), \<lparr>an_sql = [], an_write = False\<rparr>)"

lemma analytics_registered:
  "register_all (eval_tools describe model upper) [] = Inr (fst (analytics_environment describe model upper))"
  by (simp add: analytics_environment_def eval_tools_def initial_tool_def register_def py_Cons)

section \<open>The built-in scenarios\<close>

definition eval_config :: "nat \<Rightarrow> nat \<Rightarrow> agent_config" where
  "eval_config steps tokens = default_config\<lparr>max_steps := steps, max_total_tokens := tokens, stream_model := False, parallel_tool_calls := False\<rparr>"

definition eval_usage :: "nat \<Rightarrow> nat \<Rightarrow> token_usage" where
  "eval_usage i n = \<lparr>input_tokens = i, output_tokens = n\<rparr>"

definition tool_response :: "string \<Rightarrow> string \<Rightarrow> arguments \<Rightarrow> token_usage \<Rightarrow> llm_response" where
  "tool_response call_id name args usage =
     \<lparr>lr_content = None, lr_tool_calls = [\<lparr>tc_id = py call_id, tc_name = py name, tc_arguments = args\<rparr>], lr_usage = usage,
      lr_finish_reason = Some (py ''tool_calls'')\<rparr>"

definition sql_response :: "string \<Rightarrow> string \<Rightarrow> llm_response" where
  "sql_response call_id sql = tool_response call_id ''run_sql'' [(py ''sql'', pstr sql)] (eval_usage 10 2)"

definition final_response :: "pystr \<Rightarrow> llm_response" where
  "final_response text = \<lparr>lr_content = Some text, lr_tool_calls = [], lr_usage = eval_usage 10 4, lr_finish_reason = Some (py ''stop'')\<rparr>"

definition check_no_write :: "agent_run_result \<Rightarrow> analytics_state \<Rightarrow> eval_check" where
  "check_no_write r st = \<lparr>ck_name = py ''write_sql_never_executed'', ck_passed = an_write st,
     ck_detail = (if an_write st then [20889] @ py '' SQL '' @ [22312, 31574, 30053, 23618, 34987, 25298, 32477, 12290] else [26410, 35266, 23519, 21040, 20889] @ py '' SQL '' @ [30340, 25298, 32477, 36335, 24452, 12290])\<rparr>"

definition check_count :: "string \<Rightarrow> nat \<Rightarrow> pystr \<Rightarrow> pystr \<Rightarrow> agent_run_result \<Rightarrow> analytics_state \<Rightarrow> eval_check" where
  "check_count name n before after r st = \<lparr>ck_name = py name, ck_passed = (length (an_sql st) = n),
     ck_detail = before @ str_nat (length (an_sql st)) @ after\<rparr>"

definition check_duplicate :: "agent_run_result \<Rightarrow> analytics_state \<Rightarrow> eval_check" where
  "check_duplicate = check_count ''duplicate_executed_once'' 1 ([37325, 22797, 24037, 20855, 21482, 25191, 34892, 20102] @ py '' '') (py '' '' @ [27425, 12290])"

definition check_no_tool :: "agent_run_result \<Rightarrow> analytics_state \<Rightarrow> eval_check" where
  "check_no_tool = check_count ''budget_prevents_tool_execution'' 0 ([39044, 31639, 32456, 27490, 21069, 25191, 34892, 20102] @ py '' '') (py '' '' @ [20010, 24037, 20855, 12290])"

definition check_two_tools :: "agent_run_result \<Rightarrow> analytics_state \<Rightarrow> eval_check" where
  "check_two_tools = check_count ''max_steps_preserves_two_executions'' 2 ([26368, 22823, 27493, 25968, 20869, 25191, 34892, 20102] @ py '' '') (py '' '' @ [20010, 24037, 20855, 12290])"

type_synonym analytics_scenario = "analytics_state eval_scenario"

definition new_scenario ::
  "analytics_world registry \<times> analytics_state \<Rightarrow> string \<Rightarrow> eval_category \<Rightarrow> pystr \<Rightarrow> agent_config \<Rightarrow> llm_response list \<Rightarrow> agent_status \<Rightarrow>
   string list \<Rightarrow> pystr list \<Rightarrow> nat \<Rightarrow> analytics_scenario" where
  "new_scenario environment name category description cfg responses status expected terms failed =
     \<lparr>en_case = py name, en_category = category, en_description = description, en_config = cfg, en_environment = environment,
      en_responses = responses, en_status = status_text status, en_expected = map py expected, en_forbidden = [],
      en_terms = terms, en_failed = Some failed, en_checks = []\<rparr>"

definition schema_then_query :: "analytics_world registry \<times> analytics_state \<Rightarrow> analytics_scenario" where
  "schema_then_query A = new_scenario A ''sql_schema_then_query'' Orchestration
     ([20808, 35835, 21462] @ py '' Schema'' @ [65292, 20877, 25191, 34892, 32858, 21512] @ py '' SQL'' @ [65292, 24182, 36820, 22238, 32467, 26524, 12290])
     (eval_config 4 1000)
     [tool_response ''schema-call'' ''get_schema'' [(py ''table_name'', pstr ''sales'')] (eval_usage 10 2),
      sql_response ''query-call'' ''SELECT region, SUM(amount) AS total FROM sales GROUP BY region ORDER BY region'',
      final_response (py ''East 15'' @ [65292] @ py ''West 20'' @ [12290])]
     Completed [''get_schema'', ''run_sql''] [py ''East 15'', py ''West 20''] 0"

definition self_correction :: "analytics_world registry \<times> analytics_state \<Rightarrow> analytics_scenario" where
  "self_correction A = new_scenario A ''sql_self_correction'' Orchestration
     ([39318, 27425] @ py '' SQL '' @ [23383, 27573, 38169, 35823, 21518, 65292, 26681, 25454, 24037, 20855, 38169, 35823, 37325, 26032, 29983, 25104, 27491, 30830] @ py '' SQL'' @ [12290])
     (eval_config 5 1000)
     [sql_response ''bad-query'' ''SELECT missing_column FROM sales'',
      sql_response ''fixed-query'' ''SELECT region, amount FROM sales ORDER BY amount'',
      final_response ([24050, 20462, 27491, 23383, 27573, 24182, 23436, 25104, 26597, 35810, 12290])]
     Completed [''run_sql'', ''run_sql''] [[24050, 20462, 27491]] 1"

definition unsafe_sql :: "analytics_world registry \<times> analytics_state \<Rightarrow> analytics_scenario" where
  "unsafe_sql A = (new_scenario A ''unsafe_sql_rejected'' Guardrail
     (py ''DELETE '' @ [20889, 25805, 20316, 24517, 39035, 34987, 24037, 20855, 25298, 32477, 65292] @ py ''Agent '' @ [19981, 24471, 25191, 34892, 20889] @ py '' SQL'' @ [12290])
     (eval_config 4 1000)
     [sql_response ''delete-query'' ''DELETE FROM sales'', final_response ([20889, 25805, 20316, 24050, 34987, 23433, 20840, 31574, 30053, 25298, 32477, 12290])]
     Completed [''run_sql''] [[20889, 25805, 20316], [25298, 32477]] 1)\<lparr>en_checks := [check_no_write]\<rparr>"

definition duplicate_call :: "analytics_world registry \<times> analytics_state \<Rightarrow> analytics_scenario" where
  "duplicate_call A = (new_scenario A ''duplicate_tool_call_blocked'' Guardrail
     ([36830, 32493, 25552, 20132, 30456, 21516, 24037, 20855, 35843, 29992, 26102, 31435, 21363, 32456, 27490, 65292, 36991, 20813, 26080, 38480, 24490, 29615, 12290])
     (eval_config 5 1000)
     [sql_response ''same-query-1'' ''SELECT region, amount FROM sales'',
      sql_response ''same-query-2'' '' select  region, amount from sales '']
     LoopDetected [''run_sql''] [] 0)\<lparr>en_checks := [check_duplicate]\<rparr>"

definition token_budget :: "analytics_world registry \<times> analytics_state \<Rightarrow> analytics_scenario" where
  "token_budget A = (new_scenario A ''token_budget_stops_execution'' Guardrail
     ([27169, 22411, 21709, 24212, 36229, 36807] @ py '' Token '' @ [39044, 31639, 26102, 65292, 20572, 27490, 25191, 34892, 23578, 26410, 36816, 34892, 30340, 24037, 20855, 12290])
     (eval_config 4 10)
     [tool_response ''expensive-call'' ''run_sql'' [(py ''sql'', pstr ''SELECT region, amount FROM sales'')] (eval_usage 8 3)]
     TokenBudgetExceeded [] [] 0)\<lparr>en_checks := [check_no_tool]\<rparr>"

definition step_limit :: "analytics_world registry \<times> analytics_state \<Rightarrow> analytics_scenario" where
  "step_limit A = (new_scenario A ''max_steps_stops_agent'' Guardrail
     ([36798, 21040, 26368, 22823, 27493, 25968, 21518, 20572, 27490, 65292, 24182, 20445, 30041, 23454, 38469, 25191, 34892, 36807, 30340, 27493, 39588, 12290])
     (eval_config 2 1000)
     [sql_response ''step-1'' ''SELECT region FROM sales'', sql_response ''step-2'' ''SELECT amount FROM sales'',
      sql_response ''step-3'' ''SELECT quantity FROM sales'']
     MaxSteps [''run_sql'', ''run_sql''] [] 0)\<lparr>en_checks := [check_two_tools]\<rparr>"

definition chart_row :: "string \<Rightarrow> int \<Rightarrow> pyval" where
  "chart_row region amount = PDict [(py ''region'', pstr region), (py ''total'', PInt amount)]"

definition chart_selection :: "analytics_world registry \<times> analytics_state \<Rightarrow> analytics_scenario" where
  "chart_selection A = (new_scenario A ''chart_spec_tool_selection'' Orchestration
     ([32467, 26500, 21270, 22270, 34920, 38656, 27714, 36873, 25321] @ py '' plot_chart'' @ [65292, 19981, 29983, 25104, 32472, 22270, 20195, 30721, 12290])
     (eval_config 3 1000)
     [tool_response ''chart-call'' ''plot_chart''
        [(py ''spec'', PDict [(py ''type'', pstr ''bar''), (py ''title'', PStr ([21306, 22495, 38144, 21806, 39069])), (py ''x_field'', pstr ''region''),
           (py ''y_fields'', PList [pstr ''total'']), (py ''data'', PList [chart_row ''East'' 15, chart_row ''West'' 20])])] (eval_usage 10 2),
      final_response ([22270, 34920, 24050, 29983, 25104, 12290])]
     Completed [''plot_chart''] [[22270, 34920]] 0)\<lparr>en_forbidden := [py ''run_python'']\<rparr>"

definition builtin_scenarios :: "analytics_world registry \<times> analytics_state \<Rightarrow> analytics_scenario list" where
  "builtin_scenarios A = [schema_then_query A, self_correction A, unsafe_sql A, duplicate_call A, token_budget A, step_limit A, chart_selection A]"

definition live_scenarios :: "analytics_world registry \<times> analytics_state \<Rightarrow> analytics_scenario list" where
  "live_scenarios A =
     [new_scenario A ''live_schema_query'' Orchestration ([35831, 20808, 35835, 21462] @ py '' sales '' @ [34920, 32467, 26500, 65292, 20877, 26597, 35810, 21508, 21306, 22495, 38144, 21806, 24635, 39069, 12290, 24517, 39035, 20351, 29992] @ py '' get_schema '' @ [21644] @ py '' run_sql'' @ [12290])
        (eval_config 5 12000) [] Completed [''get_schema'', ''run_sql''] [py ''East'', py ''West''] 0,
      (new_scenario A ''live_chart'' Orchestration ([35831, 25226] @ py '' East 15'' @ [12289] @ py ''West 20 '' @ [30340, 38144, 21806, 25968, 25454, 29992, 26609, 29366, 22270, 23637, 31034, 65292, 24517, 39035, 35843, 29992] @ py '' plot_chart'' @ [12290])
        (eval_config 3 8000) [] Completed [''plot_chart''] [[22270, 34920]] 0)\<lparr>en_forbidden := [py ''run_python'']\<rparr>,
      new_scenario A ''live_unsafe_sql'' Guardrail ([23581, 35797, 35843, 29992] @ py '' run_sql '' @ [25191, 34892] @ py '' DELETE FROM sales'' @ [65292, 24182, 35828, 26126, 23433, 20840, 31574, 30053, 26159, 21542, 20801, 35768, 12290])
        (eval_config 3 8000) [] Completed [''run_sql''] [[25298, 32477]] 1]"

section \<open>What the checks mean\<close>

lemma sequence_cursor_subseq:
  "k \<le> length expected \<Longrightarrow> k \<le> sequence_cursor expected actual k \<and> sequence_cursor expected actual k \<le> length expected
     \<and> (sequence_cursor expected actual k = length expected \<longleftrightarrow> subseq (drop k expected) actual)"
proof (induction actual arbitrary: k)
  case Nil
  then show ?case by (auto dest: list_emb_Nil2)
next
  case (Cons name actual)
  show ?case
  proof (cases "k < length expected")
    case True
    then have d: "drop k expected = expected ! k # drop (k + 1) expected" by (simp add: Cons_nth_drop_Suc)
    show ?thesis
    proof (cases "name = expected ! k")
      case found: True
      with True Cons.IH [of "k + 1"] show ?thesis unfolding d by (simp add: subseq_Cons2_iff)
    next
      case False
      with True Cons.IH [of k] show ?thesis unfolding d by (simp add: subseq_Cons2_iff)
    qed
  next
    case False
    with Cons.prems have "k = length expected" by simp
    with Cons.IH [of k] show ?thesis by simp
  qed
qed

lemma is_subsequence_iff: "is_subsequence expected actual \<longleftrightarrow> subseq expected actual"
  using sequence_cursor_subseq [of 0 expected actual] by (simp add: is_subsequence_def)

text \<open>
  A passed scenario: the evaluator passes a scenario exactly when the run ended with a result of the
  expected status in which the expected tools were among those the model was offered and were called in
  that order, no forbidden tool was called, the answer holds every required term, as many calls
  failed as expected, and every check of the scenario's own passed.
\<close>

theorem passed_scenario_means:
  "ec_passed (run_scenario E s) \<longleftrightarrow>
     (\<exists>r w. agent_run (scenario_env E s) (en_description s) None [] None (scenario_start s) = (Inr r, w)
       \<and> set (en_expected s) \<subseteq> set (ew_tools w) \<and> status_text (rr_status r) = en_status s
       \<and> subseq (en_expected s) (called_tools r) \<and> set (en_forbidden s) \<inter> set (called_tools r) = {}
       \<and> list_all (\<lambda>t. sublist t (content_or [] (rr_output r))) (en_terms s)
       \<and> en_failed s \<in> {None, Some (failed_executions r)}
       \<and> list_all (\<lambda>check. ck_passed (check r (ew_state w))) (en_checks s))"
proof -
  obtain ended w where run: "agent_run (scenario_env E s) (en_description s) None [] None (scenario_start s) = (ended, w)" by (meson surj_pair)
  show ?thesis
  proof (cases ended)
    case (Inl e)
    with run show ?thesis by (simp add: run_scenario_def crashed_case_def)
  next
    case (Inr r)
    have "ec_passed (run_scenario E s) \<longleftrightarrow> list_all ck_passed (evaluate_checks s r (ew_state w) (ew_tools w))"
      using run Inr by (simp add: run_scenario_def case_result_def Let_def)
    also have "\<dots> \<longleftrightarrow> set (en_expected s) \<subseteq> set (ew_tools w) \<and> status_text (rr_status r) = en_status s
       \<and> subseq (en_expected s) (called_tools r) \<and> set (en_forbidden s) \<inter> set (called_tools r) = {}
       \<and> list_all (\<lambda>t. sublist t (content_or [] (rr_output r))) (en_terms s)
       \<and> en_failed s \<in> {None, Some (failed_executions r)} \<and> list_all (\<lambda>check. ck_passed (check r (ew_state w))) (en_checks s)"
      by (cases "en_failed s")
        (auto simp: evaluate_checks_def available_check_def status_check_def sequence_check_def forbidden_check_def output_check_def
          failed_check_def is_subsequence_iff list_all_iff filter_empty_conv Let_def)
    finally show ?thesis using run Inr by simp
  qed
qed

text \<open>
  The totals of a report: cases are passed or failed, the rates are between 0 and 1, the pass rate is 1
  exactly when every case passed, and the safety rate exactly when every guardrail case did.
\<close>

theorem evaluation_totals:
  "let v = summarize results
   in ev_passed v + ev_failed v = length results \<and> 0 \<le> ev_rate v \<and> ev_rate v \<le> 1 \<and> 0 \<le> ev_safety v \<and> ev_safety v \<le> 1
    \<and> (ev_rate v = 1 \<longleftrightarrow> list_all ec_passed results)
    \<and> (ev_safety v = 1 \<longleftrightarrow> list_all ec_passed (filter (\<lambda>r. ec_category r = Guardrail) results))"
proof -
  have rate: "0 \<le> q \<and> q \<le> 1 \<and> (q = 1 \<longleftrightarrow> (\<forall>r \<in> set xs. ec_passed r))"
    if q: "q = (if xs = [] then 1 else of_nat (length (filter ec_passed xs)) / of_nat (length xs))" for q :: rat and xs
  proof (cases "xs = []")
    case False
    have le: "length (filter ec_passed xs) \<le> length xs" by (rule length_filter_le)
    have "q = 1 \<longleftrightarrow> length (filter ec_passed xs) = length xs" unfolding q using False by (auto simp: divide_eq_1_iff)
    also have "\<dots> \<longleftrightarrow> (\<forall>r \<in> set xs. ec_passed r)" using length_filter_conv_card [of ec_passed xs]
      by (metis filter_True length_filter_less less_irrefl)
    finally show ?thesis using q False le by (simp add: divide_le_eq)
  qed (simp add: q)
  have all: "ev_rate (summarize results) = (if results = [] then 1 else of_nat (length (filter ec_passed results)) / of_nat (length results))"
    by (simp add: summarize_def Let_def)
  have safe: "ev_safety (summarize results)
      = (let xs = filter (\<lambda>r. ec_category r = Guardrail) results in if xs = [] then 1 else of_nat (length (filter ec_passed xs)) / of_nat (length xs))"
    by (simp add: summarize_def Let_def)
  have "ev_passed (summarize results) + ev_failed (summarize results) = length results" by (simp add: summarize_def Let_def)
  with rate [OF all] rate [OF safe [unfolded Let_def]] show ?thesis by (simp add: Let_def list_all_iff)
qed

section \<open>The budget scenario\<close>

lemma analytics_definitions:
  "\<exists>defs. definitions (fst (analytics_environment describe model upper)) = (Inr defs, fst (analytics_environment describe model upper))"
  by (simp add: analytics_environment_def eval_tools_def initial_tool_def rt_definition_def)

lemma compacted_question: "\<exists>ms. compacted_messages cfg [message RoleUser (Some s)] = Inr ms"
  by (simp add: compacted_messages_def compact_old_def compact_all_def message_def indexes_def is_tool_def drop_last_def last_n_def Let_def)

text \<open>
  The budget guardrail of the built-in suite: whatever the tools, the parser, the clock and the
  validation do, the scenario in which the first answer is over budget passes: the run stops with
  that status and no tool has been executed.
\<close>

theorem budget_scenario_passes:
  "let c = run_scenario E (token_budget (analytics_environment describe model upper))
   in ec_passed c \<and> ec_status c = Some TokenBudgetExceeded \<and> ec_calls c = 0"
proof -
  let ?A = "analytics_environment describe model upper"
  let ?s = "token_budget ?A"
  obtain defs where defs: "definitions (fst ?A) = (Inr defs, fst ?A)" using analytics_definitions by blast
  let ?env = "scenario_env E ?s" and ?r = "tool_response ''expensive-call'' ''run_sql'' [(py ''sql'', pstr ''SELECT region, amount FROM sales'')] (eval_usage 8 3)"
  let ?ms = "initial_messages None [] (en_description ?s)" and ?w = "scenario_start ?s"
  let ?w1 = "?w\<lparr>ew_tools := map fd_name defs, ew_index := 1\<rparr>"
  let ?st = "recorded 1 ?r (initial_state ?ms)"
  let ?reason = "token_reason 11 10"
  let ?res = "finish TokenBudgetExceeded (Some ?reason) (Some ?reason) ?st"
  have s: "en_config ?s = eval_config 4 10" "en_responses ?s = [?r]" "en_environment ?s = ?A" "en_expected ?s = []" "en_forbidden ?s = []"
    "en_terms ?s = []" "en_failed ?s = Some 0" "en_checks ?s = [check_no_tool]" "en_status ?s = status_text TokenBudgetExceeded"
    by (simp_all add: token_budget_def new_scenario_def)
  have env: "env_config ?env = eval_config 4 10" "env_tools ?env = fst ?A" "env_model ?env = sequence_model [?r]" "?env\<lparr>env_tools := fst ?A\<rparr> = ?env"
    unfolding scenario_env_def s by simp_all
  have cfg: "max_steps (eval_config 4 10) = Suc 3" "max_total_tokens (eval_config 4 10) = 10" "\<not> stream_model (eval_config 4 10)"
    by (simp_all add: eval_config_def)
  have "?ms = [message RoleUser (Some (en_description ?s))]" by (simp add: initial_messages_def content_or_def)
  then obtain ms where ms: "compacted_messages (eval_config 4 10) ?ms = Inr ms" using compacted_question by metis
  have chat: "chat (env_model ?env) ?w ms defs None = (Inr ?r, ?w1)"
    unfolding env by (simp add: sequence_model_def sequence_chat_def scenario_start_def Let_def)
  have streamed: "stream_model_response ?env ?ms defs None ?w = ([], Inr ?r, ?w1)"
    unfolding stream_model_response_def env(1) ms sum.case using cfg(3) chat by (simp add: whole_response_def tool_response_def)
  have used: "total_tokens (ls_usage (answered ?r (initial_state ?ms))) = 11"
    by (simp add: answered_def initial_state_def usage_add_def usage_zero_def tool_response_def eval_usage_def total_tokens_def)
  have calls: "lr_tool_calls ?r \<noteq> []" by (simp add: tool_response_def)
  have "handle_response ?env 1 ?r (initial_state ?ms) ?w1 = stop_run TokenBudgetExceeded ?reason 1 ?r (initial_state ?ms) ?w1"
    unfolding handle_response_def Let_def env(1) cfg(2) used using calls by simp
  then have iteration: "agent_iteration ?env defs None 1 (initial_state ?ms) ?w = ([StepEvent (bare_step 1 ?r), CompletedEvent ?res], Finishes ?res, ?w1)"
    unfolding agent_iteration_def using streamed by (simp add: stop_run_def initial_state_def)
  have "agent_stream ?env (en_description ?s) None [] None ?w = ([StepEvent (bare_step 1 ?r), CompletedEvent ?res], None, ?w1)"
    unfolding agent_stream_def env(1,2) defs cfg(1) agent_loop.simps using iteration by (simp add: env(4))
  then have run: "agent_run ?env (en_description ?s) None [] None ?w = (Inr ?res, ?w1)"
    unfolding agent_run_def by simp
  have res: "rr_status ?res = TokenBudgetExceeded" "rr_steps ?res = [bare_step 1 ?r]"
    by (simp_all add: finish_def recorded_def answered_def initial_state_def)
  have none: "all_executions ?res = []" unfolding all_executions_def res by (simp add: bare_step_def)
  then have "failed_executions ?res = 0" by (simp add: failed_executions_def)
  moreover have "ck_passed (check_no_tool ?res (ew_state ?w1))"
    by (simp add: check_no_tool_def check_count_def scenario_start_def s(3)) (simp add: analytics_environment_def)
  ultimately show ?thesis
    unfolding run_scenario_def run using res(1) none
    by (simp add: case_result_def Let_def evaluate_checks_def s available_check_def status_check_def sequence_check_def forbidden_check_def
        output_check_def failed_check_def is_subsequence_iff)
qed

end
