(* ===== verification/Application.thy ===== *)
theory Application
  imports Python_Tool Mcp_Properties
begin

text \<open>
  How the parts are put together: the start and the end of the application in \<open>app/main.py\<close>, the readiness
  route of \<open>app/api/routes/health.py\<close> and the demonstration server of \<open>app/mcp/server.py\<close>.
\<close>

section \<open>The demonstration server\<close>

definition department_columns :: "(pystr \<times> pystr) list" where
  "department_columns = map (map_prod py py) [(''id'', ''INTEGER''), (''name'', ''VARCHAR''), (''location'', ''VARCHAR'')]"

definition department_rows :: "pyval list list" where
  "department_rows = map (\<lambda>(i, name, place). [PInt i, pstr name, pstr place])
     [(1, ''Engineering'', ''Shanghai''), (2, ''Sales'', ''Beijing''), (3, ''Operations'', ''Shenzhen'')]"

definition employee_columns :: "(pystr \<times> pystr) list" where
  "employee_columns = map (map_prod py py) [(''id'', ''INTEGER''), (''name'', ''VARCHAR''), (''department_id'', ''INTEGER''),
     (''salary'', ''DECIMAL(12,2)''), (''hire_date'', ''DATE'')]"

definition employee_rows :: "pyval list list" where
  "employee_rows = map (\<lambda>(i, name, d, salary, day). [PInt i, pstr name, PInt d, PInt salary, pstr day])
     [(101, ''Alice'', 1, 28000, ''2023-01-10''), (102, ''Bob'', 1, 24000, ''2023-05-22''), (103, ''Carol'', 2, 21000, ''2022-11-03''),
      (104, ''David'', 2, 23000, ''2024-02-18''), (105, ''Eve'', 3, 19000, ''2023-08-01'')]"

text \<open>The server's engine is opened with a limit of 500 rows.\<close>

definition company_engine :: "'e duckdb \<Rightarrow> 'e duckdb" where
  "company_engine D = D\<lparr>dk_max_rows := 500\<rparr>"

definition build_company_engine :: "'e duckdb \<Rightarrow> 'e \<Rightarrow> unit pyres \<times> 'e" where
  "build_company_engine D e =
     then_do (register_rows (company_engine D) (py ''departments'') department_columns department_rows e) (\<lambda>u e.
       register_rows (company_engine D) (py ''employees'') employee_columns employee_rows e)"

definition company_hint :: pystr where
  "company_hint = py '' '' @ [20844, 21496] @ py '' MCP '' @ [25968, 25454, 21482, 20801, 35768] @ py '' departments '' @ [21644] @ py '' employees'' @ [65307, 35831, 20808, 35843, 29992] @ py '' get_company_schema '' @ [33719, 21462, 21512, 27861, 23383, 27573, 65292, 19981, 35201, 26597, 35810] @ py '' information_schema '' @ [25110, 20351, 29992] @ py '' schema '' @ [38480, 23450, 21517, 31216, 12290]"

text \<open>\<open>value_error\<close> says which exceptions are a \<open>ValueError\<close>; those are raised again with the hint.\<close>

definition company_sql :: "'e duckdb \<Rightarrow> sql_policy \<Rightarrow> (py_exc \<Rightarrow> bool) \<Rightarrow> pystr \<Rightarrow> 'e \<Rightarrow> pystr pyres \<times> 'e" where
  "company_sql D p value_error sql e =
     (case then_do (list_table_names (company_engine D) e) (\<lambda>allowed e. (validate p sql allowed, e)) of
        (Inl x, e1) \<Rightarrow> (if value_error x then raise_exc ''ValueError'' (exc_text x @ company_hint) else Inl x, e1)
      | (Inr safe, e1) \<Rightarrow> (Inr safe, e1))"

definition query_company_data ::
  "'e duckdb \<Rightarrow> sql_policy \<Rightarrow> (py_exc \<Rightarrow> bool) \<Rightarrow> (rat \<Rightarrow> pystr) \<Rightarrow> pystr \<Rightarrow> 'e \<Rightarrow> pyval pyres \<times> 'e" where
  "query_company_data D p value_error fl sql e =
     then_do (company_sql D p value_error sql e) (\<lambda>safe e.
     then_do (execute_select (company_engine D) safe None e) (\<lambda>q e. (Inr (dump_result fl q), e)))"

fun schemas_of :: "'e duckdb \<Rightarrow> pystr list \<Rightarrow> 'e \<Rightarrow> pyval list pyres \<times> 'e" where
  "schemas_of D [] e = (Inr [], e)"
| "schemas_of D (name # names) e =
     then_do (get_schema D name e) (\<lambda>s e. then_do (schemas_of D names e) (\<lambda>ss e. (Inr (dump_schema s # ss), e)))"

definition get_company_schema :: "'e duckdb \<Rightarrow> 'e \<Rightarrow> pyval pyres \<times> 'e" where
  "get_company_schema D e =
     then_do (list_table_names (company_engine D) e) (\<lambda>names e. then_do (schemas_of (company_engine D) names e) (\<lambda>ts e. (Inr (tables_payload ts), e)))"

text \<open>What the server runs is one safe statement over its own tables.\<close>

lemma company_query_guarded:
  assumes "query_company_data D p value_error fl sql e = (Inr v, e2)"
  shows "\<exists>allowed e1 t q. list_table_names (company_engine D) e = (Inr allowed, e1) \<and> sp_parse p sql = Parsed [Some t] \<and> statement_safe p allowed t
     \<and> execute_select (company_engine D) (sp_render p t) None e1 = (Inr q, e2) \<and> v = dump_result fl q"
proof -
  obtain l e1 where l: "list_table_names (company_engine D) e = (l, e1)" by (meson surj_pair)
  show ?thesis
  proof (cases l)
    case (Inl x)
    with assms l show ?thesis by (simp add: query_company_data_def company_sql_def then_do_def split: if_splits)
  next
    case (Inr allowed)
    show ?thesis
    proof (cases "validate p sql allowed")
      case (Inl x)
      with assms l Inr show ?thesis by (simp add: query_company_data_def company_sql_def then_do_def split: if_splits)
    next
      case valid: (Inr safe)
      then obtain t where t: "sp_parse p sql = Parsed [Some t]" "statement_safe p allowed t" "safe = sp_render p t" unfolding validate_Inr by blast
      with assms l Inr valid show ?thesis
        by (auto simp: query_company_data_def company_sql_def then_do_def split: prod.splits sum.splits)
    qed
  qed
qed

section \<open>Readiness\<close>

definition ok_text :: "bool \<Rightarrow> pystr" where
  "ok_text b = (if b then py ''ok'' else py ''error'')"

text \<open>
  The answers of the database and of Redis, of the MCP client when it is enabled (there may be none,
  and it may fail or take too long), and of the sandbox runner when there is a client for it.
\<close>

definition readiness :: "unit pyres \<Rightarrow> unit pyres \<Rightarrow> bool \<Rightarrow> bool pyres option \<Rightarrow> bool option \<Rightarrow> (pystr \<times> bool) list" where
  "readiness database redis mcp_enabled mcp sandbox =
     [(py ''postgres'', (case database of Inl e \<Rightarrow> False | Inr u \<Rightarrow> True)), (py ''redis'', (case redis of Inl e \<Rightarrow> False | Inr u \<Rightarrow> True))]
     @ (if mcp_enabled then [(py ''mcp'', (case mcp of Some (Inr b) \<Rightarrow> b | _ \<Rightarrow> False))] else [])
     @ (case sandbox of None \<Rightarrow> [] | Some b \<Rightarrow> [(py ''sandbox_runner'', b)])"

text \<open>The HTTP status, and the body.\<close>

definition ready :: "unit pyres \<Rightarrow> unit pyres \<Rightarrow> bool \<Rightarrow> bool pyres option \<Rightarrow> bool option \<Rightarrow> nat \<times> pyval" where
  "ready database redis mcp_enabled mcp sandbox =
     (let checks = map (\<lambda>(name, b). (name, ok_text b)) (readiness database redis mcp_enabled mcp sandbox);
          body = (\<lambda>status. PDict [(py ''status'', PStr status), (py ''checks'', PDict (map (\<lambda>(name, s). (name, PStr s)) checks))])
      in if py ''error'' \<in> set (map snd checks) then (503, body (py ''degraded'')) else (200, body (py ''ok'')))"

lemma ready_means:
  "fst (ready database redis mcp_enabled mcp sandbox) = 200 \<longleftrightarrow>
     is_ok database \<and> is_ok redis \<and> (mcp_enabled \<longrightarrow> mcp = Some (Inr True)) \<and> sandbox \<noteq> Some False"
proof -
  have "py ''ok'' \<noteq> py ''error''" by (simp add: py_Cons)
  then have "py ''error'' \<in> set (map snd (map (\<lambda>(name, b). (name, ok_text b)) xs)) \<longleftrightarrow> \<not> list_all snd xs" for xs :: "(pystr \<times> bool) list"
    by (induction xs) (auto simp: ok_text_def)
  then have "fst (ready database redis mcp_enabled mcp sandbox) = 200 \<longleftrightarrow> list_all snd (readiness database redis mcp_enabled mcp sandbox)"
    by (simp add: ready_def Let_def del: set_map)
  also have "\<dots> \<longleftrightarrow> is_ok database \<and> is_ok redis \<and> (mcp_enabled \<longrightarrow> mcp = Some (Inr True)) \<and> sandbox \<noteq> Some False"
    by (auto simp: readiness_def is_ok_iff split: option.splits sum.splits)
  finally show ?thesis .
qed

section \<open>Start and end\<close>

fun text_list :: "pyval \<Rightarrow> pystr list option" where
  "text_list (PList vs) = (if list_all (\<lambda>v. case v of PStr s \<Rightarrow> True | _ \<Rightarrow> False) vs
     then Some (map (\<lambda>v. case v of PStr s \<Rightarrow> s | _ \<Rightarrow> []) vs) else None)"
| "text_list v = None"

text \<open>The handler takes its validated arguments by name.\<close>

definition python_handler :: "('t, 'w) python_env \<Rightarrow> arguments \<Rightarrow> 'w \<Rightarrow> pyval pyres \<times> 'w" where
  "python_handler P args w =
     (case (dict_get args (py ''code''), dict_get args (py ''datasets'')) of
        (Some (PStr code), Some v) \<Rightarrow>
          (case text_list v of Some names \<Rightarrow> run_python P code names w | None \<Rightarrow> (raise_exc ''TypeError'' (py ''datasets''), w))
      | _ \<Rightarrow> (raise_exc ''TypeError'' (py ''code''), w))"

definition python_tool ::
  "(pystr \<Rightarrow> pystr) \<Rightarrow> (pystr \<Rightarrow> input_model) \<Rightarrow> ('t, 'w) python_env \<Rightarrow> 'w registered_tool" where
  "python_tool describe model P =
     \<lparr>rt_name = py ''run_python'', rt_description = describe (py ''run_python''), rt_input_model = Some (model (py ''run_python'')),
      rt_handler = python_handler P, rt_parallel_safe = False, rt_input_schema = None\<rparr>"

text \<open>The registry the application serves: the initial tools, then Python, then those of the MCP server.\<close>

definition startup_registry ::
  "(pystr \<Rightarrow> pystr) \<Rightarrow> (pystr \<Rightarrow> input_model) \<Rightarrow> (arguments \<Rightarrow> pyval pyres) \<Rightarrow> ('t, 'w) tools_env \<Rightarrow> ('t, 'w) python_env \<Rightarrow>
   'w registry pyres" where
  "startup_registry describe model chart E P =
     (case build_initial_registry describe model chart E of
        Inl e \<Rightarrow> Inl e
      | Inr reg \<Rightarrow> register (python_tool describe model P) reg)"

text \<open>An MCP server that cannot be reached and a restore that fails are logged; the start goes on.\<close>

definition start_mcp :: "bool \<Rightarrow> ('w \<Rightarrow> unit pyres \<times> 'w) \<Rightarrow> 'w \<Rightarrow> pystr option \<times> 'w" where
  "start_mcp enabled start w =
     (if \<not> enabled then (None, w)
      else case start w of (Inl e, w1) \<Rightarrow> (Some (exc_text e), w1) | (Inr u, w1) \<Rightarrow> (None, w1))"

definition start_restore :: "bool \<Rightarrow> ('w \<Rightarrow> unit pyres \<times> 'w) \<Rightarrow> 'w \<Rightarrow> 'w" where
  "start_restore enabled restore w = (if enabled then snd (restore w) else w)"

text \<open>At the end everything is closed in this order, until something raises.\<close>

fun close_all :: "('w \<Rightarrow> unit pyres \<times> 'w) list \<Rightarrow> 'w \<Rightarrow> unit pyres \<times> 'w" where
  "close_all [] w = (Inr (), w)"
| "close_all (f # fs) w = then_do (f w) (\<lambda>u w. close_all fs w)"

definition shutdown_order :: "'f \<Rightarrow> 'f option \<Rightarrow> 'f option \<Rightarrow> 'f \<Rightarrow> 'f \<Rightarrow> 'f \<Rightarrow> 'f \<Rightarrow> 'f list" where
  "shutdown_order tasks mcp router sandbox engine redis database =
     tasks # (case mcp of None \<Rightarrow> [] | Some f \<Rightarrow> [f]) @ (case router of None \<Rightarrow> [] | Some f \<Rightarrow> [f]) @ [sandbox, engine, redis, database]"

definition builtin_names :: "pystr list" where
  "builtin_names = map py [''list_tables'', ''get_schema'', ''run_sql'', ''plot_chart'', ''run_python'']"

lemma startup_registers:
  "startup_registry describe model chart E P
     = Inr (map (\<lambda>t. (rt_name t, t)) (build_initial_tools describe model chart E @ [python_tool describe model P]))"
  by (simp add: startup_registry_def build_initial_registry_def build_initial_tools_def initial_tool_def python_tool_def register_def py_Cons)

lemma startup_ok:
  assumes "startup_registry describe model chart E P = Inr reg"
  shows "dict_keys reg = builtin_names" "registry_ok reg"
proof -
  have reg: "reg = map (\<lambda>t. (rt_name t, t)) (build_initial_tools describe model chart E @ [python_tool describe model P])"
    using assms unfolding startup_registers by simp
  show keys: "dict_keys reg = builtin_names"
    unfolding reg by (simp add: build_initial_tools_def initial_tool_def python_tool_def builtin_names_def)
  have "distinct builtin_names" by (simp add: builtin_names_def py_Cons)
  then have "dict_ok reg" using keys by (simp add: dict_ok_def)
  then show "registry_ok reg"
    unfolding registry_ok_def reg by (auto simp: build_initial_tools_def initial_tool_def python_tool_def has_schema_def)
qed



end
