(* ===== verification/Configuration.thy ===== *)
theory Configuration
  imports Chat_Runtime Auth_Http Mcp_Properties Llm_Router Sandbox_Properties
begin

text \<open>
  \<open>app/core/config.py\<close>: the settings as the components read them, their defaults, and the bounds pydantic
  enforces on those that have any.  A setting comes from the environment or the file \<open>.env\<close> and is
  validated once; a setting out of its bounds ends the start.
\<close>

section \<open>Defaults\<close>

definition default_auth_settings :: auth_settings where
  "default_auth_settings =
     \<lparr>st_enabled = True, st_cookie_name = py ''datapilot_session'', st_ttl = 7 * 24 * 60 * 60, st_cookie_secure = False,
      st_limit = 120, st_login_limit = 10, st_window = 60\<rparr>"

definition auth_settings_ok :: "auth_settings \<Rightarrow> bool" where
  "auth_settings_ok s \<longleftrightarrow> 300 \<le> st_ttl s \<and> st_ttl s \<le> 30 * 24 * 60 * 60 \<and> 1 \<le> st_limit s \<and> st_limit s \<le> 100000
     \<and> 1 \<le> st_window s \<and> st_window s \<le> 3600 \<and> 1 \<le> st_login_limit s \<and> st_login_limit s \<le> 10000"

definition default_sandbox_limits :: sandbox_limits where
  "default_sandbox_limits =
     \<lparr>sl_timeout = 10, sl_output = 8192, sl_lines = 300, sl_chars = 80000, sl_input = 48000, sl_files = 20, sl_bytes = 10 * 1024 * 1024\<rparr>"

text \<open>The executor resolves the root of its work directories, which depends on where the process runs.\<close>

definition default_sandbox :: "(pystr \<Rightarrow> pystr) \<Rightarrow> sandbox_config" where
  "default_sandbox resolve =
     \<lparr>sc_limits = default_sandbox_limits, sc_image = py ''datapilot/sandbox:dev'', sc_memory = py ''512m'', sc_pids = 64, sc_cpus = 1,
      sc_dataset_volume = py ''datapilot_dataset_data'', sc_work_volume = py ''datapilot_artifact_work_data'',
      sc_work_root = resolve (py ''data/artifact-work'')\<rparr>"

definition default_runtime_settings :: runtime_settings where
  "default_runtime_settings =
     \<lparr>st_mode = py ''disabled'', st_max_steps = 10, st_max_total_tokens = 49152, st_max_tool_calls = 3, st_max_retries = 1,
      st_max_parallel = 3, st_char_budget = 24000, st_keep_recent = 6, st_parallel = True\<rparr>"

definition default_mcp_settings :: mcp_settings where
  "default_mcp_settings = \<lparr>ms_attempts = 3, ms_base_delay = 1 / 2, ms_max_delay = 5, ms_refresh_interval = 300, ms_call_retries = 1\<rparr>"

definition mcp_settings_ok :: "mcp_settings \<Rightarrow> bool" where
  "mcp_settings_ok s \<longleftrightarrow> 1 \<le> ms_attempts s \<and> ms_attempts s \<le> 10 \<and> 0 \<le> ms_base_delay s \<and> ms_base_delay s \<le> 30
     \<and> 0 \<le> ms_max_delay s \<and> ms_max_delay s \<le> 60 \<and> 0 \<le> ms_refresh_interval s \<and> ms_refresh_interval s \<le> 3600
     \<and> ms_call_retries s \<le> 3"

definition default_llm_settings :: llm_settings where
  "default_llm_settings =
     \<lparr>ls_base_url = py ''https://api.openai.com/v1'', ls_api_key = None, ls_default_model = py ''gpt-4o-mini'', ls_task_models = [],
      ls_max_retries = 2, ls_retry_delay = 1 / 2, ls_include_usage = True, ls_input_price = 0, ls_output_price = 0,
      ls_provider_name = py ''openai_compatible''\<rparr>"

section \<open>What the bounds give\<close>

text \<open>The defaults are within the bounds of the settings and of what is built from them.\<close>

lemma defaults_ok:
  "auth_settings_ok default_auth_settings" "mcp_settings_ok default_mcp_settings" "runtime_settings_ok default_runtime_settings"
  by (simp_all add: auth_settings_ok_def default_auth_settings_def mcp_settings_ok_def default_mcp_settings_def
    runtime_settings_ok_def default_runtime_settings_def)

text \<open>Out of the box there is no model and no runtime for chats.\<close>

lemma default_chat_disabled:
  "build_model_router trunc to_float C T default_llm_settings = Inr None"
  "build_chat_runtime default_runtime_settings has_router has_registry = Inr UnavailableRuntime"
  by (simp_all add: build_model_router_def default_llm_settings_def build_chat_runtime_def default_runtime_settings_def py_Cons)

section \<open>Connecting takes bounded time\<close>

text \<open>The MCP server's world, counting the connections opened and adding up the time slept.\<close>

definition timed :: "'w mcp_world \<Rightarrow> ('w \<times> nat \<times> rat) mcp_world" where
  "timed W =
     \<lparr>mw_open = (\<lambda>(w, n, d). case mw_open W w of (r, w') \<Rightarrow> (r, (w', Suc n, d))),
      mw_list = (\<lambda>(w, x). case mw_list W w of (r, w') \<Rightarrow> (r, (w', x))),
      mw_ping = (\<lambda>(w, x). case mw_ping W w of (r, w') \<Rightarrow> (r, (w', x))),
      mw_call = (\<lambda>name args (w, x). case mw_call W name args w of (r, w') \<Rightarrow> (r, (w', x))),
      mw_close = (\<lambda>(w, x). case mw_close W w of (r, w') \<Rightarrow> (r, (w', x))),
      mw_sleep = (\<lambda>t (w, n, d). (mw_sleep W t w, n, d + t)),
      mw_now = (\<lambda>(w, x). mw_now W w)\<rparr>"

lemma timed_simps [simp]:
  "mw_open (timed W) (w, n, d) = (fst (mw_open W w), (snd (mw_open W w), Suc n, d))"
  "mw_close (timed W) (w, x) = (fst (mw_close W w), (snd (mw_close W w), x))"
  "mw_sleep (timed W) t (w, n, d) = (mw_sleep W t w, n, d + t)"
  by (simp_all add: timed_def split: prod.split)

lemma disconnect_timed: "\<exists>c' w'. disconnect (timed W) (c, (w, x)) = (c', (w', x))"
  by (auto simp: disconnect_def Let_def split: sum.splits)

lemma connect_once_timed:
  "\<exists>r c' w'. connect_once (timed W) f (c, (w, n, d)) = (r, (c', (w', Suc n, d)))"
proof -
  obtain c1 w1 where d: "disconnect (timed W) (c, (w, n, d)) = (c1, (w1, n, d))" using disconnect_timed [of W c w "(n, d)"] by blast
  show ?thesis by (cases "fst (mw_open W w1)") (simp_all add: connect_once_def d)
qed

lemma connect_attempts_timed:
  assumes "connect_attempts (timed W) S f attempts k m (c, (w, n, d)) = (r, (c', (w', n', d')))"
    and "int k + int m = attempts" and "0 \<le> ms_base_delay S" and "0 \<le> ms_max_delay S"
  shows "n' \<le> n + m \<and> (0 < m \<longrightarrow> n < n') \<and> (\<not> is_ok r \<longrightarrow> n' = n + m) \<and> d \<le> d' \<and> d' \<le> d + of_nat (n' - n - 1) * ms_max_delay S"
  using assms(1,2)
proof (induction m arbitrary: k c w n d)
  case 0
  then show ?case by simp
next
  case (Suc m)
  obtain r1 c1 w1 where once: "connect_once (timed W) f (c, (w, n, d)) = (r1, (c1, (w1, Suc n, d)))" using connect_once_timed [of W f c w n d] by blast
  show ?case
  proof (cases r1)
    case (Inr u)
    with Suc.prems(1) once show ?thesis by (auto simp: is_ok_iff)
  next
    case (Inl e)
    define pause where "pause = (if m = 0 then 0 else min (ms_base_delay S * 2 ^ k) (ms_max_delay S))"
    have pause: "0 \<le> pause" "pause \<le> ms_max_delay S" using assms(3,4) by (auto simp: pause_def)
    have later: "int k + 1 < attempts \<longleftrightarrow> m \<noteq> 0" using Suc.prems(2) by auto
    have "\<exists>w2. connect_attempts (timed W) S f attempts (Suc k) m (set_error e c1, (w2, Suc n, d + pause)) = (r, (c', (w', n', d')))"
      using Suc.prems(1) once Inl later by (auto simp: pause_def Let_def)
    then obtain w2 where rest: "connect_attempts (timed W) S f attempts (Suc k) m (set_error e c1, (w2, Suc n, d + pause)) = (r, (c', (w', n', d')))" ..
    have "int (Suc k) + int m = attempts" using Suc.prems(2) by simp
    note IH = Suc.IH [OF rest this]
    show ?thesis
    proof (cases "m = 0")
      case True
      with rest IH show ?thesis by (auto simp: pause_def)
    next
      case False
      then obtain j where j: "n' = n + 2 + j" using IH by (metis add_2_eq_Suc' add_Suc_right le_Suc_ex less_eq_Suc_le neq0_conv add.commute add_Suc)
      have "d' \<le> d + pause + of_nat j * ms_max_delay S" using IH j by simp
      also have "\<dots> \<le> d + of_nat (Suc j) * ms_max_delay S" using pause(2) by (simp add: algebra_simps)
      finally show ?thesis using IH j pause(1) by auto
    qed
  qed
qed

text \<open>
  C38.  Reaching the MCP server ends: with any settings the application accepts, connecting opens at least
  one and at most the configured number of connections, never more than ten; it waits at most the
  maximal delay between two of them, nine minutes in all; and it gives up only when all were tried.
\<close>

theorem connecting_is_bounded:
  assumes "mcp_settings_ok S"
    and "connect_with_retries (timed W) S f (ms_attempts S) (c, (w, 0, 0)) = (r, (c', (w', opened, slept)))"
  shows "1 \<le> opened \<and> int opened \<le> ms_attempts S \<and> opened \<le> 10 \<and> (r \<noteq> Inr () \<longrightarrow> int opened = ms_attempts S)
    \<and> 0 \<le> slept \<and> slept \<le> of_nat (opened - 1) * ms_max_delay S \<and> slept \<le> 540"
proof -
  have S: "1 \<le> ms_attempts S" "ms_attempts S \<le> 10" "0 \<le> ms_base_delay S" "0 \<le> ms_max_delay S" "ms_max_delay S \<le> 60"
    using assms(1) by (auto simp: mcp_settings_ok_def)
  have run: "connect_attempts (timed W) S f (ms_attempts S) 0 (nat (ms_attempts S)) (c, (w, 0, 0)) = (r, (c', (w', opened, slept)))"
    using assms(2) S(1) by (simp add: connect_with_retries_def max_def)
  have b: "opened \<le> nat (ms_attempts S)" "0 < opened" "\<not> is_ok r \<longrightarrow> opened = nat (ms_attempts S)" "0 \<le> slept"
    "slept \<le> of_nat (opened - 1) * ms_max_delay S"
    using connect_attempts_timed [OF run _ S(3,4)] S(1) by auto
  have ten: "opened \<le> 10" using b(1) S(2) by linarith
  then have "(of_nat (opened - 1) :: rat) \<le> 9" using of_nat_mono [of "opened - 1" 9] by simp
  then have "of_nat (opened - 1) * ms_max_delay S \<le> 9 * 60" using S(4,5) by (intro mult_mono) simp_all
  moreover have "\<not> is_ok r" if "r \<noteq> Inr ()" using that by (cases r) (auto simp: is_ok_iff)
  ultimately show ?thesis using b ten S(1) by auto
qed

theorem connecting_is_bounded_witness:
  "\<exists>r c' w' opened slept. connect_with_retries (timed demo_server) default_mcp_settings Mcp_Properties.demo_call 3 (new_client, (1, 0, 0))
       = (r, (c', (w', opened, slept))) \<and> opened \<le> 3 \<and> slept \<le> 540"
proof -
  obtain r c' w' opened slept where run: "connect_with_retries (timed demo_server) default_mcp_settings Mcp_Properties.demo_call 3 (new_client, (1, 0, 0))
       = (r, (c', (w', opened, slept)))" by (metis surj_pair)
  have ok: "mcp_settings_ok default_mcp_settings" by (rule defaults_ok)
  have three: "ms_attempts default_mcp_settings = 3" by (simp add: default_mcp_settings_def)
  from connecting_is_bounded [OF ok, unfolded three, OF run] run show ?thesis by auto
qed

end
