(* ===== verification/Command_Line.thy ===== *)
theory Command_Line
  imports Load_Test Evaluation
begin

text \<open>
  The two commands: \<open>app/evaluation/__main__.py\<close> and \<open>app/loadtest/__main__.py\<close>.  Their arguments are what
  \<open>argparse\<close> made of the command line; a command's outcome is the lines it prints and its exit code.
\<close>

text \<open>\<open>:.1f\<close> and the like with the digits after the point, \<open>:.1%\<close>, the text of a dict and of a report as JSON.\<close>

record output_format =
  of_fixed :: "nat \<Rightarrow> rat \<Rightarrow> pystr"
  of_percent :: "nat \<Rightarrow> rat \<Rightarrow> pystr"
  of_counts :: "(pystr \<times> nat) list \<Rightarrow> pystr"
  of_evaluation :: "eval_summary \<times> eval_case list \<Rightarrow> pystr"
  of_load :: "load_report \<Rightarrow> pystr"

section \<open>The evaluation\<close>

definition status_shown :: "agent_status option \<Rightarrow> pystr" where
  "status_shown s = (case s of None \<Rightarrow> py ''None'' | Some a \<Rightarrow> status_text a)"

definition case_lines :: "output_format \<Rightarrow> eval_case \<Rightarrow> pystr list" where
  "case_lines F c =
     ((if ec_passed c then py ''PASS'' else py ''FAIL'') @ py '' '' @ ec_case c @ py '': status='' @ status_shown (ec_status c) @ py '', steps='' @ str_nat (ec_steps c)
       @ py '', tools='' @ str_nat (ec_calls c) @ py '', tokens='' @ str_nat (ec_tokens c) @ py '', latency='' @ of_fixed F 1 (ec_duration c) @ py ''ms'')
     # map (\<lambda>k. py ''  - '' @ ck_name k @ py '': '' @ ck_detail k) (filter (\<lambda>k. \<not> ck_passed k) (ec_checks c))"

definition print_report :: "output_format \<Rightarrow> eval_summary \<times> eval_case list \<Rightarrow> pystr list" where
  "print_report F report =
     (let (s, results) = report
      in [py ''DataPilot Agent Evaluation'', []] @ concat (map (case_lines F) results)
         @ [[], py ''Summary: '' @ str_nat (ev_passed s) @ py ''/'' @ str_nat (ev_total s) @ py '' passed, pass_rate='' @ of_percent F 1 (ev_rate s)
              @ py '', safety_pass_rate='' @ of_percent F 1 (ev_safety s) @ py '', tokens='' @ str_nat (ev_tokens s)
              @ py '', avg_latency='' @ of_fixed F 1 (ev_duration s) @ py ''ms''])"

text \<open>
  \<open>live\<close> is the live evaluation, \<open>scripted\<close> the built-in one for the chosen categories;
  \<open>runtime_error\<close> says which exceptions are a \<open>RuntimeError\<close>.
\<close>

definition evaluation_main ::
  "output_format \<Rightarrow> (py_exc \<Rightarrow> bool) \<Rightarrow> ('w \<Rightarrow> (eval_summary \<times> eval_case list) pyres \<times> 'w) \<Rightarrow>
   (eval_category list option \<Rightarrow> eval_summary \<times> eval_case list) \<Rightarrow> eval_category list \<Rightarrow> bool \<Rightarrow> bool \<Rightarrow> 'w \<Rightarrow> (pystr list \<times> nat) pyres \<times> 'w" where
  "evaluation_main F runtime_error live scripted categories json is_live w =
     (let show_report = (\<lambda>report. (if json then [of_evaluation F report] else print_report F report,
            if ev_failed (fst report) = 0 then 0 else 1))
      in if is_live then
           (case live w of
              (Inl e, w1) \<Rightarrow>
                (if runtime_error e then Inr ([py ''Live evaluation unavailable: '' @ exc_text e], 2) else Inl e, w1)
            | (Inr report, w1) \<Rightarrow> (Inr (show_report report), w1))
         else (Inr (show_report (scripted (if categories \<noteq> [] then Some categories else None))), w))"

text \<open>The scripted evaluation exits with 0 exactly when every chosen scenario passed.\<close>

lemma evaluation_exit_zero:
  "(\<exists>printed. evaluation_main F runtime_error live (run_evaluation E scenarios) categories json False w = (Inr (printed, 0), w)) \<longleftrightarrow>
     list_all (\<lambda>s. categories = [] \<or> en_category s \<in> set categories \<longrightarrow> ec_passed (run_scenario E s)) scenarios"
proof -
  define chosen where "chosen = filter (\<lambda>s. case if categories \<noteq> [] then Some categories else None of None \<Rightarrow> True | Some cs \<Rightarrow> en_category s \<in> set cs) scenarios"
  define results where "results = map (run_scenario E) chosen"
  have "run_evaluation E scenarios (if categories \<noteq> [] then Some categories else None) = (summarize results, results)"
    by (simp add: run_evaluation_def Let_def chosen_def results_def)
  moreover have "ev_failed (summarize results) = 0 \<longleftrightarrow> list_all ec_passed results"
  proof -
    have "ev_failed (summarize results) = length results - length (filter ec_passed results)" by (simp add: summarize_def Let_def)
    also have "\<dots> = length (filter (\<lambda>r. \<not> ec_passed r) results)" using sum_length_filter_compl [of ec_passed results] by simp
    finally show ?thesis by (simp add: filter_empty_conv list_all_iff)
  qed
  moreover have "list_all ec_passed results \<longleftrightarrow>
      list_all (\<lambda>s. categories = [] \<or> en_category s \<in> set categories \<longrightarrow> ec_passed (run_scenario E s)) scenarios"
    by (auto simp: results_def chosen_def list_all_iff)
  ultimately show ?thesis by (simp add: evaluation_main_def Let_def)
qed

section \<open>The load test\<close>

record load_args =
  la_url :: pystr
  la_requests :: int
  la_concurrency :: int
  la_timeout :: rat
  la_authorization :: "pystr option"
  la_cookie :: "pystr option"
  la_max_p95 :: rat
  la_max_error_rate :: rat
  la_json :: bool

definition default_load_args :: load_args where
  "default_load_args = \<lparr>la_url = py ''http://127.0.0.1:18000/api/health/ready'', la_requests = 100, la_concurrency = 10, la_timeout = 10,
     la_authorization = None, la_cookie = None, la_max_p95 = 1000, la_max_error_rate = 1 / 100, la_json = False\<rparr>"

text \<open>A negative number becomes 0 here, which the configuration refuses as well.\<close>

definition load_config_of :: "load_args \<Rightarrow> load_config" where
  "load_config_of a = \<lparr>lc_url = la_url a, lc_requests = nat (la_requests a), lc_concurrency = nat (la_concurrency a),
     lc_timeout = la_timeout a, lc_authorization = la_authorization a, lc_cookie = la_cookie a\<rparr>"

definition load_lines :: "output_format \<Rightarrow> load_report \<Rightarrow> pystr list" where
  "load_lines F r =
     [py ''URL: '' @ lr_url r,
      py ''Requests: '' @ str_nat (lr_requests r) @ py '', success='' @ str_nat (lr_success r) @ py '', errors='' @ str_nat (lr_errors r)
        @ py '', error_rate='' @ of_percent F 2 (lr_error_rate r),
      py ''RPS: '' @ of_fixed F 2 (lr_per_second r) @ py '', avg='' @ of_fixed F 1 (lr_average r) @ py ''ms, p50='' @ of_fixed F 1 (lr_p50 r)
        @ py ''ms, p95='' @ of_fixed F 1 (lr_p95 r) @ py ''ms, p99='' @ of_fixed F 1 (lr_p99 r) @ py ''ms'',
      py ''Statuses: '' @ of_counts F (lr_statuses r)]"

text \<open>\<open>run\<close> gives the time a load test took and the state in which its workers ended, or what it raised.\<close>

definition load_test_main :: "output_format \<Rightarrow> (load_config \<Rightarrow> (rat \<times> load_state) pyres) \<Rightarrow> load_args \<Rightarrow> (pystr list \<times> nat) pyres" where
  "load_test_main F run a =
     (let c = load_config_of a
      in if \<not> load_config_ok c then raise_exc ''ValidationError'' (py ''LoadTestConfig'')
         else case run c of
           Inl e \<Rightarrow> Inl e
         | Inr (wall, s) \<Rightarrow>
           (let r = load_report_of c wall (ls_samples s)
           in Inr (if la_json a then [of_load F r] else load_lines F r,
                   if lr_error_rate r \<le> la_max_error_rate a \<and> lr_p95 r \<le> la_max_p95 a then 0 else 1)))"



end
