(* ===== verification/Migrations.thy ===== *)
theory Migrations
  imports Prelude
begin

text \<open>
  The database's schema: the migrations of \<open>alembic/versions\<close> as sequences of schema operations, the tables
  that \<open>app/db/models.py\<close> declares, and the order in which Alembic runs the migrations.  An operation the
  database refuses ends the run; \<open>alembic/env.py\<close> runs everything in one transaction, so that a refused
  migration leaves the schema as it was.

  A schema is what PostgreSQL's catalogue holds of it: the columns of each table with type and
  nullability, keys, unique constraints, foreign keys and indexes.  Names of indexes and of named
  unique constraints are unique in the schema and shared with those of the tables.
\<close>

section \<open>Schemas\<close>

datatype column_type = CUuid | CVarchar nat | CText | CTimestamp | CInteger | CJsonb | CFloat | CBoolean | CNumeric nat nat

record column_def =
  cl_name :: string
  cl_type :: column_type
  cl_nullable :: bool
  cl_default :: "string option"

datatype on_delete = Cascade | SetNull

record foreign_key =
  fk_name :: "string option"
  fk_column :: string
  fk_table :: string \<comment> \<open>whose \<open>id\<close> it refers to\<close>
  fk_delete :: on_delete

record table_def =
  tb_name :: string
  tb_columns :: "column_def list"
  tb_primary :: "string list"
  tb_unique :: "(string option \<times> string list) list"
  tb_foreign :: "foreign_key list"

record index_def =
  ix_name :: string
  ix_table :: string
  ix_columns :: "string list"
  ix_unique :: bool

record schema =
  sh_tables :: "table_def list"
  sh_indexes :: "index_def list"

definition no_schema :: schema where
  "no_schema = \<lparr>sh_tables = [], sh_indexes = []\<rparr>"

definition col :: "string \<Rightarrow> column_type \<Rightarrow> column_def" where
  "col name t = \<lparr>cl_name = name, cl_type = t, cl_nullable = False, cl_default = None\<rparr>"

definition null_col :: "string \<Rightarrow> column_type \<Rightarrow> column_def" where
  "null_col name t = (col name t)\<lparr>cl_nullable := True\<rparr>"

definition reference :: "string \<Rightarrow> string \<Rightarrow> on_delete \<Rightarrow> foreign_key" where
  "reference column target d = \<lparr>fk_name = None, fk_column = column, fk_table = target, fk_delete = d\<rparr>"

definition new_table :: "string \<Rightarrow> column_def list \<Rightarrow> (string option \<times> string list) list \<Rightarrow> foreign_key list \<Rightarrow> table_def" where
  "new_table name columns unique foreign =
     \<lparr>tb_name = name, tb_columns = columns, tb_primary = [''id''], tb_unique = unique, tb_foreign = foreign\<rparr>"

definition index_on :: "string \<Rightarrow> string \<Rightarrow> bool \<Rightarrow> index_def" where
  "index_on table column unique = \<lparr>ix_name = ''ix_'' @ table @ ''_'' @ column, ix_table = table, ix_columns = [column], ix_unique = unique\<rparr>"

section \<open>Operations\<close>

datatype schema_op =
    CreateTable table_def
  | DropTable string
  | AddColumn string column_def
  | DropColumn string string
  | NotNull string string
  | CreateUnique string string "string list"
  | DropUnique string string
  | CreateForeign string foreign_key
  | DropForeign string string
  | CreateIndex index_def
  | DropIndex string string
  | Execute "(string \<times> string list) list" \<comment> \<open>a statement on rows: the tables and columns it names\<close>

definition table_of_name :: "string \<Rightarrow> schema \<Rightarrow> table_def option" where
  "table_of_name name s = find (\<lambda>t. tb_name t = name) (sh_tables s)"

definition has_column :: "table_def \<Rightarrow> string \<Rightarrow> bool" where
  "has_column t c \<longleftrightarrow> list_ex (\<lambda>d. cl_name d = c) (tb_columns t)"

definition has_columns :: "schema \<Rightarrow> string \<Rightarrow> string list \<Rightarrow> bool" where
  "has_columns s name cs \<longleftrightarrow> (case table_of_name name s of None \<Rightarrow> False | Some t \<Rightarrow> list_all (has_column t) cs)"

definition named_uniques :: "table_def \<Rightarrow> string list" where
  "named_uniques t = concat (map (\<lambda>(n, cs). case n of None \<Rightarrow> [] | Some x \<Rightarrow> [x]) (tb_unique t))"

definition relation_names :: "schema \<Rightarrow> string list" where
  "relation_names s = map tb_name (sh_tables s) @ concat (map named_uniques (sh_tables s)) @ map ix_name (sh_indexes s)"

definition on_table :: "string \<Rightarrow> (table_def \<Rightarrow> table_def) \<Rightarrow> schema \<Rightarrow> schema" where
  "on_table name f s = s\<lparr>sh_tables := map (\<lambda>t. if tb_name t = name then f t else t) (sh_tables s)\<rparr>"

definition refers_to :: "schema \<Rightarrow> string \<Rightarrow> bool" where
  "refers_to s name \<longleftrightarrow> list_ex (\<lambda>t. tb_name t \<noteq> name \<and> list_ex (\<lambda>f. fk_table f = name) (tb_foreign t)) (sh_tables s)"

text \<open>
  What an operation makes of the schema, or \<open>None\<close> where the database refuses it.  A new column that is
  neither nullable nor has a default is refused: it is as soon as the table has a row.
\<close>

fun apply_op :: "schema_op \<Rightarrow> schema \<Rightarrow> schema option" where
  "apply_op (CreateTable t) s =
     (if list_ex (\<lambda>n. n \<in> set (relation_names s)) (tb_name t # named_uniques t)
        \<or> \<not> list_all (\<lambda>f. table_of_name (fk_table f) s \<noteq> None) (tb_foreign t) then None
      else Some (s\<lparr>sh_tables := sh_tables s @ [t]\<rparr>))"
| "apply_op (DropTable name) s =
     (if table_of_name name s = None \<or> refers_to s name then None
      else Some (s\<lparr>sh_tables := filter (\<lambda>t. tb_name t \<noteq> name) (sh_tables s), sh_indexes := filter (\<lambda>i. ix_table i \<noteq> name) (sh_indexes s)\<rparr>))"
| "apply_op (AddColumn name c) s =
     (if table_of_name name s = None \<or> has_columns s name [cl_name c] \<or> (\<not> cl_nullable c \<and> cl_default c = None) then None
      else Some (on_table name (\<lambda>t. t\<lparr>tb_columns := tb_columns t @ [c]\<rparr>) s))"
| "apply_op (DropColumn name c) s =
     (if \<not> has_columns s name [c] then None
      else Some ((on_table name (\<lambda>t. t\<lparr>tb_columns := filter (\<lambda>d. cl_name d \<noteq> c) (tb_columns t), tb_primary := filter (\<lambda>d. d \<noteq> c) (tb_primary t),
          tb_unique := filter (\<lambda>(n, cs). c \<notin> set cs) (tb_unique t), tb_foreign := filter (\<lambda>f. fk_column f \<noteq> c) (tb_foreign t)\<rparr>) s)
        \<lparr>sh_indexes := filter (\<lambda>i. \<not> (ix_table i = name \<and> c \<in> set (ix_columns i))) (sh_indexes s)\<rparr>))"
| "apply_op (NotNull name c) s =
     (if \<not> has_columns s name [c] then None
      else Some (on_table name (\<lambda>t. t\<lparr>tb_columns := map (\<lambda>d. if cl_name d = c then d\<lparr>cl_nullable := False\<rparr> else d) (tb_columns t)\<rparr>) s))"
| "apply_op (CreateUnique n name cs) s =
     (if \<not> has_columns s name cs \<or> n \<in> set (relation_names s) then None
      else Some (on_table name (\<lambda>t. t\<lparr>tb_unique := tb_unique t @ [(Some n, cs)]\<rparr>) s))"
| "apply_op (DropUnique n name) s =
     (case table_of_name name s of
        None \<Rightarrow> None
      | Some t \<Rightarrow> if n \<notin> set (named_uniques t) then None
          else Some (on_table name (\<lambda>t. t\<lparr>tb_unique := filter (\<lambda>(m, cs). m \<noteq> Some n) (tb_unique t)\<rparr>) s))"
| "apply_op (CreateForeign name f) s =
     (if \<not> has_columns s name [fk_column f] \<or> table_of_name (fk_table f) s = None
        \<or> (case table_of_name name s of None \<Rightarrow> True | Some t \<Rightarrow> fk_name f \<in> set (map fk_name (tb_foreign t))) then None
      else Some (on_table name (\<lambda>t. t\<lparr>tb_foreign := tb_foreign t @ [f]\<rparr>) s))"
| "apply_op (DropForeign n name) s =
     (case table_of_name name s of
        None \<Rightarrow> None
      | Some t \<Rightarrow> if Some n \<notin> set (map fk_name (tb_foreign t)) then None
          else Some (on_table name (\<lambda>t. t\<lparr>tb_foreign := filter (\<lambda>f. fk_name f \<noteq> Some n) (tb_foreign t)\<rparr>) s))"
| "apply_op (CreateIndex i) s =
     (if \<not> has_columns s (ix_table i) (ix_columns i) \<or> ix_name i \<in> set (relation_names s) then None
      else Some (s\<lparr>sh_indexes := sh_indexes s @ [i]\<rparr>))"
| "apply_op (DropIndex n name) s =
     (if \<not> list_ex (\<lambda>i. ix_name i = n \<and> ix_table i = name) (sh_indexes s) then None
      else Some (s\<lparr>sh_indexes := filter (\<lambda>i. ix_name i \<noteq> n) (sh_indexes s)\<rparr>))"
| "apply_op (Execute uses) s = (if list_all (\<lambda>(t, cs). has_columns s t cs) uses then Some s else None)"

fun apply_ops :: "schema_op list \<Rightarrow> schema \<Rightarrow> schema option" where
  "apply_ops [] s = Some s"
| "apply_ops (x # xs) s = (case apply_op x s of None \<Rightarrow> None | Some s1 \<Rightarrow> apply_ops xs s1)"

section \<open>The migrations\<close>

text \<open>\<open>20260915_0001\<close>: conversations, datasets, messages and steps, unless there are conversations already.\<close>

definition initial_tables :: "schema_op list" where
  "initial_tables =
     [CreateTable (new_table ''conversations'' [col ''id'' CUuid, col ''title'' (CVarchar 160), col ''created_at'' CTimestamp, col ''updated_at'' CTimestamp] [] []),
      CreateTable (new_table ''datasets'' [col ''id'' CUuid, col ''name'' (CVarchar 160), col ''original_filename'' (CVarchar 255), col ''table_name'' (CVarchar 80),
        col ''file_type'' (CVarchar 16), col ''file_size'' CInteger, col ''status'' (CVarchar 16), col ''original_path'' CText, null_col ''parquet_path'' CText,
        null_col ''row_count'' CInteger, col ''columns'' CJsonb, null_col ''error_message'' CText, col ''created_at'' CTimestamp, col ''updated_at'' CTimestamp]
        [(None, [''table_name''])] []),
      CreateTable (new_table ''messages'' [col ''id'' CUuid, col ''conversation_id'' CUuid, col ''sequence'' CInteger, col ''role'' (CVarchar 16), null_col ''content'' CText,
        col ''status'' (CVarchar 16), col ''tool_calls'' CJsonb, col ''message_metadata'' CJsonb, col ''created_at'' CTimestamp]
        [(Some ''uq_messages_conversation_sequence'', [''conversation_id'', ''sequence''])] [reference ''conversation_id'' ''conversations'' Cascade]),
      CreateIndex (index_on ''messages'' ''conversation_id'' False),
      CreateTable (new_table ''agent_steps'' [col ''id'' CUuid, col ''message_id'' CUuid, col ''step_index'' CInteger, null_col ''assistant_content'' CText,
        col ''tool_calls'' CJsonb, col ''tool_executions'' CJsonb, col ''usage'' CJsonb, col ''created_at'' CTimestamp]
        [(Some ''uq_agent_steps_message_index'', [''message_id'', ''step_index''])] [reference ''message_id'' ''messages'' Cascade]),
      CreateIndex (index_on ''agent_steps'' ''message_id'' False)]"

definition upgrade_initial :: "bool \<Rightarrow> schema \<Rightarrow> schema option" where
  "upgrade_initial offline s =
     (if \<not> offline \<and> table_of_name ''conversations'' s \<noteq> None then Some s else apply_ops initial_tables s)"

definition downgrade_initial :: "schema_op list" where
  "downgrade_initial = [DropIndex ''ix_agent_steps_message_id'' ''agent_steps'', DropTable ''agent_steps'', DropIndex ''ix_messages_conversation_id'' ''messages'',
     DropTable ''messages'', DropTable ''datasets'', DropTable ''conversations'']"

text \<open>\<open>20260915_0002\<close>: request identifiers.\<close>

definition upgrade_request_id :: "schema_op list" where
  "upgrade_request_id = [AddColumn ''messages'' (null_col ''request_id'' CUuid), CreateUnique ''uq_messages_request_id'' ''messages'' [''request_id'']]"

definition downgrade_request_id :: "schema_op list" where
  "downgrade_request_id = [DropUnique ''uq_messages_request_id'' ''messages'', DropColumn ''messages'' ''request_id'']"

text \<open>\<open>20260915_0003\<close>: the next number of a conversation, and archiving.\<close>

definition upgrade_hardening :: "schema_op list" where
  "upgrade_hardening =
     [AddColumn ''conversations'' ((col ''next_sequence'' CInteger)\<lparr>cl_default := Some ''1''\<rparr>), AddColumn ''conversations'' (null_col ''archived_at'' CTimestamp),
      Execute [(''conversations'', [''id'', ''next_sequence'']), (''messages'', [''conversation_id'', ''sequence''])],
      CreateIndex (index_on ''conversations'' ''updated_at'' False), CreateIndex (index_on ''conversations'' ''archived_at'' False)]"

definition downgrade_hardening :: "schema_op list" where
  "downgrade_hardening = [DropIndex ''ix_conversations_archived_at'' ''conversations'', DropIndex ''ix_conversations_updated_at'' ''conversations'',
     DropColumn ''conversations'' ''archived_at'', DropColumn ''conversations'' ''next_sequence'']"

text \<open>\<open>20260915_0004\<close>: traces and usage.\<close>

definition upgrade_usage :: "schema_op list" where
  "upgrade_usage =
     [AddColumn ''messages'' (null_col ''trace_id'' CUuid), CreateIndex (index_on ''messages'' ''trace_id'' False),
      CreateTable (new_table ''usage_records'' [col ''id'' CUuid, col ''request_id'' (CVarchar 64), null_col ''trace_id'' CUuid, null_col ''conversation_id'' CUuid,
        null_col ''message_id'' CUuid, col ''task'' (CVarchar 64), col ''provider'' (CVarchar 64), col ''model'' (CVarchar 128), col ''input_tokens'' CInteger,
        col ''output_tokens'' CInteger, col ''estimated_cost_usd'' (CNumeric 18 8), col ''latency_ms'' CFloat, col ''success'' CBoolean,
        null_col ''error_type'' (CVarchar 128), col ''created_at'' CTimestamp]
        [(None, [''request_id''])] [reference ''conversation_id'' ''conversations'' SetNull, reference ''message_id'' ''messages'' SetNull]),
      CreateIndex (index_on ''usage_records'' ''created_at'' False), CreateIndex (index_on ''usage_records'' ''trace_id'' False),
      CreateIndex (index_on ''usage_records'' ''conversation_id'' False), CreateIndex (index_on ''usage_records'' ''message_id'' False)]"

definition downgrade_usage :: "schema_op list" where
  "downgrade_usage = [DropIndex ''ix_usage_records_message_id'' ''usage_records'', DropIndex ''ix_usage_records_conversation_id'' ''usage_records'',
     DropIndex ''ix_usage_records_trace_id'' ''usage_records'', DropIndex ''ix_usage_records_created_at'' ''usage_records'', DropTable ''usage_records'',
     DropIndex ''ix_messages_trace_id'' ''messages'', DropColumn ''messages'' ''trace_id'']"

text \<open>\<open>20260915_0005\<close>: artifacts.\<close>

definition upgrade_artifacts :: "schema_op list" where
  "upgrade_artifacts =
     [CreateTable (new_table ''artifacts'' [col ''id'' CUuid, col ''filename'' (CVarchar 255), col ''stored_path'' CText, col ''mime_type'' (CVarchar 128),
        col ''size'' CInteger, col ''metadata_json'' CJsonb, col ''created_at'' CTimestamp] [] []),
      CreateIndex (index_on ''artifacts'' ''created_at'' False)]"

definition downgrade_artifacts :: "schema_op list" where
  "downgrade_artifacts = [DropIndex ''ix_artifacts_created_at'' ''artifacts'', DropTable ''artifacts'']"

text \<open>\<open>20260920_0006\<close>: users, workspaces, sessions, and a workspace for everything stored.\<close>

definition add_workspace_column :: "string \<Rightarrow> schema_op list" where
  "add_workspace_column table =
     [AddColumn table (null_col ''workspace_id'' CUuid), Execute [(table, [''workspace_id''])], NotNull table ''workspace_id'',
      CreateForeign table \<lparr>fk_name = Some (''fk_'' @ table @ ''_workspace_id_workspaces''), fk_column = ''workspace_id'', fk_table = ''workspaces'', fk_delete = Cascade\<rparr>,
      CreateIndex (index_on table ''workspace_id'' False)]"

definition drop_workspace_column :: "string \<Rightarrow> schema_op list" where
  "drop_workspace_column table =
     [DropIndex (''ix_'' @ table @ ''_workspace_id'') table, DropForeign (''fk_'' @ table @ ''_workspace_id_workspaces'') table,
      DropColumn table ''workspace_id'']"

definition upgrade_workspaces :: "schema_op list" where
  "upgrade_workspaces =
     [CreateTable (new_table ''users'' [col ''id'' CUuid, col ''username'' (CVarchar 64), col ''display_name'' (CVarchar 120), col ''password_hash'' CText,
        col ''created_at'' CTimestamp, col ''updated_at'' CTimestamp] [] []),
      CreateIndex (index_on ''users'' ''username'' True),
      CreateTable (new_table ''workspaces'' [col ''id'' CUuid, col ''name'' (CVarchar 120), col ''slug'' (CVarchar 80), null_col ''owner_id'' CUuid,
        col ''created_at'' CTimestamp, col ''updated_at'' CTimestamp] [] [reference ''owner_id'' ''users'' SetNull]),
      CreateIndex (index_on ''workspaces'' ''slug'' True), CreateIndex (index_on ''workspaces'' ''owner_id'' False),
      CreateTable (new_table ''workspace_members'' [col ''id'' CUuid, col ''workspace_id'' CUuid, col ''user_id'' CUuid, col ''role'' (CVarchar 16), col ''created_at'' CTimestamp]
        [(Some ''uq_workspace_members_workspace_user'', [''workspace_id'', ''user_id''])] [reference ''workspace_id'' ''workspaces'' Cascade, reference ''user_id'' ''users'' Cascade]),
      CreateIndex (index_on ''workspace_members'' ''workspace_id'' False), CreateIndex (index_on ''workspace_members'' ''user_id'' False),
      CreateTable (new_table ''auth_sessions'' [col ''id'' CUuid, col ''user_id'' CUuid, col ''workspace_id'' CUuid, col ''token_hash'' (CVarchar 64),
        col ''expires_at'' CTimestamp, col ''created_at'' CTimestamp, col ''last_seen_at'' CTimestamp]
        [] [reference ''user_id'' ''users'' Cascade, reference ''workspace_id'' ''workspaces'' Cascade]),
      CreateIndex (index_on ''auth_sessions'' ''user_id'' False), CreateIndex (index_on ''auth_sessions'' ''workspace_id'' False),
      CreateIndex (index_on ''auth_sessions'' ''token_hash'' True), CreateIndex (index_on ''auth_sessions'' ''expires_at'' False),
      Execute [(''workspaces'', [''id'', ''name'', ''slug'', ''owner_id'', ''created_at'', ''updated_at''])]]
     @ add_workspace_column ''conversations'' @ add_workspace_column ''datasets'' @ add_workspace_column ''usage_records'' @ add_workspace_column ''artifacts''"

definition downgrade_workspaces :: "schema_op list" where
  "downgrade_workspaces =
     drop_workspace_column ''artifacts'' @ drop_workspace_column ''usage_records'' @ drop_workspace_column ''datasets'' @ drop_workspace_column ''conversations''
     @ [DropIndex ''ix_auth_sessions_expires_at'' ''auth_sessions'', DropIndex ''ix_auth_sessions_token_hash'' ''auth_sessions'',
        DropIndex ''ix_auth_sessions_workspace_id'' ''auth_sessions'', DropIndex ''ix_auth_sessions_user_id'' ''auth_sessions'', DropTable ''auth_sessions'',
        DropIndex ''ix_workspace_members_user_id'' ''workspace_members'', DropIndex ''ix_workspace_members_workspace_id'' ''workspace_members'', DropTable ''workspace_members'',
        DropIndex ''ix_workspaces_owner_id'' ''workspaces'', DropIndex ''ix_workspaces_slug'' ''workspaces'', DropTable ''workspaces'',
        DropIndex ''ix_users_username'' ''users'', DropTable ''users'']"

section \<open>Running them\<close>

record migration =
  mi_revision :: string
  mi_down :: "string option"
  mi_upgrade :: "schema \<Rightarrow> schema option"
  mi_downgrade :: "schema \<Rightarrow> schema option"

definition all_migrations :: "bool \<Rightarrow> migration list" where
  "all_migrations offline =
     [\<lparr>mi_revision = ''20260915_0001'', mi_down = None, mi_upgrade = upgrade_initial offline, mi_downgrade = apply_ops downgrade_initial\<rparr>,
      \<lparr>mi_revision = ''20260915_0002'', mi_down = Some ''20260915_0001'', mi_upgrade = apply_ops upgrade_request_id, mi_downgrade = apply_ops downgrade_request_id\<rparr>,
      \<lparr>mi_revision = ''20260915_0003'', mi_down = Some ''20260915_0002'', mi_upgrade = apply_ops upgrade_hardening, mi_downgrade = apply_ops downgrade_hardening\<rparr>,
      \<lparr>mi_revision = ''20260915_0004'', mi_down = Some ''20260915_0003'', mi_upgrade = apply_ops upgrade_usage, mi_downgrade = apply_ops downgrade_usage\<rparr>,
      \<lparr>mi_revision = ''20260915_0005'', mi_down = Some ''20260915_0004'', mi_upgrade = apply_ops upgrade_artifacts, mi_downgrade = apply_ops downgrade_artifacts\<rparr>,
      \<lparr>mi_revision = ''20260920_0006'', mi_down = Some ''20260915_0005'', mi_upgrade = apply_ops upgrade_workspaces, mi_downgrade = apply_ops downgrade_workspaces\<rparr>]"

text \<open>
  The state is the revision the database is at and its schema.  An upgrade runs the migration that follows the
  revision as long as there is one (\<open>fuel\<close> bounds their number); a downgrade undoes the revision's own.
\<close>

fun upgrade_all :: "migration list \<Rightarrow> nat \<Rightarrow> string option \<times> schema \<Rightarrow> (string option \<times> schema) option" where
  "upgrade_all ms 0 (at, s) = Some (at, s)"
| "upgrade_all ms (Suc fuel) (at, s) =
     (case find (\<lambda>m. mi_down m = at) ms of
        None \<Rightarrow> Some (at, s)
      | Some m \<Rightarrow> (case mi_upgrade m s of None \<Rightarrow> None | Some s1 \<Rightarrow> upgrade_all ms fuel (Some (mi_revision m), s1)))"

definition downgrade_one :: "migration list \<Rightarrow> string option \<times> schema \<Rightarrow> (string option \<times> schema) option" where
  "downgrade_one ms x =
     (case x of (at, s) \<Rightarrow>
        (case find (\<lambda>m. Some (mi_revision m) = at) ms of
           None \<Rightarrow> None
         | Some m \<Rightarrow> map_option (\<lambda>s1. (mi_down m, s1)) (mi_downgrade m s)))"

definition upgrade_to_head :: "bool \<Rightarrow> string option \<times> schema \<Rightarrow> (string option \<times> schema) option" where
  "upgrade_to_head offline x = upgrade_all (all_migrations offline) (length (all_migrations offline)) x"

section \<open>The declared tables\<close>

text \<open>
  A mapped column: an indexed unique column gets one unique index, a unique one a constraint of its own.
\<close>

record mapped_column =
  mp_column :: column_def
  mp_unique :: bool
  mp_index :: bool
  mp_foreign :: "(string \<times> on_delete) option"

definition mapped :: "column_def \<Rightarrow> mapped_column" where
  "mapped c = \<lparr>mp_column = c, mp_unique = False, mp_index = False, mp_foreign = None\<rparr>"

definition indexed :: "column_def \<Rightarrow> mapped_column" where
  "indexed c = (mapped c)\<lparr>mp_index := True\<rparr>"

definition foreign :: "column_def \<Rightarrow> string \<Rightarrow> on_delete \<Rightarrow> mapped_column" where
  "foreign c target d = (indexed c)\<lparr>mp_foreign := Some (target, d)\<rparr>"

record orm_class =
  or_name :: string
  or_columns :: "mapped_column list"
  or_unique :: "(string \<times> string list) list"

definition declared_table :: "orm_class \<Rightarrow> table_def" where
  "declared_table c =
     new_table (or_name c) (map mp_column (or_columns c))
       (map (\<lambda>(n, cs). (Some n, cs)) (or_unique c)
         @ map (\<lambda>m. (None, [cl_name (mp_column m)])) (filter (\<lambda>m. mp_unique m \<and> \<not> mp_index m) (or_columns c)))
       (concat (map (\<lambda>m. case mp_foreign m of None \<Rightarrow> [] | Some (t, d) \<Rightarrow> [reference (cl_name (mp_column m)) t d]) (or_columns c)))"

definition declared_indexes :: "orm_class \<Rightarrow> index_def list" where
  "declared_indexes c = map (\<lambda>m. index_on (or_name c) (cl_name (mp_column m)) (mp_unique m)) (filter mp_index (or_columns c))"

definition declared :: "orm_class list \<Rightarrow> schema" where
  "declared cs = \<lparr>sh_tables = map declared_table cs, sh_indexes = concat (map declared_indexes cs)\<rparr>"

definition user_class :: orm_class where
  "user_class = \<lparr>or_name = ''users'', or_columns = [mapped (col ''id'' CUuid), (indexed (col ''username'' (CVarchar 64)))\<lparr>mp_unique := True\<rparr>,
     mapped (col ''display_name'' (CVarchar 120)), mapped (col ''password_hash'' CText), mapped (col ''created_at'' CTimestamp),
     mapped (col ''updated_at'' CTimestamp)], or_unique = []\<rparr>"

definition workspace_class :: orm_class where
  "workspace_class = \<lparr>or_name = ''workspaces'', or_columns = [mapped (col ''id'' CUuid), mapped (col ''name'' (CVarchar 120)),
     (indexed (col ''slug'' (CVarchar 80)))\<lparr>mp_unique := True\<rparr>, foreign (null_col ''owner_id'' CUuid) ''users'' SetNull,
     mapped (col ''created_at'' CTimestamp), mapped (col ''updated_at'' CTimestamp)], or_unique = []\<rparr>"

definition member_class :: orm_class where
  "member_class = \<lparr>or_name = ''workspace_members'', or_columns = [mapped (col ''id'' CUuid), foreign (col ''workspace_id'' CUuid) ''workspaces'' Cascade,
     foreign (col ''user_id'' CUuid) ''users'' Cascade, mapped (col ''role'' (CVarchar 16)), mapped (col ''created_at'' CTimestamp)],
     or_unique = [(''uq_workspace_members_workspace_user'', [''workspace_id'', ''user_id''])]\<rparr>"

definition session_class :: orm_class where
  "session_class = \<lparr>or_name = ''auth_sessions'', or_columns = [mapped (col ''id'' CUuid), foreign (col ''user_id'' CUuid) ''users'' Cascade,
     foreign (col ''workspace_id'' CUuid) ''workspaces'' Cascade, (indexed (col ''token_hash'' (CVarchar 64)))\<lparr>mp_unique := True\<rparr>,
     indexed (col ''expires_at'' CTimestamp), mapped (col ''created_at'' CTimestamp), mapped (col ''last_seen_at'' CTimestamp)], or_unique = []\<rparr>"

definition conversation_class :: orm_class where
  "conversation_class = \<lparr>or_name = ''conversations'', or_columns = [mapped (col ''id'' CUuid), foreign (col ''workspace_id'' CUuid) ''workspaces'' Cascade,
     mapped (col ''title'' (CVarchar 160)), mapped (col ''created_at'' CTimestamp), indexed (col ''updated_at'' CTimestamp),
     mapped (col ''next_sequence'' CInteger), indexed (null_col ''archived_at'' CTimestamp)], or_unique = []\<rparr>"

definition message_class :: orm_class where
  "message_class = \<lparr>or_name = ''messages'', or_columns = [mapped (col ''id'' CUuid), foreign (col ''conversation_id'' CUuid) ''conversations'' Cascade,
     mapped (col ''sequence'' CInteger), mapped (col ''role'' (CVarchar 16)), mapped (null_col ''content'' CText), mapped (col ''status'' (CVarchar 16)),
     mapped (col ''tool_calls'' CJsonb), mapped (col ''message_metadata'' CJsonb), mapped (null_col ''request_id'' CUuid), indexed (null_col ''trace_id'' CUuid),
     mapped (col ''created_at'' CTimestamp)],
     or_unique = [(''uq_messages_conversation_sequence'', [''conversation_id'', ''sequence'']), (''uq_messages_request_id'', [''request_id''])]\<rparr>"

definition step_class :: orm_class where
  "step_class = \<lparr>or_name = ''agent_steps'', or_columns = [mapped (col ''id'' CUuid), foreign (col ''message_id'' CUuid) ''messages'' Cascade,
     mapped (col ''step_index'' CInteger), mapped (null_col ''assistant_content'' CText), mapped (col ''tool_calls'' CJsonb),
     mapped (col ''tool_executions'' CJsonb), mapped (col ''usage'' CJsonb), mapped (col ''created_at'' CTimestamp)],
     or_unique = [(''uq_agent_steps_message_index'', [''message_id'', ''step_index''])]\<rparr>"

definition dataset_class :: orm_class where
  "dataset_class = \<lparr>or_name = ''datasets'', or_columns = [mapped (col ''id'' CUuid), foreign (col ''workspace_id'' CUuid) ''workspaces'' Cascade,
     mapped (col ''name'' (CVarchar 160)), mapped (col ''original_filename'' (CVarchar 255)), (mapped (col ''table_name'' (CVarchar 80)))\<lparr>mp_unique := True\<rparr>,
     mapped (col ''file_type'' (CVarchar 16)), mapped (col ''file_size'' CInteger), mapped (col ''status'' (CVarchar 16)), mapped (col ''original_path'' CText),
     mapped (null_col ''parquet_path'' CText), mapped (null_col ''row_count'' CInteger), mapped (col ''columns'' CJsonb), mapped (null_col ''error_message'' CText),
     mapped (col ''created_at'' CTimestamp), mapped (col ''updated_at'' CTimestamp)], or_unique = []\<rparr>"

definition usage_class :: orm_class where
  "usage_class = \<lparr>or_name = ''usage_records'', or_columns = [mapped (col ''id'' CUuid), foreign (col ''workspace_id'' CUuid) ''workspaces'' Cascade,
     (mapped (col ''request_id'' (CVarchar 64)))\<lparr>mp_unique := True\<rparr>, indexed (null_col ''trace_id'' CUuid), foreign (null_col ''conversation_id'' CUuid) ''conversations'' SetNull,
     foreign (null_col ''message_id'' CUuid) ''messages'' SetNull, mapped (col ''task'' (CVarchar 64)), mapped (col ''provider'' (CVarchar 64)),
     mapped (col ''model'' (CVarchar 128)), mapped (col ''input_tokens'' CInteger), mapped (col ''output_tokens'' CInteger),
     mapped (col ''estimated_cost_usd'' (CNumeric 18 8)), mapped (col ''latency_ms'' CFloat), mapped (col ''success'' CBoolean),
     mapped (null_col ''error_type'' (CVarchar 128)), indexed (col ''created_at'' CTimestamp)], or_unique = []\<rparr>"

definition artifact_class :: orm_class where
  "artifact_class = \<lparr>or_name = ''artifacts'', or_columns = [mapped (col ''id'' CUuid), foreign (col ''workspace_id'' CUuid) ''workspaces'' Cascade,
     mapped (col ''filename'' (CVarchar 255)), mapped (col ''stored_path'' CText), mapped (col ''mime_type'' (CVarchar 128)), mapped (col ''size'' CInteger),
     mapped (col ''metadata_json'' CJsonb), indexed (col ''created_at'' CTimestamp)], or_unique = []\<rparr>"

definition orm_classes :: "orm_class list" where
  "orm_classes = [user_class, workspace_class, member_class, session_class, conversation_class, message_class, step_class, dataset_class,
     usage_class, artifact_class]"

section \<open>The migrations build what the models declare\<close>

text \<open>
  What the two have to agree on: not the order of columns, the names of foreign keys or the defaults of
  the server.
\<close>

definition table_shape ::
  "table_def \<Rightarrow> string \<times> (string \<times> column_type \<times> bool) set \<times> string list \<times> (string option \<times> string list) set \<times> (string \<times> string \<times> on_delete) set" where
  "table_shape t = (tb_name t, set (map (\<lambda>c. (cl_name c, cl_type c, cl_nullable c)) (tb_columns t)), tb_primary t, set (tb_unique t),
     set (map (\<lambda>f. (fk_column f, fk_table f, fk_delete f)) (tb_foreign t)))"

definition same_shape :: "schema \<Rightarrow> schema \<Rightarrow> bool" where
  "same_shape s t \<longleftrightarrow> distinct (map tb_name (sh_tables s)) \<and> length (sh_tables s) = length (sh_tables t)
     \<and> length (sh_indexes s) = length (sh_indexes t) \<and> set (sh_indexes s) = set (sh_indexes t)
     \<and> list_all (\<lambda>x. case table_of_name (tb_name x) t of None \<Rightarrow> False | Some y \<Rightarrow> table_shape x = table_shape y) (sh_tables s)"

text \<open>Then the tables of the two are the same up to their shape.\<close>

lemma same_shape_tables:
  assumes "same_shape s t"
  shows "table_shape ` set (sh_tables s) = table_shape ` set (sh_tables t)"
proof -
  have into: "\<exists>y \<in> set (sh_tables t). table_shape x = table_shape y" if "x \<in> set (sh_tables s)" for x
  proof -
    have "case table_of_name (tb_name x) t of None \<Rightarrow> False | Some y \<Rightarrow> table_shape x = table_shape y"
      using assms that by (simp add: same_shape_def list_all_iff)
    then obtain y where "table_of_name (tb_name x) t = Some y" "table_shape x = table_shape y" by (auto split: option.splits)
    then show ?thesis using find_some [of "\<lambda>u. tb_name u = tb_name x" "sh_tables t" y] by (auto simp: table_of_name_def)
  qed
  have "inj_on table_shape (set (sh_tables s))"
    using assms by (auto simp: same_shape_def distinct_map table_shape_def inj_on_def)
  then have "card (table_shape ` set (sh_tables s)) = length (sh_tables s)"
    using assms by (simp add: card_image same_shape_def distinct_map distinct_card)
  moreover have "card (table_shape ` set (sh_tables t)) \<le> length (sh_tables s)"
    using assms card_image_le [of "set (sh_tables t)" table_shape] card_length [of "sh_tables t"] by (simp add: same_shape_def)
  moreover have "table_shape ` set (sh_tables s) \<subseteq> table_shape ` set (sh_tables t)"
  proof (rule image_subsetI)
    fix x assume "x \<in> set (sh_tables s)"
    then obtain y where y: "y \<in> set (sh_tables t)" "table_shape x = table_shape y" using into by blast
    show "table_shape x \<in> table_shape ` set (sh_tables t)" unfolding y(2) by (rule imageI [OF y(1)])
  qed
  ultimately show ?thesis by (intro card_seteq) simp_all
qed

definition builds_models :: "bool \<Rightarrow> schema \<Rightarrow> bool" where
  "builds_models offline start \<longleftrightarrow>
     (case upgrade_to_head offline (None, start) of
        None \<Rightarrow> False
      | Some (at, s) \<Rightarrow> at = Some ''20260920_0006'' \<and> same_shape s (declared orm_classes))"

lemma builds_online: "builds_models False no_schema"
  by code_simp

lemma builds_offline: "builds_models True no_schema"
  by code_simp

lemma builds_adopted: "builds_models False (the (apply_ops initial_tables no_schema))"
  by code_simp

text \<open>
  C34.  The migrations and the models agree: from an empty database, as statements for one, and from a
  database in which the first tables exist already, the upgrade succeeds, ends at the last revision,
  and the schema it leaves has the tables, columns, keys, constraints and indexes the models declare,
  and no others.
\<close>

theorem migrations_build_models:
  "list_all (\<lambda>(offline, start). case upgrade_to_head offline (None, start) of
        None \<Rightarrow> False
      | Some (at, s) \<Rightarrow> at = Some ''20260920_0006'' \<and> same_shape s (declared orm_classes)
          \<and> table_shape ` set (sh_tables s) = table_shape ` set (sh_tables (declared orm_classes)))
     [(False, no_schema), (True, no_schema), (False, the (apply_ops initial_tables no_schema))]"
proof -
  have "case upgrade_to_head offline (None, start) of None \<Rightarrow> False
      | Some (at, s) \<Rightarrow> at = Some ''20260920_0006'' \<and> same_shape s (declared orm_classes)
          \<and> table_shape ` set (sh_tables s) = table_shape ` set (sh_tables (declared orm_classes))"
    if b: "builds_models offline start" for offline start
    using b same_shape_tables [of _ "declared orm_classes"] by (auto simp: builds_models_def split: option.splits)
  then show ?thesis using builds_online builds_offline builds_adopted unfolding list_all_iff by simp
qed

text \<open>
  Every migration can be undone: taking back the last migration of any stage of the upgrade gives
  the revision and exactly the schema of the stage before, down to the empty database.
\<close>

theorem migrations_undone:
  "list_all (\<lambda>k. case (upgrade_all (all_migrations False) k (None, no_schema), upgrade_all (all_migrations False) (Suc k) (None, no_schema)) of
        (Some x, Some y) \<Rightarrow> fst x \<noteq> fst y \<and> downgrade_one (all_migrations False) y = Some x
      | _ \<Rightarrow> False) [0..<6]"
  by code_simp

end
