(* ===== verification/Migrated_Data.thy ===== *)
theory Migrated_Data
  imports Migrations Chat_Store_Properties Auth_Properties
begin

text \<open>
  What the migrations do to the rows that are there: the numbering of conversations in
  \<open>20260915_0003\<close>, and the default workspace of \<open>20260920_0006\<close>, up to the first user who registers.
\<close>

section \<open>The rows before and after\<close>

text \<open>Conversations and messages as the first migration has them; the steps of a message are left alone.\<close>

record old_conversation =
  oc_id :: uuid
  oc_title :: pystr
  oc_created :: int
  oc_updated :: int

record old_message =
  om_id :: uuid
  om_conversation :: uuid
  om_sequence :: nat
  om_role :: chat_role
  om_content :: "pystr option"
  om_status :: message_status
  om_calls :: "pyval list"
  om_steps :: "agent_step list"
  om_created :: int

text \<open>The statement of \<open>20260915_0003\<close>: one more than the largest number, or 1.\<close>

definition next_number :: "old_message list \<Rightarrow> uuid \<Rightarrow> nat" where
  "next_number ms cid =
     (let numbers = map om_sequence (filter (\<lambda>m. om_conversation m = cid) ms)
      in if numbers = [] then 1 else Max (set numbers) + 1)"

text \<open>\<open>ON CONFLICT (id) DO NOTHING\<close>.\<close>

definition insert_default_workspace :: "int \<Rightarrow> workspace_row list \<Rightarrow> workspace_row list" where
  "insert_default_workspace now ws =
     (if default_workspace_id \<in> set (map wk_id ws) then ws
      else ws @ [\<lparr>wk_id = default_workspace_id, wk_name = py ''Default Workspace'', wk_slug = py ''default'', wk_owner = None, wk_updated = now\<rparr>])"

text \<open>\<open>UPDATE ... SET workspace_id = ... WHERE workspace_id IS NULL\<close> on one row.\<close>

definition fill_workspace :: "uuid option \<Rightarrow> uuid" where
  "fill_workspace w = (case w of None \<Rightarrow> default_workspace_id | Some i \<Rightarrow> i)"

definition migrated_conversation :: "old_message list \<Rightarrow> old_conversation \<Rightarrow> conversation_row" where
  "migrated_conversation ms c =
     \<lparr>cv_id = oc_id c, cv_workspace = fill_workspace None, cv_title = oc_title c, cv_created = oc_created c, cv_updated = oc_updated c,
      cv_next_sequence = next_number ms (oc_id c), cv_archived = None\<rparr>"

definition migrated_message :: "old_message \<Rightarrow> message_row" where
  "migrated_message m =
     \<lparr>mg_id = om_id m, mg_conversation = om_conversation m, mg_sequence = om_sequence m, mg_role = om_role m, mg_content = om_content m,
      mg_status = om_status m, mg_tool_calls = om_calls m, mg_steps = om_steps m, mg_request = None, mg_trace = None, mg_created = om_created m\<rparr>"

definition migrated_chat :: "old_conversation list \<Rightarrow> old_message list \<Rightarrow> chat_db" where
  "migrated_chat cs ms = \<lparr>db_conversations = map (migrated_conversation ms) cs, db_messages = map migrated_message ms\<rparr>"

definition migrated_auth :: "int \<Rightarrow> auth_db" where
  "migrated_auth now = \<lparr>ad_users = [], ad_workspaces = insert_default_workspace now [], ad_members = [], ad_sessions = []\<rparr>"

text \<open>What the old tables hold: keys, references, and messages numbered as they were appended.\<close>

definition old_rows_ok :: "old_conversation list \<Rightarrow> old_message list \<Rightarrow> bool" where
  "old_rows_ok cs ms \<longleftrightarrow> distinct (map oc_id cs) \<and> distinct (map om_id ms) \<and> om_conversation ` set ms \<subseteq> oc_id ` set cs
     \<and> (\<forall>cid. \<exists>n. map om_sequence (filter (\<lambda>m. om_conversation m = cid) ms) = [1..<Suc n])"

section \<open>What the new program finds\<close>

lemma migrated_simps [simp]:
  "cv_id (migrated_conversation ms c) = oc_id c" "cv_workspace (migrated_conversation ms c) = default_workspace_id"
  "mg_id (migrated_message m) = om_id m" "mg_conversation (migrated_message m) = om_conversation m"
  "mg_sequence (migrated_message m) = om_sequence m" "mg_request (migrated_message m) = None"
  by (simp_all add: migrated_conversation_def migrated_message_def fill_workspace_def)

lemma next_number_upto: "map om_sequence (filter (\<lambda>m. om_conversation m = cid) ms) = [1..<Suc n] \<Longrightarrow> next_number ms cid = Suc n"
proof -
  assume e: "map om_sequence (filter (\<lambda>m. om_conversation m = cid) ms) = [1..<Suc n]"
  have "Max (set [1..<Suc n]) = n" if "0 < n" using that by (intro Max_eqI) auto
  then show ?thesis unfolding next_number_def Let_def e by (cases "n = 0") (simp_all del: upt_Suc set_upt)
qed

text \<open>Even where numbers have gaps, the next one has not been used.\<close>

lemma next_number_fresh: "m \<in> set ms \<Longrightarrow> om_conversation m = cid \<Longrightarrow> om_sequence m < next_number ms cid"
proof -
  assume m: "m \<in> set ms" "om_conversation m = cid"
  let ?ns = "map om_sequence (filter (\<lambda>m. om_conversation m = cid) ms)"
  have "om_sequence m \<in> set ?ns" using m by auto
  moreover from this have "?ns \<noteq> []" by force
  ultimately show ?thesis unfolding next_number_def Let_def by (auto simp: less_Suc_eq_le intro!: Max_ge)
qed

lemma filter_migrated: "filter (\<lambda>m. mg_conversation m = cid) (map migrated_message ms) = map migrated_message (filter (\<lambda>m. om_conversation m = cid) ms)"
  by (induction ms) simp_all

lemma migrated_store_ok:
  assumes "old_rows_ok cs ms"
  shows "store_ok (migrated_chat cs ms)"
proof -
  have ids: "map cv_id (map (migrated_conversation ms) cs) = map oc_id cs" "map mg_id (map migrated_message ms) = map om_id ms" by simp_all
  have requests: "requests (map migrated_message ms) = []" by (simp add: requests_def)
  have numbered: "1 \<le> next_number ms cid \<and> numbers cid (map migrated_message ms) = [1..<next_number ms cid]" for cid
  proof -
    obtain n where n: "map om_sequence (filter (\<lambda>m. om_conversation m = cid) ms) = [1..<Suc n]" using assms unfolding old_rows_ok_def by blast
    have "numbers cid (map migrated_message ms) = [1..<Suc n]"
      unfolding numbers_def filter_migrated map_map n [symmetric] by (rule map_cong) simp_all
    with next_number_upto [OF n] show ?thesis by simp
  qed
  have next_seq: "cv_next_sequence (migrated_conversation ms c) = next_number ms (oc_id c)" for c by (simp add: migrated_conversation_def)
  have "distinct (map oc_id cs)" "distinct (map om_id ms)" "om_conversation ` set ms \<subseteq> oc_id ` set cs"
    using assms unfolding old_rows_ok_def by blast+
  then show ?thesis unfolding store_ok_def migrated_chat_def chat_db.select_convs ids requests
    using numbered by (auto simp: next_seq image_image)
qed

text \<open>
  C33.  Nothing stored is lost or exposed by the upgrade: after the migrations the first user who
  registers gets the default workspace, and with it every conversation stored before, under its title
  and with all its messages in their order and no others; no other workspace reads any of them; and
  the tables satisfy the invariant all later operations rely on.
\<close>

theorem first_user_inherits:
  assumes "old_rows_ok cs ms" and "c \<in> set cs"
    and "auth_register env fr username pw display (migrated_auth now) = (Inr r, accounts)"
  shows "store_ok (migrated_chat cs ms)
    \<and> get_conversation (wv_id (av_workspace (ar_session r))) (oc_id c) (migrated_chat cs ms)
        = Some \<lparr>cd_id = oc_id c, cd_title = oc_title c, cd_messages = map (message_view_of \<circ> migrated_message) (filter (\<lambda>m. om_conversation m = oc_id c) ms),
            cd_created = oc_created c, cd_updated = oc_updated c\<rparr>
    \<and> (\<forall>v. v \<noteq> wv_id (av_workspace (ar_session r)) \<longrightarrow> get_conversation v (oc_id c) (migrated_chat cs ms) = None)"
proof -
  let ?db = "migrated_chat cs ms"
  have ok: "store_ok ?db" by (rule migrated_store_ok [OF assms(1)])
  have start: "ad_workspaces (migrated_auth now) = [\<lparr>wk_id = default_workspace_id, wk_name = py ''Default Workspace'', wk_slug = py ''default'', wk_owner = None, wk_updated = now\<rparr>]"
    by (simp add: migrated_auth_def insert_default_workspace_def)
  have own: "wv_id (av_workspace (ar_session r)) = default_workspace_id"
  proof (rule auth_register_Inr [OF assms(3)])
    fix stored user w db1
    assume "adopt_workspace fr display (us_id user) (migrated_auth now\<lparr>ad_users := ad_users (migrated_auth now) @ [user]\<rparr>) = (Inr w, db1)"
      and s: "new_session env fr user w (py ''owner'') (db1\<lparr>ad_members := ad_members db1 @ [\<lparr>mb_workspace = wk_id w, mb_user = us_id user,
          mb_role = py ''owner'', mb_created = af_now fr\<rparr>]\<rparr>) = (Inr r, accounts)"
    then have "wk_id w = default_workspace_id" by (auto simp: adopt_workspace_def start Let_def)
    with s show ?thesis by (auto simp: new_session_def workspace_view_of_def integrity_error_def split: sum.splits if_splits)
  qed
  have c: "find (own_conversation default_workspace_id (oc_id c)) (map (migrated_conversation ms) cs) = Some (migrated_conversation ms c)"
  proof (rule find_unique)
    show "own_conversation default_workspace_id (oc_id c) (migrated_conversation ms c)" by (simp add: own_conversation_def)
    show "migrated_conversation ms c \<in> set (map (migrated_conversation ms) cs)" using assms(2) by simp
    fix x assume "x \<in> set (map (migrated_conversation ms) cs)" "own_conversation default_workspace_id (oc_id c) x"
    then show "x = migrated_conversation ms c"
      using assms(1,2) by (auto simp: own_conversation_def old_rows_ok_def distinct_map dest: inj_onD)
  qed
  then have sel: "select_conversation default_workspace_id (oc_id c) ?db = Some (migrated_conversation ms c)"
    by (simp add: select_conversation_def migrated_chat_def)
  have ms: "messages_of (oc_id c) ?db = map migrated_message (filter (\<lambda>m. om_conversation m = oc_id c) ms)"
    using messages_of_filter(1) [OF ok sel] unfolding migrated_chat_def chat_db.select_convs filter_migrated .
  have "get_conversation default_workspace_id (oc_id c) ?db
      = Some \<lparr>cd_id = oc_id c, cd_title = oc_title c, cd_messages = map (message_view_of \<circ> migrated_message) (filter (\<lambda>m. om_conversation m = oc_id c) ms),
            cd_created = oc_created c, cd_updated = oc_updated c\<rparr>"
    by (simp add: get_conversation_def sel ms conversation_detail_of_def migrated_conversation_def)
  moreover have "get_conversation v (oc_id c) ?db = None" if "v \<noteq> default_workspace_id" for v
  proof -
    have "find (own_conversation v (oc_id c)) (map (migrated_conversation ms) cs) = None"
      using that by (auto simp: find_None_iff own_conversation_def)
    then show ?thesis by (simp add: get_conversation_def select_conversation_def migrated_chat_def)
  qed
  ultimately show ?thesis using ok unfolding own by blast
qed

theorem first_user_inherits_witness:
  "\<exists>r accounts d. auth_register demo_auth (demo_auth_fresh 0) [115, 223] [112] [68] (migrated_auth 0) = (Inr r, accounts)
     \<and> get_conversation (wv_id (av_workspace (ar_session r))) 5 (migrated_chat [\<lparr>oc_id = 5, oc_title = [84], oc_created = 0, oc_updated = 0\<rparr>] []) = Some d
     \<and> cd_title d = [84]"
proof -
  let ?c = "\<lparr>oc_id = 5, oc_title = [84], oc_created = 0, oc_updated = 0\<rparr>"
  have ok: "old_rows_ok [?c] []" by (auto simp: old_rows_ok_def intro!: exI [of _ 0])
  obtain stored where s: "hash_password (ae_kdf demo_auth) [1] [112] = Inr stored"
    using demo_hash [of "[112]"] by (auto simp: ascii_only_def)
  have "\<exists>r accounts. auth_register demo_auth (demo_auth_fresh 0) [115, 223] [112] [68] (migrated_auth 0) = (Inr r, accounts)"
    using s by (simp add: auth_register_def find_user_def migrated_auth_def insert_default_workspace_def register_rows_def new_user_def demo_auth_fresh_def
      strip_def lstrip_def rstrip_def py_space_def adopt_workspace_def new_session_def hash_session_token_def demo_auth_def utf8_char_def Let_def)
  then obtain r accounts where run: "auth_register demo_auth (demo_auth_fresh 0) [115, 223] [112] [68] (migrated_auth 0) = (Inr r, accounts)" by blast
  have "?c \<in> set [?c]" by simp
  from first_user_inherits [OF ok this run] run show ?thesis by auto
qed

end
