(* ===== verification/Spec2Isabelle.thy ===== *)
theory Spec2Isabelle
  imports Agent_Properties Nl2sql Sql_Guard Chat_Tasks Chat_Store_Properties Chat_Turn Redis_Broker Auth_Gate Mcp_Properties Llm_Properties Llm_Router Dataset_Properties Dataset_Routes Initial_Tools Sandbox_Runner Python_Tool Observability_Properties Load_Test
    Evaluation Application Configuration Command_Line Migrated_Data
begin

text \<open>
  A verification library for the backend of DataPilot (\<open>backend/app\<close>, \<open>sandbox/runner.py\<close> and
  \<open>backend/alembic\<close>): an agent that answers questions about uploaded data with SQL, charts and generated
  Python, behind an HTTP interface with accounts, streamed answers and usage records.

  THE PROGRAM AND ITS MODEL.  A request passes the middlewares (\<open>app/auth\<close>) to a route (\<open>app/api/routes\<close>).
  Sending a message stores question and empty answer (\<open>app/chat/service.py\<close>) and starts a task
  (\<open>app/chat/tasks.py\<close>) that runs a worker (\<open>app/chat/worker.py\<close>); the worker runs the agent
  (\<open>app/chat/runtime.py\<close>, \<open>app/agent/loop.py\<close>) and publishes its events to a broker
  (\<open>app/chat/events.py\<close>), from which the streamed response reads.  The agent asks a model through the
  gateway (\<open>app/llm\<close>), which records the usage (\<open>app/observability\<close>), and calls tools by name from a registry
  (\<open>app/tools/registry.py\<close>): SQL over the datasets (\<open>app/datasets\<close>, \<open>app/tools\<close>), Python in a container
  (\<open>app/sandbox\<close>, \<open>app/artifacts\<close>), and the tools of an MCP server (\<open>app/mcp\<close>).

  Theories, in the order they build on each other:

  \<^item> \<open>Prelude\<close>, \<open>Json\<close>, \<open>Base64\<close>, \<open>Py_Path\<close>: Python strings as lists of code points, exceptions as values
    (\<open>'a pyres\<close>, \<open>Inl\<close> the exception), dicts as association lists in insertion order, \<open>json\<close>, \<open>base64\<close> and
    \<open>pathlib\<close> as far as they are used, with their round trips.
  \<^item> \<open>Agent_Models\<close>, \<open>Context_Compaction\<close>, \<open>Tool_Registry\<close>, \<open>Agent_Loop\<close>: the data of \<open>app/agent/models.py\<close>, \<open>app/llm/base.py\<close>
    and \<open>app/tools/definitions.py\<close>, \<open>app/tools/registry.py\<close> and the loop of \<open>app/agent/loop.py\<close>.  \<open>agent_stream\<close> is \<open>Agent.stream\<close>: it
    yields a list of events and ends normally or with an exception.  \<open>Agent_Invariants\<close> has the states the loop
    reaches and their invariants, \<open>Agent_Requests\<close> what the model is sent, \<open>Agent_Properties\<close> the theorems.
  \<^item> \<open>Sql_Guard\<close>, \<open>Nl2sql\<close>: \<open>app/tools/sql_guard.py\<close> over the syntax tree, \<open>app/agent/nl2sql.py\<close>.
  \<^item> \<open>Chat_Tasks\<close>, \<open>Chat_Runtime\<close>, \<open>Event_Broker\<close>, \<open>Chat_Worker\<close>, \<open>Chat_Store\<close>, \<open>Chat_Routes\<close>: the chat, file by file; the properties
    are there and in \<open>Chat_Store_Properties\<close>, \<open>Chat_Stream\<close> and \<open>Chat_Sending\<close>.  \<open>Chat_Turn\<close> composes them with the agent: one
    question from the request to the stored answer and the client, while others use the store and the broker.  \<open>Redis_Broker\<close>
    has the broker the application runs with.
  \<^item> \<open>Auth_Security\<close>, \<open>Auth_Service\<close>, \<open>Auth_Http\<close>, \<open>Rate_Limit\<close>: accounts, middleware, routes and rate limits, with \<open>Auth_Properties\<close> and
    \<open>Auth_Gate\<close> (the two middlewares together).
  \<^item> \<open>Mcp_Client\<close>, \<open>Llm_Provider\<close>, \<open>Llm_Router\<close>: the owner task of the MCP client and the model gateway, with \<open>Mcp_Properties\<close> and
    \<open>Llm_Properties\<close>.
  \<^item> \<open>Analytics_Engine\<close>, \<open>Dataset_Processor\<close>, \<open>Dataset_Service\<close>, \<open>Dataset_Routes\<close>, \<open>Initial_Tools\<close>: DuckDB's engine, the datasets in their three
    places (rows, directories, views) and the four initial tools, with \<open>Dataset_Properties\<close>.
  \<^item> \<open>Sandbox\<close>, \<open>Sandbox_Runner\<close>, \<open>Sandbox_Service\<close>, \<open>Artifact_Store\<close>, \<open>Python_Tool\<close>: one execution from the tool call over the container to
    the stored artifacts, with \<open>Sandbox_Properties\<close>.
  \<^item> \<open>Workspace_Scope\<close>, \<open>Observability\<close>, \<open>Observability_Properties\<close>: the contract of stores shared by workspaces, and the usage table.
  \<^item> \<open>Load_Test\<close>, \<open>Evaluation\<close>, \<open>Command_Line\<close>: the load test, the scripted evaluation and the two commands.
  \<^item> \<open>Application\<close>, \<open>Configuration\<close>: \<open>app/main.py\<close>, health, the demonstration MCP server, the settings with defaults and bounds.
  \<^item> \<open>Migrations\<close>, \<open>Migrated_Data\<close>: \<open>alembic/versions\<close> as operations on a schema, the tables \<open>app/db/models.py\<close> declares, and what the
    upgrade does to the rows.

  STATE.  A component's fields are a record (\<open>chat_db\<close>, \<open>auth_db\<close>, \<open>task_manager\<close>, \<open>mcp_client\<close>, \<open>dataset_world\<close>, \<open>artifact_world\<close>,
  \<open>sandbox_world\<close>, \<open>obs_db\<close>, \<open>load_state\<close>); an operation takes and returns it.  Database tables are lists of rows, and a
  transaction is one operation whose constraints (keys, references, column sizes) raise the exception
  that PostgreSQL's does and leave the tables as they were.  Where tasks interleave there is a step relation over
  explicit events (\<open>task_step\<close>, \<open>load_step\<close>, \<open>loop_reaches\<close>, the turns of the streamed response and of the MCP owner task), so that a
  theorem covers every schedule.  Fresh identifiers, random bytes and the clock are arguments.

  PARAMETERS.  What is not in the repository is an argument: the language model and the tools' handlers, sqlglot's
  parser and printer, DuckDB, Docker, PostgreSQL behind the read-only executor, Redis' commands, the HTTP transport,
  the MCP session, pydantic's validation of tool arguments, workbook reading, PBKDF2 and SHA-256, Unicode's case tables,
  the text of floats.  Any of them may raise wherever it is called.  Redis has laws, stated as locales:
  \<open>rate_redis\<close> (the documented \<open>INCR\<close>, \<open>EXPIRE\<close>, \<open>TTL\<close>; interpreted by counters with deadlines) and
  \<open>redis_streams_server\<close> (\<open>XADD\<close>, \<open>EXPIRE\<close>, \<open>XREAD\<close> within the day a stream lives; interpreted by numbered lists).

  INTERFACES.  The program's own contracts are locales too.  \<open>event_log\<close> is what a streamed response needs of a broker; the
  in-memory broker interprets it, and \<open>redis_streams_server\<close> is a sublocale through the Redis broker.  \<open>event_broker\<close> extends
  it by publishing and is interpreted by the in-memory broker.  \<open>worker_world\<close> is what a chat worker needs of its broker and
  its store, interpreted by the two of them together.  \<open>workspace_scope\<close> is the contract of stores that workspaces share,
  interpreted by the conversation store and the usage table.

  THEOREMS.  The agent: one completion, no call twice, budgets, paired requests, results within bounds, gathered like
  serial execution.  The chat: numbering, history, isolation of workspaces, one worker outcome, streams that resume
  exactly over both brokers, idempotent sending, and the composition \<open>question_answered\<close>.  Access: sessions, the gate, rate
  limits.  Data: consistent datasets, SQL and mounts restricted to the workspace's own, artifacts that come back.  Containers: nothing left behind, locked down, an exact
  protocol with the runner.  Gateway and MCP: streaming equals the whole body, bounded retries and connections, a
  registry that mirrors the server and keeps the built-in tools.  Schema: migrations build what the models declare, and
  what was stored before is inherited by the first user.  Some theorems state defects: names like
  \<open>orphan_stream_never_ends\<close>, \<open>long_answers_lose_events\<close>, \<open>shadowing_cte_passes\<close>, \<open>casefolded_name_cannot_login\<close>, \<open>request_after_shutdown_hangs\<close>,
  \<open>failed_refresh_orphans_row\<close>.

  BOUNDS AND FUEL.  Loops over lists recurse on them.  The agent's loop recurses on the steps left, retries on the attempts
  left.  The search for an unused column name has as much fuel as there are names and one more, which
  \<open>free_name_found\<close> proves enough; the parser of JSON texts has the length of the text; upgrading has the number of
  migrations.  The streamed response and the owner task run over a list of turns of any length: a theorem about all lists covers
  runs that never end.  Identifiers are natural numbers, below \<open>2 ^ 128\<close> where their text matters.  Floats are rationals, or their text in
  JSON; Python's integers are \<open>int\<close> or, where they cannot be negative, \<open>nat\<close>.

  NOT MODELLED.  Construction of the FastAPI application and of the services from the settings, CORS, logging; FastAPI's
  and pydantic's own parsing of requests beyond the constraints the schemas state; \<open>argparse\<close>; the connection
  management of \<open>alembic/env.py\<close> and \<open>app/db/session.py\<close>; serving over the MCP package; the \<open>Protocol\<close> classes, which only name the
  operations that are parameters here; cancellation inside an operation on a database or inside a third-party call (it is
  modelled where the program handles it, in the worker, the tasks and the streamed response).  The front end, the
  repository's tests and its scripts are not part of the backend.
\<close>

end
